(* ===== verification/ShellWords.thy ===== *)
theory ShellWords
  imports Prelude "HOL-Library.Sublist"
begin

section \<open>Decomposing a shell command\<close>

text \<open>
  \<open>permission/bash_command_splitting.rs\<close>: turning a script into the plain commands the
  permission gate looks at, and peeling the wrappers (\<open>timeout\<close>, \<open>env\<close>, \<open>nice\<close>, ...) and the
  shell-transparent prefixes (\<open>exec\<close>, \<open>command\<close>, \<open>builtin\<close>) that would otherwise hide the
  command that really runs.

  The syntax tree comes from the third-party \<open>tree-sitter-bash\<close> grammar.  The tree itself is
  data (\<open>ts_node\<close>, with the field name under which the parent holds it); the parser that produces
  it is a parameter of every definition that needs it.
  Argument vectors are lists of words; the Rust sub-slices are suffixes of the vector, so the
  pointer-and-length comparison of two sub-slices of one vector is a comparison of lengths.
\<close>

named_theorems peel_simps \<open>unfolding equations for the peeling operations\<close>

subsection \<open>Syntax trees\<close>

datatype ts_node = TsNode
  (ts_kind: string) (ts_field: "string option") (ts_named: bool) (ts_start: nat) (ts_end: nat) (ts_error: bool)
  (ts_children: "ts_node list")

type_synonym shell_parser = "string \<Rightarrow> ts_node option"

record plain_command =
  pc_words :: "string list"
  pc_span_start :: nat
  pc_span_end :: nat

definition spans_whole_script :: "plain_command \<Rightarrow> string \<Rightarrow> bool" where
  "spans_whole_script c script =
     (case (slice script 0 (pc_span_start c), slice script (pc_span_end c) (length script)) of
        (Some before, Some after) \<Rightarrow> trim before = [] \<and> trim after = []
      | _ \<Rightarrow> False)"

definition allowed_kinds :: "string list" where
  "allowed_kinds =
     [''program'', ''list'', ''pipeline'', ''command'', ''command_name'', ''word'', ''string'',
      ''string_content'', ''raw_string'', ''number'', ''concatenation'', ''variable_assignment'',
      ''variable_name'', ''redirected_statement'', ''file_redirect'', ''file_descriptor'',
      ''comment'', ''heredoc_redirect'', ''heredoc_start'', ''heredoc_body'',
      ''heredoc_content'', ''heredoc_end'']"

definition allowed_punct_tokens :: "string list" where
  "allowed_punct_tokens =
     [''&&'', ''||'', '';'', ''|'', [CHR 0x22], [CHR 0x27], ''='', ''>'', ''>>'', ''<'', ''<<'',
      ''>&'', ''&>'', ''&>>'']"

text \<open>The node test of the walk: may this node occur in a word-only script?\<close>

definition node_allowed :: "ts_node \<Rightarrow> bool" where
  "node_allowed n =
     (if ts_named n then ts_kind n \<in> set allowed_kinds
      else \<not> (list_ex (\<lambda>c. c \<in> set ''&;|'') (ts_kind n) \<and> ts_kind n \<notin> set allowed_punct_tokens)
           \<and> (ts_kind n \<in> set allowed_punct_tokens \<or> trim (ts_kind n) = []))"

text \<open>The explicit stack of the walk; its top is the head of the list.\<close>

function collect_commands :: "ts_node list \<Rightarrow> ts_node list \<Rightarrow> ts_node list option" where
  "collect_commands [] acc = Some acc"
| "collect_commands (n # stack) acc =
     (if \<not> node_allowed n then None
      else collect_commands (rev (ts_children n) @ stack)
             (if ts_named n \<and> ts_kind n = ''command'' then acc @ [n] else acc))"
  by pat_completeness auto

lemma size_list_append: "size_list f (xs @ ys) = size_list f xs + size_list f ys"
  by (induction xs) auto

lemma size_list_rev: "size_list f (rev xs) = size_list f xs"
  by (induction xs) (auto simp: size_list_append)

termination collect_commands
proof (relation "measure (\<lambda>(stack, acc). size_list size stack)", goal_cases)
  case (2 n stack acc)
  then show ?case by (cases n) (simp add: size_list_append size_list_rev)
qed simp

definition node_text :: "string \<Rightarrow> ts_node \<Rightarrow> string option" where
  "node_text src n = slice src (ts_start n) (ts_end n)"

text \<open>One child of a \<open>command\<close> node: the words so far, the span so far.\<close>

type_synonym word_acc = "string list \<times> nat option \<times> nat option"

definition push_word :: "ts_node \<Rightarrow> string \<Rightarrow> word_acc \<Rightarrow> word_acc" where
  "push_word n w acc =
     (case acc of (ws, s, e) \<Rightarrow>
        (ws @ [w], (if s = None then Some (ts_start n) else s), Some (ts_end n)))"

definition plain_string_node :: "ts_node \<Rightarrow> bool" where
  "plain_string_node n \<longleftrightarrow> map ts_kind (ts_children n) = [[CHR 0x22], ''string_content'', [CHR 0x22]]"

definition step_command_child :: "string \<Rightarrow> ts_node \<Rightarrow> word_acc \<Rightarrow> word_acc option" where
  "step_command_child src child acc =
     (if ts_kind child = ''variable_assignment'' then Some acc
      else if ts_kind child = ''command_name'' then
        (case filter ts_named (ts_children child) of
           [] \<Rightarrow> None
         | w # _ \<Rightarrow>
             if ts_kind w \<noteq> ''word'' then None
             else map_option (\<lambda>t. push_word w t acc) (node_text src w))
      else if ts_kind child = ''word'' \<or> ts_kind child = ''number'' then
        map_option (\<lambda>t. push_word child t acc) (node_text src child)
      else if ts_kind child = ''string'' \<and> plain_string_node child then
        map_option (\<lambda>t. push_word child t acc) (node_text src (ts_children child ! 1))
      else if ts_kind child = ''raw_string'' then
        (case node_text src child of
           None \<Rightarrow> None
         | Some raw \<Rightarrow>
             (case Option.bind (strip_prefix raw [CHR 0x27]) (\<lambda>s. strip_suffix s [CHR 0x27]) of
                None \<Rightarrow> None
              | Some s \<Rightarrow> Some (push_word child s acc)))
      else if ts_kind child = ''concatenation'' then
        map_option (\<lambda>t. push_word child t acc) (node_text src child)
      else None)"

fun walk_command_children :: "string \<Rightarrow> ts_node list \<Rightarrow> word_acc \<Rightarrow> word_acc option" where
  "walk_command_children src [] acc = Some acc"
| "walk_command_children src (c # cs) acc =
     (case step_command_child src c acc of
        None \<Rightarrow> None
      | Some acc' \<Rightarrow> walk_command_children src cs acc')"

definition parse_plain_command_from_node :: "ts_node \<Rightarrow> string \<Rightarrow> plain_command option" where
  "parse_plain_command_from_node cmd src =
     (if ts_kind cmd \<noteq> ''command'' then None
      else (case walk_command_children src (filter ts_named (ts_children cmd)) ([], None, None) of
              None \<Rightarrow> None
            | Some (ws, s, e) \<Rightarrow>
                Some \<lparr>pc_words = ws,
                      pc_span_start = (case s of None \<Rightarrow> ts_start cmd | Some i \<Rightarrow> i),
                      pc_span_end = (case e of None \<Rightarrow> ts_end cmd | Some i \<Rightarrow> i)\<rparr>))"

fun parse_command_nodes :: "ts_node list \<Rightarrow> string \<Rightarrow> plain_command list option" where
  "parse_command_nodes [] src = Some []"
| "parse_command_nodes (n # ns) src =
     (case parse_plain_command_from_node n src of
        None \<Rightarrow> None
      | Some c \<Rightarrow> map_option (\<lambda>cs. c # cs) (parse_command_nodes ns src))"

definition try_parse_word_only_commands_sequence ::
    "ts_node \<Rightarrow> string \<Rightarrow> plain_command list option" where
  "try_parse_word_only_commands_sequence root src =
     (if ts_error root then None
      else (case collect_commands [root] [] of
              None \<Rightarrow> None
            | Some nodes \<Rightarrow> parse_command_nodes (sort_key ts_start nodes) src))"

definition all_commands_from_script :: "shell_parser \<Rightarrow> string \<Rightarrow> plain_command list option" where
  "all_commands_from_script parse script =
     (case parse script of
        None \<Rightarrow> None
      | Some tree \<Rightarrow> try_parse_word_only_commands_sequence tree script)"

subsection \<open>The options of \<open>env\<close>\<close>

definition is_setup_command :: "string list \<Rightarrow> bool" where
  "is_setup_command cmd =
     (case cmd of
        [] \<Rightarrow> True
      | c # _ \<Rightarrow> c \<in> {''cd'', ''pushd'', ''popd'', ''export'', ''unset'', ''set'', ''sleep'', ''timeout''})"

definition is_env_assignment :: "string \<Rightarrow> bool" where
  "is_env_assignment tok =
     (case split_once CHR ''='' tok of
        None \<Rightarrow> False
      | Some (name, _) \<Rightarrow>
          name \<noteq> []
          \<and> (is_ascii_alphabetic (hd name) \<or> hd name = CHR ''_'')
          \<and> list_all (\<lambda>b. is_ascii_alphanumeric b \<or> b = CHR ''_'') name)"

record env_scan =
  es_chdir :: "string option"
  es_has_split_string :: bool
  es_options_uncertain :: bool
  es_split_string_script :: "string option"
  es_command_start :: nat

text \<open>The quote state is the open quote character, if any.\<close>

fun decode_spelling :: "char option \<Rightarrow> string \<Rightarrow> string option" where
  "decode_spelling q [] = (if q = None then Some [] else None)"
| "decode_spelling q (c # cs) =
     (if q = None \<and> (c = CHR 0x27 \<or> c = CHR 0x22) then decode_spelling (Some c) cs
      else if q = Some c then decode_spelling None cs
      else if q = None \<and> c = CHR 0x5C then
        (case cs of [] \<Rightarrow> None | n # cs' \<Rightarrow> map_option (\<lambda>r. n # r) (decode_spelling q cs'))
      else if q = Some CHR 0x22 \<and> c = CHR 0x5C then
        (case cs of
           [] \<Rightarrow> None
         | n # cs' \<Rightarrow>
             if n \<in> {CHR ''$'', CHR 0x60, CHR 0x22, CHR 0x5C, CHR 0x0A}
             then map_option (\<lambda>r. n # r) (decode_spelling q cs')
             else map_option (\<lambda>r. c # n # r) (decode_spelling q cs'))
      else map_option (\<lambda>r. c # r) (decode_spelling q cs))"

definition decode_shell_literal_spelling :: "string \<Rightarrow> string option" where
  "decode_shell_literal_spelling raw = decode_spelling None raw"

definition decode_env_option_token :: "string \<Rightarrow> string" where
  "decode_env_option_token raw =
     (if CHR 0x27 \<notin> set raw \<and> CHR 0x22 \<notin> set raw then raw
      else (case decode_shell_literal_spelling raw of Some d \<Rightarrow> d | None \<Rightarrow> raw))"

definition is_high_confidence_env_s_payload :: "string \<Rightarrow> bool" where
  "is_high_confidence_env_s_payload s \<longleftrightarrow>
     s \<noteq> [] \<and> CHR 0x00 \<notin> set s
     \<and> \<not> list_ex (\<lambda>c. c \<in> {CHR 0x27, CHR 0x22, CHR 0x5C, CHR ''#'', CHR 0x60, CHR ''$'',
                            CHR 0x0A, CHR 0x0D}) s"

definition take_high_confidence_payload :: "string \<Rightarrow> string option" where
  "take_high_confidence_payload raw =
     (if is_high_confidence_env_s_payload raw then Some raw else None)"

datatype env_short =
    SplitStringNext
  | SplitStringGlued string
  | SplitStringDetect
  | NoArg
  | ArgNeedNext char
  | ArgGlued char
  | EnvUncertain

fun classify_env_cluster :: "string \<Rightarrow> env_short" where
  "classify_env_cluster [] = NoArg"
| "classify_env_cluster (c # cs) =
     (if c = CHR ''i'' \<or> c = CHR ''v'' \<or> c = CHR ''0'' then classify_env_cluster cs
      else if c = CHR ''S'' then SplitStringDetect
      else if c = CHR ''u'' \<or> c = CHR ''C'' \<or> c = CHR ''P'' \<or> c = CHR ''a'' then
        (if cs \<noteq> [] then ArgGlued c else ArgNeedNext c)
      else EnvUncertain)"

definition classify_env_short :: "string \<Rightarrow> env_short" where
  "classify_env_short tok =
     (if \<not> starts_with tok ''-'' \<or> starts_with tok ''--'' \<or> tok = ''-'' then EnvUncertain
      else let body = drop 1 tok in
        if body = [] then EnvUncertain
        else (case strip_prefix body ''S'' of
                Some rest \<Rightarrow> if rest = [] then SplitStringNext else SplitStringGlued rest
              | None \<Rightarrow> classify_env_cluster body))"

definition first_opt :: "'a list \<Rightarrow> 'a option" where
  "first_opt xs = (case xs of [] \<Rightarrow> None | x # _ \<Rightarrow> Some x)"

text \<open>
  One iteration of the scan of \<open>env\<close>'s operands, on the token at the index and what follows it:
  leave the loop, or go on one or two tokens further.
\<close>

datatype env_iter = EnvBreak env_scan | EnvNext1 env_scan | EnvNext2 env_scan

definition es_uncertain :: "env_scan \<Rightarrow> env_scan" where
  "es_uncertain st = st\<lparr>es_options_uncertain := True\<rparr>"

definition es_split :: "string option \<Rightarrow> env_scan \<Rightarrow> env_scan" where
  "es_split script st = st\<lparr>es_has_split_string := True, es_split_string_script := script\<rparr>"

definition es_split_next :: "string list \<Rightarrow> env_scan \<Rightarrow> env_scan" where
  "es_split_next rest st =
     es_split (case rest of [] \<Rightarrow> es_split_string_script st
               | raw # _ \<Rightarrow> take_high_confidence_payload raw) st"

definition env_long_step :: "string \<Rightarrow> string list \<Rightarrow> env_scan \<Rightarrow> env_iter" where
  "env_long_step tok rest st =
     (if tok = ''--chdir'' then
        (case rest of
           [] \<Rightarrow> EnvBreak (es_uncertain st)
         | d # _ \<Rightarrow> EnvNext2 (st\<lparr>es_chdir := Some d\<rparr>))
      else if starts_with tok ''--chdir='' then
        EnvNext1 (st\<lparr>es_chdir := strip_prefix tok ''--chdir=''\<rparr>)
      else if tok = ''--unset'' \<or> tok = ''--path'' \<or> tok = ''--argv0'' then
        (case rest of [] \<Rightarrow> EnvBreak (es_uncertain st) | _ # _ \<Rightarrow> EnvNext2 st)
      else if starts_with tok ''--unset='' \<or> starts_with tok ''--path='' \<or> starts_with tok ''--argv0=''
      then EnvNext1 st
      else if tok \<in> {''--ignore-environment'', ''--null'', ''--debug'', ''--version'', ''--help''}
      then EnvNext1 st
      else if tok = ''--split-string'' then EnvBreak (es_split_next rest st)
      else (case strip_prefix tok ''--split-string='' of
              Some payload \<Rightarrow>
                EnvBreak (es_split
                  (take_high_confidence_payload
                     (case strip_prefix (decode_env_option_token tok) ''--split-string='' of
                        Some p \<Rightarrow> p | None \<Rightarrow> payload)) st)
            | None \<Rightarrow> EnvBreak (es_uncertain st)))"

definition env_short_step :: "string \<Rightarrow> string list \<Rightarrow> env_scan \<Rightarrow> env_iter" where
  "env_short_step tok rest st =
     (case classify_env_short (decode_env_option_token tok) of
        SplitStringNext \<Rightarrow> EnvBreak (es_split_next rest st)
      | SplitStringGlued payload \<Rightarrow> EnvBreak (es_split (take_high_confidence_payload payload) st)
      | SplitStringDetect \<Rightarrow> EnvBreak (st\<lparr>es_has_split_string := True\<rparr>)
      | NoArg \<Rightarrow> EnvNext1 st
      | ArgNeedNext kind \<Rightarrow>
          (case rest of
             [] \<Rightarrow> EnvBreak (es_uncertain st)
           | operand # _ \<Rightarrow>
               EnvNext2 (if kind = CHR ''C'' then st\<lparr>es_chdir := Some operand\<rparr> else st))
      | ArgGlued kind \<Rightarrow>
          EnvNext1 (if kind = CHR ''C''
                    then st\<lparr>es_chdir := Some (case strip_prefix tok ''-C'' of
                                                None \<Rightarrow> [] | Some d \<Rightarrow> d)\<rparr>
                    else st)
      | EnvUncertain \<Rightarrow> EnvBreak (es_uncertain st))"

definition env_step :: "string \<Rightarrow> string list \<Rightarrow> env_scan \<Rightarrow> env_iter" where
  "env_step tok rest st =
     (if tok = ''--'' then EnvBreak (st\<lparr>es_command_start := es_command_start st + 1\<rparr>)
      else if tok = ''-'' then EnvNext1 st
      else if \<not> starts_with tok ''-'' then
        (if is_env_assignment tok then EnvNext1 st else EnvBreak st)
      else if starts_with tok ''--'' then env_long_step tok rest st
      else env_short_step tok rest st)"

text \<open>The loop; \<open>es_command_start\<close> of the accumulator is the index \<open>i\<close> of the first token left.\<close>

fun env_scan_from :: "string list \<Rightarrow> env_scan \<Rightarrow> env_scan" where
  "env_scan_from [] st = st"
| "env_scan_from (tok # rest) st =
     (case env_step tok rest st of
        EnvBreak st' \<Rightarrow> st'
      | EnvNext1 st' \<Rightarrow> env_scan_from rest (st'\<lparr>es_command_start := es_command_start st' + 1\<rparr>)
      | EnvNext2 st' \<Rightarrow>
          env_scan_from (drop 1 rest) (st'\<lparr>es_command_start := es_command_start st' + 2\<rparr>))"

declare env_scan_from.simps [simp del]

definition env_scan_init :: env_scan where
  "env_scan_init =
     \<lparr>es_chdir = None, es_has_split_string = False, es_options_uncertain = False,
      es_split_string_script = None, es_command_start = 1\<rparr>"

definition env_scan :: "string list \<Rightarrow> env_scan" where
  "env_scan cmd = env_scan_from (drop 1 cmd) env_scan_init"

definition head_base :: "string list \<Rightarrow> string option" where
  "head_base words = map_option base_name (first_opt words)"

definition env_split_string_script :: "string list \<Rightarrow> string option" where
  "env_split_string_script words =
     (if head_base words \<noteq> Some ''env'' then None
      else let scan = env_scan words in
        if \<not> es_has_split_string scan then None else es_split_string_script scan)"

subsection \<open>Wrapper commands\<close>

text \<open>The option loops of \<open>strip_wrapper_command\<close>: options in \<open>two\<close> take an argument.\<close>

function skip_options :: "string list \<Rightarrow> string list \<Rightarrow> string list" where
  "skip_options two [] = []"
| "skip_options two (w # ws) =
     (if starts_with w ''-'' then
        (if w \<in> set two then skip_options two (drop 1 ws) else skip_options two ws)
      else w # ws)"
  by pat_completeness auto
termination
  by (relation "measure (\<lambda>(two, ws). length ws)") auto

definition nonempty :: "'a list \<Rightarrow> 'a list option" where
  "nonempty ws = (if ws = [] then None else Some ws)"

definition strip_wrapper_args :: "string \<Rightarrow> string list \<Rightarrow> string list option" where
  "strip_wrapper_args head cmd =
     (if head = ''timeout'' then
        nonempty (drop 1 (skip_options [''-k'', ''-s'', ''--kill-after'', ''--signal''] (drop 1 cmd)))
      else if head = ''nice'' then
        nonempty (skip_options [''-n'', ''--adjustment''] (drop 1 cmd))
      else if head = ''ionice'' then
        nonempty (skip_options [''-c'', ''-n'', ''-p'', ''-P'', ''-u'', ''--class'', ''--classdata'',
                                ''--pid'', ''--pgid'', ''--uid''] (drop 1 cmd))
      else if head = ''chrt'' then nonempty (drop 1 (skip_options [] (drop 1 cmd)))
      else if head = ''stdbuf'' then
        nonempty (skip_options [''-i'', ''-o'', ''-e''] (drop 1 cmd))
      else if head = ''env'' then
        (let scan = env_scan cmd in
           if es_has_split_string scan \<or> es_options_uncertain scan then None
           else nonempty (drop (es_command_start scan) cmd))
      else None)"

definition strip_wrapper_command :: "string list \<Rightarrow> string list option" where
  "strip_wrapper_command cmd =
     (case head_base cmd of None \<Rightarrow> None | Some head \<Rightarrow> strip_wrapper_args head cmd)"

definition is_wrapper_command :: "string list \<Rightarrow> bool" where
  "is_wrapper_command words \<longleftrightarrow>
     (case head_base words of
        None \<Rightarrow> False
      | Some h \<Rightarrow> h \<in> {''timeout'', ''nice'', ''ionice'', ''chrt'', ''stdbuf'', ''env''})"

definition MAX_WRAPPER_DEPTH :: nat where "MAX_WRAPPER_DEPTH = 8"
definition MAX_INLINE_SHELL_DEPTH :: nat where "MAX_INLINE_SHELL_DEPTH = 8"
definition MAX_TRANSPARENT_PREFIX_DEPTH :: nat where "MAX_TRANSPARENT_PREFIX_DEPTH = 8"
definition MAX_NORMALIZE_ROUNDS :: nat where
  "MAX_NORMALIZE_ROUNDS = MAX_WRAPPER_DEPTH + MAX_TRANSPARENT_PREFIX_DEPTH"

record wrapper_peel =
  wp_words :: "string list"
  wp_has_chdir :: bool
  wp_has_split_string :: bool
  wp_env_options_uncertain :: bool
  wp_exhausted :: bool

definition note_env :: "wrapper_peel \<Rightarrow> wrapper_peel" where
  "note_env p =
     (if head_base (wp_words p) = Some ''env'' then
        (let scan = env_scan (wp_words p) in
           p\<lparr>wp_has_chdir := wp_has_chdir p \<or> es_chdir scan \<noteq> None,
             wp_has_split_string := wp_has_split_string p \<or> es_has_split_string scan,
             wp_env_options_uncertain := wp_env_options_uncertain p \<or> es_options_uncertain scan\<rparr>)
      else p)"

text \<open>\<open>for _ in 0..MAX_WRAPPER_DEPTH\<close>, with the early return.\<close>

primrec unwrap_rounds :: "nat \<Rightarrow> wrapper_peel \<Rightarrow> wrapper_peel" where
  "unwrap_rounds 0 p =
     p\<lparr>wp_exhausted := is_wrapper_command (wp_words p) \<and> strip_wrapper_command (wp_words p) \<noteq> None\<rparr>"
| "unwrap_rounds (Suc n) p =
     (case strip_wrapper_command (wp_words p) of
        Some inner \<Rightarrow> unwrap_rounds n ((note_env p)\<lparr>wp_words := inner\<rparr>)
      | None \<Rightarrow> (note_env p)\<lparr>wp_exhausted := False\<rparr>)"

definition unwrap_wrappers_checked :: "string list \<Rightarrow> wrapper_peel" where
  "unwrap_wrappers_checked words =
     unwrap_rounds MAX_WRAPPER_DEPTH
       \<lparr>wp_words = words, wp_has_chdir = False, wp_has_split_string = False,
        wp_env_options_uncertain = False, wp_exhausted = False\<rparr>"

definition unwrap_wrappers :: "string list \<Rightarrow> string list" where
  "unwrap_wrappers words = wp_words (unwrap_wrappers_checked words)"

subsection \<open>Transparent prefixes\<close>

datatype transparent_strip = NotPrefix | Peeled "string list" | Ambiguous
datatype transparent_prefix_peel = PeelReady "string list" | PeelAmbiguous

definition all_in :: "char list \<Rightarrow> string \<Rightarrow> bool" where
  "all_in cs s \<longleftrightarrow> list_all (\<lambda>c. c \<in> set cs) s"

definition peeled_or_none :: "string list \<Rightarrow> transparent_strip" where
  "peeled_or_none ws = (if ws = [] then NotPrefix else Peeled ws)"

definition NUL_WORD :: string where "NUL_WORD = [CHR 0x00]"

text \<open>The argument is what follows the head; each branch is one turn of the option loop.\<close>

function strip_exec_args :: "string list \<Rightarrow> transparent_strip" where
  "strip_exec_args [] = NotPrefix"
| "strip_exec_args (tok # rest) =
     (if tok = ''--'' then peeled_or_none rest
      else if tok = ''-'' \<or> \<not> starts_with tok ''-'' then Peeled (tok # rest)
      else if tok \<in> {''-c'', ''-l'', ''-cl'', ''-lc''} then strip_exec_args rest
      else if tok = ''-a'' then
        (case rest of
           [] \<Rightarrow> Ambiguous
         | v # rest' \<Rightarrow> if v \<noteq> NUL_WORD \<and> v \<noteq> [] then strip_exec_args rest' else Ambiguous)
      else if starts_with tok ''-a'' then
        (if drop 2 tok = NUL_WORD then Ambiguous else strip_exec_args rest)
      else if \<not> starts_with tok ''--'' \<and> all_in ''cl'' (drop 1 tok) then strip_exec_args rest
      else Ambiguous)"
  by pat_completeness auto
termination
  by (relation "measure length") auto

fun strip_command_args :: "string list \<Rightarrow> transparent_strip" where
  "strip_command_args [] = NotPrefix"
| "strip_command_args (tok # rest) =
     (if tok = ''--'' then peeled_or_none rest
      else if tok = ''-'' \<or> \<not> starts_with tok ''-'' then Peeled (tok # rest)
      else if tok \<in> {''-v'', ''-V'', ''--help'', ''--version''}
              \<or> \<not> starts_with tok ''--'' \<and> list_ex (\<lambda>c. c = CHR ''v'' \<or> c = CHR ''V'') (drop 1 tok)
      then NotPrefix
      else if tok = ''-p'' \<or> \<not> starts_with tok ''--'' \<and> all_in ''p'' (drop 1 tok)
      then strip_command_args rest
      else Ambiguous)"

definition strip_exec_prefix :: "string list \<Rightarrow> transparent_strip" where
  "strip_exec_prefix cmd = strip_exec_args (drop 1 cmd)"

definition strip_command_prefix :: "string list \<Rightarrow> transparent_strip" where
  "strip_command_prefix cmd = strip_command_args (drop 1 cmd)"

definition strip_builtin_prefix :: "string list \<Rightarrow> transparent_strip" where
  "strip_builtin_prefix cmd =
     (case drop 1 cmd of
        [] \<Rightarrow> NotPrefix
      | tok # rest \<Rightarrow>
          if starts_with tok ''-'' \<and> tok \<noteq> ''-'' then Ambiguous else Peeled (tok # rest))"

declare strip_exec_args.simps [simp del] strip_command_args.simps [simp del]

definition strip_transparent_prefix :: "string list \<Rightarrow> transparent_strip" where
  "strip_transparent_prefix cmd =
     (case first_opt cmd of
        None \<Rightarrow> NotPrefix
      | Some h \<Rightarrow>
          if h = [] \<or> h = NUL_WORD then NotPrefix
          else if base_name h = ''exec'' then strip_exec_prefix cmd
          else if base_name h = ''command'' then strip_command_prefix cmd
          else if base_name h = ''builtin'' then strip_builtin_prefix cmd
          else NotPrefix)"

primrec transparent_rounds :: "nat \<Rightarrow> string list \<Rightarrow> transparent_prefix_peel" where
  "transparent_rounds 0 ws =
     (case strip_transparent_prefix ws of NotPrefix \<Rightarrow> PeelReady ws | _ \<Rightarrow> PeelAmbiguous)"
| "transparent_rounds (Suc n) ws =
     (case strip_transparent_prefix ws of
        NotPrefix \<Rightarrow> PeelReady ws
      | Peeled inner \<Rightarrow> transparent_rounds n inner
      | Ambiguous \<Rightarrow> PeelAmbiguous)"

definition peel_transparent_prefixes :: "string list \<Rightarrow> transparent_prefix_peel" where
  "peel_transparent_prefixes ws = transparent_rounds MAX_TRANSPARENT_PREFIX_DEPTH ws"

subsection \<open>Normalisation: alternating the two\<close>

record norm_peel = wrapper_peel +
  np_ambiguous :: bool

definition absorb_wrapped :: "wrapper_peel \<Rightarrow> norm_peel \<Rightarrow> norm_peel" where
  "absorb_wrapped w p =
     p\<lparr>wp_words := wp_words w,
       wp_has_chdir := wp_has_chdir p \<or> wp_has_chdir w,
       wp_has_split_string := wp_has_split_string p \<or> wp_has_split_string w,
       wp_env_options_uncertain := wp_env_options_uncertain p \<or> wp_env_options_uncertain w,
       wp_exhausted := wp_exhausted p \<or> wp_exhausted w\<rparr>"

text \<open>Both sub-slices are suffixes of one vector, so equal length means equal slice.\<close>

primrec normalize_rounds :: "nat \<Rightarrow> norm_peel \<Rightarrow> norm_peel" where
  "normalize_rounds 0 p = p"
| "normalize_rounds (Suc n) p =
     (let p1 = absorb_wrapped (unwrap_wrappers_checked (wp_words p)) p in
      if wp_has_split_string p1 \<or> wp_env_options_uncertain p1 then p1
      else (case peel_transparent_prefixes (wp_words p1) of
              PeelAmbiguous \<Rightarrow> p1\<lparr>np_ambiguous := True\<rparr>
            | PeelReady inner \<Rightarrow>
                if length inner = length (wp_words p) then p1\<lparr>wp_words := inner\<rparr>
                else normalize_rounds n (p1\<lparr>wp_words := inner\<rparr>)))"

definition norm_init :: "string list \<Rightarrow> norm_peel" where
  "norm_init words =
     \<lparr>wp_words = words, wp_has_chdir = False, wp_has_split_string = False,
      wp_env_options_uncertain = False, wp_exhausted = False, np_ambiguous = False\<rparr>"

definition still_peelable :: "string list \<Rightarrow> bool" where
  "still_peelable ws \<longleftrightarrow>
     is_wrapper_command ws \<and> strip_wrapper_command ws \<noteq> None
     \<or> strip_transparent_prefix ws \<noteq> NotPrefix"

definition normalize_command_words :: "string list \<Rightarrow> norm_peel" where
  "normalize_command_words words =
     (let p = normalize_rounds MAX_NORMALIZE_ROUNDS (norm_init words) in
      if \<not> np_ambiguous p \<and> \<not> wp_has_split_string p \<and> \<not> wp_env_options_uncertain p
         \<and> still_peelable (wp_words p)
      then p\<lparr>wp_exhausted := True\<rparr> else p)"

subsection \<open>The primary command of a script\<close>

datatype 'a run = Panicked | Returned 'a

record highlights =
  hl_prefix :: "string list"
  hl_words :: "string list"
  hl_suffix :: "string list"

definition push_nonempty :: "string list \<Rightarrow> string \<Rightarrow> string list" where
  "push_nonempty res cur = (if cur = [] then res else res @ [cur])"

definition ws_prefix :: "string \<Rightarrow> nat option" where
  "ws_prefix s = map_option length (List.find (\<lambda>w. w \<noteq> [] \<and> starts_with s w) utf8_ws)"

text \<open>
  The splitter over bytes: no byte of a multi-byte character is a quote or a backslash, and every
  white-space character is recognised by its whole encoding.
\<close>

function sh_split_go :: "bool \<Rightarrow> bool \<Rightarrow> string list \<Rightarrow> string \<Rightarrow> string \<Rightarrow> string list" where
  "sh_split_go sq dq res cur [] = push_nonempty res cur"
| "sh_split_go sq dq res cur (c # cs) =
     (if c = CHR 0x27 \<and> \<not> dq then sh_split_go (\<not> sq) dq res cur cs
      else if c = CHR 0x22 \<and> \<not> sq then sh_split_go sq (\<not> dq) res cur cs
      else if c = CHR 0x5C then
        (case cs of
           [] \<Rightarrow> push_nonempty res cur
         | n # cs' \<Rightarrow> sh_split_go sq dq res (cur @ [n]) cs')
      else if \<not> sq \<and> \<not> dq \<and> ws_prefix (c # cs) \<noteq> None then
        sh_split_go sq dq (push_nonempty res cur) [] (drop (the (ws_prefix (c # cs)) - 1) cs)
      else sh_split_go sq dq res (cur @ [c]) cs)"
  by pat_completeness auto
termination
  by (relation "measure (\<lambda>(sq, dq, res, cur, s). length s)") auto

definition sh_split_simple :: "string \<Rightarrow> string list" where
  "sh_split_simple s = sh_split_go False False [] [] s"

fun find_primary :: "plain_command list \<Rightarrow> (plain_command \<times> nat \<times> string list) option" where
  "find_primary [] = None"
| "find_primary (c # cs) =
     (let peeled = unwrap_wrappers (pc_words c) in
      if peeled = [] \<or> is_setup_command peeled then find_primary cs
      else let off = length (pc_words c) - length peeled in
           Some (c, off, drop off (pc_words c)))"

text \<open>The two slices panic off a character boundary; the parser's spans are node boundaries.\<close>

definition primary_command_from_script :: "shell_parser \<Rightarrow> string \<Rightarrow> highlights option run" where
  "primary_command_from_script parse script =
     (case Option.bind (all_commands_from_script parse script) find_primary of
        None \<Rightarrow> Returned None
      | Some (primary, off, peeled) \<Rightarrow>
          (case (slice script 0 (pc_span_start primary),
                 slice script (pc_span_end primary) (length script)) of
             (Some before, Some after) \<Rightarrow>
               Returned (Some \<lparr>hl_prefix = sh_split_simple before @ take off (pc_words primary),
                               hl_words = peeled, hl_suffix = sh_split_simple after\<rparr>)
           | _ \<Rightarrow> Panicked))"

subsection \<open>Every peel takes a proper prefix off the vector\<close>

lemma nonempty_Some [simp]: "nonempty ws = Some r \<longleftrightarrow> r = ws \<and> ws \<noteq> []"
  by (auto simp: nonempty_def)

lemma skip_options_suffix: "\<exists>n. skip_options two ws = drop n ws"
proof (induction two ws rule: skip_options.induct)
  case (2 two w ws)
  then show ?case by (auto intro: exI [of _ 0] exI [of _ "Suc _"] simp del: drop_drop)
      (metis drop_Suc_Cons drop_drop)+
qed simp

lemma skip_options_suffix': "\<exists>n. skip_options two (drop k ws) = drop (n + k) ws"
  using skip_options_suffix [of two "drop k ws"] by auto

lemma es_command_start_simps [simp]:
  "es_command_start (es_uncertain st) = es_command_start st"
  "es_command_start (es_split s st) = es_command_start st"
  "es_command_start (es_split_next rest st) = es_command_start st"
  by (auto simp: es_uncertain_def es_split_def es_split_next_def)

definition iter_scan :: "env_iter \<Rightarrow> env_scan" where
  "iter_scan it = (case it of EnvBreak st \<Rightarrow> st | EnvNext1 st \<Rightarrow> st | EnvNext2 st \<Rightarrow> st)"

lemma env_long_step_start: "es_command_start (iter_scan (env_long_step tok rest st)) = es_command_start st"
  by (auto simp: env_long_step_def iter_scan_def split: list.splits option.splits)

lemma env_short_step_start: "es_command_start (iter_scan (env_short_step tok rest st)) = es_command_start st"
  by (auto simp: env_short_step_def iter_scan_def split: list.splits option.splits env_short.splits)

lemma env_step_start: "es_command_start st \<le> es_command_start (iter_scan (env_step tok rest st))"
  using env_long_step_start [of tok rest st] env_short_step_start [of tok rest st]
  unfolding env_step_def by (auto simp: iter_scan_def)

lemma env_scan_from_start: "es_command_start st \<le> es_command_start (env_scan_from ws st)"
proof (induction ws st rule: env_scan_from.induct)
  case (2 tok rest st)
  then show ?case
    using env_step_start [of st tok rest]
    by (subst env_scan_from.simps) (fastforce simp: iter_scan_def split: env_iter.splits)
qed (simp add: env_scan_from.simps)

lemma env_scan_start: "0 < es_command_start (env_scan cmd)"
  using env_scan_from_start [of env_scan_init "drop 1 cmd"] by (simp add: env_scan_def env_scan_init_def)

lemma strip_wrapper_args_suffix:
  assumes "strip_wrapper_args h cmd = Some inner"
  shows "\<exists>n>0. inner = drop n cmd"
proof -
  have *: "\<exists>n>0. skip_options two (drop (Suc 0) cmd) = drop n cmd" for two
    using skip_options_suffix' [of two 1 cmd] by auto
  then have **: "\<exists>n>0. drop (Suc 0) (skip_options two (drop (Suc 0) cmd)) = drop n cmd" for two
    by (metis drop_drop add_gr_0)
  show ?thesis
    using assms env_scan_start [of cmd] unfolding strip_wrapper_args_def
    by (auto simp: Let_def * ** split: if_splits)
qed

lemma strip_wrapper_suffix:
  "strip_wrapper_command cmd = Some inner \<Longrightarrow> \<exists>n>0. inner = drop n cmd"
  by (auto simp: strip_wrapper_command_def split: option.splits intro: strip_wrapper_args_suffix)

lemma strip_wrapper_args_nonempty: "strip_wrapper_args h cmd = Some inner \<Longrightarrow> inner \<noteq> []"
  unfolding strip_wrapper_args_def by (auto simp: Let_def split: if_splits)

lemma strip_wrapper_nonempty: "strip_wrapper_command cmd = Some inner \<Longrightarrow> inner \<noteq> []"
  by (auto simp: strip_wrapper_command_def split: option.splits dest: strip_wrapper_args_nonempty)

lemma strip_wrapper_is_wrapper:
  "strip_wrapper_command cmd = Some inner \<Longrightarrow> is_wrapper_command cmd"
  unfolding strip_wrapper_command_def is_wrapper_command_def strip_wrapper_args_def
  by (auto split: option.splits if_splits)

lemma peeled_or_none_Peeled [simp]: "peeled_or_none ws = Peeled r \<longleftrightarrow> r = ws \<and> ws \<noteq> []"
  by (auto simp: peeled_or_none_def)

lemma strip_exec_args_suffix: "strip_exec_args ws = Peeled inner \<Longrightarrow> suffix inner ws \<and> inner \<noteq> []"
proof (induction ws rule: strip_exec_args.induct)
  case (2 tok rest)
  then show ?case
    by (simp add: strip_exec_args.simps(2) split: if_splits list.splits) (blast intro: suffix_ConsI)+
qed (simp add: strip_exec_args.simps)

lemma strip_command_args_suffix:
  "strip_command_args ws = Peeled inner \<Longrightarrow> suffix inner ws \<and> inner \<noteq> []"
proof (induction ws rule: strip_command_args.induct)
  case (2 tok rest)
  then show ?case
    by (simp add: strip_command_args.simps(2) split: if_splits) (blast intro: suffix_ConsI)+
qed (simp add: strip_command_args.simps)

lemma suffix_drop_Suc:
  assumes "suffix inner (drop 1 ws)" "inner \<noteq> []"
  shows "\<exists>n>0. inner = drop n ws"
proof -
  from assms(1) obtain zs where z: "drop 1 ws = zs @ inner" by (auto simp: suffix_def)
  then have "drop (length zs) (drop 1 ws) = inner" by simp
  then show ?thesis by (intro exI [of _ "Suc (length zs)"]) simp
qed

lemma strip_builtin_Peeled: "strip_builtin_prefix cmd = Peeled inner \<Longrightarrow> inner = drop 1 cmd \<and> inner \<noteq> []"
  unfolding strip_builtin_prefix_def by (cases "drop 1 cmd") (auto split: if_splits)

lemma strip_transparent_cases:
  "strip_transparent_prefix cmd = NotPrefix
   \<or> strip_transparent_prefix cmd = strip_exec_prefix cmd
   \<or> strip_transparent_prefix cmd = strip_command_prefix cmd
   \<or> strip_transparent_prefix cmd = strip_builtin_prefix cmd"
  unfolding strip_transparent_prefix_def by (cases "first_opt cmd") simp_all

lemma strip_transparent_suffix:
  assumes "strip_transparent_prefix cmd = Peeled inner"
  shows "(\<exists>n>0. inner = drop n cmd) \<and> inner \<noteq> []"
proof -
  have *: "(\<exists>n>0. inner = drop n cmd) \<and> inner \<noteq> []"
    if "suffix inner (drop 1 cmd) \<and> inner \<noteq> []"
    using that suffix_drop_Suc by blast
  from strip_transparent_cases [of cmd] assms
  consider "strip_exec_prefix cmd = Peeled inner" | "strip_command_prefix cmd = Peeled inner"
    | "strip_builtin_prefix cmd = Peeled inner"
    by force
  then show ?thesis
  proof cases
    case 1
    then show ?thesis unfolding strip_exec_prefix_def by (intro * strip_exec_args_suffix)
  next
    case 2
    then show ?thesis unfolding strip_command_prefix_def by (intro * strip_command_args_suffix)
  next
    case 3
    from strip_builtin_Peeled [OF this] show ?thesis by (intro *) auto
  qed
qed

lemma strip_transparent_nonempty: "strip_transparent_prefix cmd = Peeled inner \<Longrightarrow> inner \<noteq> []"
  by (simp add: strip_transparent_suffix)

lemma strip_transparent_head:
  assumes "strip_transparent_prefix cmd \<noteq> NotPrefix"
  shows "\<exists>h. head_base cmd = Some h \<and> h \<in> {''exec'', ''command'', ''builtin''}"
  using assms unfolding strip_transparent_prefix_def head_base_def
  by (auto split: option.splits if_splits)

lemma wrapper_not_transparent:
  "is_wrapper_command cmd \<Longrightarrow> strip_transparent_prefix cmd = NotPrefix"
  using strip_transparent_head [of cmd] unfolding is_wrapper_command_def by fastforce

subsection \<open>One layer at a time\<close>

text \<open>
  The specification of normalisation: one wrapper or one transparent prefix comes off, and the
  command that runs is what is left when nothing more does.
\<close>

inductive peels :: "string list \<Rightarrow> string list \<Rightarrow> bool" where
  wrapper: "strip_wrapper_command ws = Some inner \<Longrightarrow> peels ws inner"
| transparent: "strip_transparent_prefix ws = Peeled inner \<Longrightarrow> peels ws inner"

inductive_simps peels_iff: "peels ws inner"

abbreviation peels_star :: "string list \<Rightarrow> string list \<Rightarrow> bool" where
  "peels_star \<equiv> peels\<^sup>*\<^sup>*"

definition irreducible :: "string list \<Rightarrow> bool" where
  "irreducible ws \<longleftrightarrow> strip_wrapper_command ws = None \<and> strip_transparent_prefix ws = NotPrefix"

lemma peels_deterministic: "peels ws a \<Longrightarrow> peels ws b \<Longrightarrow> a = b"
  using wrapper_not_transparent [of ws] strip_wrapper_is_wrapper [of ws]
  by (auto simp: peels_iff)

lemma peels_suffix: "peels ws inner \<Longrightarrow> \<exists>n>0. inner = drop n ws"
  by (auto simp: peels_iff dest: strip_wrapper_suffix strip_transparent_suffix)

lemma peels_nonempty: "peels ws inner \<Longrightarrow> inner \<noteq> []"
  by (auto simp: peels_iff dest: strip_wrapper_nonempty strip_transparent_nonempty)

lemma peels_shorter: "peels ws inner \<Longrightarrow> length inner < length ws"
  using peels_suffix [of ws inner] peels_nonempty [of ws inner] by auto

lemma peels_star_suffix: "peels_star ws inner \<Longrightarrow> \<exists>n. inner = drop n ws"
proof (induction rule: rtranclp_induct)
  case base
  then show ?case by (auto intro: exI [of _ 0])
next
  case (step y z)
  then show ?case using peels_suffix [of y z] by auto
qed

lemma peels_star_same_length:
  "peels_star ws inner \<Longrightarrow> length inner = length ws \<Longrightarrow> inner = ws"
  by (drule peels_star_suffix) (auto, metis diff_is_0_eq' diff_diff_cancel drop0 drop_all nle_le length_0_conv)

lemma irreducible_no_peels: "irreducible ws \<Longrightarrow> \<not> peels ws inner"
  by (auto simp: irreducible_def peels_iff)

lemma irreducible_peels_star: "irreducible ws \<Longrightarrow> peels_star ws inner \<Longrightarrow> inner = ws"
  by (metis converse_rtranclpE irreducible_no_peels)

lemma peels_star_confluent:
  assumes "peels_star ws n" "irreducible n" "peels_star ws w"
  shows "peels_star w n"
  using assms(3,1)
proof (induction rule: rtranclp_induct)
  case (step y z)
  from step.prems have "peels_star y n" by (rule step.IH)
  then show ?case
  proof (cases rule: converse_rtranclpE)
    case base
    with step.hyps(2) \<open>irreducible n\<close> show ?thesis by (simp add: irreducible_no_peels)
  next
    case (step u)
    with \<open>peels y z\<close> show ?thesis by (auto dest: peels_deterministic)
  qed
qed

lemma note_env_words [simp]: "wp_words (note_env p) = wp_words p"
  by (simp add: note_env_def Let_def)

lemma unwrap_rounds_peels: "peels_star (wp_words p) (wp_words (unwrap_rounds n p))"
proof (induction n arbitrary: p)
  case (Suc n)
  show ?case
  proof (cases "strip_wrapper_command (wp_words p)")
    case (Some inner)
    have "peels_star inner (wp_words (unwrap_rounds n ((note_env p)\<lparr>wp_words := inner\<rparr>)))"
      using Suc.IH [of "(note_env p)\<lparr>wp_words := inner\<rparr>"] by simp
    with Some show ?thesis by (auto intro: converse_rtranclp_into_rtranclp peels.wrapper)
  qed simp
qed simp

lemma unwrap_peels: "peels_star ws (unwrap_wrappers ws)"
  using unwrap_rounds_peels [of "\<lparr>wp_words = ws, wp_has_chdir = False, wp_has_split_string = False,
        wp_env_options_uncertain = False, wp_exhausted = False\<rparr>" MAX_WRAPPER_DEPTH]
  by (simp add: unwrap_wrappers_def unwrap_wrappers_checked_def)

lemma transparent_rounds_peels:
  "transparent_rounds n ws = PeelReady inner \<Longrightarrow> peels_star ws inner \<and> strip_transparent_prefix inner = NotPrefix"
proof (induction n arbitrary: ws)
  case (Suc n)
  then show ?case
    by (cases "strip_transparent_prefix ws")
      (auto intro: converse_rtranclp_into_rtranclp peels.transparent)
qed (auto split: transparent_strip.splits)

lemma absorb_wrapped_words [simp]: "wp_words (absorb_wrapped w p) = wp_words w"
  by (simp add: absorb_wrapped_def)

lemma normalize_rounds_peels: "peels_star (wp_words p) (wp_words (normalize_rounds n p))"
proof (induction n arbitrary: p)
  case (Suc n)
  let ?p1 = "absorb_wrapped (unwrap_wrappers_checked (wp_words p)) p"
  have w: "peels_star (wp_words p) (wp_words ?p1)"
    using unwrap_peels [of "wp_words p"] by (simp add: unwrap_wrappers_def)
  show ?case
  proof (cases "peel_transparent_prefixes (wp_words ?p1)")
    case (PeelReady inner)
    then have "peels_star (wp_words p) inner"
      using w transparent_rounds_peels unfolding peel_transparent_prefixes_def by (meson rtranclp_trans)
    moreover have "peels_star inner (wp_words (normalize_rounds n (?p1\<lparr>wp_words := inner\<rparr>)))"
      using Suc.IH [of "?p1\<lparr>wp_words := inner\<rparr>"] by simp
    ultimately show ?thesis using PeelReady w by (auto simp: Let_def)
  next
    case PeelAmbiguous
    with w show ?thesis by (auto simp: Let_def)
  qed
qed simp

lemma normalize_peels: "peels_star ws (wp_words (normalize_command_words ws))"
  using normalize_rounds_peels [of "norm_init ws" MAX_NORMALIZE_ROUNDS]
  by (simp add: normalize_command_words_def norm_init_def Let_def)

definition norm_flagged :: "norm_peel \<Rightarrow> bool" where
  "norm_flagged p \<longleftrightarrow> wp_has_split_string p \<or> wp_env_options_uncertain p \<or> wp_exhausted p \<or> np_ambiguous p"

lemma normalize_unflagged_irreducible:
  "\<not> norm_flagged (normalize_command_words ws) \<Longrightarrow> irreducible (wp_words (normalize_command_words ws))"
  using strip_wrapper_is_wrapper
  by (fastforce simp: normalize_command_words_def Let_def norm_flagged_def irreducible_def still_peelable_def
      split: if_splits)

lemma unwrap_irreducible [simp]:
  "strip_wrapper_command ws = None \<Longrightarrow> unwrap_wrappers ws = ws"
  by (simp add: unwrap_wrappers_def unwrap_wrappers_checked_def MAX_WRAPPER_DEPTH_def eval_nat_numeral)

lemma peel_transparent_irreducible:
  "strip_transparent_prefix ws = NotPrefix \<Longrightarrow> peel_transparent_prefixes ws = PeelReady ws"
  by (simp add: peel_transparent_prefixes_def MAX_TRANSPARENT_PREFIX_DEPTH_def eval_nat_numeral)

lemma normalize_irreducible:
  "irreducible ws \<Longrightarrow> wp_words (normalize_command_words ws) = ws"
  using normalize_peels irreducible_peels_star by blast

subsection \<open>Properties\<close>

lemma unflagged_normal_form:
  assumes "\<not> norm_flagged (normalize_command_words ws)"
  shows "peels_star ws n \<and> irreducible n \<longleftrightarrow> n = wp_words (normalize_command_words ws)"
  using normalize_peels [of ws] normalize_unflagged_irreducible [OF assms]
    peels_star_confluent irreducible_peels_star by metis

lemma normalize_idempotent:
  "\<not> norm_flagged (normalize_command_words ws) \<Longrightarrow>
   wp_words (normalize_command_words (wp_words (normalize_command_words ws)))
     = wp_words (normalize_command_words ws)"
  by (simp add: normalize_irreducible normalize_unflagged_irreducible)

text \<open>
  C27. Normalising a command vector without raising a flag computes exactly the normal form of the
  one-layer peel relation: the words returned are the only vector reachable by peeling wrappers and
  transparent prefixes from which nothing more comes off, and normalising them again changes
  nothing.
\<close>
theorem normalize_computes_normal_form:
  assumes "\<not> norm_flagged (normalize_command_words ws)"
  shows "(peels_star ws n \<and> irreducible n \<longleftrightarrow> n = wp_words (normalize_command_words ws))
    \<and> wp_words (normalize_command_words (wp_words (normalize_command_words ws)))
        = wp_words (normalize_command_words ws)"
  using unflagged_normal_form [OF assms] normalize_idempotent [OF assms] by blast

definition wrapped_rm :: "string list" where
  "wrapped_rm = [''/usr/bin/timeout'', ''-k'', ''5'', ''30'', ''command'', ''-p'', ''env'', ''A=1'', ''exec'', ''rm'', ''x'']"

lemma normalize_computes_normal_form_witness:
  "peels_star wrapped_rm [''rm'', ''x''] \<and> irreducible [''rm'', ''x'']"
proof -
  have f: "\<not> norm_flagged (normalize_command_words wrapped_rm)" by code_simp
  have w: "wp_words (normalize_command_words wrapped_rm) = [''rm'', ''x'']" by code_simp
  show ?thesis using normalize_computes_normal_form [OF f, of "[''rm'', ''x'']"] w by simp
qed

text \<open>
  A packed \<open>env -S\<close> that only becomes visible in the sixteenth round is never scanned: the
  normalisation reports no flag at all for it, while one round less reports the split string.
\<close>

definition late_split_string :: "nat \<Rightarrow> string list" where
  "late_split_string n =
     concat (replicate n [''timeout'', ''1'', ''command'']) @ [''env'', ''-S'', ''rm x'']"

text \<open>
  The alternation budget has a hole: sixteen rounds of \<open>timeout 1 command\<close> in front of
  \<open>env -S\<close> give a vector whose normalisation is \<open>env -S ...\<close> with every flag down, although the
  same vector with fifteen rounds (and \<open>env -S\<close> itself) is flagged as a split string.
\<close>
theorem split_string_missed_after_budget:
  "\<not> norm_flagged (normalize_command_words (late_split_string 16))
   \<and> wp_words (normalize_command_words (late_split_string 16)) = [''env'', ''-S'', ''rm x'']
   \<and> wp_has_split_string (normalize_command_words (late_split_string 15))
   \<and> wp_has_split_string (normalize_command_words [''env'', ''-S'', ''rm x''])"
  by code_simp

end
