(* ===== verification/PermissionRules.thy ===== *)
theory PermissionRules
  imports ShellWords
begin

section \<open>Permission rules: data and parser\<close>

text \<open>
  The vocabulary of the permission subsystem (\<open>permission/types.rs\<close>) and the parser of rule
  strings such as \<open>Bash(npm run:*)\<close> or \<open>WebFetch(domain:example.com)\<close>
  (\<open>permission/rules.rs\<close>).  The lemmas show that the two-pass unescaping of the source is the
  one-pass left-to-right unescaping, and how each spelling of a rule is read.
\<close>

subsection \<open>Data\<close>

datatype access_kind =
    ReadAccess "string option"
  | GrepAccess "string option" "string option"
  | EditAccess string
  | BashAccess string
  | MCPToolAccess string json
  | WebFetchAccess string
  | WebSearchAccess string
  | AgentMessageAccess string

datatype decision =
    DAllow
  | DAsk
  | DFollowupMessage string
  | DReject string
  | DPolicyDeny string
  | DCancelled

datatype prompt_policy = PromptAsk | PromptDeny | PromptAuto | PromptAllow
datatype pattern_mode = GlobMode | DomainMode
datatype rule_action = AllowRule | DenyRule | AskRule

datatype tool_filter =
    AnyTool | BashTool | EditTool | ReadTool | GrepTool | McpTool | WebFetchTool | WebSearchTool
  | AgentMessageTool

record permission_rule =
  pr_action :: rule_action
  pr_tool :: tool_filter
  pr_pattern :: "string option"
  pr_mode :: pattern_mode

record permission_config =
  pcf_rules :: "permission_rule list"
  pcf_prompt_policy :: prompt_policy
  pcf_default_mode_configured :: bool

definition permission_config_new :: "permission_rule list \<Rightarrow> permission_config" where
  "permission_config_new rules =
     \<lparr>pcf_rules = rules, pcf_prompt_policy = PromptAsk, pcf_default_mode_configured = False\<rparr>"

text \<open>Unknown tool payloads: the first known field that is a string decides the kind.\<close>

definition dynamic_string_field :: "json \<Rightarrow> string list \<Rightarrow> string option" where
  "dynamic_string_field v keys =
     first_opt (List.map_filter (\<lambda>k. Option.bind (json_get v k) json_as_str) keys)"

definition dynamic_has_field :: "json \<Rightarrow> string list \<Rightarrow> bool" where
  "dynamic_has_field v keys \<longleftrightarrow> list_ex (\<lambda>k. json_get v k \<noteq> None) keys"

definition access_kind_from_dynamic :: "json \<Rightarrow> access_kind" where
  "access_kind_from_dynamic v =
     (case dynamic_string_field v [''filePath'', ''file_path'', ''path''] of
        Some path \<Rightarrow>
          if dynamic_has_field v [''oldString'', ''old_string'', ''newString'', ''new_string'',
                                  ''content'', ''edits'', ''replaceAll'', ''replace_all'']
          then EditAccess path else ReadAccess (Some path)
      | None \<Rightarrow>
          (case dynamic_string_field v [''command''] of
             Some command \<Rightarrow> BashAccess command
           | None \<Rightarrow> ReadAccess None))"

subsection \<open>Default modes\<close>

datatype default_mode =
  DefaultMode | AcceptEditsMode | PlanMode | AutoMode | DontAskMode | BypassPermissionsMode

record default_mode_effects =
  me_prompt_policy :: prompt_policy
  me_accept_edits :: bool
  me_bypass_permissions :: bool

definition default_mode_from_str :: "string \<Rightarrow> string + default_mode" where
  "default_mode_from_str s =
     (if s = ''default'' then Inr DefaultMode
      else if s = ''acceptEdits'' then Inr AcceptEditsMode
      else if s = ''plan'' then Inr PlanMode
      else if s = ''auto'' then Inr AutoMode
      else if s = ''dontAsk'' then Inr DontAskMode
      else if s = ''bypassPermissions'' then Inr BypassPermissionsMode
      else Inl s)"

definition no_effects :: default_mode_effects where
  "no_effects = \<lparr>me_prompt_policy = PromptAsk, me_accept_edits = False, me_bypass_permissions = False\<rparr>"

fun mode_effects :: "default_mode \<Rightarrow> default_mode_effects" where
  "mode_effects AcceptEditsMode = no_effects\<lparr>me_accept_edits := True\<rparr>"
| "mode_effects BypassPermissionsMode = no_effects\<lparr>me_bypass_permissions := True\<rparr>"
| "mode_effects DefaultMode = no_effects"
| "mode_effects PlanMode = no_effects"
| "mode_effects DontAskMode = no_effects\<lparr>me_prompt_policy := PromptDeny\<rparr>"
| "mode_effects AutoMode = no_effects\<lparr>me_prompt_policy := PromptAuto\<rparr>"

subsection \<open>The rule parser\<close>

datatype rule_parse_error =
    UnsupportedToolPrefix string
  | UnknownToolPrefix string
  | MalformedRule string

abbreviation bslash :: char where "bslash \<equiv> CHR 0x5C"

text \<open>\<open>is_unescaped bytes pos\<close>: an even number of backslashes directly before the position.\<close>

definition is_unescaped :: "string \<Rightarrow> nat \<Rightarrow> bool" where
  "is_unescaped s i \<longleftrightarrow> even (length (takeWhile (\<lambda>c. c = bslash) (rev (take i s))))"

definition find_first_unescaped :: "string \<Rightarrow> char \<Rightarrow> nat option" where
  "find_first_unescaped s t =
     List.find (\<lambda>i. s ! i = t \<and> is_unescaped s i) [0..<length s]"

definition find_last_unescaped :: "string \<Rightarrow> char \<Rightarrow> nat option" where
  "find_last_unescaped s t =
     List.find (\<lambda>i. s ! i = t \<and> is_unescaped s i) (rev [0..<length s])"

definition unescape_rule_content :: "string \<Rightarrow> string" where
  "unescape_rule_content s =
     (if bslash \<notin> set s then s
      else replace_str [bslash, bslash] [bslash]
             (replace_str [bslash, CHR '')''] '')''
               (replace_str [bslash, CHR ''(''] ''('' s)))"

definition strip_domain_prefix :: "string \<Rightarrow> string \<times> pattern_mode" where
  "strip_domain_prefix p =
     (case strip_prefix p ''domain:'' of Some d \<Rightarrow> (d, DomainMode) | None \<Rightarrow> (p, GlobMode))"

definition strip_bash_colon_wildcard :: "string \<Rightarrow> string" where
  "strip_bash_colon_wildcard p = (case strip_suffix p '':*'' of Some q \<Rightarrow> q | None \<Rightarrow> p)"

definition tool_name_to_filter :: "string \<Rightarrow> tool_filter option" where
  "tool_name_to_filter name =
     map_of [(''Bash'', BashTool), (''Read'', ReadTool), (''Edit'', EditTool), (''Write'', EditTool),
             (''MCPTool'', McpTool), (''Grep'', GrepTool), (''Glob'', GrepTool),
             (''WebFetch'', WebFetchTool), (''WebSearch'', WebSearchTool),
             (''AgentMessage'', AgentMessageTool), (''SendSubagentMessage'', AgentMessageTool),
             (''SendAgentMessage'', AgentMessageTool)] name"

definition unsupported_tools :: "string set" where
  "unsupported_tools = {''EnterWorktree'', ''NotebookEdit'', ''NotebookRead''}"

definition some_nonempty :: "string \<Rightarrow> string option" where
  "some_nonempty p = (if p = [] then None else Some p)"

text \<open>\<open>Tool(content)\<close>, the opening parenthesis at the given index.\<close>

definition parse_parenthesised ::
    "string \<Rightarrow> nat \<Rightarrow> rule_action \<Rightarrow> rule_parse_error + permission_rule" where
  "parse_parenthesised rule open_paren action =
     (let prefix = trim (take open_paren rule);
          rest = drop (open_paren + 1) rule
      in case find_last_unescaped rest CHR '')'' of
           None \<Rightarrow> Inl (MalformedRule ''missing closing parenthesis'')
         | Some close_paren \<Rightarrow>
             (let raw = trim (take close_paren rest);
                  content = (if raw = [] \<or> raw = ''*'' then [] else unescape_rule_content raw)
              in case tool_name_to_filter prefix of
                   None \<Rightarrow>
                     if prefix \<in> unsupported_tools then Inl (UnsupportedToolPrefix prefix)
                     else Inl (UnknownToolPrefix prefix)
                 | Some tool \<Rightarrow>
                     (let p1 = (if tool = BashTool then strip_bash_colon_wildcard content else content);
                          (p2, mode) = strip_domain_prefix p1
                      in Inr \<lparr>pr_action = action, pr_tool = tool, pr_pattern = some_nonempty p2,
                              pr_mode = mode\<rparr>)))"

definition mcp_rule_pattern :: "string \<Rightarrow> string option" where
  "mcp_rule_pattern rest =
     (if rest = ''*'' then None
      else if contains_str rest ''__'' then Some rest
      else Some (rest @ ''__*''))"

definition parse_bare :: "string \<Rightarrow> rule_action \<Rightarrow> rule_parse_error + permission_rule" where
  "parse_bare rule action =
     (if rule \<in> unsupported_tools then Inl (UnsupportedToolPrefix rule)
      else (case tool_name_to_filter rule of
              Some tool \<Rightarrow> Inr \<lparr>pr_action = action, pr_tool = tool, pr_pattern = None, pr_mode = GlobMode\<rparr>
            | None \<Rightarrow>
                (case Option.bind (strip_prefix rule ''mcp__'') some_nonempty of
                   Some rest \<Rightarrow>
                     Inr \<lparr>pr_action = action, pr_tool = McpTool, pr_pattern = mcp_rule_pattern rest,
                          pr_mode = GlobMode\<rparr>
                 | None \<Rightarrow>
                     Inr \<lparr>pr_action = action, pr_tool = AnyTool, pr_pattern = some_nonempty rule,
                          pr_mode = GlobMode\<rparr>)))"

definition parse_permission_rule ::
    "string \<Rightarrow> rule_action \<Rightarrow> rule_parse_error + permission_rule" where
  "parse_permission_rule rule0 action =
     (let rule = trim rule0 in
      case find_first_unescaped rule CHR ''('' of
        Some i \<Rightarrow> parse_parenthesised rule i action
      | None \<Rightarrow> parse_bare rule action)"

subsection \<open>Unescaping in one pass\<close>

text \<open>
  The specification: reading left to right, a backslash before a parenthesis or a backslash is
  dropped and the character it protects is taken literally.
\<close>

fun unescape_once :: "string \<Rightarrow> string" where
  "unescape_once (c # d # cs) =
     (if c = bslash \<and> (d = CHR ''('' \<or> d = CHR '')'' \<or> d = bslash) then d # unescape_once cs
      else c # unescape_once (d # cs))"
| "unescape_once cs = cs"

fun unescape_parens :: "string \<Rightarrow> string" where
  "unescape_parens (c # d # cs) =
     (if c = bslash \<and> (d = CHR ''('' \<or> d = CHR '')'') then d # unescape_parens cs
      else c # unescape_parens (d # cs))"
| "unescape_parens cs = cs"

lemma replace_nil [simp]: "replace_str p r [] = []"
  by (simp add: replace_str.simps)

lemma replace_pair_single [simp]: "replace_str [a, b] r [c] = [c]"
  by (simp add: replace_str.simps starts_with_def)

lemma replace_pair [simp]:
  "replace_str [a, b] r (c # d # cs) =
     (if c = a \<and> d = b then r @ replace_str [a, b] r cs else c # replace_str [a, b] r (d # cs))"
  by (subst replace_str.simps) (simp add: starts_with_def)

lemma replace_pair_other: "c \<noteq> a \<Longrightarrow> replace_str [a, b] r (c # cs) = c # replace_str [a, b] r cs"
  by (cases cs) simp_all

lemma replace_open_head:
  "replace_str [bslash, CHR ''(''] ''('' (x # t) = y # u \<Longrightarrow> y = x \<or> y = CHR ''(''"
  by (cases t) (auto split: if_splits)

lemma replace_pair_head_not:
  "\<lbrakk>\<And>y u. cs = y # u \<Longrightarrow> y \<noteq> b\<rbrakk> \<Longrightarrow>
     replace_str [a, b] r (a # cs) = a # replace_str [a, b] r cs"
  by (cases cs) auto

lemma unescape_parens_two_passes:
  "replace_str [bslash, CHR '')''] '')'' (replace_str [bslash, CHR ''(''] ''('' s) = unescape_parens s"
proof (induction s rule: unescape_parens.induct)
  case (1 c d cs)
  consider "c \<noteq> bslash" | "c = bslash" "d = CHR ''(''" | "c = bslash" "d = CHR '')''"
    | "c = bslash" "d \<noteq> CHR ''(''" "d \<noteq> CHR '')''"
    by blast
  then show ?case
  proof cases
    case 4
    have "replace_str [bslash, CHR '')''] '')'' (bslash # replace_str [bslash, CHR ''(''] ''('' (d # cs))
        = bslash # replace_str [bslash, CHR '')''] '')'' (replace_str [bslash, CHR ''(''] ''('' (d # cs))"
      by (rule replace_pair_head_not) (use 4 replace_open_head in fastforce)
    with 4 1 show ?thesis by simp
  qed (use 1 in \<open>auto simp: replace_pair_other\<close>)
qed auto

lemma collapse_after_parens:
  "replace_str [bslash, bslash] [bslash] (unescape_parens s) = unescape_once s"
proof (induction s rule: unescape_once.induct)
  case (1 c d cs)
  consider "c \<noteq> bslash" | "c = bslash" "d \<noteq> bslash" | "c = bslash" "d = bslash" by blast
  then show ?case
  proof cases
    case 3
    have "unescape_parens (bslash # bslash # cs) = bslash # unescape_parens (bslash # cs)" by simp
    moreover have "replace_str [bslash, bslash] [bslash] (bslash # unescape_parens (bslash # cs))
        = bslash # replace_str [bslash, bslash] [bslash] (unescape_parens cs)"
      by (cases cs; cases "tl cs") (auto simp: replace_pair_other)
    ultimately show ?thesis using 3 1 by simp
  next
    case 2
    have "unescape_parens (d # cs) = d # unescape_parens cs"
      using 2 by (cases cs) auto
    then show ?thesis using 1 2 by (auto simp: replace_pair_other)
  qed (use 1 in \<open>auto simp: replace_pair_other\<close>)
qed auto

lemma unescape_once_id: "bslash \<notin> set s \<Longrightarrow> unescape_once s = s"
  by (induction s rule: unescape_once.induct) auto

subsection \<open>Writing a rule and reading it back\<close>

fun escape_rule_content :: "string \<Rightarrow> string" where
  "escape_rule_content [] = []"
| "escape_rule_content (c # cs) =
     (if c = CHR ''('' \<or> c = CHR '')'' \<or> c = bslash then bslash # c # escape_rule_content cs
      else c # escape_rule_content cs)"

lemma unescape_once_plain: "c \<noteq> bslash \<Longrightarrow> unescape_once (c # cs) = c # unescape_once cs"
  by (cases cs) auto

lemma unescape_escape: "unescape_once (escape_rule_content s) = s"
  by (induction s) (auto simp: unescape_once_plain)

definition bslash_run :: "string \<Rightarrow> nat" where
  "bslash_run s = length (takeWhile (\<lambda>c. c = bslash) (rev s))"

lemma bslash_run_snoc [simp]:
  "bslash_run (s @ [c]) = (if c = bslash then Suc (bslash_run s) else 0)"
  "bslash_run [] = 0"
  by (auto simp: bslash_run_def)

lemma bslash_run_append:
  "even (bslash_run s) \<Longrightarrow> even (bslash_run t) \<Longrightarrow> even (bslash_run (s @ t))"
proof (induction t arbitrary: s rule: rev_induct)
  case (snoc c t)
  have *: "even (bslash_run (s @ t)) \<longleftrightarrow> even (bslash_run t)" for t
  proof (induction t rule: rev_induct)
    case Nil
    with snoc.prems(1) show ?case by simp
  next
    case (snoc d t)
    have "bslash_run (s @ t @ [d]) = bslash_run ((s @ t) @ [d])" by simp
    then show ?case using snoc by (simp only: bslash_run_snoc) auto
  qed
  show ?case using snoc.prems(2) * by blast
qed auto

lemma bslash_run_escape: "even (bslash_run (escape_rule_content s))"
proof (induction s)
  case (Cons c s)
  have one: "even (bslash_run [bslash, c] )" if "c = CHR ''('' \<or> c = CHR '')'' \<or> c = bslash"
    using that by (auto simp: bslash_run_def)
  have other: "even (bslash_run [c])" if "c \<noteq> bslash"
    using that by (auto simp: bslash_run_def)
  show ?case
    using bslash_run_append [OF one Cons] bslash_run_append [OF other Cons] by auto
qed simp

lemma find_first_upt:
  assumes "\<And>j. j < i \<Longrightarrow> \<not> P j" "P i" "i < n"
  shows "List.find P [0..<n] = Some i"
proof -
  have "[0..<n] = [0..<i] @ i # [Suc i..<n]"
    using assms(3) upt_add_eq_append [of 0 i "n - i"] upt_conv_Cons [of i n] by simp
  moreover have "List.find P [0..<i] = None" using assms(1) by (simp add: find_None_iff)
  moreover have "List.find P (xs @ ys) = (case List.find P xs of None \<Rightarrow> List.find P ys | s \<Rightarrow> s)" for xs ys
    by (induction xs) auto
  ultimately show ?thesis using assms(2) by simp
qed

lemma find_first_unescaped_at:
  assumes "t \<notin> set p" "bslash \<notin> set p"
  shows "find_first_unescaped (p @ t # r) t = Some (length p)"
proof -
  have "takeWhile (\<lambda>c. c = bslash) (rev p) = []"
    using assms(2) by (metis (mono_tags) set_rev takeWhile_eq_Nil_iff list.set_sel(1))
  then show ?thesis
    unfolding find_first_unescaped_def is_unescaped_def
    by (intro find_first_upt) (use assms(1) in \<open>auto simp: nth_append in_set_conv_nth\<close>)
qed

lemma find_last_unescaped_snoc:
  "even (bslash_run r) \<Longrightarrow> find_last_unescaped (r @ [t]) t = Some (length r)"
  by (simp add: find_last_unescaped_def is_unescaped_def bslash_run_def)

text \<open>Trimming leaves a string alone when no white space stands at either end.\<close>

definition no_outer_ws :: "string \<Rightarrow> bool" where
  "no_outer_ws s \<longleftrightarrow>
     list_all (\<lambda>w. \<not> starts_with s w) utf8_ws \<and> list_all (\<lambda>w. \<not> ends_with s w) utf8_ws"

lemma strip_front_id: "list_all (\<lambda>w. \<not> starts_with s w) ws \<Longrightarrow> strip_front ws s = s"
  by (subst strip_front.simps) (auto simp: find_None_iff list_all_iff split: option.splits dest!: iffD1 [OF find_Some_iff])

lemma trim_id: "no_outer_ws s \<Longrightarrow> trim s = s"
  unfolding no_outer_ws_def trim_def trim_start_def trim_end_def
  by (simp add: strip_front_id ends_with_def list.pred_map comp_def)

lemma tool_names_plain:
  assumes "tool_name_to_filter name = Some tool"
  shows "CHR ''('' \<notin> set name" "bslash \<notin> set name" "trim name = name"
    "hd name \<in> set ''BREWMGAS''" "name \<noteq> []"
proof -
  let ?names = "[''Bash'', ''Read'', ''Edit'', ''Write'', ''MCPTool'', ''Grep'', ''Glob'', ''WebFetch'',
    ''WebSearch'', ''AgentMessage'', ''SendSubagentMessage'', ''SendAgentMessage'']"
  have "name \<in> set ?names"
    using assms by (auto simp: tool_name_to_filter_def split: if_splits)
  moreover have "list_all (\<lambda>n. CHR ''('' \<notin> set n \<and> bslash \<notin> set n \<and> trim n = n
      \<and> hd n \<in> set ''BREWMGAS'' \<and> n \<noteq> []) ?names"
    by code_simp
  ultimately show "CHR ''('' \<notin> set name" "bslash \<notin> set name" "trim name = name"
    "hd name \<in> set ''BREWMGAS''" "name \<noteq> []"
    by (auto simp only: list_all_iff)
qed

lemma rule_text_trimmed:
  assumes "tool_name_to_filter name = Some tool"
  shows "trim (name @ ''('' @ c @ '')'') = name @ ''('' @ c @ '')''"
proof (rule trim_id)
  from tool_names_plain(4,5) [OF assms] obtain h t where n: "name = h # t" "h \<in> set ''BREWMGAS''"
    by (cases name) auto
  have "list_all (\<lambda>w. \<not> starts_with (name @ r) w) utf8_ws" for r
    using n(2) unfolding n(1) by (auto simp: utf8_ws_def starts_with_def)
  moreover have "list_all (\<lambda>w. \<not> ends_with (r @ '')'') w) utf8_ws" for r
    by (auto simp: utf8_ws_def starts_with_def ends_with_def)
  then have "list_all (\<lambda>w. \<not> ends_with (name @ ''('' @ c @ '')'') w) utf8_ws"
    by (metis append_assoc)
  ultimately show "no_outer_ws (name @ ''('' @ c @ '')'')"
    by (simp add: no_outer_ws_def)
qed

lemma unescape_rule_content_once: "unescape_rule_content s = unescape_once s"
  by (simp add: unescape_rule_content_def unescape_parens_two_passes collapse_after_parens unescape_once_id)

lemma parse_escaped:
  assumes "tool_name_to_filter name = Some tool"
    and "trim (escape_rule_content p) = escape_rule_content p" "p \<noteq> []" "p \<noteq> ''*''"
  shows "parse_permission_rule (name @ ''('' @ escape_rule_content p @ '')'') action
    = (let (p2, mode) = strip_domain_prefix (if tool = BashTool then strip_bash_colon_wildcard p else p)
       in Inr \<lparr>pr_action = action, pr_tool = tool, pr_pattern = some_nonempty p2, pr_mode = mode\<rparr>)"
proof -
  let ?e = "escape_rule_content p"
  have first: "find_first_unescaped (name @ ''('' @ ?e @ '')'') CHR ''('' = Some (length name)"
    using find_first_unescaped_at [OF tool_names_plain(1,2) [OF assms(1)]] by simp
  have last: "find_last_unescaped (?e @ '')'') CHR '')'' = Some (length ?e)"
    by (rule find_last_unescaped_snoc) (rule bslash_run_escape)
  have ne: "?e \<noteq> []" "?e \<noteq> ''*''"
    using assms(3,4) by (cases p; cases "tl p"; auto split: if_splits)+
  show ?thesis
    unfolding parse_permission_rule_def rule_text_trimmed [OF assms(1)] Let_def first option.case
      parse_parenthesised_def
    using last ne assms(1,2) tool_names_plain(3) [OF assms(1)]
    by (simp add: unescape_rule_content_once unescape_escape split: prod.splits)
qed

subsection \<open>Properties\<close>

text \<open>
  The unescaping of rule contents, three global replacements run one after the other, is the
  one-pass left-to-right unescaping, and it inverts the escaping of parentheses and backslashes.
\<close>
theorem unescape_is_one_pass:
  "unescape_rule_content s = unescape_once s \<and> unescape_rule_content (escape_rule_content s) = s"
  by (simp add: unescape_rule_content_once unescape_escape)

text \<open>
  A rule written as \<open>Tool(escaped pattern)\<close> is read back as a rule on that tool with that
  pattern, up to the two documented idioms (a trailing \<open>:*\<close> of a Bash pattern, a leading
  \<open>domain:\<close>); no pattern content can end the parenthesis early or change the tool.
\<close>
theorem rule_text_round_trip:
  assumes "tool_name_to_filter name = Some tool"
    and "trim (escape_rule_content p) = escape_rule_content p" and "p \<noteq> []" and "p \<noteq> ''*''"
    and "strip_suffix p '':*'' = None" and "strip_prefix p ''domain:'' = None"
  shows "parse_permission_rule (name @ ''('' @ escape_rule_content p @ '')'') action
    = Inr \<lparr>pr_action = action, pr_tool = tool, pr_pattern = Some p, pr_mode = GlobMode\<rparr>"
  using assms(3,5,6) parse_escaped [OF assms(1-4), of action]
  by (simp add: strip_domain_prefix_def strip_bash_colon_wildcard_def some_nonempty_def)

lemma rule_text_round_trip_witness:
  "parse_permission_rule (''Bash('' @ escape_rule_content ''echo (a)'' @ '')'') DenyRule
    = Inr \<lparr>pr_action = DenyRule, pr_tool = BashTool, pr_pattern = Some ''echo (a)'', pr_mode = GlobMode\<rparr>"
proof -
  have "tool_name_to_filter ''Bash'' = Some BashTool"
    "trim (escape_rule_content ''echo (a)'') = escape_rule_content ''echo (a)''"
    "strip_suffix ''echo (a)'' '':*'' = None" "strip_prefix ''echo (a)'' ''domain:'' = None"
    by code_simp+
  from rule_text_round_trip [OF this(1,2) _ _ this(3,4)] show ?thesis by simp
qed

end
