(* ===== verification/Paths.thy ===== *)
theory Paths
  imports Prelude
begin

section \<open>Unix paths\<close>

text \<open>
  \<open>std::path\<close> as the permission gate uses it on Unix, and \<open>normalize_lexically\<close> of
  \<open>xai-grok-paths/src/lib.rs\<close>.  A \<open>Path\<close> is its string; \<open>components\<close> splits it the way the
  standard library does: repeated separators and interior \<open>.\<close> components vanish, a leading \<open>.\<close> of
  a relative path is kept as \<open>CurDir\<close>.  The lemmas show that rendering a well-formed component list
  and splitting it again is the identity, and that lexical normalisation removes \<open>.\<close> and \<open>..\<close> and
  is idempotent.
\<close>

datatype path_comp = RootDir | CurDir | ParentDir | Normal string

definition piece_comp :: "string \<Rightarrow> path_comp option" where
  "piece_comp p =
     (if p = [] \<or> p = ''.'' then None else if p = ''..'' then Some ParentDir else Some (Normal p))"

definition body_comps :: "string list \<Rightarrow> path_comp list" where
  "body_comps ps = List.map_filter piece_comp ps"

definition is_absolute :: "string \<Rightarrow> bool" where
  "is_absolute s \<longleftrightarrow> starts_with s ''/''"

definition components :: "string \<Rightarrow> path_comp list" where
  "components s =
     (if is_absolute s then RootDir # body_comps (split_char CHR ''/'' s)
      else (case split_char CHR ''/'' s of
              [] \<Rightarrow> []
            | p # ps \<Rightarrow> (if p = ''.'' then [CurDir] else []) @ body_comps (p # ps)))"

text \<open>\<open>PathBuf::push\<close> and \<open>Path::join\<close>.\<close>

definition path_join :: "string \<Rightarrow> string \<Rightarrow> string" where
  "path_join base p =
     (if is_absolute p then p
      else if base = [] \<or> last base = CHR ''/'' then base @ p
      else base @ ''/'' @ p)"

fun comp_str :: "path_comp \<Rightarrow> string" where
  "comp_str RootDir = ''/''"
| "comp_str CurDir = ''.''"
| "comp_str ParentDir = ''..''"
| "comp_str (Normal s) = s"

text \<open>\<open>components.into_iter().collect::<PathBuf>()\<close>\<close>

definition collect_path :: "path_comp list \<Rightarrow> string" where
  "collect_path cs = foldl (\<lambda>b c. path_join b (comp_str c)) [] cs"

text \<open>The stack of \<open>normalize_lexically\<close>, its last element at the end of the list.\<close>

definition push_comp :: "path_comp list \<Rightarrow> path_comp \<Rightarrow> path_comp list" where
  "push_comp st c =
     (case c of
        CurDir \<Rightarrow> st
      | ParentDir \<Rightarrow>
          (if st = [] then st @ [c]
           else (case last st of
                   Normal _ \<Rightarrow> butlast st
                 | RootDir \<Rightarrow> st
                 | _ \<Rightarrow> st @ [c]))
      | _ \<Rightarrow> st @ [c])"

definition normalize_comps :: "path_comp list \<Rightarrow> path_comp list" where
  "normalize_comps cs = foldl push_comp [] cs"

definition normalize_lexically :: "string \<Rightarrow> string" where
  "normalize_lexically s =
     (let cs = normalize_comps (components s) in if cs = [] then ''.'' else collect_path cs)"

text \<open>
  \<open>Path::strip_prefix\<close>: the components of the prefix come off, the rest keeps its spelling except
  for separators and \<open>.\<close> components at its ends.
\<close>

definition blank_piece :: "string \<Rightarrow> bool" where
  "blank_piece p \<longleftrightarrow> p = [] \<or> p = ''.''"

definition trim_pieces :: "string list \<Rightarrow> string list" where
  "trim_pieces ps = rev (dropWhile blank_piece (rev (dropWhile blank_piece ps)))"

fun drop_body :: "nat \<Rightarrow> string list \<Rightarrow> string list" where
  "drop_body n [] = []"
| "drop_body n (p # ps) =
     (if blank_piece p then drop_body n ps
      else if n = 0 then p # ps else drop_body (n - 1) ps)"

definition body_count :: "path_comp list \<Rightarrow> nat" where
  "body_count cs = length (filter (\<lambda>c. c \<noteq> RootDir \<and> c \<noteq> CurDir) cs)"

definition path_strip_prefix :: "string \<Rightarrow> string \<Rightarrow> string option" where
  "path_strip_prefix s p =
     (let pc = components p in
      if take (length pc) (components s) = pc
      then Some (join_str ''/'' (trim_pieces (drop_body (body_count pc) (split_char CHR ''/'' s))))
      else None)"

text \<open>
  \<open>Path::parent\<close> and \<open>Path::file_name\<close>.  The parent is the slice before the last component,
  trailing separators and \<open>.\<close> components removed; a leading \<open>.\<close> of a relative path counts as a
  component.
\<close>

definition last_comp :: "string \<Rightarrow> path_comp option" where
  "last_comp s = (if components s = [] then None else Some (last (components s)))"

definition file_name :: "string \<Rightarrow> string option" where
  "file_name s = (case last_comp s of Some (Normal n) \<Rightarrow> Some n | _ \<Rightarrow> None)"

definition drop_blank_end :: "bool \<Rightarrow> string list \<Rightarrow> string list" where
  "drop_blank_end rooted ps =
     (case ps of
        [] \<Rightarrow> []
      | p # qs \<Rightarrow>
          if \<not> rooted \<and> p = ''.'' then p # rev (dropWhile blank_piece (rev qs))
          else rev (dropWhile blank_piece (rev ps)))"

definition parent :: "string \<Rightarrow> string option" where
  "parent s =
     (case last_comp s of
        None \<Rightarrow> None
      | Some RootDir \<Rightarrow> None
      | Some _ \<Rightarrow>
          (let rooted = is_absolute s;
               pieces = split_char CHR ''/'' (if rooted then drop 1 s else s);
               rest = drop_blank_end rooted (butlast (drop_blank_end rooted pieces))
           in Some ((if rooted then ''/'' else []) @ join_str ''/'' rest)))"

definition path_has_parent_dir :: "string \<Rightarrow> bool" where
  "path_has_parent_dir s \<longleftrightarrow> ParentDir \<in> set (components s)"

definition is_tilde_path :: "string \<Rightarrow> bool" where
  "is_tilde_path s \<longleftrightarrow>
     (case components s of Normal n # _ \<Rightarrow> starts_with n ''~'' | _ \<Rightarrow> False)"

subsection \<open>Well-formed component lists\<close>

definition plain_name :: "string \<Rightarrow> bool" where
  "plain_name n \<longleftrightarrow> CHR ''/'' \<notin> set n \<and> n \<noteq> [] \<and> n \<noteq> ''.'' \<and> n \<noteq> ''..''"

text \<open>The two shapes normalisation produces: a rooted or a relative path, parents only in front.\<close>

inductive norm_form :: "path_comp list \<Rightarrow> bool" where
  rooted: "list_all plain_name ns \<Longrightarrow> norm_form (RootDir # map Normal ns)"
| relative: "list_all plain_name ns \<Longrightarrow> norm_form (replicate k ParentDir @ map Normal ns)"

fun comp_ok :: "path_comp \<Rightarrow> bool" where
  "comp_ok (Normal n) = plain_name n"
| "comp_ok _ = True"

lemma split_join:
  "\<forall>p \<in> set ps. CHR ''/'' \<notin> set p \<Longrightarrow> ps \<noteq> [] \<Longrightarrow> split_char CHR ''/'' (join_str ''/'' ps) = ps"
proof (induction ps rule: induct_list012)
  case (3 x y ps)
  then show ?case by (simp add: split_char_append_sep)
qed (auto simp: split_char_piece)

lemma body_comps_ok: "\<forall>p \<in> set ps. CHR ''/'' \<notin> set p \<Longrightarrow> \<forall>c \<in> set (body_comps ps). comp_ok c \<and> c \<noteq> RootDir \<and> c \<noteq> CurDir"
  by (induction ps) (auto simp: body_comps_def map_filter_simps piece_comp_def plain_name_def)

lemma components_shape:
  obtains b where "components s = RootDir # b \<or> components s = CurDir # b \<or> components s = b"
    "\<forall>c \<in> set b. comp_ok c \<and> c \<noteq> RootDir \<and> c \<noteq> CurDir"
proof -
  have "\<forall>c \<in> set (body_comps (split_char CHR ''/'' s)). comp_ok c \<and> c \<noteq> RootDir \<and> c \<noteq> CurDir"
    using body_comps_ok split_char_no_sep by blast
  then show thesis
    using that [of "body_comps (split_char CHR ''/'' s)"]
    unfolding components_def by (cases "split_char CHR ''/'' s") auto
qed

lemma list_all_butlast: "list_all P xs \<Longrightarrow> list_all P (butlast xs)"
  by (induction xs) auto

lemma norm_form_push:
  assumes "norm_form st" "comp_ok c" "c \<noteq> RootDir"
  shows "norm_form (push_comp st c)"
proof (cases c)
  case (Normal n)
  have snoc: "plain_name n \<Longrightarrow> norm_form (RootDir # map Normal ns @ [Normal n])"
    "plain_name n \<Longrightarrow> norm_form (replicate k ParentDir @ map Normal ns @ [Normal n])"
    if "list_all plain_name ns" for ns k
    using norm_form.rooted [of "ns @ [n]"] norm_form.relative [of "ns @ [n]" k] that by auto
  from assms(1) show ?thesis
    by cases (use Normal assms(2) snoc in \<open>auto simp: push_comp_def\<close>)
next
  case ParentDir
  have pop: "norm_form (RootDir # map Normal (butlast ns))"
    "norm_form (replicate k ParentDir @ map Normal (butlast ns))" if "list_all plain_name ns" for ns k
    using that list_all_butlast [OF that] by (simp_all add: norm_form.intros)
  have more: "norm_form (replicate k ParentDir @ [ParentDir])" for k
    using norm_form.relative [of "[]" "Suc k"] by (simp flip: replicate_append_same)
  from assms(1) show ?thesis
  proof cases
    case (rooted ns)
    then show ?thesis
      using ParentDir pop(1) [of ns] assms(1)
      by (cases ns rule: rev_cases) (auto simp: push_comp_def butlast_append map_butlast)
  next
    case (relative ns k)
    then show ?thesis
      using ParentDir pop(2) [of ns k] more [of k]
      by (cases ns rule: rev_cases; cases k) (auto simp: push_comp_def butlast_append map_butlast replicate_append_same)
  qed
qed (use assms in \<open>auto simp: push_comp_def\<close>)

lemma norm_form_Nil: "norm_form []"
  using norm_form.relative [of "[]" 0] by simp

lemma norm_form_Root: "norm_form [RootDir]"
  using norm_form.rooted [of "[]"] by simp

lemma norm_form_foldl:
  "norm_form st \<Longrightarrow> \<forall>c \<in> set cs. comp_ok c \<and> c \<noteq> RootDir \<Longrightarrow> norm_form (foldl push_comp st cs)"
  by (induction cs arbitrary: st) (auto intro: norm_form_push)

lemma norm_form_normalize: "norm_form (normalize_comps (components s))"
proof -
  obtain b where b: "components s = RootDir # b \<or> components s = CurDir # b \<or> components s = b"
    "\<forall>c \<in> set b. comp_ok c \<and> c \<noteq> RootDir \<and> c \<noteq> CurDir"
    by (rule components_shape)
  then have "\<forall>c \<in> set b. comp_ok c \<and> c \<noteq> RootDir" by blast
  note f = norm_form_foldl [OF _ this]
  from b(1) show ?thesis
    by (elim disjE) (simp_all add: normalize_comps_def push_comp_def f norm_form_Nil norm_form_Root)
qed

lemma norm_form_push_id: "norm_form (cs @ [c]) \<Longrightarrow> norm_form cs \<and> push_comp cs c = cs @ [c]"
proof (erule norm_form.cases, goal_cases)
  case (1 ns)
  then show ?case
    by (cases ns rule: rev_cases) (auto simp: push_comp_def norm_form_Nil intro: norm_form.rooted)
next
  case (2 ns k)
  show ?case
  proof (cases ns rule: rev_cases)
    case Nil
    with 2 obtain j where "k = Suc j" by (cases k) auto
    with 2 Nil have "cs = replicate j ParentDir" "c = ParentDir"
      by (auto simp flip: replicate_append_same)
    then show ?thesis using norm_form.relative [of "[]" j] by (cases j) (auto simp: push_comp_def)
  qed (use 2 in \<open>auto simp: push_comp_def intro: norm_form.relative\<close>)
qed

lemma normalize_comps_id: "norm_form cs \<Longrightarrow> normalize_comps cs = cs"
proof (induction cs rule: rev_induct)
  case (snoc c cs)
  then show ?case using norm_form_push_id [of cs c] by (simp add: normalize_comps_def)
qed (simp add: normalize_comps_def)

lemma comp_str_plain: "comp_ok c \<Longrightarrow> c \<noteq> RootDir \<Longrightarrow> CHR ''/'' \<notin> set (comp_str c) \<and> comp_str c \<noteq> []"
  by (cases c) (auto simp: plain_name_def)

lemma join_snoc: "ps \<noteq> [] \<Longrightarrow> join_str sep (ps @ [p]) = join_str sep ps @ sep @ p"
  by (induction ps rule: induct_list012) auto

lemma join_last:
  "ps \<noteq> [] \<Longrightarrow> last ps \<noteq> [] \<Longrightarrow> join_str sep ps \<noteq> [] \<and> last (join_str sep ps) = last (last ps)"
  by (induction ps rule: induct_list012) auto

lemma path_join_snoc:
  assumes "ps \<noteq> []" "CHR ''/'' \<notin> set (last ps)" "last ps \<noteq> []" "CHR ''/'' \<notin> set p" "p \<noteq> []"
  shows "path_join (r @ join_str ''/'' ps) p = r @ join_str ''/'' (ps @ [p])"
proof -
  have "last (join_str ''/'' ps) \<noteq> CHR ''/''" "join_str ''/'' ps \<noteq> []"
    using join_last [OF assms(1,3), of "''/''"] assms(2,3) last_in_set by metis+
  moreover have "\<not> is_absolute p"
    using assms(4,5) by (cases p) (auto simp: is_absolute_def starts_with_def)
  ultimately show ?thesis by (simp add: path_join_def join_snoc assms(1))
qed

lemma collect_relative:
  "\<forall>c \<in> set cs. comp_ok c \<and> c \<noteq> RootDir \<Longrightarrow> collect_path cs = join_str ''/'' (map comp_str cs)"
proof (induction cs rule: rev_induct)
  case (snoc c cs)
  note c = comp_str_plain [of c]
  show ?case
  proof (cases "cs = []")
    case True
    then show ?thesis
      using c snoc.prems
      by (cases "comp_str c") (auto simp: collect_path_def path_join_def is_absolute_def starts_with_def)
  next
    case False
    have "path_join ([] @ join_str ''/'' (map comp_str cs)) (comp_str c)
        = [] @ join_str ''/'' (map comp_str cs @ [comp_str c])"
      by (rule path_join_snoc)
        (use False snoc.prems c comp_str_plain [of "last cs"] last_in_set [OF False] in \<open>auto simp: last_map\<close>)
    with snoc show ?thesis by (simp add: collect_path_def)
  qed
qed (simp add: collect_path_def)

lemma collect_rooted:
  "\<forall>c \<in> set cs. comp_ok c \<and> c \<noteq> RootDir \<Longrightarrow>
   collect_path (RootDir # cs) = ''/'' @ join_str ''/'' (map comp_str cs)"
proof (induction cs rule: rev_induct)
  case (snoc c cs)
  note c = comp_str_plain [of c]
  show ?case
  proof (cases "cs = []")
    case True
    then show ?thesis
      using c snoc.prems
      by (cases "comp_str c") (auto simp: collect_path_def path_join_def is_absolute_def starts_with_def)
  next
    case False
    have "path_join (''/'' @ join_str ''/'' (map comp_str cs)) (comp_str c)
        = ''/'' @ join_str ''/'' (map comp_str cs @ [comp_str c])"
      by (rule path_join_snoc)
        (use False snoc.prems c comp_str_plain [of "last cs"] last_in_set [OF False] in \<open>auto simp: last_map\<close>)
    with snoc show ?thesis by (simp add: collect_path_def)
  qed
qed (simp add: collect_path_def path_join_def is_absolute_def starts_with_def)

lemma body_comps_strs:
  "\<forall>c \<in> set cs. comp_ok c \<and> c \<noteq> RootDir \<and> c \<noteq> CurDir \<Longrightarrow> body_comps (map comp_str cs) = cs"
proof (induction cs)
  case (Cons c cs)
  then show ?case by (cases c) (auto simp: body_comps_def map_filter_simps piece_comp_def plain_name_def)
qed (simp add: body_comps_def map_filter_simps)

lemma components_collect:
  assumes "norm_form cs" "cs \<noteq> []"
  shows "components (collect_path cs) = cs"
  using assms(1)
proof cases
  case (rooted ns)
  then have ok: "\<forall>c \<in> set (map Normal ns). comp_ok c \<and> c \<noteq> RootDir \<and> c \<noteq> CurDir"
    by (auto simp: list_all_iff)
  have ns: "\<forall>p \<in> set ns. CHR ''/'' \<notin> set p"
    using rooted(2) by (auto simp: list_all_iff plain_name_def)
  have "collect_path cs = ''/'' @ join_str ''/'' ns"
    using collect_rooted [of "map Normal ns"] ok rooted(1) by (simp add: comp_def)
  moreover have "body_comps (split_char CHR ''/'' (join_str ''/'' ns)) = map Normal ns"
  proof (cases "ns = []")
    case False
    then show ?thesis using body_comps_strs [OF ok] by (simp add: split_join ns comp_def)
  qed (simp add: body_comps_def map_filter_simps piece_comp_def)
  ultimately show ?thesis
    using rooted(1)
    by (simp add: components_def is_absolute_def starts_with_def body_comps_def map_filter_simps piece_comp_def)
next
  case (relative ns k)
  then have ok: "\<forall>c \<in> set cs. comp_ok c \<and> c \<noteq> RootDir \<and> c \<noteq> CurDir"
    by (auto simp: list_all_iff)
  have "\<forall>p \<in> set (map comp_str cs). CHR ''/'' \<notin> set p" using ok comp_str_plain by auto
  then have sp: "split_char CHR ''/'' (join_str ''/'' (map comp_str cs)) = map comp_str cs"
    using assms(2) by (simp add: split_join)
  obtain c cs' where cs: "cs = c # cs'" using assms(2) by (cases cs) auto
  have c: "CHR ''/'' \<notin> set (comp_str c) \<and> comp_str c \<noteq> []" and dot: "comp_str c \<noteq> ''.''"
    using ok comp_str_plain [of c] unfolding cs by (cases c; simp add: plain_name_def)+
  have "join_str ''/'' (map comp_str cs) \<noteq> [] \<and> hd (join_str ''/'' (map comp_str cs)) = hd (comp_str c)"
    using c unfolding cs by (cases cs') simp_all
  moreover have "hd (comp_str c) \<noteq> CHR ''/''"
    using c by (cases "comp_str c") auto
  ultimately have "\<not> is_absolute (join_str ''/'' (map comp_str cs))"
    by (cases "join_str ''/'' (map comp_str cs)") (auto simp: is_absolute_def starts_with_def)
  then show ?thesis
    using collect_relative [of cs] ok body_comps_strs [OF ok] sp dot cs
    by (simp add: components_def)
qed

lemma components_normalize:
  "components (normalize_lexically s) =
     (if normalize_comps (components s) = [] then [CurDir] else normalize_comps (components s))"
proof (cases "normalize_comps (components s) = []")
  case True
  moreover have "components ''.'' = [CurDir]" by code_simp
  ultimately show ?thesis by (simp add: normalize_lexically_def)
next
  case False
  then show ?thesis
    by (simp add: normalize_lexically_def Let_def components_collect norm_form_normalize)
qed

lemma normalize_lexically_idem: "normalize_lexically (normalize_lexically s) = normalize_lexically s"
proof (cases "normalize_comps (components s) = []")
  case True
  moreover have "normalize_lexically ''.'' = ''.''" by code_simp
  ultimately show ?thesis by (simp add: normalize_lexically_def)
next
  case False
  then show ?thesis
    using normalize_comps_id [OF norm_form_normalize, of s]
    by (simp add: normalize_lexically_def [of "normalize_lexically s"] components_normalize Let_def)
      (simp add: normalize_lexically_def)
qed

lemma is_absolute_components: "is_absolute s \<longleftrightarrow> (\<exists>b. components s = RootDir # b)"
proof -
  have "components s \<noteq> RootDir # b" if "\<not> is_absolute s" for b
  proof -
    obtain p ps where sp: "split_char CHR ''/'' s = p # ps" by (cases "split_char CHR ''/'' s") auto
    have "\<forall>c \<in> set (body_comps (p # ps)). c \<noteq> RootDir"
      using body_comps_ok [OF split_char_no_sep, of s] sp by metis
    then have "RootDir \<notin> set ((if p = ''.'' then [CurDir] else []) @ body_comps (p # ps))" by auto
    with that sp show ?thesis by (auto simp: components_def)
  qed
  then show ?thesis by (auto simp: components_def)
qed

lemma foldl_push_rooted: "foldl push_comp (RootDir # st) cs \<noteq> [] \<and> hd (foldl push_comp (RootDir # st) cs) = RootDir"
proof (induction cs arbitrary: st)
  case (Cons c cs)
  have "\<exists>st'. push_comp (RootDir # st) c = RootDir # st'"
    by (cases st rule: rev_cases) (auto simp: push_comp_def butlast_append split: path_comp.splits)
  with Cons show ?case by auto
qed simp

lemma normalize_absolute:
  assumes "is_absolute s"
  obtains ns where "components (normalize_lexically s) = RootDir # map Normal ns" "list_all plain_name ns"
proof -
  obtain b where b: "components s = RootDir # b" using assms is_absolute_components by blast
  have "push_comp [] RootDir = [RootDir]" by (simp add: push_comp_def)
  with b foldl_push_rooted [of "[]" b]
  have n: "normalize_comps (components s) \<noteq> []" "hd (normalize_comps (components s)) = RootDir"
    by (auto simp: normalize_comps_def)
  have "\<exists>ns. normalize_comps (components s) = RootDir # map Normal ns \<and> list_all plain_name ns"
    using norm_form_normalize [of s]
  proof cases
    case (relative ns k)
    then show ?thesis using n by (cases k; cases ns) auto
  qed auto
  with n that show thesis by (auto simp: components_normalize)
qed

text \<open>
  Lexical normalisation is idempotent, and on an absolute path it leaves a rooted path of plain
  names: no \<open>.\<close>, no \<open>..\<close> and no empty component survives for a rule pattern to be confused by.
\<close>
theorem normalize_lexically_clean:
  assumes "is_absolute s"
  shows "normalize_lexically (normalize_lexically s) = normalize_lexically s
    \<and> (\<exists>ns. components (normalize_lexically s) = RootDir # map Normal ns \<and> list_all plain_name ns)"
  using normalize_lexically_idem normalize_absolute [OF assms] by metis

lemma normalize_lexically_clean_witness:
  "is_absolute ''/a/../../b/./c'' \<and> components (normalize_lexically ''/a/../../b/./c'') = [RootDir, Normal ''b'', Normal ''c'']
   \<and> normalize_lexically (normalize_lexically ''/a/../../b/./c'') = normalize_lexically ''/a/../../b/./c''"
proof -
  have "is_absolute ''/a/../../b/./c''" by code_simp
  with normalize_lexically_clean [OF this]
  have "is_absolute ''/a/../../b/./c''
    \<and> normalize_lexically (normalize_lexically ''/a/../../b/./c'') = normalize_lexically ''/a/../../b/./c''"
    by blast
  moreover have "components (normalize_lexically ''/a/../../b/./c'') = [RootDir, Normal ''b'', Normal ''c'']"
    by code_simp
  ultimately show ?thesis by blast
qed

end
