(* ===== verification/PolicyProofs.thy ===== *)
theory PolicyProofs
  imports PermissionPolicy
begin

section \<open>What the permission policy guarantees\<close>

text \<open>
  The correctness lemmas of \<open>PermissionPolicy\<close>: the algebra of the two decision combiners (a locale
  interpreted on both), the closed form of the rule evaluation, the characterisation of the Bash
  gate by the commands a script reveals and the places where analysis gives up, and the allow walk.
\<close>

subsection \<open>Combining decisions by rank\<close>

locale decision_combiner =
  fixes rank :: "'a \<Rightarrow> nat"
    and comb :: "'a option \<Rightarrow> 'a option \<Rightarrow> 'a option"
  assumes comb_None_left: "comb None b = b"
    and comb_None_right: "comb a None = a"
    and comb_Some: "comb (Some x) (Some y) = Some (if rank x \<ge> rank y then x else y)"
begin

definition orank :: "'a option \<Rightarrow> nat" where
  "orank d = (case d of None \<Rightarrow> 0 | Some x \<Rightarrow> Suc (rank x))"

lemma orank_simps [simp]: "orank None = 0" "orank (Some x) = Suc (rank x)"
  by (auto simp: orank_def)

lemma orank_zero: "orank d = 0 \<longleftrightarrow> d = None"
  by (cases d) auto

lemma orank_comb: "orank (comb a b) = max (orank a) (orank b)"
  by (cases a; cases b) (auto simp: comb_None_left comb_None_right comb_Some)

lemma comb_cases: "comb a b = a \<or> comb a b = b"
  by (cases a; cases b) (auto simp: comb_None_left comb_None_right comb_Some)

lemma comb_assoc: "comb (comb a b) c = comb a (comb b c)"
  by (cases a; cases b; cases c) (auto simp: comb_None_left comb_None_right comb_Some)

lemma comb_None_iff: "comb a b = None \<longleftrightarrow> a = None \<and> b = None"
  by (cases a; cases b) (auto simp: comb_None_left comb_None_right comb_Some)

lemma orank_foldl_le: "orank (foldl comb d xs) \<le> n \<longleftrightarrow> orank d \<le> n \<and> (\<forall>x \<in> set xs. orank x \<le> n)"
  by (induction xs arbitrary: d) (auto simp: orank_comb)

lemma orank_foldl_ge:
  "n < orank (foldl comb d xs) \<longleftrightarrow> n < orank d \<or> (\<exists>x \<in> set xs. n < orank x)"
  by (induction xs arbitrary: d) (auto simp: orank_comb less_max_iff_disj)

lemma foldl_in: "foldl comb d xs \<in> insert d (set xs)"
proof (induction xs arbitrary: d)
  case (Cons x xs)
  then show ?case using comb_cases [of d x] by fastforce
qed simp

end

interpretation gate: decision_combiner gate_rank combine_gate_decisions
  by unfold_locales (auto simp: combine_gate_decisions_def combine_ranked_def split: option.splits)

interpretation dec: decision_combiner decision_rank combine_decisions
  by unfold_locales (auto simp: combine_decisions_def combine_ranked_def split: option.splits)

subsection \<open>The rule evaluation in closed form\<close>

definition applies :: "'g host \<Rightarrow> access_kind \<Rightarrow> string option \<Rightarrow> permission_rule \<Rightarrow> bool" where
  "applies H access cwd r \<longleftrightarrow> rule_applies H access cwd (r, compile_matcher H r)"

lemma zip_matchers:
  "zip (pcf_rules (cp_config (compile_policy H cfg))) (cp_matchers (compile_policy H cfg))
     = map (\<lambda>r. (r, compile_matcher H r)) (pcf_rules cfg)"
  by (simp add: compile_policy_def Let_def zip_map2 zip_same_conv_map comp_def)

lemma scan_rules_closed:
  "scan_rules H access cwd (map (\<lambda>r. (r, compile_matcher H r)) rules) ask allow =
     (case filter (\<lambda>r. applies H access cwd r \<and> pr_action r = DenyRule) rules of
        r # _ \<Rightarrow> Inl (DReject (deny_reason r))
      | [] \<Rightarrow> Inr (ask \<or> list_ex (\<lambda>r. applies H access cwd r \<and> pr_action r = AskRule) rules,
                   allow \<or> list_ex (\<lambda>r. applies H access cwd r \<and> pr_action r = AllowRule) rules))"
proof (induction rules arbitrary: ask allow)
  case (Cons r rules)
  then show ?case
    by (cases "pr_action r") (auto simp: applies_def split: list.splits)
qed auto

definition lexical_spec ::
    "'g host \<Rightarrow> permission_config \<Rightarrow> access_kind \<Rightarrow> string option \<Rightarrow> decision option" where
  "lexical_spec H cfg access cwd =
     (case filter (\<lambda>r. applies H access cwd r \<and> pr_action r = DenyRule) (pcf_rules cfg) of
        r # _ \<Rightarrow> Some (DReject (deny_reason r))
      | [] \<Rightarrow>
          if list_ex (\<lambda>r. applies H access cwd r \<and> pr_action r = AskRule) (pcf_rules cfg) then Some DAsk
          else (case access of
                  BashAccess cmd \<Rightarrow>
                    if cp_has_bash_allow_rules (compile_policy H cfg)
                       \<and> bash_chain_fully_allowed H (compile_policy H cfg) AnyScope MAX_INLINE_SHELL_DEPTH cmd
                    then Some DAllow else None
                | _ \<Rightarrow>
                    if list_ex (\<lambda>r. applies H access cwd r \<and> pr_action r = AllowRule) (pcf_rules cfg)
                    then Some DAllow else None))"

lemma evaluate_lexical_spec:
  "evaluate_lexical_with_cwd H (compile_policy H cfg) access cwd = lexical_spec H cfg access cwd"
  unfolding evaluate_lexical_with_cwd_def zip_matchers scan_rules_closed lexical_spec_def
  by (simp split: list.splits access_kind.splits)

lemma lexical_rank_cases:
  "lexical_spec H cfg access cwd = None \<or> lexical_spec H cfg access cwd = Some DAllow
   \<or> lexical_spec H cfg access cwd = Some DAsk \<or> (\<exists>why. lexical_spec H cfg access cwd = Some (DReject why))"
  unfolding lexical_spec_def by (auto split: list.splits access_kind.splits)

definition denied_by :: "'g host \<Rightarrow> permission_config \<Rightarrow> access_kind \<Rightarrow> string option \<Rightarrow> bool" where
  "denied_by H cfg access cwd \<longleftrightarrow>
     (\<exists>r \<in> set (pcf_rules cfg). applies H access cwd r \<and> pr_action r = DenyRule)"

definition asked_by :: "'g host \<Rightarrow> permission_config \<Rightarrow> access_kind \<Rightarrow> string option \<Rightarrow> bool" where
  "asked_by H cfg access cwd \<longleftrightarrow>
     (\<exists>r \<in> set (pcf_rules cfg). applies H access cwd r \<and> pr_action r = AskRule)"

definition allowed_by :: "'g host \<Rightarrow> permission_config \<Rightarrow> access_kind \<Rightarrow> string option \<Rightarrow> bool" where
  "allowed_by H cfg access cwd \<longleftrightarrow>
     (case access of
        BashAccess cmd \<Rightarrow>
          cp_has_bash_allow_rules (compile_policy H cfg)
          \<and> bash_chain_fully_allowed H (compile_policy H cfg) AnyScope MAX_INLINE_SHELL_DEPTH cmd
      | _ \<Rightarrow> \<exists>r \<in> set (pcf_rules cfg). applies H access cwd r \<and> pr_action r = AllowRule)"

lemma lexical_denied:
  assumes "denied_by H cfg access cwd"
  shows "\<exists>r \<in> set (pcf_rules cfg). applies H access cwd r \<and> pr_action r = DenyRule
           \<and> lexical_spec H cfg access cwd = Some (DReject (deny_reason r))"
proof -
  let ?P = "\<lambda>r. applies H access cwd r \<and> pr_action r = DenyRule"
  obtain r rs where f: "filter ?P (pcf_rules cfg) = r # rs"
    using assms unfolding denied_by_def by (cases "filter ?P (pcf_rules cfg)") (auto simp: filter_empty_conv)
  then have "r \<in> set (pcf_rules cfg)" "?P r"
    using in_set_conv_decomp filter_eq_ConsD [OF f] by (metis (no_types, lifting) in_set_conv_decomp)+
  moreover have "lexical_spec H cfg access cwd = Some (DReject (deny_reason r))"
    using f by (simp add: lexical_spec_def)
  ultimately show ?thesis by blast
qed

lemma lexical_not_denied:
  assumes "\<not> denied_by H cfg access cwd"
  shows "lexical_spec H cfg access cwd =
    (if asked_by H cfg access cwd then Some DAsk else if allowed_by H cfg access cwd then Some DAllow else None)"
proof -
  have "filter (\<lambda>r. applies H access cwd r \<and> pr_action r = DenyRule) (pcf_rules cfg) = []"
    using assms by (auto simp: denied_by_def filter_empty_conv)
  moreover have "list_ex P xs \<longleftrightarrow> (\<exists>x \<in> set xs. P x)" for P and xs :: "permission_rule list"
    by (rule list_ex_iff)
  ultimately show ?thesis
    unfolding lexical_spec_def asked_by_def allowed_by_def by (simp split: access_kind.split)
qed

lemma lexical_reject_iff:
  "(\<exists>why. lexical_spec H cfg access cwd = Some (DReject why)) \<longleftrightarrow> denied_by H cfg access cwd"
  using lexical_denied [of H cfg access cwd] lexical_not_denied [of H cfg access cwd]
  by (cases "denied_by H cfg access cwd") auto

lemma lexical_ask_iff:
  "lexical_spec H cfg access cwd = Some DAsk \<longleftrightarrow>
     \<not> denied_by H cfg access cwd \<and> asked_by H cfg access cwd"
  using lexical_denied [of H cfg access cwd] lexical_not_denied [of H cfg access cwd]
  by (cases "denied_by H cfg access cwd") auto

subsection \<open>The allow walk depends only on the set of rules\<close>

lemma bash_words_allowed_rules:
  "bash_words_allowed H (compile_policy H cfg) scope words \<longleftrightarrow>
     words \<noteq> [] \<and> \<not> (scope = NarrowOnly \<and> head_is_exec_vehicle words)
     \<and> (\<exists>r \<in> set (pcf_rules cfg).
          \<not> (scope = NarrowOnly \<and> rule_is_catchall H r) \<and> pr_action r = AllowRule
          \<and> pr_tool r \<in> {BashTool, AnyTool}
          \<and> bash_allow_pattern_matches H (join_str '' '' words) r (compile_matcher H r))"
proof -
  have "zip (zip (pcf_rules (cp_config (compile_policy H cfg))) (cp_matchers (compile_policy H cfg)))
        (cp_catchall (compile_policy H cfg))
      = map (\<lambda>r. ((r, compile_matcher H r), rule_is_catchall H r)) (pcf_rules cfg)"
    unfolding zip_matchers by (simp add: compile_policy_def Let_def zip_map_map zip_same_conv_map)
  then show ?thesis
    by (auto simp: bash_words_allowed_def list_ex_iff Let_def)
qed
lemma has_bash_allow_rules_iff:
  "cp_has_bash_allow_rules (compile_policy H cfg) \<longleftrightarrow>
     (\<exists>r \<in> set (pcf_rules cfg). pr_action r = AllowRule \<and> pr_tool r \<in> {BashTool, AnyTool})"
  by (simp add: compile_policy_def Let_def list_ex_iff)

lemma words_allowed_set:
  "set (pcf_rules cfg) = set (pcf_rules cfg') \<Longrightarrow>
   bash_words_allowed H (compile_policy H cfg) = bash_words_allowed H (compile_policy H cfg')"
  by (intro ext) (simp add: bash_words_allowed_rules)

lemma segment_allowed_set:
  "set (pcf_rules cfg) = set (pcf_rules cfg') \<Longrightarrow>
   segment_allowed H (compile_policy H cfg) = segment_allowed H (compile_policy H cfg')"
  by (intro ext) (simp add: segment_allowed_def words_allowed_set [of cfg cfg'])

lemma chain_allowed_set:
  assumes "set (pcf_rules cfg) = set (pcf_rules cfg')"
  shows "bash_chain_fully_allowed H (compile_policy H cfg) scope n
    = bash_chain_fully_allowed H (compile_policy H cfg') scope n"
proof -
  have "chain_allowed_with H (compile_policy H cfg) = chain_allowed_with H (compile_policy H cfg')"
    by (intro ext) (simp only: chain_allowed_with_def segment_allowed_set [OF assms])
  then show ?thesis by (induction n) simp_all
qed

lemma by_set:
  assumes "set (pcf_rules cfg) = set (pcf_rules cfg')"
  shows "denied_by H cfg = denied_by H cfg'" "asked_by H cfg = asked_by H cfg'" "allowed_by H cfg = allowed_by H cfg'"
  by (auto simp: fun_eq_iff denied_by_def asked_by_def allowed_by_def assms has_bash_allow_rules_iff
      chain_allowed_set [OF assms] split: access_kind.split)

text \<open>The class of a decision: what the caller does, without the text of the reason.\<close>

definition same_class :: "decision option \<Rightarrow> decision option \<Rightarrow> bool" where
  "same_class a b \<longleftrightarrow>
     (case (a, b) of
        (Some (DReject _), Some (DReject _)) \<Rightarrow> True
      | _ \<Rightarrow> a = b)"

lemma lexical_same_class:
  assumes "set (pcf_rules cfg) = set (pcf_rules cfg')"
  shows "same_class (lexical_spec H cfg access cwd) (lexical_spec H cfg' access cwd)"
proof (cases "denied_by H cfg access cwd")
  case True
  then have "denied_by H cfg' access cwd" by (simp add: by_set [OF assms])
  with True show ?thesis
    using lexical_denied [of H cfg access cwd] lexical_denied [of H cfg' access cwd]
    by (auto simp: same_class_def)
next
  case False
  then have *: "\<not> denied_by H cfg' access cwd" by (simp add: by_set [OF assms])
  show ?thesis
    unfolding lexical_not_denied [OF False] lexical_not_denied [OF *] by_set [OF assms]
    by (simp add: same_class_def)
qed

subsection \<open>Following a link only escalates\<close>

lemma escalating_cases: "escalating d = None \<or> escalating d = Some DAsk \<or> (\<exists>r. escalating d = Some (DReject r))"
  by (auto simp: escalating_def split: option.splits decision.splits)

lemma escalating_not_allow: "escalating d \<noteq> Some DAllow"
  using escalating_cases [of d] by auto

lemma details_cases:
  obtains e where
    "fst (evaluate_with_cwd_details H pol access cwd)
       = combine_decisions (evaluate_lexical_with_cwd H pol access cwd) e"
    "e = None \<or> e = Some DAsk \<or> (\<exists>r. e = Some (DReject r))"
proof -
  let ?l = "evaluate_lexical_with_cwd H pol access cwd"
  let ?r = "fst (evaluate_with_cwd_details H pol access cwd)"
  have n: "combine_decisions ?l None = ?l" by (rule dec.comb_None_right)
  have "?r = ?l \<or> ?r = combine_decisions ?l (Some DAsk)
      \<or> (\<exists>a. ?r = combine_decisions ?l (escalating (evaluate_lexical_with_cwd H pol a cwd)))"
    unfolding evaluate_with_cwd_details_def Let_def
    by (simp split: option.split symlink_follow.split) blast
  then show thesis
    using that [of None] that [of "Some DAsk"] that escalating_cases n by metis
qed

lemma evaluate_bash: "evaluate H pol (BashAccess cmd) = evaluate_lexical_with_cwd H pol (BashAccess cmd) None"
  by (simp add: evaluate_def evaluate_with_cwd_def evaluate_with_cwd_details_def native_file_path_def Let_def)

subsection \<open>What a script reveals\<close>

text \<open>
  The specification of the gate.  \<open>reveals H n cmd ws\<close>: with \<open>n\<close> inline levels left, \<open>ws\<close> is the
  argument vector of a command of the script, as written or with its wrappers peeled off, at the top
  or inside the script handed to \<open>sh -c\<close> or \<open>env -S\<close>.  \<open>opaque H n cmd\<close>: somewhere on the way the
  analysis has to give up.
\<close>

definition segment :: "'g host \<Rightarrow> string \<Rightarrow> string list \<Rightarrow> bool" where
  "segment H cmd ws \<longleftrightarrow>
     (\<exists>segs c. all_commands_from_script (parse_shell H) cmd = Some segs \<and> c \<in> set segs \<and> pc_words c = ws)"

abbreviation normal_words :: "string list \<Rightarrow> string list" where
  "normal_words ws \<equiv> wp_words (normalize_command_words ws)"

definition inline_of :: "string list \<Rightarrow> inline_script" where
  "inline_of ws = shell_dash_c_script (map LiteralWord (normal_words ws))"

definition packed_of :: "string list \<Rightarrow> string option" where
  "packed_of ws = env_split_string_script (normal_words ws)"

text \<open>The scripts one inline level down.\<close>

definition inner_of :: "string list \<Rightarrow> string \<Rightarrow> bool" where
  "inner_of ws s \<longleftrightarrow>
     (\<exists>i. inline_of ws = InlineLiteral i \<and> s = normal_words ws ! i) \<or> packed_of ws = Some s"

definition inner_script :: "'g host \<Rightarrow> string \<Rightarrow> string \<Rightarrow> bool" where
  "inner_script H cmd s \<longleftrightarrow> (\<exists>ws. segment H cmd ws \<and> inner_of ws s)"

definition dynamic_inline :: "string list \<Rightarrow> bool" where
  "dynamic_inline ws \<longleftrightarrow> inline_of ws = InlineUntrusted \<or> inline_of ws = InlineUnrecognized"

inductive reveals :: "'g host \<Rightarrow> nat \<Rightarrow> string \<Rightarrow> string list \<Rightarrow> bool" for H where
  raw: "segment H cmd ws \<Longrightarrow> reveals H n cmd ws"
| normal: "segment H cmd ws \<Longrightarrow> reveals H n cmd (normal_words ws)"
| inner: "inner_script H cmd s \<Longrightarrow> reveals H n s ws \<Longrightarrow> reveals H (Suc n) cmd ws"

inductive opaque :: "'g host \<Rightarrow> nat \<Rightarrow> string \<Rightarrow> bool" for H where
  undecomposable: "all_commands_from_script (parse_shell H) cmd = None \<Longrightarrow> opaque H n cmd"
| flagged: "segment H cmd ws \<Longrightarrow> norm_flagged (normalize_command_words ws) \<Longrightarrow> opaque H n cmd"
| dynamic: "segment H cmd ws \<Longrightarrow> dynamic_inline ws \<Longrightarrow> opaque H n cmd"
| too_deep: "inner_script H cmd s \<Longrightarrow> opaque H 0 cmd"
| inner: "inner_script H cmd s \<Longrightarrow> opaque H n s \<Longrightarrow> opaque H (Suc n) cmd"

inductive_cases reveals_0E: "reveals H 0 cmd ws"
inductive_cases reveals_SucE: "reveals H (Suc n) cmd ws"
inductive_simps reveals_0: "reveals H 0 cmd ws"
inductive_simps reveals_Suc: "reveals H (Suc n) cmd ws"
inductive_simps opaque_0: "opaque H 0 cmd"
inductive_simps opaque_Suc: "opaque H (Suc n) cmd"

abbreviation escalates :: "'g host \<Rightarrow> 'g compiled_policy \<Rightarrow> string list \<Rightarrow> gate_decision option" where
  "escalates \<equiv> escalate_segment"

subsection \<open>The gate, one command at a time\<close>

definition norm_flag :: "string list \<Rightarrow> gate_decision option" where
  "norm_flag ws = fail_closed_if (norm_flagged (normalize_command_words ws))"

lemma fail_closed_combine:
  "combine_gate_decisions (fail_closed_if a) (fail_closed_if b) = fail_closed_if (a \<or> b)"
  by (simp add: fail_closed_if_def gate.comb_None_left gate.comb_None_right gate.comb_Some)

lemma normal_words_same_length: "length (normal_words ws) = length ws \<Longrightarrow> normal_words ws = ws"
  using peels_star_same_length normalize_peels by blast

lemma orank_fail_closed [simp]: "gate.orank (fail_closed_if b) = (if b then 2 else 0)"
  by (simp add: fail_closed_if_def)

lemma command_words_rank:
  "gate.orank (evaluate_command_words H pol rec ws) =
     max (gate.orank (norm_flag ws))
    (max (max (gate.orank (escalates H pol ws)) (gate.orank (escalates H pol (normal_words ws))))
    (max (gate.orank (inline_gate rec (normal_words ws)))
         (gate.orank (split_string_gate rec (normal_words ws)))))"
proof (cases "length (normal_words ws) = length ws")
  case True
  from normal_words_same_length [OF this] True show ?thesis
    by (simp add: evaluate_command_words_def Let_def gate.orank_comb fail_closed_combine norm_flag_def
        norm_flagged_def disj_commute disj_left_commute max.assoc)
next
  case False
  then show ?thesis
    by (simp add: evaluate_command_words_def Let_def gate.orank_comb fail_closed_combine norm_flag_def
        norm_flagged_def disj_commute disj_left_commute max.assoc)
qed

lemma segments_with_rank:
  "n < gate.orank (command_segments_with H pol rec cmd) \<longleftrightarrow>
     (all_commands_from_script (parse_shell H) cmd = None \<and> n < 2)
     \<or> (\<exists>ws. segment H cmd ws \<and> n < gate.orank (evaluate_command_words H pol rec ws))"
proof (cases "all_commands_from_script (parse_shell H) cmd")
  case None
  then show ?thesis by (auto simp: command_segments_with_def segment_def)
next
  case (Some segs)
  have "command_segments_with H pol rec cmd
      = foldl combine_gate_decisions None (map (\<lambda>c. evaluate_command_words H pol rec (pc_words c)) segs)"
    by (simp add: command_segments_with_def Some foldl_map)
  with Some show ?thesis by (auto simp: gate.orank_foldl_ge segment_def)
qed

text \<open>The rank of the decision about inner scripts, with and without inline budget.\<close>

lemma inner_rank_None:
  "n < max (gate.orank (inline_gate None (normal_words ws))) (gate.orank (split_string_gate None (normal_words ws)))
   \<longleftrightarrow> n < 2 \<and> (dynamic_inline ws \<or> (\<exists>s. inner_of ws s))"
  by (auto simp: inline_gate_def split_string_gate_def inline_of_def packed_of_def dynamic_inline_def
      inner_of_def split: inline_script.splits option.splits)

lemma inner_rank_Some:
  "n < max (gate.orank (inline_gate (Some f) (normal_words ws))) (gate.orank (split_string_gate (Some f) (normal_words ws)))
   \<longleftrightarrow> n < 2 \<and> dynamic_inline ws \<or> (\<exists>s. inner_of ws s \<and> n < gate.orank (f s))"
  by (auto simp: inline_gate_def split_string_gate_def inline_of_def packed_of_def less_max_iff_disj
      dynamic_inline_def inner_of_def split: inline_script.splits option.splits)

lemma norm_flag_rank: "n < gate.orank (norm_flag ws) \<longleftrightarrow> n < 2 \<and> norm_flagged (normalize_command_words ws)"
  by (simp add: norm_flag_def)

lemma command_rank:
  "n < gate.orank (evaluate_command_words H pol rec ws) \<longleftrightarrow>
     n < 2 \<and> norm_flagged (normalize_command_words ws)
     \<or> n < gate.orank (escalates H pol ws) \<or> n < gate.orank (escalates H pol (normal_words ws))
     \<or> n < max (gate.orank (inline_gate rec (normal_words ws))) (gate.orank (split_string_gate rec (normal_words ws)))"
  unfolding command_words_rank less_max_iff_disj norm_flag_rank by blast

text \<open>
  The gate in closed form: its rank exceeds \<open>k\<close> exactly when a revealed command does, or when the
  script is opaque and \<open>k\<close> is below the fail-closed rank.
\<close>

lemma gate_rank_iff:
  "k < gate.orank (evaluate_bash_command_segments H pol n cmd) \<longleftrightarrow>
     opaque H n cmd \<and> k < 2 \<or> (\<exists>ws. reveals H n cmd ws \<and> k < gate.orank (escalates H pol ws))"
proof (induction n arbitrary: cmd)
  case 0
  show ?case
    unfolding evaluate_bash_command_segments.simps segments_with_rank command_rank
      inner_rank_None opaque_0 reveals_0 inner_script_def
    by blast
next
  case (Suc n)
  show ?case
    unfolding evaluate_bash_command_segments.simps segments_with_rank command_rank
      inner_rank_Some Suc.IH opaque_Suc reveals_Suc inner_script_def
    by blast
qed

lemma escalates_rank:
  "gate.orank (escalates H (compile_policy H cfg) ws) =
     (if denied_by H cfg (BashAccess (join_str '' '' ws)) None then 4
      else if asked_by H cfg (BashAccess (join_str '' '' ws)) None then 3 else 0)"
  using lexical_denied [of H cfg "BashAccess (join_str '' '' ws)" None]
    lexical_not_denied [of H cfg "BashAccess (join_str '' '' ws)" None]
  by (auto simp: escalate_segment_def evaluate_bash evaluate_lexical_spec)

lemma gate_from_rank:
  "(\<exists>why. g = Some (GReject why)) \<longleftrightarrow> 3 < gate.orank g"
  "g = Some GAskRuleMatch \<longleftrightarrow> 2 < gate.orank g \<and> \<not> 3 < gate.orank g"
  "g = Some GAskFailClosed \<longleftrightarrow> 1 < gate.orank g \<and> \<not> 2 < gate.orank g"
  "g = None \<longleftrightarrow> \<not> 1 < gate.orank g"
  by (cases g; cases "the g"; simp)+

lemma restrictions_from_rules:
  "cp_has_bash_command_restrictions (compile_policy H cfg) \<longleftrightarrow>
     (\<exists>r \<in> set (pcf_rules cfg). restricts r \<and> pr_tool r \<in> {BashTool, AnyTool})"
  by (simp add: compile_policy_def Let_def list_ex_iff)

lemma bash_rule_tool: "tool_filter_matches (BashAccess cmd) t \<longleftrightarrow> t \<in> {BashTool, AnyTool}"
  by (cases t) auto

lemma denied_restricts:
  "denied_by H cfg (BashAccess cmd) cwd \<or> asked_by H cfg (BashAccess cmd) cwd \<Longrightarrow>
   cp_has_bash_command_restrictions (compile_policy H cfg)"
  unfolding restrictions_from_rules denied_by_def asked_by_def applies_def rule_applies_def bash_rule_tool
    restricts_def
  by auto

subsection \<open>The allow walk\<close>

inductive reached :: "'g host \<Rightarrow> nat \<Rightarrow> string \<Rightarrow> string list \<Rightarrow> bool" for H where
  here: "segment H cmd ws \<Longrightarrow> reached H n cmd ws"
| inline: "segment H cmd ws \<Longrightarrow> inline_of ws = InlineLiteral i \<Longrightarrow>
    reached H n (normal_words ws ! i) ws' \<Longrightarrow> reached H (Suc n) cmd ws'"

inductive_simps reached_0: "reached H 0 cmd ws"
inductive_simps reached_Suc: "reached H (Suc n) cmd ws"

lemma chain_allowed_with_iff:
  "chain_allowed_with H pol scope rec cmd \<longleftrightarrow>
     (\<exists>segs. all_commands_from_script (parse_shell H) cmd = Some segs \<and> segs \<noteq> [])
     \<and> (\<forall>ws. segment H cmd ws \<longrightarrow> segment_allowed H pol scope rec ws)"
  by (auto simp: chain_allowed_with_def segment_def list_all_iff split: option.splits)

lemma segment_allowed_iff:
  "segment_allowed H pol scope rec ws \<longleftrightarrow>
     \<not> norm_flagged (normalize_command_words ws) \<and> bash_words_allowed H pol scope (normal_words ws)
     \<and> \<not> dynamic_inline ws
     \<and> (\<forall>i. inline_of ws = InlineLiteral i \<longrightarrow> (\<exists>f. rec = Some f \<and> f (normal_words ws ! i)))"
  by (auto simp: segment_allowed_def Let_def norm_flagged_def inline_of_def dynamic_inline_def
      split: inline_script.splits option.splits)

lemma chain_allowed_reached:
  assumes "bash_chain_fully_allowed H pol scope n cmd" "reached H n cmd ws"
  shows "\<not> norm_flagged (normalize_command_words ws) \<and> bash_words_allowed H pol scope (normal_words ws)
    \<and> \<not> dynamic_inline ws"
  using assms(2,1)
proof (induction rule: reached.induct)
  case (here cmd ws n)
  then show ?case by (cases n) (auto simp: chain_allowed_with_iff segment_allowed_iff)
next
  case (inline cmd ws i n ws')
  then show ?case by (auto simp: chain_allowed_with_iff segment_allowed_iff)
qed

lemma words_allowed_narrow:
  "bash_words_allowed H (compile_policy H cfg) NarrowOnly ws \<Longrightarrow>
   bash_words_allowed H (compile_policy H cfg) AnyScope ws"
  by (auto simp: bash_words_allowed_rules)

lemma chain_allowed_narrow:
  "bash_chain_fully_allowed H (compile_policy H cfg) NarrowOnly n cmd \<Longrightarrow>
   bash_chain_fully_allowed H (compile_policy H cfg) AnyScope n cmd"
proof (induction n arbitrary: cmd)
  case 0
  then show ?case by (simp add: chain_allowed_with_iff segment_allowed_iff words_allowed_narrow)
next
  case (Suc n)
  then show ?case by (fastforce simp: chain_allowed_with_iff segment_allowed_iff words_allowed_narrow)
qed

lemma allowed_by_bash:
  "allowed_by H cfg (BashAccess cmd) cwd \<longleftrightarrow>
     cp_has_bash_allow_rules (compile_policy H cfg)
     \<and> bash_chain_fully_allowed H (compile_policy H cfg) AnyScope MAX_INLINE_SHELL_DEPTH cmd"
  by (simp add: allowed_by_def)

subsection \<open>A concrete host for the examples\<close>

text \<open>
  One command per script, words separated by single spaces; a glob matches itself; one symbolic
  link \<open>/w/link\<close> to \<open>/etc/passwd\<close>.
\<close>

fun place_words :: "nat \<Rightarrow> string list \<Rightarrow> ts_node list" where
  "place_words i [] = []"
| "place_words i (w # ws) = TsNode ''word'' (Some ''argument'') True i (i + length w) False [] # place_words (i + length w + 1) ws"

definition demo_parse :: "string \<Rightarrow> ts_node option" where
  "demo_parse s =
     (case place_words 0 (split_char CHR '' '' s) of
        [] \<Rightarrow> None
      | w # ws \<Rightarrow>
          Some (TsNode ''program'' None True 0 (length s) False
            [TsNode ''command'' None True 0 (length s) False
               (TsNode ''command_name'' (Some ''name'') True (ts_start w) (ts_end w) False [w] # ws)]))"

definition demo_host :: "string host" where
  "demo_host =
     \<lparr>glob_new = Some, glob_matches_with = (\<lambda>p path t. t = p), parse_shell = demo_parse,
      url_host = (\<lambda>u. None), unicode_lower = to_ascii_lowercase,
      fs_canonicalize = (\<lambda>p. if p = ''/w/link'' then Some ''/etc/passwd'' else Some p),
      fs_symlink_metadata = (\<lambda>p. if p = ''/w/link'' then MetaSymlink else MetaOther),
      fs_read_link = (\<lambda>p. if p = ''/w/link'' then Some ''/etc/passwd'' else None)\<rparr>"

definition demo_rule :: "rule_action \<Rightarrow> tool_filter \<Rightarrow> string option \<Rightarrow> permission_rule" where
  "demo_rule a t p = \<lparr>pr_action = a, pr_tool = t, pr_pattern = p, pr_mode = GlobMode\<rparr>"

abbreviation demo_cfg :: "permission_rule list \<Rightarrow> permission_config" where
  "demo_cfg rs \<equiv> permission_config_new rs"

subsection \<open>Properties\<close>

text \<open>
  C19. The rule evaluation is deny over ask over allow: it rejects exactly when some deny rule
  applies, asks exactly when no deny but some ask rule applies, and allows exactly when neither
  does and the access is allowed (for a Bash command, by the conjunctive walk over its segments).
\<close>
theorem deny_over_ask_over_allow:
  "((\<exists>why. evaluate_lexical_with_cwd H (compile_policy H cfg) access cwd = Some (DReject why))
      \<longleftrightarrow> denied_by H cfg access cwd)
   \<and> (evaluate_lexical_with_cwd H (compile_policy H cfg) access cwd = Some DAsk
      \<longleftrightarrow> \<not> denied_by H cfg access cwd \<and> asked_by H cfg access cwd)
   \<and> (evaluate_lexical_with_cwd H (compile_policy H cfg) access cwd = Some DAllow
      \<longleftrightarrow> \<not> denied_by H cfg access cwd \<and> \<not> asked_by H cfg access cwd \<and> allowed_by H cfg access cwd)
   \<and> (evaluate_lexical_with_cwd H (compile_policy H cfg) access cwd = None
      \<longleftrightarrow> \<not> denied_by H cfg access cwd \<and> \<not> asked_by H cfg access cwd \<and> \<not> allowed_by H cfg access cwd)"
proof (cases "denied_by H cfg access cwd")
  case True
  from lexical_denied [OF this] True show ?thesis by (auto simp: evaluate_lexical_spec)
next
  case False
  from lexical_not_denied [OF this] False show ?thesis by (auto simp: evaluate_lexical_spec)
qed

text \<open>
  The order of the rules does not matter: two configurations with the same rules, in any order
  and with any repetition, decide every access alike (up to which deny rule is named).
\<close>
theorem rule_order_irrelevant:
  assumes "set (pcf_rules cfg) = set (pcf_rules cfg')"
  shows "same_class (evaluate_lexical_with_cwd H (compile_policy H cfg) access cwd)
           (evaluate_lexical_with_cwd H (compile_policy H cfg') access cwd)"
  unfolding evaluate_lexical_spec by (rule lexical_same_class [OF assms])

lemma rule_order_irrelevant_witness:
  "same_class
     (evaluate_lexical_with_cwd demo_host
        (compile_policy demo_host (demo_cfg [demo_rule AllowRule EditTool None, demo_rule DenyRule AnyTool (Some ''/w/a'')]))
        (EditAccess ''a'') (Some ''/w''))
     (evaluate_lexical_with_cwd demo_host
        (compile_policy demo_host (demo_cfg [demo_rule DenyRule AnyTool (Some ''/w/a''), demo_rule AllowRule EditTool None]))
        (EditAccess ''a'') (Some ''/w''))
   \<and> evaluate_lexical_with_cwd demo_host
        (compile_policy demo_host (demo_cfg [demo_rule AllowRule EditTool None, demo_rule DenyRule AnyTool (Some ''/w/a'')]))
        (EditAccess ''a'') (Some ''/w'')
      = Some (DReject (deny_reason (demo_rule DenyRule AnyTool (Some ''/w/a''))))"
  by (intro conjI rule_order_irrelevant, simp add: permission_config_new_def insert_commute, code_simp)

text \<open>
  C6. The Bash gate, exactly: it rejects iff a command the script reveals (at the top, behind
  wrappers, or inside \<open>sh -c\<close> and \<open>env -S\<close> scripts up to eight levels down) is denied by a rule; it
  asks as a rule match iff none is denied and one is asked for; it asks fail-closed iff no rule
  speaks, the policy restricts Bash and the analysis had to give up somewhere; otherwise it is
  silent.  It never allows.
\<close>
theorem bash_gate_exact:
  "((\<exists>why. evaluate_bash_command_gate H (compile_policy H cfg) cmd = Some (GReject why)) \<longleftrightarrow>
      (\<exists>ws. reveals H MAX_INLINE_SHELL_DEPTH cmd ws \<and> denied_by H cfg (BashAccess (join_str '' '' ws)) None))
   \<and> (evaluate_bash_command_gate H (compile_policy H cfg) cmd = Some GAskRuleMatch \<longleftrightarrow>
      \<not> (\<exists>ws. reveals H MAX_INLINE_SHELL_DEPTH cmd ws \<and> denied_by H cfg (BashAccess (join_str '' '' ws)) None)
      \<and> (\<exists>ws. reveals H MAX_INLINE_SHELL_DEPTH cmd ws \<and> asked_by H cfg (BashAccess (join_str '' '' ws)) None))
   \<and> (evaluate_bash_command_gate H (compile_policy H cfg) cmd = Some GAskFailClosed \<longleftrightarrow>
      \<not> (\<exists>ws. reveals H MAX_INLINE_SHELL_DEPTH cmd ws
              \<and> (denied_by H cfg (BashAccess (join_str '' '' ws)) None \<or> asked_by H cfg (BashAccess (join_str '' '' ws)) None))
      \<and> cp_has_bash_command_restrictions (compile_policy H cfg) \<and> opaque H MAX_INLINE_SHELL_DEPTH cmd)"
proof (cases "cp_has_bash_command_restrictions (compile_policy H cfg)")
  case True
  have r: "3 < gate.orank (escalates H (compile_policy H cfg) ws) \<longleftrightarrow> denied_by H cfg (BashAccess (join_str '' '' ws)) None"
    "2 < gate.orank (escalates H (compile_policy H cfg) ws)
       \<longleftrightarrow> denied_by H cfg (BashAccess (join_str '' '' ws)) None \<or> asked_by H cfg (BashAccess (join_str '' '' ws)) None"
    "1 < gate.orank (escalates H (compile_policy H cfg) ws)
       \<longleftrightarrow> denied_by H cfg (BashAccess (join_str '' '' ws)) None \<or> asked_by H cfg (BashAccess (join_str '' '' ws)) None"
    for ws
    by (simp_all add: escalates_rank)
  have n: "\<not> (3::nat) < 2" "\<not> (2::nat) < 2" "(1::nat) < 2" by simp_all
  show ?thesis
    unfolding gate_from_rank
    by (simp only: evaluate_bash_command_gate_def True not_True_eq_False if_False gate_rank_iff r n
        simp_thms) blast
next
  case False
  then have "\<not> (denied_by H cfg (BashAccess c) None \<or> asked_by H cfg (BashAccess c) None)" for c
    using denied_restricts by blast
  with False show ?thesis by (simp add: evaluate_bash_command_gate_def)
qed

text \<open>
  A symbolic link only escalates.  The access is rejected iff a deny rule applies to the path as
  spelled or to the file the link leads to, and it is allowed iff the spelled path is and neither a
  deny nor an ask rule applies to the target (an unresolvable link needs the absence of any
  restriction on this kind of access); an allow rule on the target grants nothing.
\<close>
theorem link_target_only_escalates:
  assumes "native_file_path access = Some path" and "raw_absolute_tool_path path cwd = Some raw"
    and "follow_absolute_symlink H raw (path_match_string (absolute_normalized_path path cwd)) = FollowTarget t"
  shows "((\<exists>why. evaluate_with_cwd H (compile_policy H cfg) access cwd = Some (DReject why))
      \<longleftrightarrow> denied_by H cfg access cwd \<or> denied_by H cfg (access_with_path access t) cwd)
    \<and> (evaluate_with_cwd H (compile_policy H cfg) access cwd = Some DAllow
      \<longleftrightarrow> evaluate_lexical_with_cwd H (compile_policy H cfg) access cwd = Some DAllow
          \<and> \<not> denied_by H cfg (access_with_path access t) cwd \<and> \<not> asked_by H cfg (access_with_path access t) cwd)"
proof -
  let ?l = "lexical_spec H cfg access cwd" and ?t = "lexical_spec H cfg (access_with_path access t) cwd"
  have e: "evaluate_with_cwd H (compile_policy H cfg) access cwd = combine_decisions ?l (escalating ?t)"
    using assms by (simp add: evaluate_with_cwd_def evaluate_with_cwd_details_def evaluate_lexical_spec Let_def)
  have "?t = Some DAllow \<or> ?t = None" if "\<not> denied_by H cfg (access_with_path access t) cwd"
    "\<not> asked_by H cfg (access_with_path access t) cwd"
    using lexical_not_denied [OF that(1)] that(2) by auto
  then show ?thesis
    unfolding e evaluate_lexical_spec lexical_reject_iff [symmetric]
    using lexical_rank_cases [of H cfg access cwd] lexical_rank_cases [of H cfg "access_with_path access t" cwd]
      lexical_ask_iff [of H cfg "access_with_path access t" cwd] lexical_reject_iff [of H cfg "access_with_path access t" cwd]
    by (elim disjE; auto simp: escalating_def dec.comb_None_left dec.comb_None_right dec.comb_Some)
qed

lemma link_target_only_escalates_witness:
  "(\<exists>why. evaluate_with_cwd demo_host
       (compile_policy demo_host (demo_cfg [demo_rule AllowRule ReadTool None, demo_rule DenyRule ReadTool (Some ''/etc/passwd'')]))
       (ReadAccess (Some ''link'')) (Some ''/w'') = Some (DReject why))
   \<and> evaluate_lexical_with_cwd demo_host
       (compile_policy demo_host (demo_cfg [demo_rule AllowRule ReadTool None, demo_rule DenyRule ReadTool (Some ''/etc/passwd'')]))
       (ReadAccess (Some ''link'')) (Some ''/w'') = Some DAllow"
proof -
  let ?rules = "[demo_rule AllowRule ReadTool None, demo_rule DenyRule ReadTool (Some ''/etc/passwd'')]"
  have p: "native_file_path (ReadAccess (Some ''link'')) = Some ''link''"
    "raw_absolute_tool_path ''link'' (Some ''/w'') = Some ''/w/link''"
    "follow_absolute_symlink demo_host ''/w/link''
       (path_match_string (absolute_normalized_path ''link'' (Some ''/w''))) = FollowTarget ''/etc/passwd''"
    by code_simp+
  have "rule_applies demo_host (ReadAccess (Some ''/etc/passwd'')) (Some ''/w'')
      (demo_rule DenyRule ReadTool (Some ''/etc/passwd''), Some ''/etc/passwd'')"
    by code_simp
  then have "denied_by demo_host (demo_cfg ?rules) (access_with_path (ReadAccess (Some ''link'')) ''/etc/passwd'') (Some ''/w'')"
    by (simp add: denied_by_def permission_config_new_def applies_def access_with_path_def demo_rule_def
        compile_matcher_def demo_host_def)
  moreover have "evaluate_lexical_with_cwd demo_host (compile_policy demo_host (demo_cfg ?rules))
      (ReadAccess (Some ''link'')) (Some ''/w'') = Some DAllow"
    by code_simp
  ultimately show ?thesis
    using link_target_only_escalates [OF p, of "demo_cfg ?rules"] by blast
qed

text \<open>
  C20. An allowed Bash command is allowed segment by segment: every command of the script, and of
  every literal \<open>sh -c\<close> script inside it up to eight levels down, was analysed without a flag, hands
  no dynamic script to a shell, and its normalised words match an allow rule of their own.
\<close>
theorem bash_allow_is_conjunctive:
  assumes "evaluate H (compile_policy H cfg) (BashAccess cmd) = Some DAllow"
    and "reached H MAX_INLINE_SHELL_DEPTH cmd ws"
  shows "\<not> norm_flagged (normalize_command_words ws) \<and> \<not> dynamic_inline ws
    \<and> (\<exists>r \<in> set (pcf_rules cfg). pr_action r = AllowRule \<and> pr_tool r \<in> {BashTool, AnyTool}
         \<and> bash_allow_pattern_matches H (join_str '' '' (normal_words ws)) r (compile_matcher H r))"
proof -
  have "allowed_by H cfg (BashAccess cmd) None"
  proof (cases "denied_by H cfg (BashAccess cmd) None")
    case True
    then show ?thesis using lexical_denied assms(1) by (fastforce simp: evaluate_bash evaluate_lexical_spec)
  next
    case False
    then show ?thesis
      using assms(1) lexical_not_denied [OF False] by (auto simp: evaluate_bash evaluate_lexical_spec split: if_splits)
  qed
  then have "bash_chain_fully_allowed H (compile_policy H cfg) AnyScope MAX_INLINE_SHELL_DEPTH cmd"
    by (simp add: allowed_by_bash)
  from chain_allowed_reached [OF this assms(2)] show ?thesis
    by (auto simp: bash_words_allowed_rules)
qed

lemma demo_segment:
  "map_option (map pc_words) (all_commands_from_script demo_parse s) = Some [ws] \<Longrightarrow> segment demo_host s ws"
  by (auto simp: segment_def demo_host_def)

lemma bash_allow_is_conjunctive_witness:
  "evaluate demo_host (compile_policy demo_host (demo_cfg [demo_rule AllowRule BashTool (Some ''ls'')]))
     (BashAccess ''timeout 5 ls -l'') = Some DAllow
   \<and> bash_allow_pattern_matches demo_host ''ls -l'' (demo_rule AllowRule BashTool (Some ''ls'')) (Some ''ls'')"
proof -
  have e: "evaluate demo_host (compile_policy demo_host (demo_cfg [demo_rule AllowRule BashTool (Some ''ls'')]))
     (BashAccess ''timeout 5 ls -l'') = Some DAllow"
    by code_simp
  have "map_option (map pc_words) (all_commands_from_script demo_parse ''timeout 5 ls -l'')
      = Some [[''timeout'', ''5'', ''ls'', ''-l'']]"
    by code_simp
  then have "reached demo_host MAX_INLINE_SHELL_DEPTH ''timeout 5 ls -l'' [''timeout'', ''5'', ''ls'', ''-l'']"
    by (intro reached.here demo_segment)
  moreover have "join_str '' '' (normal_words [''timeout'', ''5'', ''ls'', ''-l'']) = ''ls -l''" by code_simp
  moreover have "compile_matcher demo_host (demo_rule AllowRule BashTool (Some ''ls'')) = Some ''ls''" by code_simp
  ultimately show ?thesis
    using e bash_allow_is_conjunctive [OF e, of "[''timeout'', ''5'', ''ls'', ''-l'']"]
    by (simp add: permission_config_new_def)
qed

text \<open>
  Narrow authorisation is a strengthening of the ordinary allow: where no deny or ask rule
  applies the command is allowed outright, and no reached command runs an exec vehicle or leans on a
  blanket rule.
\<close>
theorem narrow_allow_is_stronger:
  assumes "narrow_allow_authorizes H (compile_policy H cfg) (BashAccess cmd)"
    and "\<not> denied_by H cfg (BashAccess cmd) None" and "\<not> asked_by H cfg (BashAccess cmd) None"
    and "reached H MAX_INLINE_SHELL_DEPTH cmd ws"
  shows "evaluate H (compile_policy H cfg) (BashAccess cmd) = Some DAllow
    \<and> \<not> head_is_exec_vehicle (normal_words ws)
    \<and> (\<exists>r \<in> set (pcf_rules cfg). pr_action r = AllowRule \<and> \<not> rule_is_catchall H r
         \<and> bash_allow_pattern_matches H (join_str '' '' (normal_words ws)) r (compile_matcher H r))"
proof -
  have c: "bash_chain_fully_allowed H (compile_policy H cfg) NarrowOnly MAX_INLINE_SHELL_DEPTH cmd"
    and h: "cp_has_bash_allow_rules (compile_policy H cfg)"
    using assms(1) by (simp_all add: narrow_allow_authorizes_def)
  have "evaluate H (compile_policy H cfg) (BashAccess cmd) = Some DAllow"
    using lexical_not_denied [OF assms(2)] assms(3) h chain_allowed_narrow [OF c]
    by (simp add: evaluate_bash evaluate_lexical_spec allowed_by_bash)
  with chain_allowed_reached [OF c assms(4)] show ?thesis
    by (auto simp: bash_words_allowed_rules)
qed

lemma narrow_allow_is_stronger_witness:
  "evaluate demo_host (compile_policy demo_host (demo_cfg [demo_rule AllowRule BashTool (Some ''ls'')]))
     (BashAccess ''ls -l'') = Some DAllow"
proof -
  let ?cfg = "demo_cfg [demo_rule AllowRule BashTool (Some ''ls'')]"
  have n: "narrow_allow_authorizes demo_host (compile_policy demo_host ?cfg) (BashAccess ''ls -l'')" by code_simp
  have d: "\<not> denied_by demo_host ?cfg (BashAccess ''ls -l'') None" "\<not> asked_by demo_host ?cfg (BashAccess ''ls -l'') None"
    by (simp_all add: denied_by_def asked_by_def permission_config_new_def demo_rule_def)
  have "map_option (map pc_words) (all_commands_from_script demo_parse ''ls -l'') = Some [[''ls'', ''-l'']]"
    by code_simp
  then have "reached demo_host MAX_INLINE_SHELL_DEPTH ''ls -l'' [''ls'', ''-l'']"
    by (intro reached.here demo_segment)
  from narrow_allow_is_stronger [OF n d this] show ?thesis by blast
qed

text \<open>
  A deny rule on reading a path also denies searching it: a \<open>Read\<close> rule that matches a path
  rejects a \<open>Grep\<close> of that path, whatever else the configuration allows.
\<close>
theorem read_rules_govern_grep:
  assumes "r \<in> set (pcf_rules cfg)" and "pr_action r = DenyRule" and "pr_tool r = ReadTool"
    and "pattern_matches H (ReadAccess (Some p)) r (compile_matcher H r) cwd"
  shows "\<exists>why. evaluate_with_cwd H (compile_policy H cfg) (GrepAccess (Some p) g) cwd = Some (DReject why)"
proof -
  have "pattern_matches H (GrepAccess (Some p) g) r (compile_matcher H r) cwd"
    using assms(4) by (simp add: pattern_matches_def specific_matches_def split: option.splits)
  then have "denied_by H cfg (GrepAccess (Some p) g) cwd"
    unfolding denied_by_def using assms(1-3)
    by (intro bexI [of _ r]) (simp_all add: applies_def rule_applies_def)
  then obtain why where l: "lexical_spec H cfg (GrepAccess (Some p) g) cwd = Some (DReject why)"
    using lexical_reject_iff by blast
  obtain e where "evaluate_with_cwd H (compile_policy H cfg) (GrepAccess (Some p) g) cwd
      = combine_decisions (Some (DReject why)) e" "e = None \<or> e = Some DAsk \<or> (\<exists>r. e = Some (DReject r))"
    using details_cases [of H "compile_policy H cfg" "GrepAccess (Some p) g" cwd] l
    by (auto simp: evaluate_with_cwd_def evaluate_lexical_spec)
  then show ?thesis by (auto simp: dec.comb_None_right dec.comb_Some)
qed

lemma read_rules_govern_grep_witness:
  "\<exists>why. evaluate_with_cwd demo_host
     (compile_policy demo_host (demo_cfg [demo_rule AllowRule GrepTool None, demo_rule DenyRule ReadTool (Some ''/w/secret'')]))
     (GrepAccess (Some ''secret'') None) (Some ''/w'') = Some (DReject why)"
proof (rule read_rules_govern_grep [where r = "demo_rule DenyRule ReadTool (Some ''/w/secret'')"])
  show "pattern_matches demo_host (ReadAccess (Some ''secret'')) (demo_rule DenyRule ReadTool (Some ''/w/secret''))
      (compile_matcher demo_host (demo_rule DenyRule ReadTool (Some ''/w/secret''))) (Some ''/w'')"
    by code_simp
qed (simp_all add: permission_config_new_def demo_rule_def)

end
