(* ===== verification/PermissionResolution.thy ===== *)
theory PermissionResolution
  imports PolicyProofs
begin

section \<open>Resolving the permission configuration\<close>

text \<open>
  \<open>permission/resolution.rs\<close> and the settings reader \<open>permission/claude_settings.rs\<close>: the rules of
  every source are collected with their provenance, the most specific \<open>defaultMode\<close> is applied
  (managed settings own it when they set it), and under the always-approve pin the blanket allow
  rules of untrusted sources are dropped.  Files are read and JSON or TOML text is parsed outside;
  the model starts from the parsed values.
\<close>

subsection \<open>Settings files\<close>

record parsed_permissions =
  pp_allow :: "string list"
  pp_deny :: "string list"
  pp_ask :: "string list"

record claude_settings =
  cs_permissions :: "parsed_permissions option"
  cs_default_mode :: "string option"
  cs_additional_directories :: "string list option"

fun json_type :: "json \<Rightarrow> string" where
  "json_type JNull = ''null''"
| "json_type (JBool _) = ''boolean''"
| "json_type (JNum _) = ''number''"
| "json_type (JStr _) = ''string''"
| "json_type (JArr _) = ''array''"
| "json_type (JObj _) = ''object''"

fun string_entries :: "nat \<Rightarrow> json list \<Rightarrow> string list \<times> string list" where
  "string_entries i [] = ([], [])"
| "string_entries i (v # vs) =
     (let (ss, ws) = string_entries (Suc i) vs in
      case json_as_str v of
        Some s \<Rightarrow> (s # ss, ws)
      | None \<Rightarrow>
          (ss, (''permissions array index '' @ show_nat i @ '': expected string, got '' @ json_type v) # ws))"

definition extract_string_array :: "json option \<Rightarrow> string list \<times> string list" where
  "extract_string_array v =
     (case v of
        None \<Rightarrow> ([], [])
      | Some (JArr vs) \<Rightarrow> string_entries 0 vs
      | Some other \<Rightarrow> ([], [''permissions field: expected array, got '' @ json_type other]))"

definition extract_default_mode :: "json \<Rightarrow> string option" where
  "extract_default_mode v =
     (case Option.bind (json_get v ''permissions'') (\<lambda>p. json_get p ''defaultMode'') of
        Some dm \<Rightarrow> json_as_str dm
      | None \<Rightarrow> Option.bind (json_get v ''defaultMode'') json_as_str)"

definition json_as_array :: "json \<Rightarrow> json list option" where
  "json_as_array v = (case v of JArr vs \<Rightarrow> Some vs | _ \<Rightarrow> None)"

definition extract_additional_directories :: "json \<Rightarrow> string list option" where
  "extract_additional_directories v =
     map_option (List.map_filter json_as_str)
       (case Option.bind (json_get v ''permissions'') (\<lambda>p. json_get p ''additionalDirectories'') of
          Some nested \<Rightarrow> json_as_array nested
        | None \<Rightarrow> Option.bind (json_get v ''additionalDirectories'') json_as_array)"

text \<open>\<open>load_claude_settings\<close> on the parsed file.\<close>

definition claude_settings_of :: "json \<Rightarrow> claude_settings" where
  "claude_settings_of v =
     \<lparr>cs_permissions =
        Option.bind (json_get v ''permissions'') (\<lambda>p.
          let allow = fst (extract_string_array (json_get p ''allow''));
              deny = fst (extract_string_array (json_get p ''deny''));
              ask = fst (extract_string_array (json_get p ''ask''))
          in if allow = [] \<and> deny = [] \<and> ask = [] then None
             else Some \<lparr>pp_allow = allow, pp_deny = deny, pp_ask = ask\<rparr>),
      cs_default_mode = extract_default_mode v,
      cs_additional_directories = extract_additional_directories v\<rparr>"

fun show_rule_error :: "rule_parse_error \<Rightarrow> string" where
  "show_rule_error (UnsupportedToolPrefix p) = ''unsupported tool prefix: '' @ p"
| "show_rule_error (UnknownToolPrefix p) = ''unknown tool prefix: '' @ p"
| "show_rule_error (MalformedRule d) = ''malformed rule: '' @ d"

text \<open>Rules and warnings of one list of rule strings.\<close>

fun parse_rule_list :: "rule_action \<Rightarrow> string \<Rightarrow> string list \<Rightarrow> permission_rule list \<times> string list" where
  "parse_rule_list action label [] = ([], [])"
| "parse_rule_list action label (s # ss) =
     (let (rs, ws) = parse_rule_list action label ss in
      case parse_permission_rule s action of
        Inr r \<Rightarrow> (r # rs, ws)
      | Inl e \<Rightarrow> (rs, (''permissions.'' @ label @ '': '' @ s @ '' -- '' @ show_rule_error e) # ws))"

definition into_permission_config :: "parsed_permissions \<Rightarrow> permission_config \<times> string list" where
  "into_permission_config p =
     (let (r1, w1) = parse_rule_list AllowRule ''allow'' (pp_allow p);
          (r2, w2) = parse_rule_list DenyRule ''deny'' (pp_deny p);
          (r3, w3) = parse_rule_list AskRule ''ask'' (pp_ask p)
      in (permission_config_new (r1 @ r2 @ r3), w1 @ w2 @ w3))"

subsection \<open>The permission section of a TOML file\<close>

datatype toml =
    TString string
  | TInteger int
  | TFloat string
  | TBoolean bool
  | TDatetime string
  | TArray "toml list"
  | TTable "(string \<times> toml) list"

definition toml_get :: "toml \<Rightarrow> string \<Rightarrow> toml option" where
  "toml_get v k = (case v of TTable kvs \<Rightarrow> map_of kvs k | _ \<Rightarrow> None)"

definition toml_rule :: "rule_action \<Rightarrow> toml \<Rightarrow> permission_rule option" where
  "toml_rule action item =
     (case item of
        TString s \<Rightarrow> (case parse_permission_rule s action of Inr r \<Rightarrow> Some r | Inl _ \<Rightarrow> None)
      | _ \<Rightarrow> None)"

definition toml_compact :: "toml \<Rightarrow> rule_action \<Rightarrow> string \<Rightarrow> permission_rule list option" where
  "toml_compact section action key =
     (case toml_get section key of
        Some (TArray items) \<Rightarrow> Some (List.map_filter (toml_rule action) items)
      | _ \<Rightarrow> None)"

text \<open>\<open>verbose\<close> is the derived deserialiser of \<open>[[permission.rules]]\<close>.\<close>

definition parse_toml_permission_section ::
    "(toml \<Rightarrow> string + permission_rule list) \<Rightarrow> toml \<Rightarrow> string + permission_rule list" where
  "parse_toml_permission_section verbose section =
     (let lists = map (\<lambda>(a, k). toml_compact section a k)
                    [(DenyRule, ''deny''), (AllowRule, ''allow''), (AskRule, ''ask'')]
      in if list_ex (\<lambda>l. l \<noteq> None) lists
         then Inr (concat (map (\<lambda>l. case l of Some rs \<Rightarrow> rs | None \<Rightarrow> []) lists))
         else verbose section)"

subsection \<open>Provenance\<close>

datatype requirement_source =
    SrcUnknown
  | SrcRequirements string
  | SrcSystemRequirements string
  | SrcManagedSettings string
  | SrcManagedConfig string
  | SrcConfig string
  | SrcSettings string

type_synonym sourced_rule = "permission_rule \<times> requirement_source"

record skipped_permission =
  sk_rule :: string
  sk_reason :: string

definition extract_toml_permissions ::
    "(toml \<Rightarrow> string + permission_rule list) \<Rightarrow> toml \<Rightarrow> requirement_source \<Rightarrow> sourced_rule list" where
  "extract_toml_permissions verbose config source =
     (case toml_get config ''permission'' of
        None \<Rightarrow> []
      | Some section \<Rightarrow>
          (case parse_toml_permission_section verbose section of
             Inr rules \<Rightarrow> map (\<lambda>r. (r, source)) rules
           | Inl _ \<Rightarrow> []))"

definition is_admin_source :: "requirement_source \<Rightarrow> bool" where
  "is_admin_source s =
     (case s of SrcSystemRequirements _ \<Rightarrow> True | SrcManagedSettings _ \<Rightarrow> True | _ \<Rightarrow> False)"

definition is_catchall_allow :: "'g host \<Rightarrow> permission_rule \<Rightarrow> bool" where
  "is_catchall_allow H rule =
     (if pr_action rule \<noteq> AllowRule then False
      else if pr_tool rule \<in> {ReadTool, EditTool, GrepTool} then False
      else rule_is_catchall H rule)"

definition untrusted_catchall :: "'g host \<Rightarrow> sourced_rule \<Rightarrow> bool" where
  "untrusted_catchall H s \<longleftrightarrow> is_catchall_allow H (fst s) \<and> \<not> is_admin_source (snd s)"

definition catchall_skip :: "string \<Rightarrow> sourced_rule \<Rightarrow> skipped_permission" where
  "catchall_skip reason s =
     \<lparr>sk_rule = ''allow '' @ (case pr_pattern (fst s) of Some p \<Rightarrow> p | None \<Rightarrow> ''*'') @ '' (catch-all)'',
      sk_reason = reason\<rparr>"

fun drop_untrusted_catchall_allows ::
    "'g host \<Rightarrow> sourced_rule list \<Rightarrow> string option \<Rightarrow> skipped_permission list
      \<Rightarrow> sourced_rule list \<times> skipped_permission list" where
  "drop_untrusted_catchall_allows H rules None skipped = (rules, skipped)"
| "drop_untrusted_catchall_allows H rules (Some reason) skipped =
     (filter (\<lambda>s. \<not> untrusted_catchall H s) rules,
      skipped @ map (catchall_skip reason) (filter (untrusted_catchall H) rules))"

subsection \<open>Default modes\<close>

definition allow_all :: "tool_filter \<Rightarrow> permission_rule" where
  "allow_all t = \<lparr>pr_action = AllowRule, pr_tool = t, pr_pattern = None, pr_mode = GlobMode\<rparr>"

definition synthetic_rules_for_default_mode ::
    "default_mode \<Rightarrow> string option \<Rightarrow> permission_rule list \<times> skipped_permission list \<times> bool" where
  "synthetic_rules_for_default_mode mode policy_block =
     (let effects = mode_effects mode in
      if me_bypass_permissions effects then
        (case policy_block of
           Some reason \<Rightarrow>
             ([], [\<lparr>sk_rule = ''defaultMode=bypassPermissions'', sk_reason = reason\<rparr>], True)
         | None \<Rightarrow> ([allow_all AnyTool], [], False))
      else if me_accept_edits effects then ([allow_all EditTool], [], False)
      else ([], [], False))"

definition parse_default_mode_claiming_scope :: "string \<Rightarrow> default_mode \<times> skipped_permission list" where
  "parse_default_mode_claiming_scope raw =
     (case default_mode_from_str raw of
        Inr mode \<Rightarrow> (mode, [])
      | Inl invalid \<Rightarrow>
          (DefaultMode, [\<lparr>sk_rule = ''defaultMode='' @ invalid,
                         sk_reason = ''unrecognized value; treated as default''\<rparr>]))"

subsection \<open>Settings files, most specific first\<close>

datatype user_mode_load = ApplyUserMode | SkipManagedOwns

definition split_once_str :: "string \<Rightarrow> string \<Rightarrow> (string \<times> string) option" where
  "split_once_str sep s =
     map_option (\<lambda>i. (take i s, drop (i + length sep) s)) (find_str sep s)"

definition EM_DASH :: string where
  "EM_DASH = [CHR '' '', CHR 0xE2, CHR 0x80, CHR 0x94, CHR '' '']"

definition warning_skip :: "string \<Rightarrow> skipped_permission" where
  "warning_skip w =
     (case split_once_str EM_DASH w of
        Some (r, d) \<Rightarrow> \<lparr>sk_rule = r, sk_reason = d\<rparr>
      | None \<Rightarrow>
          (case split_once_str '' -- '' w of
             Some (r, d) \<Rightarrow> \<lparr>sk_rule = r, sk_reason = d\<rparr>
           | None \<Rightarrow> \<lparr>sk_rule = w, sk_reason = []\<rparr>))"

record settings_acc =
  sa_rules :: "permission_rule list"
  sa_skipped :: "skipped_permission list"
  sa_primary :: "string option"
  sa_mode_source :: "string option"
  sa_mode :: "default_mode option"
  sa_prompt :: prompt_policy

definition settings_init :: settings_acc where
  "settings_init = \<lparr>sa_rules = [], sa_skipped = [], sa_primary = None, sa_mode_source = None,
     sa_mode = None, sa_prompt = PromptAsk\<rparr>"

definition claim_mode :: "user_mode_load \<Rightarrow> string \<Rightarrow> claude_settings \<Rightarrow> settings_acc \<Rightarrow> settings_acc" where
  "claim_mode load path settings a =
     (if load = ApplyUserMode \<and> sa_mode_source a = None then
        (case cs_default_mode settings of
           None \<Rightarrow> a
         | Some raw \<Rightarrow>
             (let (mode, skips) = parse_default_mode_claiming_scope raw in
              a\<lparr>sa_mode_source := Some path, sa_mode := Some mode, sa_skipped := sa_skipped a @ skips,
                sa_prompt := me_prompt_policy (mode_effects mode)\<rparr>))
      else a)"

definition merge_permissions :: "string \<Rightarrow> claude_settings \<Rightarrow> settings_acc \<Rightarrow> settings_acc" where
  "merge_permissions path settings a =
     (case cs_permissions settings of
        None \<Rightarrow> a
      | Some perms \<Rightarrow>
          (let (cfg, warnings) = into_permission_config perms in
           a\<lparr>sa_primary := (if (pcf_rules cfg \<noteq> [] \<or> warnings \<noteq> []) \<and> sa_primary a = None
                            then Some path else sa_primary a),
             sa_rules := sa_rules a @ pcf_rules cfg,
             sa_skipped := sa_skipped a @ map warning_skip warnings\<rparr>))"

definition settings_step :: "user_mode_load \<Rightarrow> settings_acc \<Rightarrow> string \<times> claude_settings option \<Rightarrow> settings_acc" where
  "settings_step load a f =
     (case snd f of
        None \<Rightarrow> a
      | Some settings \<Rightarrow> merge_permissions (fst f) settings (claim_mode load (fst f) settings a))"

text \<open>
  \<open>files\<close>: the settings paths for the trust verdict, most specific first, with what could be read.
\<close>

definition resolve_claude_settings_inner ::
    "string \<Rightarrow> (string \<times> claude_settings option) list \<Rightarrow> string option \<Rightarrow> user_mode_load
      \<Rightarrow> (permission_config \<times> skipped_permission list \<times> string) option" where
  "resolve_claude_settings_inner cwd files policy_block load =
     (let a = foldl (settings_step load) settings_init files;
          (syn, syn_skipped, blocked) =
            (case sa_mode a of
               None \<Rightarrow> ([], [], False)
             | Some mode \<Rightarrow> synthetic_rules_for_default_mode mode policy_block);
          rules = sa_rules a @ syn;
          skipped = sa_skipped a @ syn_skipped
      in if rules = [] \<and> sa_prompt a = PromptAsk \<and> \<not> blocked \<and> sa_mode_source a = None \<and> skipped = []
         then None
         else Some (\<lparr>pcf_rules = rules, pcf_prompt_policy = sa_prompt a,
                     pcf_default_mode_configured = (sa_mode a \<noteq> None)\<rparr>,
                    skipped,
                    (case sa_primary a of
                       Some p \<Rightarrow> p
                     | None \<Rightarrow> (case sa_mode_source a of Some p \<Rightarrow> p | None \<Rightarrow> cwd))))"

subsection \<open>Putting the sources together\<close>

datatype yolo_pin_reason = DisableBypassPermissionsMode | LegacyYoloFalse

fun pin_message :: "yolo_pin_reason \<Rightarrow> string" where
  "pin_message DisableBypassPermissionsMode =
     ''always-approve disabled by managed policy ([ui] disable_bypass_permissions_mode = true in requirements.toml)''"
| "pin_message LegacyYoloFalse =
     ''always-approve disabled by managed policy ([ui] yolo = false in requirements.toml)''"

record yolo_policy_lock =
  yl_source_label :: string
  yl_reason :: yolo_pin_reason

record managed_settings =
  ms_permissions :: "sourced_rule list"
  ms_default_mode :: "default_mode option"
  ms_source_path :: "string option"

record resolve_inputs =
  ri_yolo_lock :: "yolo_policy_lock option"
  ri_managed :: managed_settings
  ri_requirements_rules :: "sourced_rule list"
  ri_managed_config_rules :: "sourced_rule list"
  ri_config_toml_rules :: "sourced_rule list"
  ri_skip_claude :: bool
  ri_settings_files :: "(string \<times> claude_settings option) list"

record resolved_permissions =
  rp_config :: permission_config
  rp_sources :: "requirement_source list"
  rp_skipped :: "skipped_permission list"
  rp_yolo_lock :: "yolo_policy_lock option"

text \<open>Global config first, then the project configs of a trusted folder.\<close>

definition load_config_toml_permissions ::
    "(toml \<Rightarrow> string + permission_rule list) \<Rightarrow> (string \<times> toml option) option
      \<Rightarrow> (string \<times> toml option) list \<Rightarrow> bool \<Rightarrow> sourced_rule list" where
  "load_config_toml_permissions verbose global projects project_trusted =
     (let load = (\<lambda>(path, v). case v of None \<Rightarrow> [] | Some t \<Rightarrow> extract_toml_permissions verbose t (SrcConfig path))
      in (case global of None \<Rightarrow> [] | Some g \<Rightarrow> load g)
         @ (if project_trusted then concat (map load projects) else []))"

definition load_requirements_permissions ::
    "(toml \<Rightarrow> string + permission_rule list) \<Rightarrow> (bool \<times> string \<times> toml) list \<Rightarrow> sourced_rule list" where
  "load_requirements_permissions verbose layers =
     concat (map (\<lambda>(is_system, label, v).
        extract_toml_permissions verbose v
          (if is_system then SrcSystemRequirements label else SrcRequirements label)) layers)"

definition managed_synthetics ::
    "managed_settings \<Rightarrow> string option \<Rightarrow> sourced_rule list \<times> skipped_permission list" where
  "managed_synthetics m policy_block =
     (case ms_default_mode m of
        None \<Rightarrow> ([], [])
      | Some mode \<Rightarrow>
          (let (syn, skips, _) = synthetic_rules_for_default_mode mode policy_block;
               path = (case ms_source_path m of Some p \<Rightarrow> p | None \<Rightarrow> ''managed-settings.json'')
           in (map (\<lambda>r. (r, SrcManagedSettings path)) syn, skips)))"

definition pin_block :: "resolve_inputs \<Rightarrow> string option" where
  "pin_block inp = map_option (\<lambda>l. pin_message (yl_reason l)) (ri_yolo_lock inp)"

definition claude_part :: "string \<Rightarrow> resolve_inputs \<Rightarrow> (permission_config \<times> skipped_permission list \<times> string) option" where
  "claude_part cwd inp =
     (if ri_skip_claude inp then None
      else resolve_claude_settings_inner cwd (ri_settings_files inp)
             (pin_block inp)
             (if ms_default_mode (ri_managed inp) \<noteq> None then SkipManagedOwns else ApplyUserMode))"

text \<open>Every source's rules in display order, and what was skipped so far.\<close>

definition collect_sources :: "string \<Rightarrow> resolve_inputs \<Rightarrow> sourced_rule list \<times> skipped_permission list" where
  "collect_sources cwd inp =
     (let (syn, syn_skips) = managed_synthetics (ri_managed inp) (pin_block inp);
          (set_rules, set_skips) =
            (case claude_part cwd inp of
               None \<Rightarrow> ([], [])
             | Some (c, sk, path) \<Rightarrow> (map (\<lambda>r. (r, SrcSettings path)) (pcf_rules c), sk))
      in (ri_requirements_rules inp @ ms_permissions (ri_managed inp) @ syn @ ri_managed_config_rules inp
            @ ri_config_toml_rules inp @ set_rules,
          syn_skips @ set_skips))"

text \<open>Managed settings own the mode when they set one.\<close>

definition effective_mode :: "string \<Rightarrow> resolve_inputs \<Rightarrow> prompt_policy \<times> bool" where
  "effective_mode cwd inp =
     (case ms_default_mode (ri_managed inp) of
        Some mode \<Rightarrow> (me_prompt_policy (mode_effects mode), True)
      | None \<Rightarrow>
          (case claude_part cwd inp of
             None \<Rightarrow> (PromptAsk, False)
           | Some (c, _, _) \<Rightarrow> (pcf_prompt_policy c, pcf_default_mode_configured c)))"

definition resolve_permissions_with_provenance_inner ::
    "'g host \<Rightarrow> string \<Rightarrow> resolve_inputs \<Rightarrow> resolved_permissions option" where
  "resolve_permissions_with_provenance_inner H cwd inp =
     (let (all_rules, skips) = collect_sources cwd inp;
          (prompt_policy, configured) = effective_mode cwd inp;
          (rules, skipped) = drop_untrusted_catchall_allows H all_rules (pin_block inp) skips
      in if rules = [] \<and> prompt_policy = PromptAsk \<and> skipped = [] \<and> \<not> configured then None
         else Some \<lparr>rp_config = \<lparr>pcf_rules = map fst rules, pcf_prompt_policy = prompt_policy,
                                  pcf_default_mode_configured = configured\<rparr>,
                    rp_sources = map snd rules, rp_skipped = skipped, rp_yolo_lock = ri_yolo_lock inp\<rparr>)"

subsection \<open>The startup hint and the read denies\<close>

definition PERMISSION_MODE_ALWAYS_ALLOW :: string where
  "PERMISSION_MODE_ALWAYS_ALLOW = ''alwaysAllow''"

text \<open>The configuration cell after the call, and whether the hint was applied.\<close>

definition apply_permission_mode_hint ::
    "permission_config option \<Rightarrow> string option \<Rightarrow> string option \<Rightarrow> permission_config option \<times> bool" where
  "apply_permission_mode_hint config requested policy_block =
     (case requested of
        None \<Rightarrow> (config, False)
      | Some mode \<Rightarrow>
          if mode \<noteq> PERMISSION_MODE_ALWAYS_ALLOW then (config, False)
          else if policy_block \<noteq> None then (config, False)
          else (let c = (case config of Some c \<Rightarrow> c | None \<Rightarrow> permission_config_new []) in
                if pcf_default_mode_configured c then (Some c, False)
                else (Some (c\<lparr>pcf_prompt_policy := PromptAllow\<rparr>), True)))"

definition deny_read_globs_from_config :: "permission_config \<Rightarrow> string list" where
  "deny_read_globs_from_config config =
     List.map_filter pr_pattern
       (filter (\<lambda>r. pr_action r = DenyRule \<and> pr_tool r \<in> {ReadTool, GrepTool, AnyTool}) (pcf_rules config))"

subsection \<open>Lemmas\<close>

lemma drop_untrusted_rules:
  "set (fst (drop_untrusted_catchall_allows H rules pin skipped))
     = {s \<in> set rules. pin = None \<or> \<not> untrusted_catchall H s}"
  by (cases pin) auto

lemma resolve_Some:
  assumes "resolve_permissions_with_provenance_inner H cwd inp = Some r"
  shows "zip (pcf_rules (rp_config r)) (rp_sources r)
      = fst (drop_untrusted_catchall_allows H (fst (collect_sources cwd inp)) (pin_block inp)
          (snd (collect_sources cwd inp)))"
    and "length (pcf_rules (rp_config r)) = length (rp_sources r)"
    and "pcf_prompt_policy (rp_config r) = fst (effective_mode cwd inp)"
    and "pcf_default_mode_configured (rp_config r) = snd (effective_mode cwd inp)"
  using assms unfolding resolve_permissions_with_provenance_inner_def Let_def
  by (auto simp: zip_map_fst_snd split: prod.splits if_splits)

lemma collect_sources_set:
  "set (ri_requirements_rules inp @ ms_permissions (ri_managed inp) @ ri_managed_config_rules inp
         @ ri_config_toml_rules inp) \<subseteq> set (fst (collect_sources cwd inp))"
  unfolding collect_sources_def Let_def by (simp split: prod.split) blast

lemma resolved_rules:
  assumes "resolve_permissions_with_provenance_inner H cwd inp = Some r"
  shows "set (zip (pcf_rules (rp_config r)) (rp_sources r)) =
    {s \<in> set (fst (collect_sources cwd inp)). ri_yolo_lock inp = None \<or> \<not> untrusted_catchall H s}"
  unfolding resolve_Some(1) [OF assms] drop_untrusted_rules by (auto simp: pin_block_def)

lemma allow_all_catchall:
  "t \<in> {AnyTool, BashTool, McpTool, WebFetchTool, AgentMessageTool} \<Longrightarrow> is_catchall_allow H (allow_all t)"
  by (auto simp: is_catchall_allow_def allow_all_def rule_is_catchall_def pattern_matches_def list_all_iff Let_def)

lemma restricting_not_catchall: "restricts (fst s) \<Longrightarrow> \<not> untrusted_catchall H s"
  by (auto simp: restricts_def untrusted_catchall_def is_catchall_allow_def)

text \<open>The first file that sets a mode claims it.\<close>

definition claimed_mode :: "(string \<times> claude_settings option) list \<Rightarrow> string option" where
  "claimed_mode files = first_opt (List.map_filter (\<lambda>f. Option.bind (snd f) cs_default_mode) files)"

lemma merge_keeps_mode [simp]:
  "sa_mode (merge_permissions p s a) = sa_mode a" "sa_prompt (merge_permissions p s a) = sa_prompt a"
  "sa_mode_source (merge_permissions p s a) = sa_mode_source a"
  by (auto simp: merge_permissions_def Let_def split: option.splits prod.splits)

lemma mode_kept:
  "sa_mode_source a \<noteq> None \<or> load = SkipManagedOwns \<Longrightarrow>
   sa_mode (foldl (settings_step load) a files) = sa_mode a
   \<and> sa_prompt (foldl (settings_step load) a files) = sa_prompt a"
proof (induction files arbitrary: a)
  case (Cons f files)
  have "sa_mode (settings_step load a f) = sa_mode a \<and> sa_prompt (settings_step load a f) = sa_prompt a
      \<and> sa_mode_source (settings_step load a f) = sa_mode_source a"
    using Cons.prems by (auto simp: settings_step_def claim_mode_def split: option.splits)
  with Cons show ?case by (metis foldl_Cons)
qed simp

lemma first_claims:
  "sa_mode_source a = None \<Longrightarrow> sa_mode a = None \<Longrightarrow> sa_prompt a = PromptAsk \<Longrightarrow>
   sa_mode (foldl (settings_step ApplyUserMode) a files)
     = map_option (\<lambda>raw. fst (parse_default_mode_claiming_scope raw)) (claimed_mode files)
   \<and> sa_prompt (foldl (settings_step ApplyUserMode) a files)
     = (case claimed_mode files of None \<Rightarrow> PromptAsk
        | Some raw \<Rightarrow> me_prompt_policy (mode_effects (fst (parse_default_mode_claiming_scope raw))))"
proof (induction files arbitrary: a)
  case Nil
  then show ?case by (simp add: claimed_mode_def map_filter_simps first_opt_def)
next
  case (Cons f files)
  show ?case
  proof (cases "Option.bind (snd f) cs_default_mode")
    case None
    then have "sa_mode_source (settings_step ApplyUserMode a f) = None"
      "sa_mode (settings_step ApplyUserMode a f) = None" "sa_prompt (settings_step ApplyUserMode a f) = PromptAsk"
      using Cons.prems by (auto simp: settings_step_def claim_mode_def split: option.splits)
    with None Cons.IH show ?thesis by (simp add: claimed_mode_def map_filter_simps)
  next
    case (Some raw)
    then obtain s where s: "snd f = Some s" "cs_default_mode s = Some raw"
      by (cases "snd f") auto
    have "sa_mode_source (settings_step ApplyUserMode a f) \<noteq> None"
      "sa_mode (settings_step ApplyUserMode a f) = Some (fst (parse_default_mode_claiming_scope raw))"
      "sa_prompt (settings_step ApplyUserMode a f)
        = me_prompt_policy (mode_effects (fst (parse_default_mode_claiming_scope raw)))"
      using Cons.prems s by (auto simp: settings_step_def claim_mode_def split: prod.splits)
    with mode_kept [of "settings_step ApplyUserMode a f" ApplyUserMode files] Some show ?thesis
      by (simp add: claimed_mode_def map_filter_simps first_opt_def)
  qed
qed

lemma mode_source_agree:
  "(sa_mode a \<noteq> None) = (sa_mode_source a \<noteq> None) \<Longrightarrow>
   (sa_mode (foldl (settings_step ApplyUserMode) a fs) \<noteq> None)
     = (sa_mode_source (foldl (settings_step ApplyUserMode) a fs) \<noteq> None)"
proof (induction fs arbitrary: a)
  case (Cons g fs)
  have "(sa_mode (settings_step ApplyUserMode a g) \<noteq> None)
      = (sa_mode_source (settings_step ApplyUserMode a g) \<noteq> None)"
    using Cons.prems by (auto simp: settings_step_def claim_mode_def split: option.splits prod.splits)
  from Cons.IH [OF this] show ?case by simp
qed simp

lemma prompt_policy_resolved:
  assumes "resolve_permissions_with_provenance_inner H cwd inp = Some r"
    and "ms_default_mode (ri_managed inp) = Some mode"
  shows "pcf_prompt_policy (rp_config r) = me_prompt_policy (mode_effects mode)
    \<and> pcf_default_mode_configured (rp_config r)"
  using assms by (simp add: resolve_Some [OF assms(1)] effective_mode_def)

subsection \<open>Properties\<close>

definition demo_inputs :: resolve_inputs where
  "demo_inputs =
     \<lparr>ri_yolo_lock = Some \<lparr>yl_source_label = ''req'', yl_reason = DisableBypassPermissionsMode\<rparr>,
      ri_managed = \<lparr>ms_permissions = [], ms_default_mode = Some DontAskMode, ms_source_path = None\<rparr>,
      ri_requirements_rules = [(allow_all AnyTool, SrcRequirements ''r''),
                               (allow_all BashTool, SrcSystemRequirements ''s'')],
      ri_managed_config_rules = [], ri_config_toml_rules = [(demo_rule DenyRule BashTool (Some ''rm''), SrcConfig ''c'')],
      ri_skip_claude = True, ri_settings_files = []\<rparr>"


lemma demo_resolved:
  "map_option (\<lambda>r. zip (pcf_rules (rp_config r)) (rp_sources r))
      (resolve_permissions_with_provenance_inner demo_host ''/w'' demo_inputs)
    = Some [(allow_all BashTool, SrcSystemRequirements ''s''), (demo_rule DenyRule BashTool (Some ''rm''), SrcConfig ''c'')]"
  by code_simp


text \<open>
  The managed mode wins: when the managed settings set a default mode, the resolved prompt
  policy is that mode's, whatever the user's and the project's settings files say, and it counts as
  configured, so that the startup hint cannot loosen it.
\<close>
theorem managed_mode_wins:
  assumes "resolve_permissions_with_provenance_inner H cwd inp = Some r"
    and "ms_default_mode (ri_managed inp) = Some mode"
  shows "pcf_prompt_policy (rp_config r) = me_prompt_policy (mode_effects mode)
    \<and> apply_permission_mode_hint (Some (rp_config r)) requested block = (Some (rp_config r), False)"
  using prompt_policy_resolved [OF assms] by (simp add: apply_permission_mode_hint_def split: option.split)

lemma managed_mode_wins_witness:
  "\<exists>r. resolve_permissions_with_provenance_inner demo_host ''/w'' demo_inputs = Some r
     \<and> pcf_prompt_policy (rp_config r) = PromptDeny
     \<and> apply_permission_mode_hint (Some (rp_config r)) (Some ''alwaysAllow'') None = (Some (rp_config r), False)"
proof -
  obtain r where r: "resolve_permissions_with_provenance_inner demo_host ''/w'' demo_inputs = Some r"
    using demo_resolved by blast
  have "ms_default_mode (ri_managed demo_inputs) = Some DontAskMode" by (simp add: demo_inputs_def)
  from managed_mode_wins [OF r this] r show ?thesis by (auto simp: no_effects_def)
qed

text \<open>
  The user's mode is not merged: the first (most specific) settings file that sets
  \<open>defaultMode\<close> decides it, and an unrecognised value claims the slot as the prompting default, so
  a typo never lets a looser file further out apply.
\<close>
theorem most_specific_mode_claims:
  "(case resolve_claude_settings_inner cwd files block ApplyUserMode of
      None \<Rightarrow> claimed_mode files = None
    | Some (cfg, _, _) \<Rightarrow>
        pcf_default_mode_configured cfg = (claimed_mode files \<noteq> None)
        \<and> pcf_prompt_policy cfg =
            (case claimed_mode files of
               None \<Rightarrow> PromptAsk
             | Some raw \<Rightarrow> (case default_mode_from_str raw of
                              Inl _ \<Rightarrow> PromptAsk
                            | Inr mode \<Rightarrow> me_prompt_policy (mode_effects mode))))"
proof -
  have f: "sa_mode (foldl (settings_step ApplyUserMode) settings_init files)
      = map_option (\<lambda>raw. fst (parse_default_mode_claiming_scope raw)) (claimed_mode files)"
    "sa_prompt (foldl (settings_step ApplyUserMode) settings_init files)
      = (case claimed_mode files of None \<Rightarrow> PromptAsk
        | Some raw \<Rightarrow> me_prompt_policy (mode_effects (fst (parse_default_mode_claiming_scope raw))))"
    using first_claims [of settings_init files] by (simp_all add: settings_init_def)
  have m: "(sa_mode (foldl (settings_step ApplyUserMode) settings_init files) \<noteq> None)
      = (sa_mode_source (foldl (settings_step ApplyUserMode) settings_init files) \<noteq> None)"
    by (rule mode_source_agree) (simp add: settings_init_def)
  show ?thesis
    unfolding resolve_claude_settings_inner_def Let_def
    using f m by (auto simp: parse_default_mode_claiming_scope_def no_effects_def
        split: prod.splits option.splits sum.splits)
qed

text \<open>
  The startup hint is applied exactly when the client asked for \<open>alwaysAllow\<close>, no managed
  policy pins always-approve off and no settings layer configured a mode; applied, it changes the
  prompt policy and nothing else, so every deny and ask rule stays in force.
\<close>
theorem startup_hint_only_when_free:
  "(snd (apply_permission_mode_hint config requested block) \<longleftrightarrow>
      requested = Some PERMISSION_MODE_ALWAYS_ALLOW \<and> block = None
      \<and> \<not> (\<exists>c. config = Some c \<and> pcf_default_mode_configured c))
   \<and> (fst (apply_permission_mode_hint config requested block) =
        (if snd (apply_permission_mode_hint config requested block)
         then Some ((case config of Some c \<Rightarrow> c | None \<Rightarrow> permission_config_new [])\<lparr>pcf_prompt_policy := PromptAllow\<rparr>)
         else config))"
  by (auto simp: apply_permission_mode_hint_def permission_config_new_def Let_def split: option.splits)

end
