(* ===== verification/Float64.thy ===== *)
theory Float64
  imports Complex_Main
begin

section \<open>Double-precision quotients\<close>

text \<open>
  The program uses \<open>f64\<close> for ratios of counters.  A finite double is modelled by its rational
  value.  \<open>fl_div a b\<close> is the IEEE quotient of two integers that are themselves exact doubles: the
  53-bit significand nearest to the exact quotient, ties to even.  (Neither overflow nor underflow
  can occur for quotients of 64-bit integers.)
\<close>

datatype f64 = FFin rat | FPosInf | FNegInf | FNaN

fun f64_ge :: "f64 \<Rightarrow> f64 \<Rightarrow> bool" where
  "f64_ge FNaN _ = False"
| "f64_ge _ FNaN = False"
| "f64_ge FPosInf _ = True"
| "f64_ge _ FNegInf = True"
| "f64_ge (FFin a) (FFin b) = (a \<ge> b)"
| "f64_ge _ _ = False"

text \<open>The number of binary digits.\<close>

fun blen :: "nat \<Rightarrow> nat" where
  "blen n = (if n = 0 then 0 else Suc (blen (n div 2)))"

declare blen.simps [simp del]

text \<open>Rounding \<open>n + sticky\<close> to 53 significant bits: the significand and the dropped bits.\<close>

definition round53 :: "nat \<Rightarrow> bool \<Rightarrow> nat \<times> nat" where
  "round53 n sticky =
     (let drop = blen n - 53;
          hi = n div 2 ^ drop;
          rest = n mod 2 ^ drop;
          up = (drop > 0 \<and> (2 * rest > 2 ^ drop \<or> (2 * rest = 2 ^ drop \<and> (sticky \<or> odd hi))))
      in (if up then hi + 1 else hi, drop))"

definition fl_div :: "nat \<Rightarrow> nat \<Rightarrow> rat" where
  "fl_div a b =
     (let k = 54 + blen b;
          q = (a * 2 ^ k) div b;
          (m, d) = round53 q ((a * 2 ^ k) mod b \<noteq> 0)
      in of_nat (m * 2 ^ d) / 2 ^ k)"

lemma blen_bounds: "0 < n \<Longrightarrow> 2 ^ (blen n - 1) \<le> n \<and> n < 2 ^ blen n"
proof (induction n rule: blen.induct)
  case (1 n)
  show ?case
  proof (cases "n = 1")
    case True
    then show ?thesis by (simp add: blen.simps)
  next
    case False
    with 1 have "2 ^ (blen (n div 2) - 1) \<le> n div 2 \<and> n div 2 < 2 ^ blen (n div 2)" by simp
    moreover have "0 < blen (n div 2)" using 1(2) False by (subst blen.simps) simp
    ultimately show ?thesis
      using 1(2) by (subst blen.simps, subst (2) blen.simps) (cases "blen (n div 2)", auto)
  qed
qed

lemma split_53: "53 < L \<Longrightarrow> (2::nat) ^ (L - 1) = 2 ^ 52 * 2 ^ (L - 53)"
proof -
  assume "53 < L"
  then have "L - 1 = 52 + (L - 53)" by simp
  then show ?thesis by (metis power_add)
qed

text \<open>A power of two below the argument stays below the rounded value.\<close>

lemma round53_lower:
  assumes "2 ^ j \<le> n" and "round53 n s = (m, d)"
  shows "2 ^ j \<le> m * 2 ^ d"
proof -
  define L where "L = blen n"
  have n: "0 < n" using assms(1) by (metis not_gr0 not_numeral_le_zero power_eq_0_iff le_zero_eq zero_neq_numeral)
  have up: "n < 2 ^ L" and lo: "2 ^ (L - 1) \<le> n" unfolding L_def using blen_bounds [OF n] by auto
  have d: "d = L - 53" and m: "n div 2 ^ d \<le> m"
    using assms(2) by (auto simp: round53_def L_def Let_def split: if_splits)
  show ?thesis
  proof (cases "L \<le> 53")
    case True
    with d m assms(1) show ?thesis by simp
  next
    case False
    have "(2::nat) ^ j < 2 ^ L" using assms(1) up by linarith
    then have "j \<le> L - 1" by simp
    then have "(2::nat) ^ j \<le> 2 ^ (L - 1)" by simp
    also have "\<dots> = 2 ^ 52 * 2 ^ d" using False d split_53 [of L] by simp
    also have "2 ^ 52 \<le> n div 2 ^ d"
      using lo False d split_53 [of L] by (simp add: less_eq_div_iff_mult_less_eq)
    then have "2 ^ 52 * 2 ^ d \<le> m * 2 ^ d" using m by simp
    finally show ?thesis .
  qed
qed

text \<open>Rounding adds at most one unit of the last of 53 places.\<close>

lemma round53_upper:
  assumes "0 < n" and "round53 n s = (m, d)"
  shows "m * 2 ^ d * 2 ^ 52 \<le> n * (2 ^ 52 + 1)"
proof -
  define L where "L = blen n"
  have lo: "2 ^ (L - 1) \<le> n" unfolding L_def using blen_bounds [OF assms(1)] by auto
  have d: "d = L - 53" and m: "m \<le> n div 2 ^ d + 1" and m0: "d = 0 \<Longrightarrow> m = n"
    using assms(2) by (auto simp: round53_def L_def Let_def split: if_splits)
  show ?thesis
  proof (cases "d = 0")
    case True
    with m0 show ?thesis by simp
  next
    case False
    then have "(2::nat) ^ 52 * 2 ^ d \<le> n" using lo d split_53 [of L] by simp
    moreover have "m * 2 ^ d \<le> n + 2 ^ d"
    proof -
      have "m * 2 ^ d \<le> (n div 2 ^ d + 1) * 2 ^ d" using m by (rule mult_le_mono1)
      also have "\<dots> \<le> n + 2 ^ d" by (simp add: algebra_simps)
      finally show ?thesis .
    qed
    then have "m * 2 ^ d * 2 ^ 52 \<le> (n + 2 ^ d) * 2 ^ 52" by simp
    ultimately show ?thesis by (simp add: algebra_simps)
  qed
qed

text \<open>
  Comparing a quotient of small counters with one half: the rounding is invisible.
\<close>

lemma fl_div_half:
  assumes "0 < b" "b < 2 ^ 50"
  shows "fl_div a b \<ge> 1 / 2 \<longleftrightarrow> b \<le> 2 * a"
proof -
  define k where "k = 54 + blen b"
  define q where "q = (a * 2 ^ k) div b"
  obtain m d where md: "round53 q ((a * 2 ^ k) mod b \<noteq> 0) = (m, d)" by fastforce
  have k: "k = Suc (k - 1)" by (simp add: k_def)
  have p: "(2::nat) ^ k = 2 * 2 ^ (k - 1)" by (subst k) (simp only: power_Suc)
  have fl: "fl_div a b = of_nat (m * 2 ^ d) / 2 ^ k"
    using md by (simp add: fl_div_def Let_def k_def q_def)
  have "fl_div a b \<ge> 1 / 2 \<longleftrightarrow> (of_nat (2 * (m * 2 ^ d)) :: rat) \<ge> of_nat (2 ^ k)"
    unfolding fl by (simp add: field_simps)
  also have "\<dots> \<longleftrightarrow> 2 ^ k \<le> 2 * (m * 2 ^ d)" by (simp only: of_nat_le_iff)
  also have "\<dots> \<longleftrightarrow> 2 ^ (k - 1) \<le> m * 2 ^ d" using p by simp
  also have "\<dots> \<longleftrightarrow> b \<le> 2 * a"
  proof
    assume "b \<le> 2 * a"
    then have "2 ^ (k - 1) * b \<le> a * 2 ^ k" unfolding p by simp
    then have "2 ^ (k - 1) \<le> q" unfolding q_def using assms(1) by (simp add: less_eq_div_iff_mult_less_eq)
    then show "2 ^ (k - 1) \<le> m * 2 ^ d" using round53_lower md by blast
  next
    assume r: "2 ^ (k - 1) \<le> m * 2 ^ d"
    show "b \<le> 2 * a"
    proof (rule ccontr)
      assume "\<not> b \<le> 2 * a"
      then have ab: "2 * a + 1 \<le> b" by simp
      have "0 < q" using r md by (cases q) (auto simp: round53_def Let_def split: if_splits)
      then have "m * 2 ^ d * 2 ^ 52 \<le> q * (2 ^ 52 + 1)" using round53_upper md by blast
      with r have "2 ^ (k - 1) * 2 ^ 52 \<le> q * (2 ^ 52 + 1)"
        by (meson le_trans mult_le_mono1)
      then have "2 ^ (k - 1) * 2 ^ 52 * b \<le> (q * b) * (2 ^ 52 + 1)"
        by (simp add: mult.assoc mult.left_commute mult.commute)
      also have "q * b \<le> a * 2 ^ k" unfolding q_def by simp
      then have "(q * b) * (2 ^ 52 + 1) \<le> (a * 2 ^ k) * (2 ^ 52 + 1)" by simp
      also have "(a * 2 ^ k) * (2 ^ 52 + 1) = 2 ^ (k - 1) * (2 * a * (2 ^ 52 + 1))" unfolding p by simp
      finally have "2 ^ (k - 1) * (2 ^ 52 * b) \<le> 2 ^ (k - 1) * (2 * a * (2 ^ 52 + 1))"
        by (simp only: mult.assoc)
      then have "2 ^ 52 * b \<le> 2 * a * (2 ^ 52 + 1)" by simp
      with ab assms(2) show False by simp
    qed
  qed
  finally show ?thesis .
qed

text \<open>Rounding a non-negative rational, and the conversion of an unsigned integer.\<close>

definition fl_round :: "rat \<Rightarrow> rat" where
  "fl_round r = (let (a, b) = quotient_of r in if a \<le> 0 then 0 else fl_div (nat a) (nat b))"

definition fl_of_nat :: "nat \<Rightarrow> rat" where
  "fl_of_nat n = (if n = 0 then 0 else fl_div n 1)"

definition fl_mul :: "rat \<Rightarrow> rat \<Rightarrow> rat" where "fl_mul a b = fl_round (a * b)"
definition fl_quot :: "rat \<Rightarrow> rat \<Rightarrow> rat" where "fl_quot a b = fl_round (a / b)"

text \<open>\<open>f64::round\<close> of a non-negative value (half away from zero).\<close>

definition f64_round :: "rat \<Rightarrow> nat" where "f64_round r = nat \<lfloor>r + 1 / 2\<rfloor>"

end
