(* ===== verification/CircuitBreaker.thy ===== *)
theory CircuitBreaker
  imports Prelude Float64
begin

section \<open>The shared circuit breaker\<close>

text \<open>
  \<open>common/xai-circuit-breaker\<close>: the bounded sliding window, the three-state breaker with its
  probe accounting and lock-free mirror, its configuration and the per-key registry.

  An \<open>Instant\<close> is the number of nanoseconds since the earliest instant the platform can represent,
  so that \<open>checked_sub\<close> is subtraction that fails below zero; a \<open>Duration\<close> is a number of
  nanoseconds.  Atomic counters are 64-bit words.  The operations run one after the other; where an
  operation reads the clock more than once the readings are separate arguments.  The observer is a
  log of its callbacks.
\<close>

subsection \<open>Configuration\<close>

record breaker_config =
  bc_window_duration :: nat
  bc_min_samples :: nat
  bc_error_rate_threshold :: f64
  bc_open_duration :: nat
  bc_half_open_max_probes :: u64
  bc_failure_codes :: "nat set"
  bc_enabled :: bool

definition secs :: "nat \<Rightarrow> nat" where "secs n = n * 1000000000"
definition millis :: "nat \<Rightarrow> nat" where "millis n = n * 1000000"
definition as_millis :: "nat \<Rightarrow> nat" where "as_millis d = d div 1000000"

definition default_failure_codes :: "nat set" where
  "default_failure_codes = {429, 500, 502, 503, 504}"

definition server_config :: breaker_config where
  "server_config =
     \<lparr>bc_window_duration = secs 60, bc_min_samples = 10, bc_error_rate_threshold = FFin (1 / 2),
      bc_open_duration = secs 10, bc_half_open_max_probes = 1,
      bc_failure_codes = default_failure_codes, bc_enabled = True\<rparr>"

definition client_config :: breaker_config where
  "client_config =
     \<lparr>bc_window_duration = secs 60, bc_min_samples = 5, bc_error_rate_threshold = FFin (1 / 2),
      bc_open_duration = secs 60, bc_half_open_max_probes = 1, bc_failure_codes = {401},
      bc_enabled = True\<rparr>"

definition is_failure_status :: "breaker_config \<Rightarrow> nat \<Rightarrow> bool" where
  "is_failure_status c status \<longleftrightarrow> status \<in> bc_failure_codes c"

definition parse_failure_codes :: "string \<Rightarrow> nat set" where
  "parse_failure_codes s =
     set (List.map_filter (\<lambda>c. parse_uint (2 ^ 16 - 1) (trim c)) (split_char CHR '','' s))"

definition lookup_or :: "(string \<Rightarrow> string option) \<Rightarrow> (string \<Rightarrow> 'a option) \<Rightarrow> string \<Rightarrow> 'a \<Rightarrow> 'a" where
  "lookup_or get parse key dflt =
     (case get key of
        None \<Rightarrow> dflt
      | Some v \<Rightarrow> (case parse v of Some x \<Rightarrow> x | None \<Rightarrow> dflt))"

definition parse_bool :: "string \<Rightarrow> bool option" where
  "parse_bool s = (if s = ''true'' then Some True else if s = ''false'' then Some False else None)"

text \<open>\<open>parse_f64\<close> is the standard library's decimal-to-double conversion.\<close>

definition config_from_lookup ::
    "(string \<Rightarrow> f64 option) \<Rightarrow> string \<Rightarrow> (string \<Rightarrow> string option) \<Rightarrow> breaker_config" where
  "config_from_lookup parse_f64 pre get =
     (let key = (\<lambda>k. pre @ k);
          u64 = parse_uint (2 ^ 64 - 1);
          codes = (case get (key ''FAILURE_CODES'') of
                     None \<Rightarrow> default_failure_codes
                   | Some raw \<Rightarrow>
                       (let cs = parse_failure_codes raw in if cs = {} then default_failure_codes else cs))
      in \<lparr>bc_window_duration = secs (lookup_or get u64 (key ''WINDOW_SECS'') 60),
          bc_min_samples = lookup_or get u64 (key ''MIN_SAMPLES'') 10,
          bc_error_rate_threshold =
            lookup_or get parse_f64 (key ''ERROR_RATE_THRESHOLD'') (FFin (1 / 2)),
          bc_open_duration = secs (lookup_or get u64 (key ''OPEN_DURATION_SECS'') 10),
          bc_half_open_max_probes =
            max (of_nat (lookup_or get u64 (key ''HALF_OPEN_MAX_PROBES'') 1)) 1,
          bc_failure_codes = codes,
          bc_enabled = lookup_or get parse_bool (key ''ENABLED'') True\<rparr>)"

subsection \<open>The sliding window\<close>

definition MAX_WINDOW_ENTRIES :: nat where "MAX_WINDOW_ENTRIES = 10000"

record sliding_window =
  sw_entries :: "(nat \<times> bool) list"
  sw_failures :: nat

definition window_new :: sliding_window where
  "window_new = \<lparr>sw_entries = [], sw_failures = 0\<rparr>"

definition pop_front :: "sliding_window \<Rightarrow> sliding_window" where
  "pop_front w =
     (case sw_entries w of
        [] \<Rightarrow> w
      | (_, was_failure) # es \<Rightarrow>
          \<lparr>sw_entries = es, sw_failures = (if was_failure then sw_failures w - 1 else sw_failures w)\<rparr>)"

definition window_push :: "bool \<Rightarrow> nat \<Rightarrow> sliding_window \<Rightarrow> sliding_window" where
  "window_push is_failure ts w =
     (let w1 = (if length (sw_entries w) \<ge> MAX_WINDOW_ENTRIES then pop_front w else w) in
      \<lparr>sw_entries = sw_entries w1 @ [(ts, is_failure)],
       sw_failures = sw_failures w1 + (if is_failure then 1 else 0)\<rparr>)"

function evict_before :: "nat \<Rightarrow> sliding_window \<Rightarrow> sliding_window" where
  "evict_before cutoff w =
     (if sw_entries w \<noteq> [] \<and> fst (hd (sw_entries w)) < cutoff then evict_before cutoff (pop_front w) else w)"
  by pat_completeness auto
termination
  by (relation "measure (\<lambda>(c, w). length (sw_entries w))")
     (auto simp: pop_front_def split: list.splits)

declare evict_before.simps [simp del]

definition window_evict :: "nat \<Rightarrow> nat \<Rightarrow> sliding_window \<Rightarrow> sliding_window" where
  "window_evict window now w = (if window \<le> now then evict_before (now - window) w else w)"

definition window_error_rate :: "sliding_window \<Rightarrow> rat" where
  "window_error_rate w =
     (if sw_entries w = [] then 0 else fl_div (sw_failures w) (length (sw_entries w)))"

definition sample_count :: "sliding_window \<Rightarrow> nat" where
  "sample_count w = length (sw_entries w)"

definition window_clear :: "sliding_window \<Rightarrow> sliding_window" where
  "window_clear w = \<lparr>sw_entries = [], sw_failures = 0\<rparr>"

subsection \<open>The breaker\<close>

datatype breaker_state = Closed | Open | HalfOpen
datatype outcome = Success | Failure

datatype breaker_event =
    StateChange breaker_state breaker_state string
  | ProbeAdmission bool
  | OutcomeSeen outcome breaker_state

record breaker =
  br_config :: breaker_config
  br_state :: breaker_state
  br_baseline :: nat
  br_opened_at :: u64
  br_probes :: u64
  br_probe_claimed :: u64
  br_is_open_fast :: bool
  br_window :: sliding_window
  br_log :: "breaker_event list"

text \<open>\<open>Err(BreakerOpen { retry_after })\<close> on the left.\<close>

type_synonym check_result = "nat + unit"

definition breaker_with_clock :: "breaker_config \<Rightarrow> nat \<Rightarrow> breaker" where
  "breaker_with_clock config now =
     \<lparr>br_config = config\<lparr>bc_half_open_max_probes := max (bc_half_open_max_probes config) 1\<rparr>,
      br_state = Closed, br_baseline = now, br_opened_at = 0, br_probes = 0, br_probe_claimed = 0,
      br_is_open_fast = False, br_window = window_new, br_log = []\<rparr>"

definition emit :: "breaker_event \<Rightarrow> breaker \<Rightarrow> breaker" where
  "emit e b = b\<lparr>br_log := br_log b @ [e]\<rparr>"

text \<open>Milliseconds since the baseline, cast from 128 to 64 bits.\<close>

definition elapsed_millis :: "breaker \<Rightarrow> nat \<Rightarrow> u64" where
  "elapsed_millis b now = of_nat (as_millis (now - br_baseline b))"

definition trip :: "nat \<Rightarrow> breaker_state \<Rightarrow> string \<Rightarrow> breaker \<Rightarrow> breaker" where
  "trip now prev reason b =
     (let b1 = b\<lparr>br_state := Open, br_opened_at := elapsed_millis b now, br_probes := 0,
                 br_is_open_fast := True\<rparr>
      in if prev \<noteq> Open then emit (StateChange prev Open reason) b1 else b1)"

definition close_breaker :: "breaker_state \<Rightarrow> string \<Rightarrow> breaker \<Rightarrow> breaker" where
  "close_breaker prev reason b =
     (let b1 = b\<lparr>br_state := Closed, br_window := window_clear (br_window b), br_probes := 0,
                 br_is_open_fast := False\<rparr>
      in if prev \<noteq> Closed then emit (StateChange prev Closed reason) b1 else b1)"

definition cas_state :: "breaker_state \<Rightarrow> breaker_state \<Rightarrow> breaker \<Rightarrow> bool \<times> breaker" where
  "cas_state from to b = (if br_state b = from then (True, b\<lparr>br_state := to\<rparr>) else (False, b))"

definition HALF_OPEN_PROBE_BACKOFF :: nat where "HALF_OPEN_PROBE_BACKOFF = millis 50"

definition try_half_open_probe :: "nat \<Rightarrow> breaker \<Rightarrow> check_result \<times> breaker" where
  "try_half_open_probe t b =
     (let now = elapsed_millis b t;
          prev = br_probes b;
          b1 = b\<lparr>br_probes := prev + 1\<rparr>
      in if prev < bc_half_open_max_probes (br_config b) then
           (Inr (), emit (ProbeAdmission True) (b1\<lparr>br_probe_claimed := now\<rparr>))
         else
           (let b2 = b1\<lparr>br_probes := br_probes b1 - 1\<rparr>;
                lease = (of_nat (as_millis (bc_open_duration (br_config b))) :: u64);
                claimed = br_probe_claimed b2
            in if sat_sub now claimed \<ge> lease then
                 (Inr (), emit (ProbeAdmission True) (b2\<lparr>br_probe_claimed := now\<rparr>))
               else
                 (Inl (min HALF_OPEN_PROBE_BACKOFF (bc_open_duration (br_config b))),
                  emit (ProbeAdmission False) b2)))"

text \<open>\<open>elapsed\<close> as a duration since the breaker opened.\<close>

definition open_elapsed :: "breaker \<Rightarrow> nat \<Rightarrow> nat" where
  "open_elapsed b t = millis (unat (sat_sub (elapsed_millis b t) (br_opened_at b)))"

text \<open>The clock reads \<open>t1\<close> on entry and \<open>t2\<close> afterwards.\<close>

definition check_open :: "nat \<Rightarrow> nat \<Rightarrow> breaker \<Rightarrow> check_result \<times> breaker" where
  "check_open t1 t2 b =
     (let elapsed = open_elapsed b t1; open_duration = bc_open_duration (br_config b) in
      if elapsed \<ge> open_duration then
        (let (won, b1) = cas_state Open HalfOpen b in
         if won then
           try_half_open_probe t2
             (emit (StateChange Open HalfOpen ''open_elapsed'') (b1\<lparr>br_is_open_fast := False\<rparr>))
         else (case br_state b1 of
                 Closed \<Rightarrow> (Inr (), b1)
               | HalfOpen \<Rightarrow> try_half_open_probe t2 b1
               | Open \<Rightarrow> (Inl (open_duration - open_elapsed b1 t2), b1)))
      else (Inl (open_duration - elapsed), b))"

definition check :: "nat \<Rightarrow> nat \<Rightarrow> breaker \<Rightarrow> check_result \<times> breaker" where
  "check t1 t2 b =
     (if \<not> bc_enabled (br_config b) then (Inr (), b)
      else (case br_state b of
              Closed \<Rightarrow> (Inr (), b)
            | Open \<Rightarrow> check_open t1 t2 b
            | HalfOpen \<Rightarrow> try_half_open_probe t1 b))"

definition push_sample :: "outcome \<Rightarrow> nat \<Rightarrow> breaker \<Rightarrow> sliding_window" where
  "push_sample oc t b =
     window_evict (bc_window_duration (br_config b)) t (window_push (oc = Failure) t (br_window b))"

definition should_trip :: "breaker_config \<Rightarrow> sliding_window \<Rightarrow> bool" where
  "should_trip c w \<longleftrightarrow>
     sample_count w \<ge> bc_min_samples c
     \<and> f64_ge (FFin (window_error_rate w)) (bc_error_rate_threshold c)"

definition record_outcome :: "nat \<Rightarrow> nat \<Rightarrow> outcome \<Rightarrow> breaker \<Rightarrow> breaker" where
  "record_outcome t1 t2 oc b =
     (if \<not> bc_enabled (br_config b) then b
      else let prev = br_state b;
               b1 = (case prev of
                       Closed \<Rightarrow>
                         (let w = push_sample oc t1 b; b' = b\<lparr>br_window := w\<rparr> in
                          if should_trip (br_config b) w then trip t2 prev ''trip'' b' else b')
                     | HalfOpen \<Rightarrow>
                         if oc = Failure then trip t2 prev ''probe_failure'' b
                         else close_breaker prev ''probe_success'' b
                     | Open \<Rightarrow> b\<lparr>br_window := push_sample oc t1 b\<rparr>)
           in emit (OutcomeSeen oc (br_state b1)) b1)"

definition breaker_error_rate :: "nat \<Rightarrow> breaker \<Rightarrow> rat \<times> breaker" where
  "breaker_error_rate t b =
     (let w = window_evict (bc_window_duration (br_config b)) t (br_window b)
      in (window_error_rate w, b\<lparr>br_window := w\<rparr>))"

definition force_half_open :: "breaker \<Rightarrow> breaker" where
  "force_half_open b =
     (let prev = br_state b;
          b1 = b\<lparr>br_state := HalfOpen, br_is_open_fast := False, br_probes := 0\<rparr>
      in if prev \<noteq> HalfOpen then emit (StateChange prev HalfOpen ''force_half_open'') b1 else b1)"

definition is_open :: "breaker \<Rightarrow> bool" where "is_open b = br_is_open_fast b"

subsection \<open>The registry\<close>

record registry =
  rg_config :: breaker_config
  rg_breakers :: "string \<Rightarrow> breaker option"

definition registry_new :: "breaker_config \<Rightarrow> registry" where
  "registry_new config = \<lparr>rg_config = config, rg_breakers = Map.empty\<rparr>"

text \<open>
  The handle returned is shared with the map (an \<open>Arc\<close>): it is the key under which the breaker lives.
\<close>

definition registry_get :: "nat \<Rightarrow> string \<Rightarrow> registry \<Rightarrow> string option \<times> registry" where
  "registry_get now key r =
     (if \<not> bc_enabled (rg_config r) then (None, r)
      else (case rg_breakers r key of
              Some cb \<Rightarrow> (Some key, r)
            | None \<Rightarrow>
                (let cb = breaker_with_clock (rg_config r) now
                 in (Some key, r\<lparr>rg_breakers := (rg_breakers r)(key \<mapsto> cb)\<rparr>))))"

subsection \<open>The window as a bounded log\<close>

text \<open>
  What the breaker relies on: a window is a log of samples, oldest first, bounded in length, with an
  exact failure count; pushing appends (dropping the oldest sample when full) and evicting drops the
  samples that are too old from the front.
\<close>

locale failure_window =
  fixes push :: "bool \<Rightarrow> nat \<Rightarrow> 'w \<Rightarrow> 'w"
    and evict :: "nat \<Rightarrow> nat \<Rightarrow> 'w \<Rightarrow> 'w"
    and clear :: "'w \<Rightarrow> 'w"
    and samples :: "'w \<Rightarrow> (nat \<times> bool) list"
    and fails :: "'w \<Rightarrow> nat"
    and ok :: "'w \<Rightarrow> bool"
    and cap :: nat
  assumes fails_count: "ok w \<Longrightarrow> fails w = length (filter snd (samples w))"
    and bounded: "ok w \<Longrightarrow> length (samples w) \<le> cap"
    and push_ok: "ok w \<Longrightarrow> ok (push f t w)"
    and evict_ok: "ok w \<Longrightarrow> ok (evict d now w)"
    and clear_ok: "ok w \<Longrightarrow> ok (clear w)"
    and samples_push:
      "ok w \<Longrightarrow> samples (push f t w) = drop (Suc (length (samples w)) - cap) (samples w) @ [(t, f)]"
    and samples_evict: "ok w \<Longrightarrow> samples (evict d now w) = dropWhile (\<lambda>e. fst e + d < now) (samples w)"
    and samples_clear: "samples (clear w) = []"
begin

definition in_time_order :: "'w \<Rightarrow> bool" where
  "in_time_order w \<longleftrightarrow> sorted (map fst (samples w))"

lemma fails_le: "ok w \<Longrightarrow> fails w \<le> length (samples w)"
  by (simp add: fails_count)

lemma sorted_push:
  assumes "ok w" "in_time_order w" "\<forall>e \<in> set (samples w). fst e \<le> t"
  shows "in_time_order (push f t w)"
proof -
  have "sorted (map fst (drop n (samples w)))" for n
    using assms(2) by (simp add: in_time_order_def sorted_wrt_drop flip: drop_map)
  moreover have "\<forall>e \<in> set (drop n (samples w)). fst e \<le> t" for n
    using assms(3) by (meson in_set_dropD)
  ultimately show ?thesis
    by (simp add: in_time_order_def samples_push assms(1) sorted_append)
qed

lemma dropWhile_sorted:
  "sorted (map fst es) \<Longrightarrow> dropWhile (\<lambda>e. fst e + d < now) es = filter (\<lambda>e. now \<le> fst e + d) es"
  for es :: "(nat \<times> bool) list"
proof (induction es)
  case (Cons e es)
  show ?case
  proof (cases "fst e + d < now")
    case False
    then have "\<forall>x \<in> set es. now \<le> fst x + d" using Cons.prems by auto
    then show ?thesis using False by (simp add: filter_id_conv)
  qed (use Cons in simp)
qed simp

lemma evict_exact:
  assumes "ok w" "in_time_order w"
  shows "samples (evict d now w) = filter (\<lambda>e. now \<le> fst e + d) (samples w)"
  using assms by (simp add: samples_evict in_time_order_def dropWhile_sorted)

end

definition window_ok :: "sliding_window \<Rightarrow> bool" where
  "window_ok w \<longleftrightarrow>
     sw_failures w = length (filter snd (sw_entries w)) \<and> length (sw_entries w) \<le> MAX_WINDOW_ENTRIES"

lemma window_ok_new: "window_ok window_new"
  by (simp add: window_ok_def window_new_def)

lemma pop_front_ok: "window_ok w \<Longrightarrow> window_ok (pop_front w)"
  by (auto simp: window_ok_def pop_front_def split: list.splits)

lemma pop_front_entries [simp]: "sw_entries (pop_front w) = tl (sw_entries w)"
  by (auto simp: pop_front_def split: list.splits)

lemma evict_before_ok: "window_ok w \<Longrightarrow> window_ok (evict_before c w)"
  by (induction c w rule: evict_before.induct) (subst evict_before.simps, simp add: pop_front_ok)

lemma evict_before_entries:
  "sw_entries (evict_before c w) = dropWhile (\<lambda>e. fst e < c) (sw_entries w)"
proof (induction c w rule: evict_before.induct)
  case (1 c w)
  then show ?case by (subst evict_before.simps) (cases "sw_entries w"; auto)
qed

lemma evict_entries:
  "sw_entries (window_evict d now w) = dropWhile (\<lambda>e. fst e + d < now) (sw_entries w)"
proof (cases "d \<le> now")
  case True
  then have "(\<lambda>e::nat \<times> bool. fst e < now - d) = (\<lambda>e. fst e + d < now)" by (auto simp: fun_eq_iff)
  with True show ?thesis by (simp add: window_evict_def evict_before_entries)
next
  case False
  then have "dropWhile (\<lambda>e. fst e + d < now) es = es" for es :: "(nat \<times> bool) list" by (cases es) auto
  with False show ?thesis by (simp add: window_evict_def)
qed

lemma window_push_ok: "window_ok w \<Longrightarrow> window_ok (window_push f t w)"
  using pop_front_ok [of w]
  by (auto simp: window_push_def Let_def window_ok_def MAX_WINDOW_ENTRIES_def)

lemma window_push_entries:
  "window_ok w \<Longrightarrow> sw_entries (window_push f t w)
     = drop (Suc (length (sw_entries w)) - MAX_WINDOW_ENTRIES) (sw_entries w) @ [(t, f)]"
  by (auto simp: window_push_def Let_def window_ok_def MAX_WINDOW_ENTRIES_def Suc_diff_le drop_Suc le_Suc_eq)

interpretation win: failure_window window_push window_evict window_clear sw_entries sw_failures window_ok
  MAX_WINDOW_ENTRIES
proof unfold_locales
  show "window_ok w \<Longrightarrow> window_ok (window_evict d now w)" for w d now
    by (simp add: window_evict_def evict_before_ok)
qed (simp_all add: evict_entries window_push_entries window_push_ok window_clear_def, simp_all add: window_ok_def)

subsection \<open>Steps and the invariant\<close>

inductive breaker_step :: "breaker \<Rightarrow> breaker \<Rightarrow> bool" where
  consult: "breaker_step b (snd (check t1 t2 b))"
| outcome: "breaker_step b (record_outcome t1 t2 oc b)"
| rate: "breaker_step b (snd (breaker_error_rate t b))"
| force: "breaker_step b (force_half_open b)"

inductive_cases breaker_stepE: "breaker_step b b'"

abbreviation max_probes :: "breaker \<Rightarrow> u64" where
  "max_probes b \<equiv> bc_half_open_max_probes (br_config b)"

definition breaker_inv :: "breaker \<Rightarrow> bool" where
  "breaker_inv b \<longleftrightarrow>
     window_ok (br_window b) \<and> 0 < max_probes b \<and> br_probes b \<le> max_probes b
     \<and> br_is_open_fast b = (br_state b = Open)
     \<and> (br_state b = HalfOpen \<or> br_probes b = 0)"

lemma emit_simps [simp]:
  "br_config (emit e b) = br_config b" "br_state (emit e b) = br_state b"
  "br_baseline (emit e b) = br_baseline b" "br_opened_at (emit e b) = br_opened_at b"
  "br_probes (emit e b) = br_probes b" "br_probe_claimed (emit e b) = br_probe_claimed b"
  "br_is_open_fast (emit e b) = br_is_open_fast b" "br_window (emit e b) = br_window b"
  by (simp_all add: emit_def)

lemma emit_inv [simp]: "breaker_inv (emit e b) = breaker_inv b"
  by (simp add: breaker_inv_def)

lemma inv_new: "breaker_inv (breaker_with_clock c t)"
  by (auto simp: breaker_inv_def breaker_with_clock_def window_ok_new max_def word_less_nat_alt word_le_nat_alt)

lemma inv_trip: "breaker_inv b \<Longrightarrow> breaker_inv (trip t prev why b)"
  by (simp add: breaker_inv_def trip_def Let_def)

lemma inv_close: "breaker_inv b \<Longrightarrow> breaker_inv (close_breaker prev why b)"
  by (simp add: breaker_inv_def close_breaker_def Let_def win.clear_ok)

lemma probe_count_word: "prev < (m::u64) \<Longrightarrow> prev + 1 \<le> m"
  by (simp add: inc_le)

lemma probe_simps:
  "br_config (snd (try_half_open_probe t b)) = br_config b"
  "br_state (snd (try_half_open_probe t b)) = br_state b"
  "br_baseline (snd (try_half_open_probe t b)) = br_baseline b"
  "br_window (snd (try_half_open_probe t b)) = br_window b"
  "br_is_open_fast (snd (try_half_open_probe t b)) = br_is_open_fast b"
  "br_probes (snd (try_half_open_probe t b))
     = (if br_probes b < max_probes b then br_probes b + 1 else br_probes b)"
  by (auto simp: try_half_open_probe_def Let_def)

lemma inv_probe: "breaker_inv b \<Longrightarrow> br_state b = HalfOpen \<Longrightarrow> breaker_inv (snd (try_half_open_probe t b))"
  by (auto simp: breaker_inv_def probe_simps probe_count_word)

definition half_opened :: "breaker \<Rightarrow> breaker" where
  "half_opened b =
     emit (StateChange Open HalfOpen ''open_elapsed'') (b\<lparr>br_state := HalfOpen, br_is_open_fast := False\<rparr>)"

lemma check_open_Open:
  "br_state b = Open \<Longrightarrow> check_open t1 t2 b =
     (if open_elapsed b t1 \<ge> bc_open_duration (br_config b) then try_half_open_probe t2 (half_opened b)
      else (Inl (bc_open_duration (br_config b) - open_elapsed b t1), b))"
  by (simp add: check_open_def cas_state_def half_opened_def Let_def)

lemma half_opened_simps [simp]:
  "br_config (half_opened b) = br_config b" "br_state (half_opened b) = HalfOpen"
  "br_probes (half_opened b) = br_probes b" "br_window (half_opened b) = br_window b"
  "br_baseline (half_opened b) = br_baseline b" "br_is_open_fast (half_opened b) = False"
  by (simp_all add: half_opened_def)

lemma inv_half_opened: "breaker_inv b \<Longrightarrow> breaker_inv (half_opened b)"
  by (simp add: breaker_inv_def)

lemma inv_check: "breaker_inv b \<Longrightarrow> breaker_inv (snd (check t1 t2 b))"
  by (cases "br_state b") (auto simp: check_def check_open_Open inv_probe inv_half_opened)

lemma push_sample_ok: "window_ok (br_window b) \<Longrightarrow> window_ok (push_sample oc t b)"
  by (simp add: push_sample_def win.push_ok win.evict_ok)

lemma inv_window: "breaker_inv b \<Longrightarrow> window_ok w \<Longrightarrow> breaker_inv (b\<lparr>br_window := w\<rparr>)"
  by (simp add: breaker_inv_def)

lemma inv_record: "breaker_inv b \<Longrightarrow> breaker_inv (record_outcome t1 t2 oc b)"
proof -
  assume inv: "breaker_inv b"
  then have "window_ok (push_sample oc t1 b)" by (simp add: breaker_inv_def push_sample_ok)
  with inv have "breaker_inv (b\<lparr>br_window := push_sample oc t1 b\<rparr>)" by (rule inv_window)
  with inv show ?thesis
    by (cases "br_state b") (auto simp: record_outcome_def Let_def inv_trip inv_close)
qed

lemma inv_rate: "breaker_inv b \<Longrightarrow> breaker_inv (snd (breaker_error_rate t b))"
  by (auto simp: breaker_error_rate_def Let_def breaker_inv_def win.evict_ok)

lemma inv_force: "breaker_inv b \<Longrightarrow> breaker_inv (force_half_open b)"
  by (auto simp: force_half_open_def Let_def breaker_inv_def)

lemma inv_step: "breaker_step b b' \<Longrightarrow> breaker_inv b \<Longrightarrow> breaker_inv b'"
  by (induction rule: breaker_step.induct) (auto intro: inv_check inv_record inv_rate inv_force)

lemma inv_reachable:
  assumes "breaker_step\<^sup>*\<^sup>* (breaker_with_clock c t0) b"
  shows "breaker_inv b"
  using assms by (induction rule: rtranclp_induct) (auto intro: inv_new inv_step)

subsection \<open>Sequences of checks\<close>

fun run_checks :: "nat list \<Rightarrow> breaker \<Rightarrow> check_result list \<times> breaker" where
  "run_checks [] b = ([], b)"
| "run_checks (t # ts) b =
     (let (r, b1) = check t t b; (rs, b2) = run_checks ts b1 in (r # rs, b2))"

definition admitted :: "check_result list \<Rightarrow> nat" where
  "admitted rs = length (filter (\<lambda>r. r = Inr ()) rs)"

text \<open>A clock reading within the lease of the last probe claim.\<close>

definition within_lease :: "breaker \<Rightarrow> u64 \<Rightarrow> nat \<Rightarrow> bool" where
  "within_lease b claimed t \<longleftrightarrow>
     claimed \<le> elapsed_millis b t
     \<and> unat (elapsed_millis b t) < unat claimed + unat (of_nat (as_millis (bc_open_duration (br_config b))) :: u64)"

lemma elapsed_same: "br_baseline b = br_baseline b' \<Longrightarrow> elapsed_millis b t = elapsed_millis b' t"
  by (simp add: elapsed_millis_def)

lemma probe_within_lease:
  assumes "claimed \<le> br_probe_claimed b" "within_lease b claimed t" "br_probe_claimed b \<le> elapsed_millis b t"
  shows "fst (try_half_open_probe t b) = Inr () \<longleftrightarrow> br_probes b < max_probes b"
proof -
  have "unat (sat_sub (elapsed_millis b t) (br_probe_claimed b))
      < unat (of_nat (as_millis (bc_open_duration (br_config b))) :: u64)"
    using assms by (simp add: sat_simps within_lease_def word_le_nat_alt)
  then have "\<not> sat_sub (elapsed_millis b t) (br_probe_claimed b) \<ge> (of_nat (as_millis (bc_open_duration (br_config b))) :: u64)"
    by (simp add: word_le_nat_alt)
  then show ?thesis by (auto simp: try_half_open_probe_def Let_def)
qed

lemma probe_claimed_after:
  "br_probe_claimed (snd (try_half_open_probe t b)) = br_probe_claimed b
   \<or> br_probe_claimed (snd (try_half_open_probe t b)) = elapsed_millis b t"
  by (auto simp: try_half_open_probe_def Let_def)

lemma checks_admitted_bound:
  assumes "br_state b = HalfOpen" "bc_enabled (br_config b)" "br_probes b \<le> max_probes b"
    and "claimed \<le> br_probe_claimed b" "\<forall>t \<in> set ts. within_lease b claimed t"
    and "sorted (map (elapsed_millis b) ts)" "\<forall>t \<in> set ts. br_probe_claimed b \<le> elapsed_millis b t"
  shows "admitted (fst (run_checks ts b)) + unat (br_probes b) \<le> unat (max_probes b)"
  using assms
proof (induction ts arbitrary: b)
  case Nil
  then show ?case by (simp add: admitted_def word_le_nat_alt)
next
  case (Cons t ts)
  let ?b = "snd (try_half_open_probe t b)"
  have c: "check t t b = try_half_open_probe t b" using Cons.prems(1,2) by (simp add: check_def)
  have el: "elapsed_millis ?b = elapsed_millis b"
    using elapsed_same [OF probe_simps(3)] by (simp add: fun_eq_iff)
  have wl: "within_lease ?b claimed u = within_lease b claimed u" for u
    by (simp add: within_lease_def el probe_simps)
  have cl: "claimed \<le> br_probe_claimed ?b" "\<forall>u \<in> set ts. br_probe_claimed ?b \<le> elapsed_millis b u"
    using probe_claimed_after [of t b] Cons.prems(4-7) by (auto simp: within_lease_def)
  have adm: "fst (try_half_open_probe t b) = Inr () \<longleftrightarrow> br_probes b < max_probes b"
    by (rule probe_within_lease [OF Cons.prems(4)]) (use Cons.prems in auto)
  have ih: "admitted (fst (run_checks ts ?b)) + unat (br_probes ?b) \<le> unat (max_probes ?b)"
    by (rule Cons.IH) (use Cons.prems cl in \<open>auto simp: probe_simps el wl probe_count_word\<close>)
  have "unat (br_probes b + 1) = unat (br_probes b) + 1" if "br_probes b < max_probes b"
    using that unsigned_less [of "max_probes b", where 'a = nat] by (simp add: unat_word_ariths word_less_nat_alt)
  with ih adm show ?case
    by (auto simp: c Let_def admitted_def probe_simps split: prod.splits if_splits)
qed

subsection \<open>When the breaker trips\<close>

text \<open>The samples the decision is about: those of the window duration, the new one included.\<close>

definition live_samples :: "breaker \<Rightarrow> outcome \<Rightarrow> nat \<Rightarrow> (nat \<times> bool) list" where
  "live_samples b oc t =
     (let es = sw_entries (br_window b) in
      filter (\<lambda>e. t \<le> fst e + bc_window_duration (br_config b))
        (drop (Suc (length es) - MAX_WINDOW_ENTRIES) es @ [(t, oc = Failure)]))"

lemma push_sample_entries:
  assumes "window_ok (br_window b)" "sorted (map fst (sw_entries (br_window b)))"
    and "\<forall>e \<in> set (sw_entries (br_window b)). fst e \<le> t"
  shows "sw_entries (push_sample oc t b) = live_samples b oc t"
proof -
  have ok: "window_ok (window_push (oc = Failure) t (br_window b))"
    using assms(1) by (rule win.push_ok)
  have order: "win.in_time_order (window_push (oc = Failure) t (br_window b))"
    by (rule win.sorted_push) (use assms in \<open>auto simp: win.in_time_order_def\<close>)
  show ?thesis
    unfolding push_sample_def win.evict_exact [OF ok order] win.samples_push [OF assms(1)]
    by (simp add: live_samples_def Let_def)
qed

lemma rate_half:
  assumes "window_ok w"
  shows "f64_ge (FFin (window_error_rate w)) (FFin (1 / 2)) \<longleftrightarrow>
     sw_entries w \<noteq> [] \<and> length (sw_entries w) \<le> 2 * length (filter snd (sw_entries w))"
proof (cases "sw_entries w = []")
  case False
  have len: "0 < length (sw_entries w)" using False by simp
  have cap: "length (sw_entries w) < 2 ^ 50"
    using win.bounded [OF assms] by (simp add: MAX_WINDOW_ENTRIES_def)
  show ?thesis
    using False fl_div_half [OF len cap] win.fails_count [OF assms] by (simp add: window_error_rate_def)
qed (simp add: window_error_rate_def)

lemma record_closed:
  assumes "bc_enabled (br_config b)" "br_state b = Closed"
  shows "br_state (record_outcome t1 t2 oc b)
      = (if should_trip (br_config b) (push_sample oc t1 b) then Open else Closed)"
    and "br_window (record_outcome t1 t2 oc b) = push_sample oc t1 b"
  using assms by (simp_all add: record_outcome_def Let_def trip_def)

subsection \<open>Properties\<close>



text \<open>
  A closed breaker with the one-half threshold of both presets trips on an outcome exactly when
  the window, after the new sample, holds the minimum number of samples and at least half of those
  younger than the window duration are failures; the double-precision division decides this without
  error.  Otherwise it stays closed.
\<close>
theorem trips_exactly_at_half:
  assumes "bc_enabled (br_config b)" and "br_state b = Closed" and "window_ok (br_window b)"
    and "sorted (map fst (sw_entries (br_window b)))" and "\<forall>e \<in> set (sw_entries (br_window b)). fst e \<le> t1"
    and "bc_error_rate_threshold (br_config b) = FFin (1 / 2)" and "0 < bc_min_samples (br_config b)"
  shows "br_state (record_outcome t1 t2 oc b) =
    (if bc_min_samples (br_config b) \<le> length (live_samples b oc t1)
        \<and> length (live_samples b oc t1) \<le> 2 * length (filter snd (live_samples b oc t1))
     then Open else Closed)"
proof -
  let ?w = "push_sample oc t1 b"
  have ok: "window_ok ?w" using assms(3) by (rule push_sample_ok)
  have e: "sw_entries ?w = live_samples b oc t1" by (rule push_sample_entries [OF assms(3-5)])
  have "should_trip (br_config b) ?w \<longleftrightarrow>
      bc_min_samples (br_config b) \<le> length (live_samples b oc t1)
      \<and> length (live_samples b oc t1) \<le> 2 * length (filter snd (live_samples b oc t1))"
    using assms(7) rate_half [OF ok] by (auto simp: should_trip_def sample_count_def assms(6) e)
  then show ?thesis using record_closed(1) [OF assms(1,2)] by simp
qed

definition five_failures :: breaker where
  "five_failures =
     (breaker_with_clock client_config 0)\<lparr>br_window :=
        \<lparr>sw_entries = [(0, True), (1, False), (2, True), (3, False)], sw_failures = 2\<rparr>\<rparr>"

lemma trips_exactly_at_half_witness:
  "br_state (record_outcome 4 4 Failure five_failures) = Open"
proof -
  have p: "bc_enabled (br_config five_failures)" "br_state five_failures = Closed"
    "window_ok (br_window five_failures)" "sorted (map fst (sw_entries (br_window five_failures)))"
    "\<forall>e \<in> set (sw_entries (br_window five_failures)). fst e \<le> 4"
    "bc_error_rate_threshold (br_config five_failures) = FFin (1 / 2)"
    "0 < bc_min_samples (br_config five_failures)"
    by (simp_all add: five_failures_def breaker_with_clock_def client_config_def window_ok_def
        MAX_WINDOW_ENTRIES_def)
  have "live_samples five_failures Failure 4 = [(0, True), (1, False), (2, True), (3, False), (4, True)]"
    by (simp add: live_samples_def five_failures_def breaker_with_clock_def client_config_def
        MAX_WINDOW_ENTRIES_def secs_def)
  moreover have "bc_min_samples (br_config five_failures) = 5"
    by (simp add: five_failures_def breaker_with_clock_def client_config_def)
  ultimately show ?thesis using trips_exactly_at_half [OF p, of 4 Failure] by simp
qed

text \<open>
  An open breaker sheds: until \<open>open_duration\<close> has passed every check is refused with exactly the
  time that is left, at most the whole duration and never zero, and nothing changes; the first check
  after that is admitted as a probe, the state becomes \<open>HalfOpen\<close> and one probe slot is taken.
\<close>
theorem open_sheds_then_probes:
  assumes "bc_enabled (br_config b)" and "br_state b = Open" and "breaker_inv b"
  shows "check t1 t2 b =
      (if open_elapsed b t1 < bc_open_duration (br_config b)
       then (Inl (bc_open_duration (br_config b) - open_elapsed b t1), b)
       else (Inr (), snd (check t1 t2 b)))
    \<and> (if open_elapsed b t1 < bc_open_duration (br_config b)
       then 0 < bc_open_duration (br_config b) - open_elapsed b t1
       else br_state (snd (check t1 t2 b)) = HalfOpen \<and> br_probes (snd (check t1 t2 b)) = 1
            \<and> \<not> is_open (snd (check t1 t2 b)) \<and> br_probe_claimed (snd (check t1 t2 b)) = elapsed_millis b t2)"
proof (cases "open_elapsed b t1 < bc_open_duration (br_config b)")
  case True
  with assms show ?thesis by (simp add: check_def check_open_Open)
next
  case False
  have "br_probes b = 0" "0 < max_probes b" using assms by (auto simp: breaker_inv_def)
  then have p: "fst (try_half_open_probe t2 (half_opened b)) = Inr ()"
    "br_probes (snd (try_half_open_probe t2 (half_opened b))) = 1"
    "br_probe_claimed (snd (try_half_open_probe t2 (half_opened b))) = elapsed_millis b t2"
    by (auto simp: try_half_open_probe_def Let_def half_opened_def elapsed_millis_def)
  have "check t1 t2 b = try_half_open_probe t2 (half_opened b)"
    using False assms by (simp add: check_def check_open_Open)
  with False p show ?thesis by (auto simp: probe_simps is_open_def prod_eq_iff)
qed

lemma open_sheds_then_probes_witness:
  "check 5 5 (trip 0 Closed ''trip'' (breaker_with_clock server_config 0))
     = (Inl (secs 10), trip 0 Closed ''trip'' (breaker_with_clock server_config 0))"
proof -
  let ?b = "trip 0 Closed ''trip'' (breaker_with_clock server_config 0)"
  have "bc_enabled (br_config ?b)" "br_state ?b = Open"
    by (simp_all add: trip_def breaker_with_clock_def server_config_def Let_def)
  moreover have "breaker_inv ?b" by (intro inv_trip inv_new)
  ultimately show ?thesis
    using open_sheds_then_probes [of ?b 5 5]
    by (simp add: trip_def breaker_with_clock_def server_config_def Let_def open_elapsed_def elapsed_millis_def
        as_millis_def sat_sub_def millis_def secs_def)
qed

text \<open>
  Half-open admission is bounded: however many checks arrive while the latest probe claim is
  within its lease, the number admitted plus the probes already in flight never exceeds the
  configured number of probe slots.
\<close>
theorem half_open_admission_bounded:
  assumes "br_state b = HalfOpen" and "bc_enabled (br_config b)" and "breaker_inv b"
    and "\<forall>t \<in> set ts. within_lease b (br_probe_claimed b) t"
    and "sorted (map (elapsed_millis b) ts)"
  shows "admitted (fst (run_checks ts b)) + unat (br_probes b) \<le> unat (max_probes b)"
  by (rule checks_admitted_bound [where claimed = "br_probe_claimed b"])
    (use assms in \<open>auto simp: breaker_inv_def within_lease_def\<close>)

lemma half_open_admission_bounded_witness:
  "admitted (fst (run_checks [1, 2, 3000000] (force_half_open (breaker_with_clock server_config 0)))) \<le> 1"
proof -
  let ?b = "force_half_open (breaker_with_clock server_config 0)"
  have p: "br_state ?b = HalfOpen" "bc_enabled (br_config ?b)"
    by (simp_all add: force_half_open_def breaker_with_clock_def server_config_def Let_def)
  have inv: "breaker_inv ?b" by (intro inv_force inv_new)
  have "\<forall>t \<in> set [1, 2, 3000000]. within_lease ?b (br_probe_claimed ?b) t"
    "sorted (map (elapsed_millis ?b) [1, 2, 3000000])"
    by (simp_all add: within_lease_def elapsed_millis_def as_millis_def force_half_open_def
        breaker_with_clock_def server_config_def Let_def secs_def)
  from half_open_admission_bounded [OF p inv this] show ?thesis
    by (simp add: force_half_open_def breaker_with_clock_def server_config_def Let_def)
qed

text \<open>
  The breaker always recovers.  With every probe slot taken and never released, the first check
  after the lease of the last claim is admitted all the same, and a success recorded then closes the
  breaker with an empty window; so does a success after the cool-down of an open breaker.
\<close>
theorem lost_probe_recovers:
  assumes "bc_enabled (br_config b)" and "breaker_inv b"
    and "br_state b = HalfOpen \<and>
           sat_sub (elapsed_millis b t1) (br_probe_claimed b) \<ge> (of_nat (as_millis (bc_open_duration (br_config b))) :: u64)
         \<or> br_state b = Open \<and> bc_open_duration (br_config b) \<le> open_elapsed b t1"
  shows "fst (check t1 t2 b) = Inr ()
    \<and> br_state (record_outcome t3 t4 Success (snd (check t1 t2 b))) = Closed
    \<and> sw_entries (br_window (record_outcome t3 t4 Success (snd (check t1 t2 b)))) = []
    \<and> br_probes (record_outcome t3 t4 Success (snd (check t1 t2 b))) = 0"
proof -
  have "fst (check t1 t2 b) = Inr () \<and> br_state (snd (check t1 t2 b)) = HalfOpen
      \<and> br_config (snd (check t1 t2 b)) = br_config b"
    using assms(3)
  proof
    assume h: "br_state b = HalfOpen \<and>
        sat_sub (elapsed_millis b t1) (br_probe_claimed b) \<ge> (of_nat (as_millis (bc_open_duration (br_config b))) :: u64)"
    then have "fst (try_half_open_probe t1 b) = Inr ()"
      by (auto simp: try_half_open_probe_def Let_def)
    with h assms(1) show ?thesis by (simp add: check_def probe_simps)
  next
    assume o: "br_state b = Open \<and> bc_open_duration (br_config b) \<le> open_elapsed b t1"
    then have "br_probes b < max_probes b" using assms(2) by (simp add: breaker_inv_def)
    then have "fst (try_half_open_probe t2 (half_opened b)) = Inr ()"
      by (simp add: try_half_open_probe_def Let_def)
    with o assms(1) show ?thesis by (simp add: check_def check_open_Open probe_simps)
  qed
  with assms(1) show ?thesis
    by (simp add: record_outcome_def close_breaker_def Let_def win.samples_clear)
qed

lemma lost_probe_recovers_witness:
  "fst (check (secs 20) (secs 20) (snd (check 1 1 (force_half_open (breaker_with_clock server_config 0))))) = Inr ()"
proof -
  let ?b = "snd (check 1 1 (force_half_open (breaker_with_clock server_config 0)))"
  have p: "bc_enabled (br_config ?b)" "breaker_inv ?b" "br_state ?b = HalfOpen"
    by (simp add: force_half_open_def breaker_with_clock_def server_config_def Let_def check_def probe_simps,
        intro inv_check inv_force inv_new,
        simp add: force_half_open_def breaker_with_clock_def server_config_def Let_def check_def probe_simps)
  have "sat_sub (elapsed_millis ?b (secs 20)) (br_probe_claimed ?b)
      \<ge> (of_nat (as_millis (bc_open_duration (br_config ?b))) :: u64)"
    by (simp add: force_half_open_def breaker_with_clock_def server_config_def Let_def check_def
        try_half_open_probe_def elapsed_millis_def as_millis_def secs_def sat_sub_def emit_def)
  with p lost_probe_recovers [of ?b "secs 20" "secs 20"] show ?thesis by blast
qed

end
