(* ===== verification/RetryPolicies.thy ===== *)
theory RetryPolicies
  imports Prelude
begin

section \<open>Which responses are retried\<close>

text \<open>
  \<open>xai-circuit-breaker\<close>'s status-code policies (\<open>retry_policy.rs\<close>) and their gRPC analogue
  (\<open>grpc.rs\<close>).
\<close>

datatype disposition = Retryable | AuthRefresh | Terminal

record retry_policy =
  rp_retryable :: "nat list"
  rp_auth_refresh :: "nat list"
  rp_terminal :: "nat list"
  rp_default :: disposition

definition classify :: "retry_policy \<Rightarrow> nat \<Rightarrow> disposition option" where
  "classify p status =
     (if 200 \<le> status \<and> status < 300 then None
      else if status \<in> set (rp_auth_refresh p) then Some AuthRefresh
      else if status \<in> set (rp_terminal p) then Some Terminal
      else if status \<in> set (rp_retryable p) \<or> 500 \<le> status \<and> status < 600 then Some Retryable
      else Some (rp_default p))"

definition should_retry :: "retry_policy \<Rightarrow> nat \<Rightarrow> bool" where
  "should_retry p status \<longleftrightarrow> classify p status = Some Retryable"

definition server_policy :: retry_policy where
  "server_policy = \<lparr>rp_retryable = [429], rp_auth_refresh = [], rp_terminal = [], rp_default = Terminal\<rparr>"

definition edge_client_policy :: retry_policy where
  "edge_client_policy =
     \<lparr>rp_retryable = [429], rp_auth_refresh = [], rp_terminal = [525, 526], rp_default = Terminal\<rparr>"

definition client_storage_policy :: retry_policy where
  "client_storage_policy =
     \<lparr>rp_retryable = [], rp_auth_refresh = [401], rp_terminal = [400, 403, 404, 525, 526],
      rp_default = Retryable\<rparr>"

text \<open>The seventeen status codes of gRPC.\<close>

datatype grpc_code =
    GOk | GCancelled | GUnknown | GInvalidArgument | GDeadlineExceeded | GNotFound | GAlreadyExists
  | GPermissionDenied | GResourceExhausted | GFailedPrecondition | GAborted | GOutOfRange
  | GUnimplemented | GInternal | GUnavailable | GDataLoss | GUnauthenticated

definition grpc_default :: "grpc_code list" where "grpc_default = [GUnavailable, GUnknown]"

definition grpc_permissive :: "grpc_code list" where
  "grpc_permissive = [GUnavailable, GUnknown, GInternal, GDeadlineExceeded]"

definition grpc_is_retryable :: "grpc_code list \<Rightarrow> grpc_code \<Rightarrow> bool" where
  "grpc_is_retryable p c \<longleftrightarrow> c \<in> set p"

definition grpc_classify :: "grpc_code list \<Rightarrow> grpc_code \<Rightarrow> disposition option" where
  "grpc_classify p c =
     (if c = GOk then None else if grpc_is_retryable p c then Some Retryable else Some Terminal)"

lemma server_retries: "should_retry server_policy s \<longleftrightarrow> s = 429 \<or> 500 \<le> s \<and> s < 600"
  by (auto simp: should_retry_def classify_def server_policy_def)

lemma edge_retries: "should_retry edge_client_policy s \<longleftrightarrow> should_retry server_policy s \<and> s \<noteq> 525 \<and> s \<noteq> 526"
  by (auto simp: should_retry_def classify_def server_policy_def edge_client_policy_def)

lemma storage_retries:
  "should_retry client_storage_policy s \<longleftrightarrow>
     \<not> (200 \<le> s \<and> s < 300) \<and> s \<notin> {400, 401, 403, 404, 525, 526}"
  by (auto simp: should_retry_def classify_def client_storage_policy_def)

text \<open>
  The presets, exactly: the server policy retries 429 and every 5xx and nothing else; the edge
  policy the same without the two origin-certificate codes; the storage policy everything that is
  not a success except 400, 401, 403, 404 and those two; no policy classifies a success, and the
  permissive gRPC policy retries whatever the default one does.
\<close>
theorem retry_presets_exact:
  "(should_retry server_policy s \<longleftrightarrow> s = 429 \<or> 500 \<le> s \<and> s < 600)
   \<and> (should_retry edge_client_policy s \<longleftrightarrow> should_retry server_policy s \<and> s \<noteq> 525 \<and> s \<noteq> 526)
   \<and> (should_retry client_storage_policy s \<longleftrightarrow>
        \<not> (200 \<le> s \<and> s < 300) \<and> s \<notin> {400, 401, 403, 404, 525, 526})
   \<and> (classify p s = None \<longleftrightarrow> 200 \<le> s \<and> s < 300)
   \<and> {c. grpc_classify grpc_default c = Some Retryable} \<subseteq> {c. grpc_classify grpc_permissive c = Some Retryable}
   \<and> (grpc_classify q c = None \<longleftrightarrow> c = GOk)"
  unfolding edge_retries storage_retries server_retries
  by (auto simp: classify_def grpc_classify_def grpc_is_retryable_def grpc_default_def grpc_permissive_def
      split: if_splits)

end
