(* ===== verification/MessageDelivery.thy ===== *)
theory MessageDelivery
  imports Prelude "HOL-Library.Multiset"
begin

section \<open>Turn-bound message delivery\<close>

text \<open>
  \<open>common/xai-message-delivery-core\<close>: envelopes and the operations a surface may request
  (\<open>envelope.rs\<close>), and the lifecycle that owns every message between its admission and the one
  place it ends up (\<open>lifecycle.rs\<close>): committed to the conversation, handed back as a fallback, or
  completed without delivery.
\<close>

subsection \<open>Envelopes\<close>

datatype principal = Human | Agent | Runtime
datatype operation = Queue | Steer | Interject | InterruptAndSend

record ('g, 'c, 'i) envelope =
  en_principal :: principal
  en_operation :: operation
  en_content :: 'c
  en_identity :: 'i
  en_grant :: 'g

definition from_human :: "operation \<Rightarrow> 'c \<Rightarrow> 'i \<Rightarrow> 'g \<Rightarrow> ('g, 'c, 'i) envelope" where
  "from_human oper c i g =
     \<lparr>en_principal = Human, en_operation = oper, en_content = c, en_identity = i, en_grant = g\<rparr>"

definition from_agent :: "operation \<Rightarrow> 'c \<Rightarrow> 'i \<Rightarrow> 'g \<Rightarrow> ('g, 'c, 'i) envelope" where
  "from_agent oper c i g =
     \<lparr>en_principal = Agent, en_operation = oper, en_content = c, en_identity = i, en_grant = g\<rparr>"

type_synonym operation_set = u8

definition QUEUE_ONLY :: operation_set where "QUEUE_ONLY = push_bit 0 1"
definition QUEUE_AND_STEER :: operation_set where "QUEUE_AND_STEER = or (push_bit 0 1) (push_bit 1 1)"

fun operation_flag :: "operation \<Rightarrow> u8" where
  "operation_flag Queue = push_bit 0 1"
| "operation_flag Steer = push_bit 1 1"
| "operation_flag Interject = push_bit 2 1"
| "operation_flag InterruptAndSend = push_bit 3 1"

definition contains_operation :: "operation_set \<Rightarrow> operation \<Rightarrow> bool" where
  "contains_operation s oper \<longleftrightarrow> and s (operation_flag oper) \<noteq> 0"

text \<open>Left: the unsupported operation; right: the authorised one.\<close>

definition authorize_operation :: "operation_set \<Rightarrow> operation \<Rightarrow> operation + operation" where
  "authorize_operation allowed requested =
     (if contains_operation allowed requested then Inr requested else Inl requested)"

subsection \<open>The lifecycle\<close>

record ('p, 'e) turn_binding =
  tb_prompt_id :: 'p
  tb_epoch :: 'e

record ('i, 's, 'c) delivery_message =
  dm_identity :: 'i
  dm_source :: 's
  dm_content :: 'c

record ('i, 's, 'c, 'k, 'p, 'e) owned_delivery =
  od_binding :: "('p, 'e) turn_binding"
  od_message :: "('i, 's, 'c) delivery_message"
  od_completion :: 'k

datatype 'o delivery_slot = Pending 'o | Projecting 'o | Delivered 'o

fun owned :: "'o delivery_slot \<Rightarrow> 'o" where
  "owned (Pending d) = d"
| "owned (Projecting d) = d"
| "owned (Delivered d) = d"

datatype terminal_cause = Completion | SoftCancel | Rewind | HardTeardown | ActorDrop

definition falls_back :: "terminal_cause \<Rightarrow> bool" where
  "falls_back c \<longleftrightarrow> c \<in> {Completion, SoftCancel, Rewind}"

datatype 'b terminal_target = TargetTurn 'b | TargetAll

type_synonym ('i, 's, 'c, 'k, 'p, 'e) slots =
  "('i, 's, 'c, 'k, 'p, 'e) owned_delivery delivery_slot list"

definition slot_identity :: "('i, 's, 'c, 'k, 'p, 'e) owned_delivery delivery_slot \<Rightarrow> 'i" where
  "slot_identity s = dm_identity (od_message (owned s))"

definition contains_identity :: "('i, 's, 'c, 'k, 'p, 'e) slots \<Rightarrow> 'i \<Rightarrow> bool" where
  "contains_identity slots i \<longleftrightarrow> list_ex (\<lambda>s. slot_identity s = i) slots"

definition lifecycle_len :: "('i, 's, 'c, 'k, 'p, 'e) slots \<Rightarrow> nat" where
  "lifecycle_len slots = length slots"

definition lifecycle_is_empty :: "('i, 's, 'c, 'k, 'p, 'e) slots \<Rightarrow> bool" where
  "lifecycle_is_empty slots \<longleftrightarrow> slots = []"

text \<open>A refused message comes back to the caller.\<close>

definition admit_pending ::
    "('p, 'e) turn_binding \<Rightarrow> ('i, 's, 'c) delivery_message \<Rightarrow> 'k \<Rightarrow> ('i, 's, 'c, 'k, 'p, 'e) slots
      \<Rightarrow> (('i, 's, 'c) delivery_message + unit) \<times> ('i, 's, 'c, 'k, 'p, 'e) slots" where
  "admit_pending b m k slots =
     (if contains_identity slots (dm_identity m) then (Inl m, slots)
      else (Inr (), slots @ [Pending \<lparr>od_binding = b, od_message = m, od_completion = k\<rparr>]))"

definition is_pending_of :: "('p, 'e) turn_binding \<Rightarrow> ('i, 's, 'c, 'k, 'p, 'e) owned_delivery delivery_slot \<Rightarrow> bool" where
  "is_pending_of b s = (case s of Pending d \<Rightarrow> od_binding d = b | _ \<Rightarrow> False)"

definition is_projecting_of :: "('p, 'e) turn_binding \<Rightarrow> ('i, 's, 'c, 'k, 'p, 'e) owned_delivery delivery_slot \<Rightarrow> bool" where
  "is_projecting_of b s = (case s of Projecting d \<Rightarrow> od_binding d = b | _ \<Rightarrow> False)"

definition slot_message :: "('i, 's, 'c, 'k, 'p, 'e) owned_delivery delivery_slot \<Rightarrow> ('i, 's, 'c) delivery_message" where
  "slot_message s = od_message (owned s)"

definition pending_messages ::
    "('p, 'e) turn_binding \<Rightarrow> ('i, 's, 'c, 'k, 'p, 'e) slots \<Rightarrow> ('i, 's, 'c) delivery_message list" where
  "pending_messages b slots = map slot_message (filter (is_pending_of b) slots)"

definition begin_delivery ::
    "('p, 'e) turn_binding \<Rightarrow> ('i, 's, 'c, 'k, 'p, 'e) slots
      \<Rightarrow> ('i, 's, 'c) delivery_message list \<times> ('i, 's, 'c, 'k, 'p, 'e) slots" where
  "begin_delivery b slots =
     (let messages = pending_messages b slots in
      if messages = [] then (messages, slots)
      else (messages, map (\<lambda>s. if is_pending_of b s then Projecting (owned s) else s) slots))"

definition projecting_messages ::
    "('p, 'e) turn_binding \<Rightarrow> ('i, 's, 'c, 'k, 'p, 'e) slots \<Rightarrow> ('i, 's, 'c) delivery_message list" where
  "projecting_messages b slots = map slot_message (filter (is_projecting_of b) slots)"

text \<open>\<open>commit\<close> is the caller's action: \<open>None\<close> for success, \<open>Some\<close> error otherwise.\<close>

definition finish_delivery ::
    "('p, 'e) turn_binding \<Rightarrow> (('i, 's, 'c) delivery_message list \<Rightarrow> 'err option) \<Rightarrow> ('i, 's, 'c, 'k, 'p, 'e) slots
      \<Rightarrow> ('err + ('i, 's, 'c) delivery_message list) \<times> ('i, 's, 'c, 'k, 'p, 'e) slots" where
  "finish_delivery b commit slots =
     (let messages = projecting_messages b slots in
      if messages = [] then (Inr messages, slots)
      else (case commit messages of
              Some e \<Rightarrow> (Inl e, slots)
            | None \<Rightarrow>
                (Inr messages, map (\<lambda>s. if is_projecting_of b s then Delivered (owned s) else s) slots)))"

definition target_matches ::
    "('p, 'e) turn_binding terminal_target \<Rightarrow> ('i, 's, 'c, 'k, 'p, 'e) owned_delivery delivery_slot \<Rightarrow> bool" where
  "target_matches target s = (case target of TargetTurn b \<Rightarrow> od_binding (owned s) = b | TargetAll \<Rightarrow> True)"

record ('i, 's, 'c, 'k, 'p, 'e) terminal_transition =
  tt_fallbacks :: "('i, 's, 'c, 'k, 'p, 'e) owned_delivery list"
  tt_completions :: "('i, 's, 'c, 'k, 'p, 'e) owned_delivery list"

definition is_pending :: "'o delivery_slot \<Rightarrow> bool" where
  "is_pending s = (case s of Pending _ \<Rightarrow> True | _ \<Rightarrow> False)"

text \<open>The \<open>filter_map\<close> over the slots: keep a slot, or push its delivery on one of the two lists.\<close>

fun transition_slots ::
    "('p, 'e) turn_binding terminal_target \<Rightarrow> terminal_cause \<Rightarrow> ('i, 's, 'c, 'k, 'p, 'e) slots
      \<Rightarrow> ('i, 's, 'c, 'k, 'p, 'e) terminal_transition
      \<Rightarrow> ('i, 's, 'c, 'k, 'p, 'e) terminal_transition \<times> ('i, 's, 'c, 'k, 'p, 'e) slots" where
  "transition_slots target cause [] t = (t, [])"
| "transition_slots target cause (s # ss) t =
     (if \<not> target_matches target s then
        (let (t', kept) = transition_slots target cause ss t in (t', s # kept))
      else if is_pending s \<and> falls_back cause then
        transition_slots target cause ss (t\<lparr>tt_fallbacks := tt_fallbacks t @ [owned s]\<rparr>)
      else transition_slots target cause ss (t\<lparr>tt_completions := tt_completions t @ [owned s]\<rparr>))"

definition lifecycle_transition ::
    "('p, 'e) turn_binding terminal_target \<Rightarrow> terminal_cause \<Rightarrow> ('i, 's, 'c, 'k, 'p, 'e) slots
      \<Rightarrow> ('i, 's, 'c, 'k, 'p, 'e) terminal_transition \<times> ('i, 's, 'c, 'k, 'p, 'e) slots" where
  "lifecycle_transition target cause slots =
     transition_slots target cause slots \<lparr>tt_fallbacks = [], tt_completions = []\<rparr>"

subsection \<open>Closed forms\<close>

lemma owned_map_cases:
  "owned (if p s then Projecting (owned s) else s) = owned s"
  "owned (if p s then Delivered (owned s) else s) = owned s"
  by simp_all

lemma begin_owned: "map owned (snd (begin_delivery b slots)) = map owned slots"
  by (auto simp: begin_delivery_def Let_def)

lemma finish_owned: "map owned (snd (finish_delivery b commit slots)) = map owned slots"
  by (auto simp: finish_delivery_def Let_def split: option.split)

lemma transition_closed:
  "transition_slots target cause slots t =
     (\<lparr>tt_fallbacks = tt_fallbacks t @ map owned (filter (\<lambda>s. target_matches target s \<and> is_pending s \<and> falls_back cause) slots),
       tt_completions = tt_completions t @ map owned (filter (\<lambda>s. target_matches target s \<and> \<not> (is_pending s \<and> falls_back cause)) slots)\<rparr>,
      filter (\<lambda>s. \<not> target_matches target s) slots)"
proof (induction target cause slots t rule: transition_slots.induct)
  case (1 target cause t)
  then show ?case by simp
qed auto

lemma transition_mset:
  "mset (map owned slots) =
     mset (map owned (filter (\<lambda>s. target_matches target s \<and> is_pending s \<and> falls_back cause) slots))
     + mset (map owned (filter (\<lambda>s. target_matches target s \<and> \<not> (is_pending s \<and> falls_back cause)) slots))
     + mset (map owned (filter (\<lambda>s. \<not> target_matches target s) slots))"
  by (induction slots) auto

subsection \<open>Runs\<close>

text \<open>
  A history: the slots, and what was ever admitted, handed back as a fallback, completed, and
  committed to the conversation, in order.
\<close>

record ('i, 's, 'c, 'k, 'p, 'e) history =
  hs_slots :: "('i, 's, 'c, 'k, 'p, 'e) slots"
  hs_admitted :: "('i, 's, 'c, 'k, 'p, 'e) owned_delivery list"
  hs_fallbacks :: "('i, 's, 'c, 'k, 'p, 'e) owned_delivery list"
  hs_completions :: "('i, 's, 'c, 'k, 'p, 'e) owned_delivery list"

inductive delivery_step ::
    "('i, 's, 'c, 'k, 'p, 'e) history \<Rightarrow> ('i, 's, 'c, 'k, 'p, 'e) history \<Rightarrow> bool" where
  admit: "admit_pending b m k (hs_slots h) = (Inr (), slots) \<Longrightarrow>
    delivery_step h (h\<lparr>hs_slots := slots,
      hs_admitted := hs_admitted h @ [\<lparr>od_binding = b, od_message = m, od_completion = k\<rparr>]\<rparr>)"
| refuse: "admit_pending b m k (hs_slots h) = (Inl m, slots) \<Longrightarrow> delivery_step h (h\<lparr>hs_slots := slots\<rparr>)"
| start: "delivery_step h (h\<lparr>hs_slots := snd (begin_delivery b (hs_slots h))\<rparr>)"
| finish: "delivery_step h (h\<lparr>hs_slots := snd (finish_delivery b (commit :: _ \<Rightarrow> string option) (hs_slots h))\<rparr>)"
| terminate: "lifecycle_transition target cause (hs_slots h) = (t, slots) \<Longrightarrow>
    delivery_step h (h\<lparr>hs_slots := slots, hs_fallbacks := hs_fallbacks h @ tt_fallbacks t,
      hs_completions := hs_completions h @ tt_completions t\<rparr>)"

inductive_cases delivery_stepE: "delivery_step h h'"

definition history_init :: "('i, 's, 'c, 'k, 'p, 'e) history" where
  "history_init = \<lparr>hs_slots = [], hs_admitted = [], hs_fallbacks = [], hs_completions = []\<rparr>"

definition history_inv :: "('i, 's, 'c, 'k, 'p, 'e) history \<Rightarrow> bool" where
  "history_inv h \<longleftrightarrow>
     mset (hs_admitted h) = mset (map owned (hs_slots h)) + mset (hs_fallbacks h) + mset (hs_completions h)
     \<and> distinct (map slot_identity (hs_slots h))"

lemma identity_of_owned: "map slot_identity slots = map (dm_identity \<circ> od_message) (map owned slots)"
  by (simp add: slot_identity_def)

lemma history_inv_step: "delivery_step h h' \<Longrightarrow> history_inv h \<Longrightarrow> history_inv h'"
proof (induction rule: delivery_step.induct)
  case (admit b m k h slots)
  then show ?case
    by (fastforce simp: history_inv_def admit_pending_def contains_identity_def list_ex_iff slot_identity_def
        split: if_splits)
next
  case (refuse b m k h slots)
  then show ?case by (simp add: admit_pending_def history_inv_def split: if_splits)
next
  case (start h b)
  then show ?case by (simp add: history_inv_def identity_of_owned begin_owned)
next
  case (finish h b commit)
  then show ?case by (simp add: history_inv_def identity_of_owned finish_owned)
next
  case (terminate target cause h t slots)
  then have "t = \<lparr>tt_fallbacks = map owned (filter (\<lambda>s. target_matches target s \<and> is_pending s \<and> falls_back cause) (hs_slots h)),
       tt_completions = map owned (filter (\<lambda>s. target_matches target s \<and> \<not> (is_pending s \<and> falls_back cause)) (hs_slots h))\<rparr>"
    "slots = filter (\<lambda>s. \<not> target_matches target s) (hs_slots h)"
    by (auto simp: lifecycle_transition_def transition_closed)
  with terminate.prems transition_mset [of "hs_slots h" target cause] show ?case
    by (simp add: history_inv_def distinct_map_filter)
qed

lemma history_inv_init: "history_inv history_init"
  by (simp add: history_inv_def history_init_def)

lemma history_inv_reachable: "delivery_step\<^sup>*\<^sup>* history_init h \<Longrightarrow> history_inv h"
  by (induction rule: rtranclp_induct) (auto intro: history_inv_step history_inv_init)

subsection \<open>Properties\<close>

text \<open>
  C32. No message is lost or duplicated: in every history, the deliveries ever admitted are, counted
  with multiplicity, exactly those still owned, those handed back as fallbacks and those completed;
  and no two owned messages share an identity.
\<close>
theorem deliveries_conserved:
  assumes "delivery_step\<^sup>*\<^sup>* history_init h"
  shows "mset (hs_admitted h)
      = mset (map owned (hs_slots h)) + mset (hs_fallbacks h) + mset (hs_completions h)
    \<and> distinct (map slot_identity (hs_slots h))"
  using history_inv_reachable [OF assms] by (simp add: history_inv_def)

lemma deliveries_conserved_witness:
  "\<exists>h :: (nat, nat, nat, nat, nat, nat) history. delivery_step\<^sup>*\<^sup>* history_init h \<and> length (hs_admitted h) = 1
     \<and> mset (hs_admitted h) = mset (map owned (hs_slots h)) + mset (hs_fallbacks h) + mset (hs_completions h)"
proof -
  let ?b = "\<lparr>tb_prompt_id = 1::nat, tb_epoch = 2::nat\<rparr>"
  let ?m = "\<lparr>dm_identity = 7::nat, dm_source = 0::nat, dm_content = 5::nat\<rparr>"
  have "admit_pending ?b ?m (9::nat) (hs_slots history_init)
      = (Inr (), [Pending \<lparr>od_binding = ?b, od_message = ?m, od_completion = 9::nat\<rparr>])"
    by (simp add: admit_pending_def history_init_def contains_identity_def)
  then have "delivery_step\<^sup>*\<^sup>* history_init (history_init\<lparr>hs_slots := [Pending \<lparr>od_binding = ?b, od_message = ?m, od_completion = 9::nat\<rparr>],
      hs_admitted := hs_admitted history_init @ [\<lparr>od_binding = ?b, od_message = ?m, od_completion = 9::nat\<rparr>]\<rparr>)"
    by (intro r_into_rtranclp delivery_step.admit)
  from this deliveries_conserved [OF this] show ?thesis
    by (intro exI conjI) (assumption, simp add: history_init_def, blast)
qed

text \<open>
  Delivery is transactional.  Finishing a delivery whose commit fails reports the error and
  leaves every slot as it was; one whose commit succeeds returns exactly the messages the commit saw,
  in admission order, and afterwards nothing of the turn is projecting and nothing else has changed
  owner.
\<close>
theorem finish_delivery_transactional:
  "(finish_delivery b commit slots =
      (if projecting_messages b slots = [] then (Inr [], slots)
       else (case commit (projecting_messages b slots) of
               Some e \<Rightarrow> (Inl e, slots)
             | None \<Rightarrow> (Inr (projecting_messages b slots), snd (finish_delivery b commit slots)))))
   \<and> map owned (snd (finish_delivery b commit slots)) = map owned slots
   \<and> ((\<exists>ms. fst (finish_delivery b commit slots) = Inr ms)
      = (projecting_messages b (snd (finish_delivery b commit slots)) = []))"
  using finish_owned [of b commit slots]
  by (auto simp: finish_delivery_def Let_def projecting_messages_def filter_empty_conv is_projecting_of_def
      split: option.split delivery_slot.splits)

text \<open>
  A terminal transition releases exactly the slots of its target, in order: what was still
  pending falls back when the cause allows it, everything else of the target (in particular anything
  already shown to the model) is completed and never falls back; the other turns keep their slots.
\<close>
theorem transition_exact:
  "lifecycle_transition target cause slots =
     (\<lparr>tt_fallbacks = (if falls_back cause then map owned (filter is_pending (filter (target_matches target) slots)) else []),
       tt_completions = map owned (filter (\<lambda>s. \<not> (falls_back cause \<and> is_pending s)) (filter (target_matches target) slots))\<rparr>,
      filter (\<lambda>s. \<not> target_matches target s) slots)"
  by (auto simp: lifecycle_transition_def transition_closed intro!: filter_cong arg_cong [where f = "map owned"])

text \<open>
  Authorisation is membership: with the queue-only set exactly queueing is authorised, with the
  queue-and-steer set exactly queueing and steering; interjecting and interrupting never are.
\<close>
theorem authorization_exact:
  "(authorize_operation QUEUE_ONLY oper = Inr oper \<longleftrightarrow> oper = Queue)
   \<and> (authorize_operation QUEUE_AND_STEER oper = Inr oper \<longleftrightarrow> oper = Queue \<or> oper = Steer)
   \<and> (authorize_operation s oper = (if contains_operation s oper then Inr oper else Inl oper))"
  by (cases oper) (simp_all add: authorize_operation_def contains_operation_def QUEUE_ONLY_def QUEUE_AND_STEER_def)

end
