(* ===== verification/EventQueue.thy ===== *)
theory EventQueue
  imports Prelude "HOL-Library.Multiset"
begin

section \<open>Event queues and interjections\<close>

text \<open>
  \<open>common/xai-interjection-core\<close>: the shared event queue (\<open>events.rs\<close>), the buffer of messages the
  user sends while a turn runs (\<open>buffer.rs\<close>), and the framing of those messages (\<open>format.rs\<close>).  The
  clones of a queue share one vector under a mutex, so an operation is a state transformer on it.
\<close>

type_synonym 'e event_queue = "'e list"

definition queue_new :: "'e event_queue" where "queue_new = []"

definition queue_push :: "'e \<Rightarrow> 'e event_queue \<Rightarrow> 'e event_queue" where
  "queue_push e q = q @ [e]"

definition push_capped :: "'e \<Rightarrow> nat \<Rightarrow> 'e event_queue \<Rightarrow> 'e event_queue" where
  "push_capped e mx q =
     (let q1 = q @ [e] in if length q1 > mx then drop (length q1 - mx) q1 else q1)"

definition queue_len :: "'e event_queue \<Rightarrow> nat" where "queue_len q = length q"
definition queue_is_empty :: "'e event_queue \<Rightarrow> bool" where "queue_is_empty q \<longleftrightarrow> q = []"

definition drain_matching :: "('e \<Rightarrow> bool) \<Rightarrow> 'e event_queue \<Rightarrow> 'e list \<times> 'e event_queue" where
  "drain_matching wanted q = partition wanted q"

definition drain_all :: "'e event_queue \<Rightarrow> 'e list \<times> 'e event_queue" where
  "drain_all q = (q, [])"

definition restore_front :: "'e list \<Rightarrow> 'e event_queue \<Rightarrow> 'e event_queue" where
  "restore_front es q = (if es = [] then q else es @ q)"

definition queue_clear :: "'e event_queue \<Rightarrow> 'e event_queue" where "queue_clear q = []"
definition snapshot :: "'e event_queue \<Rightarrow> 'e list" where "snapshot q = q"

subsection \<open>What a reader relies on\<close>

text \<open>
  A queue a reader can drain and, when its processing is aborted, put the rest back into.
\<close>

locale restorable_queue =
  fixes push :: "'e \<Rightarrow> 'q \<Rightarrow> 'q"
    and drain :: "'q \<Rightarrow> 'e list \<times> 'q"
    and restore :: "'e list \<Rightarrow> 'q \<Rightarrow> 'q"
    and contents :: "'q \<Rightarrow> 'e list"
  assumes contents_push: "contents (push e q) = contents q @ [e]"
    and drain_result: "fst (drain q) = contents q"
    and drain_empty: "contents (snd (drain q)) = []"
    and contents_restore: "contents (restore es q) = es @ contents q"
begin

text \<open>Pushing a whole list, as producers do while a reader holds a drained batch.\<close>

definition push_all :: "'e list \<Rightarrow> 'q \<Rightarrow> 'q" where
  "push_all es q = foldl (\<lambda>q e. push e q) q es"

lemma contents_push_all: "contents (push_all es q) = contents q @ es"
  by (induction es arbitrary: q) (auto simp: push_all_def contents_push)

lemma aborted_drain:
  assumes "fst (drain q) = consumed @ rest"
  shows "contents q = consumed @ rest"
    and "contents (restore rest (push_all new (snd (drain q)))) = rest @ new"
  using assms by (simp_all add: drain_result contents_restore contents_push_all drain_empty)

end

interpretation eq: restorable_queue queue_push drain_all restore_front snapshot
  by unfold_locales (auto simp: queue_push_def drain_all_def restore_front_def snapshot_def)

subsection \<open>Interjections\<close>

definition LARGE_PROMPT_THRESHOLD :: nat where "LARGE_PROMPT_THRESHOLD = 25000"

definition NL :: string where "NL = [CHR 0x0A]"

definition INTERJECTION_NOTE :: string where
  "INTERJECTION_NOTE = ''The user sent a message while you were working:''"

definition INTERRUPT_NOTE :: string where
  "INTERRUPT_NOTE = ''The user interrupted the previous turn:''"

definition UNFINISHED_TASKS_REMINDER :: string where
  "UNFINISHED_TASKS_REMINDER = ''Make sure to complete any unfinished tasks from previous turns.''"

definition user_query :: "string \<Rightarrow> string" where
  "user_query msg = ''<user_query>'' @ NL @ msg @ NL @ ''</user_query>''"

definition frame_user_turn :: "string \<Rightarrow> string \<Rightarrow> string" where
  "frame_user_turn note assembled = note @ NL @ assembled @ NL @ UNFINISHED_TASKS_REMINDER"

text \<open>\<open>char_indices\<close>: the start of every character and the length of its encoding.\<close>

definition char_starts :: "string \<Rightarrow> nat list" where
  "char_starts s = filter (\<lambda>i. \<not> is_continuation (s ! i)) [0..<length s]"

definition char_end :: "string \<Rightarrow> nat \<Rightarrow> nat" where
  "char_end s i = i + 1 + length (takeWhile is_continuation (drop (i + 1) s))"

definition truncation_end :: "nat \<Rightarrow> string \<Rightarrow> nat" where
  "truncation_end limit s =
     (let early = takeWhile (\<lambda>i. i < limit) (char_starts s)
      in if early = [] then length s else char_end s (last early))"

definition format_steered_query :: "string \<Rightarrow> string \<Rightarrow> string" where
  "format_steered_query note text =
     (let truncated =
        (if length text \<le> LARGE_PROMPT_THRESHOLD then text
         else take (truncation_end LARGE_PROMPT_THRESHOLD text) text @ ''... [truncated]'')
      in frame_user_turn note (user_query truncated))"

definition format_interjection :: "string \<Rightarrow> string" where
  "format_interjection text = format_steered_query INTERJECTION_NOTE text"

definition format_interrupt :: "string \<Rightarrow> string" where
  "format_interrupt text = format_steered_query INTERRUPT_NOTE text"

record 'a interjection =
  ij_text :: string
  ij_attachments :: "'a list"

definition drain_formatted ::
    "(string \<Rightarrow> string) \<Rightarrow> 'a interjection event_queue \<Rightarrow> 'a interjection list \<times> 'a interjection event_queue" where
  "drain_formatted sanitize buffer =
     (let (entries, buffer') = drain_all buffer
      in (map (\<lambda>e. e\<lparr>ij_text := format_interjection (sanitize (ij_text e))\<rparr>) entries, buffer'))"

subsection \<open>Lemmas\<close>

lemma push_capped_suffix: "\<exists>dropped. q @ [e] = dropped @ push_capped e mx q"
proof (cases "length (q @ [e]) > mx")
  case True
  then show ?thesis
    unfolding push_capped_def Let_def
    by (intro exI [of _ "take (length (q @ [e]) - mx) (q @ [e])"]) (simp only: if_True append_take_drop_id)
next
  case False
  then show ?thesis by (intro exI [of _ "[]"]) (simp add: push_capped_def)
qed

lemma push_capped_length: "length (push_capped e mx q) = min (Suc (length q)) mx"
  by (auto simp: push_capped_def Let_def min_def)

lemma truncation_end_bounds:
  assumes "limit < length s" "\<not> is_continuation (hd s)" "0 < limit"
  shows "limit \<le> truncation_end limit s \<and> truncation_end limit s \<le> length s"
proof -
  let ?p = "\<lambda>i. i < limit"
  define early where "early = takeWhile ?p (char_starts s)"
  have e: "early = filter ?p (char_starts s)"
  proof -
    have "sorted (char_starts s)" by (simp add: char_starts_def sorted_wrt_filter)
    then have "takeWhile ?p xs = filter ?p xs" if "sorted xs" for xs :: "nat list"
      using that
    proof (induction xs)
      case (Cons x xs)
      then have "\<not> x < limit \<Longrightarrow> filter ?p xs = []" by (auto simp: filter_empty_conv)
      with Cons show ?case by auto
    qed simp
    with \<open>sorted (char_starts s)\<close> show ?thesis by (simp add: early_def)
  qed
  have s0: "\<not> is_continuation (s ! 0)" using assms by (metis hd_conv_nth list.size(3) not_less0)
  have "0 \<in> set early" using assms s0 by (auto simp: e char_starts_def)
  then have ne: "early \<noteq> []" by auto
  define l where "l = last early"
  have l: "l < limit" "l < length s" using last_in_set [OF ne] by (auto simp: l_def e char_starts_def)
  have top: "is_continuation (s ! j)" if "l < j" "j < limit" for j
  proof (rule ccontr)
    assume "\<not> is_continuation (s ! j)"
    then have "j \<in> set early" using that assms(1) by (auto simp: e char_starts_def)
    moreover have "sorted early" by (simp add: e char_starts_def sorted_wrt_filter)
    ultimately have "j \<le> l" unfolding l_def using ne
      by (metis in_set_conv_nth last_conv_nth sorted_nth_mono diff_less length_greater_0_conv less_one
          Suc_pred' less_Suc_eq_le)
    with that show False by simp
  qed
  have "limit - (l + 1) \<le> length (takeWhile is_continuation (drop (l + 1) s))"
  proof (rule ccontr)
    let ?n = "length (takeWhile is_continuation (drop (l + 1) s))"
    assume "\<not> limit - (l + 1) \<le> ?n"
    then have n: "l + 1 + ?n < limit" by simp
    then have "?n < length (drop (l + 1) s)" using assms(1) by simp
    then have "\<not> is_continuation (drop (l + 1) s ! ?n)" by (rule nth_length_takeWhile)
    then show False using top [of "l + 1 + ?n"] n assms(1) by simp
  qed
  moreover have "length (takeWhile is_continuation (drop (l + 1) s)) \<le> length s - (l + 1)"
    using length_takeWhile_le [of is_continuation "drop (l + 1) s"] by simp
  ultimately show ?thesis
    using l ne by (simp add: truncation_end_def Let_def early_def [symmetric] char_end_def l_def [symmetric])
      linarith
qed

subsection \<open>Properties\<close>

text \<open>
  Aborting a drain loses nothing and reorders nothing: whatever part of a drained batch was
  already consumed and whatever producers pushed meanwhile, restoring the rest in front leaves the
  queue with the unconsumed events first and the newer ones after them, each in arrival order.
\<close>
theorem aborted_drain_keeps_order:
  assumes "drain_all q = (consumed @ rest, q')"
  shows "q = consumed @ rest \<and> restore_front rest (foldl (\<lambda>q e. queue_push e q) q' new) = rest @ new"
  using eq.aborted_drain(1) [of q consumed rest] eq.aborted_drain(2) [of q consumed rest new] assms
  by (simp add: eq.push_all_def snapshot_def)

lemma aborted_drain_keeps_order_witness:
  "restore_front [2, 3] (foldl (\<lambda>q e. queue_push e q) (snd (drain_all [1::nat, 2, 3])) [4, 5]) = [2, 3, 4, 5]"
  using aborted_drain_keeps_order [of "[1, 2, 3]" "[1]" "[2, 3]" "[]" "[4, 5]"] by (simp add: drain_all_def)

text \<open>
  The queue operations, exactly: a capped push keeps the newest \<open>max\<close> events in order; draining
  by a predicate returns the matching events and keeps the others, both in order, and loses none.
\<close>
theorem queue_operations_exact:
  "(\<exists>dropped. q @ [e] = dropped @ push_capped e mx q) \<and> length (push_capped e mx q) = min (Suc (length q)) mx
   \<and> drain_matching p q = (filter p q, filter (\<lambda>x. \<not> p x) q)
   \<and> mset (fst (drain_matching p q)) + mset (snd (drain_matching p q)) = mset q"
  using push_capped_suffix [of q e mx] push_capped_length [of e mx q]
  by (simp add: drain_matching_def o_def multiset_partition [symmetric])

text \<open>
  Truncating an oversized steering message is lossless up to the threshold and never cuts a
  character: the text kept is a prefix of the message that reaches the threshold and ends at a
  character boundary.
\<close>
theorem steered_query_truncation:
  assumes "LARGE_PROMPT_THRESHOLD < length text" and "\<not> is_continuation (hd text)"
  shows "format_steered_query note text =
      frame_user_turn note (user_query (take (truncation_end LARGE_PROMPT_THRESHOLD text) text @ ''... [truncated]''))
    \<and> LARGE_PROMPT_THRESHOLD \<le> truncation_end LARGE_PROMPT_THRESHOLD text
    \<and> is_char_boundary text (truncation_end LARGE_PROMPT_THRESHOLD text)"
proof -
  have b: "LARGE_PROMPT_THRESHOLD \<le> truncation_end LARGE_PROMPT_THRESHOLD text
      \<and> truncation_end LARGE_PROMPT_THRESHOLD text \<le> length text"
    by (rule truncation_end_bounds [OF assms]) (simp add: LARGE_PROMPT_THRESHOLD_def)
  have c: "is_char_boundary text (char_end text i)" if "char_end text i \<le> length text" for i
  proof (cases "char_end text i = length text")
    case False
    let ?n = "length (takeWhile is_continuation (drop (i + 1) text))"
    have "?n < length (drop (i + 1) text)" using False that by (simp add: char_end_def)
    then have "\<not> is_continuation (drop (i + 1) text ! ?n)" by (rule nth_length_takeWhile)
    then show ?thesis using False that by (simp add: is_char_boundary_def char_end_def)
  qed (simp add: is_char_boundary_def)
  have "is_char_boundary text (truncation_end LARGE_PROMPT_THRESHOLD text)"
    using b c by (auto simp: truncation_end_def Let_def is_char_boundary_def split: if_splits)
  with assms b show ?thesis by (simp add: format_steered_query_def)
qed

lemma steered_query_truncation_witness:
  "LARGE_PROMPT_THRESHOLD \<le> truncation_end LARGE_PROMPT_THRESHOLD (replicate 25001 CHR ''a'')"
proof -
  have "LARGE_PROMPT_THRESHOLD < length (replicate 25001 CHR ''a'')" by (simp add: LARGE_PROMPT_THRESHOLD_def)
  moreover have "\<not> is_continuation (hd (replicate 25001 CHR ''a''))"
    by (simp add: is_continuation_def byte_val_def)
  ultimately show ?thesis using steered_query_truncation by blast
qed

end
