(* ===== verification/TokenEstimation.thy ===== *)
theory TokenEstimation
  imports Prelude Float64
begin

section \<open>Token estimates and context-window thresholds\<close>

text \<open>\<open>codegen/xai-token-estimation\<close>: the bytes/4 heuristic and the threshold arithmetic that the
  compaction gates and the displays share.\<close>

definition BYTES_PER_TOKEN :: u64 where "BYTES_PER_TOKEN = 4"
definition IMAGE_TOKEN_ESTIMATE :: u64 where "IMAGE_TOKEN_ESTIMATE = 765"

definition estimate_tokens :: "string \<Rightarrow> u64" where
  "estimate_tokens s = of_nat (length s) div BYTES_PER_TOKEN"

definition estimate_chars :: "u64 \<Rightarrow> u64" where
  "estimate_chars tokens = sat_mul tokens BYTES_PER_TOKEN"

definition estimate_image_tokens :: "u64 \<Rightarrow> u64" where
  "estimate_image_tokens n = sat_mul n IMAGE_TOKEN_ESTIMATE"

definition usage_percentage :: "u64 \<Rightarrow> u64 \<Rightarrow> rat" where
  "usage_percentage used window =
     (if window = 0 then 0
      else min (fl_mul (fl_quot (fl_of_nat (unat used)) (fl_of_nat (unat window))) 100) 100)"

definition usage_percentage_u8 :: "u64 \<Rightarrow> u64 \<Rightarrow> u8" where
  "usage_percentage_u8 used window = of_nat (min (f64_round (usage_percentage used window)) 255)"

definition usage_percentage_truncated_u8 :: "u64 \<Rightarrow> u64 \<Rightarrow> u8" where
  "usage_percentage_truncated_u8 used window =
     (case checked_div (sat_mul used 100) window of
        None \<Rightarrow> 0
      | Some pct \<Rightarrow> ucast (min pct 100))"

definition free_tokens :: "u64 \<Rightarrow> u64 \<Rightarrow> u64" where
  "free_tokens window used = sat_sub window used"

definition exceeds_threshold :: "u64 \<Rightarrow> u64 \<Rightarrow> u8 \<Rightarrow> bool" where
  "exceeds_threshold used context_window threshold_percent =
     (if context_window = 0 then False
      else sat_mul used 100 \<ge> sat_mul context_window (ucast threshold_percent))"

definition exceeds_threshold_with_headroom :: "u64 \<Rightarrow> u64 \<Rightarrow> u8 \<Rightarrow> u64 \<Rightarrow> bool" where
  "exceeds_threshold_with_headroom used context_window threshold_percent headroom =
     (if context_window = 0 then False
      else sat_mul used 100
           \<ge> sat_sub (sat_mul context_window (ucast threshold_percent)) (sat_mul headroom 100))"

subsection \<open>Lemmas\<close>

lemma unat_100: "unat (100 :: u64) = 100" by simp

lemma unat_percent: "unat (ucast (p :: u8) :: u64) = unat p"
proof -
  have "unat p < 2 ^ 64" using unsigned_less [of p, where 'a = nat] by simp
  then show ?thesis by (simp add: unsigned_ucast_eq take_bit_nat_eq_self)
qed

lemma exceeds_threshold_unat:
  "exceeds_threshold used cw p \<longleftrightarrow>
     cw \<noteq> 0 \<and> min (unat cw * unat p) (2 ^ 64 - 1) \<le> min (unat used * 100) (2 ^ 64 - 1)"
  by (simp add: exceeds_threshold_def word_le_nat_alt sat_simps unat_percent)

lemma exceeds_headroom_unat:
  "exceeds_threshold_with_headroom used cw p h \<longleftrightarrow>
     cw \<noteq> 0 \<and> min (unat cw * unat p) (2 ^ 64 - 1) - min (unat h * 100) (2 ^ 64 - 1)
                \<le> min (unat used * 100) (2 ^ 64 - 1)"
  by (simp add: exceeds_threshold_with_headroom_def word_le_nat_alt sat_simps unat_percent)

lemma truncated_unat:
  assumes "window \<noteq> 0"
  shows "unat (usage_percentage_truncated_u8 used window)
    = min (min (unat used * 100) (2 ^ 64 - 1) div unat window) 100"
proof -
  let ?q = "sat_mul used 100 div window"
  have q: "unat ?q = min (unat used * 100) (2 ^ 64 - 1) div unat window"
    by (simp add: unat_div sat_simps)
  have "unat (min ?q 100) = min (unat ?q) 100"
    by (simp add: min_def word_le_nat_alt)
  moreover have "unat (ucast (min ?q 100) :: u8) = unat (min ?q 100)"
    using calculation by (simp add: unsigned_ucast_eq take_bit_nat_eq_self)
  ultimately show ?thesis
    using assms by (simp add: usage_percentage_truncated_u8_def checked_div_def q)
qed

subsection \<open>Properties\<close>

text \<open>
  Where the arithmetic does not saturate, the auto-compaction gate and the displayed percentage
  agree: for a non-empty window and a threshold of at most one hundred percent, the gate fires
  exactly when the truncated percentage has reached the threshold.
\<close>
theorem gate_agrees_with_display:
  assumes "cw \<noteq> 0" and "unat p \<le> 100" and "unat used * 100 < 2 ^ 64" and "unat cw * unat p < 2 ^ 64"
  shows "exceeds_threshold used cw p \<longleftrightarrow> unat p \<le> unat (usage_percentage_truncated_u8 used cw)"
proof -
  have cw: "0 < unat cw" using assms(1) by (simp add: unat_gt_0)
  have "unat (usage_percentage_truncated_u8 used cw) = min (unat used * 100 div unat cw) 100"
    using assms by (simp add: truncated_unat min_def)
  moreover have "exceeds_threshold used cw p \<longleftrightarrow> unat cw * unat p \<le> unat used * 100"
    using assms by (simp add: exceeds_threshold_unat min_def)
  moreover have "unat cw * unat p \<le> unat used * 100 \<longleftrightarrow> unat p \<le> unat used * 100 div unat cw"
    using cw by (simp add: less_eq_div_iff_mult_less_eq mult.commute)
  ultimately show ?thesis using assms(2) by simp
qed

lemma gate_agrees_with_display_witness:
  "exceeds_threshold 850 1000 85 \<longleftrightarrow> unat (85::u8) \<le> unat (usage_percentage_truncated_u8 850 1000)"
  by (rule gate_agrees_with_display) simp_all

text \<open>
  Outside those bounds they part, contrary to the stated equivalence: with an empty window the
  display reads zero percent, which reaches a zero threshold, but the gate does not fire; and a
  threshold above one hundred percent can fire although the display is clamped to one hundred.
\<close>
theorem gate_and_display_part:
  "\<not> exceeds_threshold u 0 0 \<and> unat (0::u8) \<le> unat (usage_percentage_truncated_u8 u 0)
   \<and> exceeds_threshold 300 100 200 \<and> \<not> unat (200::u8) \<le> unat (usage_percentage_truncated_u8 300 100)"
proof -
  have "exceeds_threshold 300 100 200" by (simp add: exceeds_threshold_unat)
  moreover have "unat (usage_percentage_truncated_u8 300 100) = 100"
    by (subst truncated_unat) simp_all
  ultimately show ?thesis by (simp add: exceeds_threshold_def)
qed

text \<open>
  Headroom only makes the gate fire earlier: without headroom the two gates coincide, whatever
  exceeds the plain threshold exceeds it with headroom, more headroom never hides an excess, and the
  displayed percentage is at most one hundred.
\<close>
theorem headroom_monotone:
  assumes "h \<le> h'" and "cw \<noteq> 0"
  shows "exceeds_threshold_with_headroom used cw p 0 = exceeds_threshold used cw p
    \<and> (exceeds_threshold used cw p \<longrightarrow> exceeds_threshold_with_headroom used cw p h)
    \<and> (exceeds_threshold_with_headroom used cw p h \<longrightarrow> exceeds_threshold_with_headroom used cw p h')
    \<and> unat (usage_percentage_truncated_u8 used cw) \<le> 100"
proof -
  have "unat h \<le> unat h'" using assms(1) by (simp add: word_le_nat_alt)
  then have "min (unat h * 100) (2 ^ 64 - 1) \<le> min (unat h' * 100) (2 ^ 64 - 1)"
    by (intro min.mono) simp_all
  then have m: "g - min (unat h' * 100) (2 ^ 64 - 1) \<le> g - min (unat h * 100) (2 ^ 64 - 1)" for g
    by (rule diff_le_mono2)
  have "exceeds_threshold_with_headroom used cw p h'" if "exceeds_threshold_with_headroom used cw p h"
    using that order_trans [OF m] unfolding exceeds_headroom_unat by blast
  moreover have "exceeds_threshold_with_headroom used cw p h" if "exceeds_threshold used cw p"
    using that unfolding exceeds_headroom_unat exceeds_threshold_unat by (meson diff_le_self order_trans)
  moreover have "exceeds_threshold_with_headroom used cw p 0 = exceeds_threshold used cw p"
    unfolding exceeds_headroom_unat exceeds_threshold_unat by simp
  ultimately show ?thesis by (simp add: truncated_unat assms(2))
qed

lemma headroom_monotone_witness:
  "exceeds_threshold_with_headroom 840 1000 85 0 = exceeds_threshold 840 1000 85"
  using headroom_monotone [of 0 10 1000 840 85] by simp

end
