(* ===== verification/PromptCombine.thy ===== *)
theory PromptCombine
  imports Prelude
begin

section \<open>Combining queued prompts\<close>

text \<open>\<open>codegen/xai-prompt-queue/src/combine.rs\<close>: which queued follow-ups are merged into one turn,
  how their texts are joined, and the metadata that lets the client show them apart.\<close>

definition TEXT_SEPARATOR :: string where "TEXT_SEPARATOR = [CHR 0x0A, CHR 0x0A]"
definition COMBINED_DISPLAY_TEXTS_META :: string where
  "COMBINED_DISPLAY_TEXTS_META = ''combinedDisplayTexts''"

record combine_gate =
  cg_id :: string
  cg_is_plain_prompt :: bool
  cg_is_synthetic :: bool
  cg_is_expanded_skill :: bool
  cg_is_bash :: bool
  cg_has_images :: bool
  cg_text :: string

definition can_merge_front :: "combine_gate \<Rightarrow> bool" where
  "can_merge_front g \<longleftrightarrow>
     cg_is_plain_prompt g \<and> \<not> cg_is_synthetic g \<and> \<not> cg_is_expanded_skill g \<and> \<not> cg_is_bash g
     \<and> cg_text g \<noteq> []"

definition can_merge_follower :: "combine_gate \<Rightarrow> string list \<Rightarrow> bool" where
  "can_merge_follower g skip_ids \<longleftrightarrow>
     can_merge_front g \<and> \<not> cg_has_images g \<and> cg_id g \<notin> set skip_ids"

fun count_followers :: "string list \<Rightarrow> nat \<Rightarrow> combine_gate list \<Rightarrow> nat" where
  "count_followers skip_ids n [] = n"
| "count_followers skip_ids n (g # gs) =
     (if \<not> can_merge_follower g skip_ids then n else count_followers skip_ids (n + 1) gs)"

definition combine_prefix_len :: "combine_gate list \<Rightarrow> string list \<Rightarrow> nat" where
  "combine_prefix_len items skip_ids =
     (case items of
        [] \<Rightarrow> 0
      | front # rest \<Rightarrow>
          if \<not> can_merge_front front then 1 else count_followers skip_ids 1 rest)"

definition join_texts :: "string list \<Rightarrow> string" where
  "join_texts texts = join_str TEXT_SEPARATOR (filter (\<lambda>t. t \<noteq> []) texts)"

definition is_combined :: "string list \<Rightarrow> bool" where
  "is_combined segs \<longleftrightarrow> length segs \<ge> 2"

text \<open>\<open>serde_json::Map::insert\<close>: replace the value in place, or add the key.\<close>

definition json_insert :: "string \<Rightarrow> json \<Rightarrow> (string \<times> json) list \<Rightarrow> (string \<times> json) list" where
  "json_insert k v kvs =
     (if k \<in> set (map fst kvs) then map (\<lambda>(k', v'). if k' = k then (k', v) else (k', v')) kvs
      else kvs @ [(k, v)])"

definition stamp_combined_display_texts :: "(string \<times> json) list \<Rightarrow> string list \<Rightarrow> (string \<times> json) list" where
  "stamp_combined_display_texts meta segs =
     (if \<not> is_combined segs then meta
      else json_insert COMBINED_DISPLAY_TEXTS_META (JArr (map JStr segs)) meta)"

lemma count_followers_takeWhile:
  "count_followers skip_ids n gs = n + length (takeWhile (\<lambda>g. can_merge_follower g skip_ids) gs)"
  by (induction skip_ids n gs rule: count_followers.induct) auto

lemma map_of_json_insert: "map_of (json_insert k v kvs) = (map_of kvs)(k \<mapsto> v)"
proof -
  have "map_of (map (\<lambda>(k', v'). if k' = k then (k', v) else (k', v')) kvs) x
      = (if x = k then map_option (\<lambda>_. v) (map_of kvs k) else map_of kvs x)" for x
  proof (induction kvs)
    case (Cons e kvs)
    then show ?case by (cases e) auto
  qed simp
  moreover have "k \<notin> set (map fst kvs) \<Longrightarrow> map_of (kvs @ [(k, v)]) x = ((map_of kvs)(k \<mapsto> v)) x" for x
    using map_of_eq_None_iff [of kvs k] by (cases "map_of kvs x") (auto simp: map_add_def)
  moreover have "k \<in> set (map fst kvs) \<Longrightarrow> map_option (\<lambda>_. v) (map_of kvs k) = Some v"
    by (cases "map_of kvs k") (auto simp: map_of_eq_None_iff)
  ultimately show ?thesis by (simp add: json_insert_def fun_eq_iff del: set_map)
qed

text \<open>
  The combined run is the longest one: the front row and as many followers as are mergeable in
  a row; the row after it, if there is one, is not mergeable, and a front that may not merge is
  taken alone.
\<close>
theorem combine_prefix_maximal:
  "combine_prefix_len [] skip_ids = 0
   \<and> combine_prefix_len (front # rest) skip_ids =
       (if can_merge_front front
        then Suc (length (takeWhile (\<lambda>g. can_merge_follower g skip_ids) rest)) else 1)
   \<and> list_all (\<lambda>g. can_merge_follower g skip_ids) (take (combine_prefix_len (front # rest) skip_ids - 1) rest)
   \<and> (combine_prefix_len (front # rest) skip_ids \<le> length rest \<longrightarrow>
        \<not> (can_merge_front front
            \<and> can_merge_follower (rest ! (combine_prefix_len (front # rest) skip_ids - 1)) skip_ids))"
proof -
  let ?P = "\<lambda>g. can_merge_follower g skip_ids"
  have "list_all ?P (take (length (takeWhile ?P rest)) rest)"
    unfolding takeWhile_eq_take [symmetric] by (auto simp: list_all_iff dest: set_takeWhileD)
  moreover have "length (takeWhile ?P rest) < length rest \<Longrightarrow> \<not> ?P (rest ! length (takeWhile ?P rest))"
    by (rule nth_length_takeWhile)
  ultimately show ?thesis by (auto simp: combine_prefix_len_def count_followers_takeWhile Suc_le_eq)
qed

lemma combine_prefix_maximal_witness:
  "combine_prefix_len [] [] = 0
   \<and> combine_prefix_len
       [\<lparr>cg_id = ''a'', cg_is_plain_prompt = True, cg_is_synthetic = False, cg_is_expanded_skill = False,
         cg_is_bash = False, cg_has_images = True, cg_text = ''x''\<rparr>] [] = 1"
  using combine_prefix_maximal [of "[]" "\<lparr>cg_id = ''a'', cg_is_plain_prompt = True, cg_is_synthetic = False,
         cg_is_expanded_skill = False, cg_is_bash = False, cg_has_images = True, cg_text = ''x''\<rparr>" "[]"]
  by simp

end
