(* ===== verification/SamplingErrors.thy ===== *)
theory SamplingErrors
  imports RetryPolicies
begin

section \<open>Sampling errors and their classes\<close>

text \<open>
  \<open>xai-grok-sampling-types/src/error.rs\<close> with the size-overflow detector of
  \<open>xai-grok-compaction/src/code_compaction/failure.rs\<close>: the error type of a sampling attempt and
  the predicates that the retry loop asks of it.  A \<open>reqwest::Error\<close> is the record of the answers
  its accessors give, a \<open>serde_json::Error\<close> is a type variable, an HTTP status and the wire's
  \<open>u64\<close> counts, which are only compared, are \<open>nat\<close>.
\<close>

record http_error =
  he_timeout :: bool
  he_connect :: bool
  he_is_status :: bool
  he_status :: "nat option"
  he_request :: bool
  he_body :: bool
  he_text :: string
  he_causes :: "string list"

datatype api_error_code = InvalidImage | ContextOverflow string | OtherCode string
datatype sent_credential = Sent | Missing | UnknownCredential
datatype empty_reason = ReasoningOnly | NoVisibleContent

record empty_context =
  ec_reason :: empty_reason
  ec_had_reasoning :: bool
  ec_content_len :: nat
  ec_tool_call_count :: nat
  ec_finish_reason :: "string option"
  ec_completion_tokens :: "nat option"
  ec_reasoning_tokens :: "nat option"
  ec_prompt_tokens :: "nat option"
  ec_model :: string
  ec_first_choice_seen :: bool

record model_metadata =
  mm_context_window :: "nat option"
  mm_max_completion_tokens :: "nat option"
  mm_models_etag :: "string option"

datatype 'j sampling_error =
    Auth string sent_credential
  | InvalidConfiguration string
  | Http http_error
  | Serialization 'j
  | Api (api_status: nat) (api_message: string) (api_metadata: "model_metadata option")
      (api_retry_after: "nat option") (api_should_retry: "bool option")
      (api_code: "api_error_code option")
  | EventStreamError string
  | StreamError (stream_type: string) (stream_message: string) (stream_code: "api_error_code option")
  | IdleTimeout nat
  | EmptyResponse empty_context
  | MaxTokensTruncation
  | DoomLoopDetected (doom_labels: "string list") (doom_chunk: "nat option")

subsection \<open>Wire codes\<close>

definition eq_ignore_ascii_case :: "string \<Rightarrow> string \<Rightarrow> bool" where
  "eq_ignore_ascii_case a b \<longleftrightarrow> to_ascii_lowercase a = to_ascii_lowercase b"

definition INVALID_IMAGE :: string where "INVALID_IMAGE = ''invalid_image''"
definition IMAGE_CONTENT_PATH_MARKER :: string where "IMAGE_CONTENT_PATH_MARKER = ''.image.source.''"

definition is_byte_size_overflow_error_code :: "string \<Rightarrow> bool" where
  "is_byte_size_overflow_error_code code \<longleftrightarrow>
     parse_uint (2 ^ 16 - 1) code = Some 413
     \<or> eq_ignore_ascii_case code ''payload_too_large''
     \<or> eq_ignore_ascii_case code ''request_too_large''"

definition is_size_overflow_error_code :: "string \<Rightarrow> bool" where
  "is_size_overflow_error_code code \<longleftrightarrow>
     is_byte_size_overflow_error_code code
     \<or> eq_ignore_ascii_case code ''exceed_context_size_error''
     \<or> eq_ignore_ascii_case code ''context_length_exceeded''"

definition code_parse :: "string \<Rightarrow> api_error_code" where
  "code_parse code =
     (if code = INVALID_IMAGE then InvalidImage
      else if is_size_overflow_error_code code then ContextOverflow code
      else OtherCode code)"

fun code_as_str :: "api_error_code \<Rightarrow> string" where
  "code_as_str InvalidImage = INVALID_IMAGE"
| "code_as_str (ContextOverflow code) = code"
| "code_as_str (OtherCode code) = code"

definition is_size_overflow :: "api_error_code \<Rightarrow> bool" where
  "is_size_overflow c = (case c of ContextOverflow _ \<Rightarrow> True | _ \<Rightarrow> False)"

definition is_byte_size_overflow :: "api_error_code \<Rightarrow> bool" where
  "is_byte_size_overflow c =
     (case c of ContextOverflow code \<Rightarrow> is_byte_size_overflow_error_code code | _ \<Rightarrow> False)"

subsection \<open>Size overflow in message text\<close>

text \<open>\<open>s.split(p)\<close> for a non-empty pattern; never empty.\<close>

function split_str :: "string \<Rightarrow> string \<Rightarrow> string list" where
  "split_str p s =
     (if p = [] \<or> s = [] then [s]
      else if starts_with s p then [] # split_str p (drop (length p) s)
      else (case split_str p (tl s) of [] \<Rightarrow> [[hd s]] | y # ys \<Rightarrow> (hd s # y) # ys))"
  by pat_completeness auto
termination
  by (relation "measure (\<lambda>(p, s). length s)") auto

declare split_str.simps [simp del]

definition is_anchored :: "string \<Rightarrow> string \<Rightarrow> bool" where
  "is_anchored m needle \<longleftrightarrow> (\<exists>segment \<in> set (split_str '': '' m). starts_with segment needle)"

definition has_size_slug :: "string \<Rightarrow> bool" where
  "has_size_slug m \<longleftrightarrow>
     (\<exists>slug \<in> {''context_length_exceeded'', ''exceed_context_size_error'', ''payload_too_large''}.
        is_anchored m slug)"

definition has_rendered_413_phrase :: "string \<Rightarrow> bool" where
  "has_rendered_413_phrase m \<longleftrightarrow>
     contains_str m ''413 payload too large''
     \<or> contains_str m ''413 content too large''
     \<or> contains_str m ''413 request entity too large''"

definition has_input_length_pair :: "string \<Rightarrow> bool" where
  "has_input_length_pair m \<longleftrightarrow>
     contains_str m ''input length'' \<and> contains_str m ''exceeds the maximum allowed length''"

definition is_context_length_text :: "string \<Rightarrow> bool" where
  "is_context_length_text message =
     (let m = to_ascii_lowercase message in
        contains_str m ''too long for this model''
        \<or> contains_str m ''prompt is too long''
        \<or> contains_str m ''maximum prompt length''
        \<or> contains_str m ''maximum context length''
        \<or> contains_str m ''maximum allowed number of bytes''
        \<or> (contains_str m ''current message'' \<and> contains_str m ''exceeds budget'')
        \<or> is_anchored m ''request too large''
        \<or> has_size_slug m
        \<or> has_rendered_413_phrase m
        \<or> has_input_length_pair m)"

subsection \<open>Predicates of an error\<close>

definition is_auth_error :: "'j sampling_error \<Rightarrow> bool" where
  "is_auth_error e = (case e of Auth _ _ \<Rightarrow> True | Api st _ _ _ _ _ \<Rightarrow> st = 401 | _ \<Rightarrow> False)"

definition is_rate_limited :: "'j sampling_error \<Rightarrow> bool" where
  "is_rate_limited e = (case e of Api st _ _ _ _ _ \<Rightarrow> st = 429 | _ \<Rightarrow> False)"

definition is_payload_too_large :: "'j sampling_error \<Rightarrow> bool" where
  "is_payload_too_large e = (case e of Api st _ _ _ _ _ \<Rightarrow> st = 413 | _ \<Rightarrow> False)"

definition is_likely_body_rejected :: "'j sampling_error \<Rightarrow> bool" where
  "is_likely_body_rejected e =
     (case e of
        Http h \<Rightarrow> (he_request h \<or> he_body h) \<and> \<not> he_timeout h \<and> \<not> he_connect h
      | _ \<Rightarrow> False)"

definition is_encrypted_content_error :: "'j sampling_error \<Rightarrow> bool" where
  "is_encrypted_content_error e =
     (case e of
        Api st msg _ _ _ _ \<Rightarrow> st = 400 \<and> contains_str msg ''encrypted_content''
      | _ \<Rightarrow> False)"

definition is_image_processing_error :: "'j sampling_error \<Rightarrow> bool" where
  "is_image_processing_error e =
     (case e of
        Api st msg _ _ _ code \<Rightarrow>
          (st = 400 \<or> st = 500) \<and>
          (code = Some InvalidImage
           \<or> contains_str msg ''Could not process image''
           \<or> contains_str msg IMAGE_CONTENT_PATH_MARKER)
      | StreamError _ _ code \<Rightarrow> code = Some InvalidImage
      | _ \<Rightarrow> False)"

definition is_retryable_api_status :: "nat \<Rightarrow> bool" where
  "is_retryable_api_status st = should_retry edge_client_policy st"

definition is_retryable_reqwest :: "http_error \<Rightarrow> bool" where
  "is_retryable_reqwest h =
     (if he_timeout h \<or> he_connect h then True
      else if he_is_status h then
        (case he_status h of Some st \<Rightarrow> is_retryable_api_status st | None \<Rightarrow> False)
      else if he_request h \<or> he_body h then True
      else False)"

definition is_retryable :: "'j sampling_error \<Rightarrow> bool" where
  "is_retryable e =
     (case e of
        Auth _ _ \<Rightarrow> False
      | InvalidConfiguration _ \<Rightarrow> False
      | Http h \<Rightarrow> is_retryable_reqwest h
      | Serialization _ \<Rightarrow> False
      | Api st _ _ _ _ _ \<Rightarrow> is_retryable_api_status st
      | EventStreamError _ \<Rightarrow> True
      | StreamError _ _ _ \<Rightarrow> True
      | IdleTimeout _ \<Rightarrow> False
      | EmptyResponse _ \<Rightarrow> True
      | MaxTokensTruncation \<Rightarrow> False
      | DoomLoopDetected _ _ \<Rightarrow> True)"

definition retry_after :: "'j sampling_error \<Rightarrow> nat option" where
  "retry_after e = (case e of Api _ _ _ ra _ _ \<Rightarrow> ra | _ \<Rightarrow> None)"

definition should_retry_header :: "'j sampling_error \<Rightarrow> bool option" where
  "should_retry_header e = (case e of Api _ _ _ _ sr _ \<Rightarrow> sr | _ \<Rightarrow> None)"

definition coded :: "(api_error_code \<Rightarrow> bool) \<Rightarrow> api_error_code option \<Rightarrow> bool" where
  "coded P code = (case code of Some c \<Rightarrow> P c | None \<Rightarrow> False)"

definition is_context_length_error :: "'j sampling_error \<Rightarrow> bool" where
  "is_context_length_error e =
     (case e of
        Api st msg _ ra _ code \<Rightarrow>
          (let size_coded = coded is_size_overflow code
           in if st = 429 \<and> ra \<noteq> None \<and> \<not> size_coded then False
              else size_coded \<or> is_context_length_text msg)
      | StreamError _ msg code \<Rightarrow> coded is_size_overflow code \<or> is_context_length_text msg
      | _ \<Rightarrow> False)"

definition is_byte_size_overflow_coded :: "'j sampling_error \<Rightarrow> bool" where
  "is_byte_size_overflow_coded e =
     (case e of
        Api _ _ _ _ _ code \<Rightarrow> coded is_byte_size_overflow code
      | StreamError _ _ code \<Rightarrow> coded is_byte_size_overflow code
      | _ \<Rightarrow> False)"

definition message_looks_overloaded :: "string \<Rightarrow> bool" where
  "message_looks_overloaded message =
     (let m = to_ascii_lowercase message
      in contains_str m ''overloaded'' \<or> contains_str m ''service_unavailable_error'')"

definition is_overloaded :: "'j sampling_error \<Rightarrow> bool" where
  "is_overloaded e =
     (case e of
        Api st msg _ _ _ _ \<Rightarrow> st = 529 \<or> (500 \<le> st \<and> st < 600 \<and> message_looks_overloaded msg)
      | StreamError ty _ _ \<Rightarrow>
          eq_ignore_ascii_case ty ''overloaded_error''
          \<or> eq_ignore_ascii_case ty ''service_unavailable_error''
      | _ \<Rightarrow> False)"

definition is_retry_vetoed :: "'j sampling_error \<Rightarrow> bool" where
  "is_retry_vetoed e \<longleftrightarrow> should_retry_header e = Some False \<or> is_context_length_error e"

lemmas error_class_defs =
  is_auth_error_def is_rate_limited_def is_payload_too_large_def is_likely_body_rejected_def
  is_encrypted_content_error_def is_image_processing_error_def is_retryable_def retry_after_def
  should_retry_header_def is_context_length_error_def is_byte_size_overflow_coded_def
  is_retry_vetoed_def

subsection \<open>Lemmas\<close>

lemma code_as_str_parse [simp]: "code_as_str (code_parse s) = s"
  by (simp add: code_parse_def)

lemma split_str_single:
  assumes "\<not> contains_str s p" "p \<noteq> []"
  shows "split_str p s = [s]"
  using assms
proof (induction s)
  case Nil
  then show ?case by (simp add: split_str.simps)
next
  case (Cons c s)
  have "\<not> starts_with (c # s) p" "\<not> contains_str s p"
    using Cons.prems by (auto simp: contains_str_def split: if_splits)
  then show ?case using Cons by (simp add: split_str.simps [of p "c # s"])
qed

lemma edge_retryable: "is_retryable_api_status st \<longleftrightarrow> st = 429 \<or> 500 \<le> st \<and> st < 600 \<and> st \<noteq> 525 \<and> st \<noteq> 526"
  by (auto simp: is_retryable_api_status_def should_retry_def classify_def edge_client_policy_def)

end
