(* ===== verification/SamplerRetry.thy ===== *)
theory SamplerRetry
  imports SamplingErrors
begin

section \<open>The retry decision of the sampler\<close>

text \<open>
  \<open>xai-grok-sampler/src/retry.rs\<close>.  A \<open>Duration\<close> is its number of milliseconds.  The jitter
  comes from a hash of a counter and the thread; the hash value is the argument \<open>h\<close>.  Retry
  counters are \<open>nat\<close>: they only grow by one per attempt and are compared with \<open>u32\<close> budgets.
  \<open>custom\<close> is \<open>serde::de::Error::custom\<close> of an error's rendering.
\<close>

definition RATE_LIMIT_RETRY_THRESHOLD :: nat where "RATE_LIMIT_RETRY_THRESHOLD = 2"
definition DEFAULT_MAX_RETRIES :: nat where "DEFAULT_MAX_RETRIES = 15"
definition MAX_RETRY_BACKOFF :: nat where "MAX_RETRY_BACKOFF = 30000"
definition TRANSPORT_REBUILD_BACKOFF :: nat where "TRANSPORT_REBUILD_BACKOFF = 200"

definition resolve_max_retries_with_env :: "string option \<Rightarrow> nat option \<Rightarrow> nat" where
  "resolve_max_retries_with_env env model =
     (case Option.bind env (parse_uint (2 ^ 32 - 1)) of
        Some n \<Rightarrow> n
      | None \<Rightarrow> (case model of Some n \<Rightarrow> n | None \<Rightarrow> DEFAULT_MAX_RETRIES))"

definition doom_loop_backoff :: "nat \<Rightarrow> nat" where
  "doom_loop_backoff h = h mod 251"

definition jitter_backoff :: "nat \<Rightarrow> nat \<Rightarrow> nat" where
  "jitter_backoff h base_ms =
     (let jitter_range = base_ms div 5;
          jitter = h mod (jitter_range * 2 + 1)
      in base_ms - jitter_range + jitter)"

definition retry_base_ms :: "nat \<Rightarrow> nat" where
  "retry_base_ms retry_count =
     (let shift = retry_count - 1;
          shifted = (if shift < 64 then push_bit shift (2000 :: u64) else - 1)
      in min (unat shifted) MAX_RETRY_BACKOFF)"

definition retry_backoff_with_jitter :: "nat \<Rightarrow> nat \<Rightarrow> nat" where
  "retry_backoff_with_jitter h retry_count = jitter_backoff h (retry_base_ms retry_count)"

definition retry_after_or_backoff :: "nat \<Rightarrow> nat \<Rightarrow> nat option \<Rightarrow> nat" where
  "retry_after_or_backoff h attempt retry_after_secs =
     (case retry_after_secs of
        Some secs \<Rightarrow>
          if 0 < secs then jitter_backoff h (min (secs * 1000) MAX_RETRY_BACKOFF)
          else retry_backoff_with_jitter h attempt
      | None \<Rightarrow> retry_backoff_with_jitter h attempt)"

definition clone_error :: "('j \<Rightarrow> 'j) \<Rightarrow> 'j sampling_error \<Rightarrow> 'j sampling_error" where
  "clone_error custom e =
     (case e of
        Http he \<Rightarrow> EventStreamError (he_text he)
      | Serialization j \<Rightarrow> Serialization (custom j)
      | _ \<Rightarrow> e)"

datatype 'j retry_decision =
    Retry nat
  | RetryWithBackoff nat bool
  | RetryWithImageStrip
  | RetryWithClientRebuild nat
  | EmitToSession "'j sampling_error"
  | Fatal "'j sampling_error"

definition first_retry_backoff :: "nat \<Rightarrow> nat \<Rightarrow> 'j sampling_error \<Rightarrow> nat" where
  "first_retry_backoff h next_attempt err =
     (case err of
        Http _ \<Rightarrow> jitter_backoff h TRANSPORT_REBUILD_BACKOFF
      | _ \<Rightarrow> retry_after_or_backoff h next_attempt (retry_after err))"

definition classify_error ::
  "('j \<Rightarrow> 'j) \<Rightarrow> nat \<Rightarrow> 'j sampling_error \<Rightarrow> nat \<Rightarrow> nat \<Rightarrow> nat \<Rightarrow> 'j retry_decision" where
  "classify_error custom h err retry_count max_retries rate_limit_threshold =
     (if is_auth_error err then EmitToSession (clone_error custom err)
      else if is_encrypted_content_error err then EmitToSession (clone_error custom err)
      else if max_retries = 0 then Fatal (clone_error custom err)
      else if is_payload_too_large err \<or> is_byte_size_overflow_coded err then RetryWithImageStrip
      else if is_image_processing_error err then RetryWithImageStrip
      else if is_retry_vetoed err then Fatal (clone_error custom err)
      else (case err of
        DoomLoopDetected _ _ \<Rightarrow> Retry (doom_loop_backoff h)
      | _ \<Rightarrow>
         (let next_attempt = retry_count + 1 in
          if is_rate_limited err then
            (if min max_retries rate_limit_threshold \<le> next_attempt
             then Fatal (clone_error custom err)
             else RetryWithBackoff
                    (case retry_after err of
                       Some secs \<Rightarrow> secs * 1000
                     | None \<Rightarrow> retry_backoff_with_jitter h next_attempt) True)
          else if is_retryable err then
            (if max_retries \<le> next_attempt then Fatal (clone_error custom err)
             else if next_attempt = 1
             then RetryWithClientRebuild (first_retry_backoff h next_attempt err)
             else Retry (retry_after_or_backoff h next_attempt (retry_after err)))
          else Fatal (clone_error custom err))))"

definition will_retry :: "'j retry_decision \<Rightarrow> bool" where
  "will_retry d =
     (case d of Retry _ \<Rightarrow> True | RetryWithBackoff _ _ \<Rightarrow> True | RetryWithClientRebuild _ \<Rightarrow> True | _ \<Rightarrow> False)"

definition is_doom :: "'j sampling_error \<Rightarrow> bool" where
  "is_doom e = (case e of DoomLoopDetected _ _ \<Rightarrow> True | _ \<Rightarrow> False)"

subsection \<open>Lemmas\<close>

lemma jitter_bounds:
  "base - base div 5 \<le> jitter_backoff h base" "jitter_backoff h base \<le> base + base div 5"
proof -
  have "h mod (base div 5 * 2 + 1) \<le> base div 5 * 2"
    using mod_less_divisor [of "base div 5 * 2 + 1" h] by linarith
  moreover have "base div 5 \<le> base" by simp
  ultimately show "base - base div 5 \<le> jitter_backoff h base" "jitter_backoff h base \<le> base + base div 5"
    unfolding jitter_backoff_def Let_def by linarith+
qed

lemma unat_shifted: "s < 64 \<Longrightarrow> unat (push_bit s (2000 :: u64)) = 2000 * 2 ^ s mod 2 ^ 64"
proof -
  have "unat (push_bit s (2000 :: u64)) = take_bit LENGTH(64) (push_bit s (unat (2000 :: u64)))"
    by (rule unsigned_push_bit_eq)
  then show ?thesis by (simp add: take_bit_eq_mod push_bit_eq_mult)
qed

lemma shift_cases:
  "\<forall>s \<in> set [0..<64]. min (2000 * 2 ^ s mod 2 ^ 64) 30000
     = (if s < 4 then 2000 * 2 ^ s else if s < 60 then 30000 else (0::nat))"
proof -
  have "[0..<64] = 0 # 1 # [2..<64::nat]" by (simp add: upt_conv_Cons numeral_2_eq_2)
  then show ?thesis by (simp add: upt_rec_numeral del: set_upt)
qed

lemma retry_base_exact:
  "retry_base_ms n =
     (if n \<le> 1 then 2000 else if n = 2 then 4000 else if n = 3 then 8000 else if n = 4 then 16000
      else if n \<le> 60 then 30000 else if n \<le> 64 then 0 else 30000)"
proof (cases "n - 1 < 64")
  case True
  have "retry_base_ms n = min (2000 * 2 ^ (n - 1) mod 2 ^ 64) 30000"
    unfolding retry_base_ms_def Let_def MAX_RETRY_BACKOFF_def using True by (simp only: unat_shifted if_True)
  moreover have "n - 1 \<in> set [0..<64]" using True by simp
  ultimately have "retry_base_ms n
      = (if n - 1 < 4 then 2000 * 2 ^ (n - 1) else if n - 1 < 60 then 30000 else 0)"
    using shift_cases by metis
  moreover have "n - 1 < 4 \<Longrightarrow> n = 0 \<or> n = 1 \<or> n = 2 \<or> n = 3 \<or> n = 4" by linarith
  ultimately show ?thesis using True by (cases "n - 1 < 4") auto
next
  case False
  then have "retry_base_ms n = 30000"
    by (simp add: retry_base_ms_def Let_def MAX_RETRY_BACKOFF_def unat_max_word)
  moreover have "64 < n" using False by linarith
  ultimately show ?thesis by simp
qed

lemma rate_limited_retryable: "is_rate_limited e \<Longrightarrow> is_retryable e"
  by (cases e) (simp_all add: is_rate_limited_def is_retryable_def edge_retryable)

lemma backoff_bounded:
  "retry_backoff_with_jitter h n \<le> 36000" "retry_after_or_backoff h n ra \<le> 36000"
  "first_retry_backoff h n e \<le> 36000" "doom_loop_backoff h \<le> 36000"
proof -
  have j: "jitter_backoff h b \<le> 36000" if "b \<le> 30000" for b
    using jitter_bounds(2) [of h b] div_le_mono [OF that, of 5] that by simp
  have base: "retry_base_ms n \<le> 30000" by (simp add: retry_base_exact)
  then show r: "retry_backoff_with_jitter h n \<le> 36000"
    unfolding retry_backoff_with_jitter_def by (rule j)
  then show a: "retry_after_or_backoff h n ra \<le> 36000" for ra
    by (cases ra) (simp_all add: retry_after_or_backoff_def j MAX_RETRY_BACKOFF_def)
  show "first_retry_backoff h n e \<le> 36000"
    by (cases e) (simp_all add: first_retry_backoff_def a j TRANSPORT_REBUILD_BACKOFF_def)
  show "doom_loop_backoff h \<le> 36000"
    using mod_less_divisor [of 251 h] by (simp add: doom_loop_backoff_def)
qed

text \<open>The decision after the vetoes, for an error that is not a doom loop.\<close>

lemma classify_late:
  assumes "\<not> is_auth_error e" "\<not> is_encrypted_content_error e" "m \<noteq> 0" "\<not> is_payload_too_large e"
    "\<not> is_byte_size_overflow_coded e" "\<not> is_image_processing_error e" "\<not> is_retry_vetoed e" "\<not> is_doom e"
  shows "classify_error cu h e rc m th =
     (if is_rate_limited e then
        (if min m th \<le> rc + 1 then Fatal (clone_error cu e)
         else RetryWithBackoff (case retry_after e of Some secs \<Rightarrow> secs * 1000
                                | None \<Rightarrow> retry_backoff_with_jitter h (rc + 1)) True)
      else if is_retryable e then
        (if m \<le> rc + 1 then Fatal (clone_error cu e)
         else if rc + 1 = 1 then RetryWithClientRebuild (first_retry_backoff h (rc + 1) e)
         else Retry (retry_after_or_backoff h (rc + 1) (retry_after e)))
      else Fatal (clone_error cu e))"
proof -
  have "(case e of DoomLoopDetected _ _ \<Rightarrow> x | _ \<Rightarrow> y) = y" for x y :: "'a retry_decision"
    using assms(8) by (cases e) (simp_all add: is_doom_def)
  then show ?thesis using assms unfolding classify_error_def Let_def by simp
qed

lemma classify_doom:
  "is_doom e \<Longrightarrow> m \<noteq> 0 \<Longrightarrow> classify_error cu h e rc m th = Retry (doom_loop_backoff h)"
  by (cases e) (simp_all add: is_doom_def classify_error_def error_class_defs)

definition retry_allowed :: "'j sampling_error \<Rightarrow> nat \<Rightarrow> nat \<Rightarrow> nat \<Rightarrow> bool" where
  "retry_allowed e rc m th \<longleftrightarrow> m \<noteq> 0 \<and> \<not> is_auth_error e \<and> \<not> is_encrypted_content_error e
     \<and> \<not> is_payload_too_large e \<and> \<not> is_byte_size_overflow_coded e \<and> \<not> is_image_processing_error e
     \<and> \<not> is_retry_vetoed e \<and> is_retryable e
     \<and> (is_doom e \<or> rc + 1 < m \<and> (is_rate_limited e \<longrightarrow> rc + 1 < th))"

lemma will_retry_simps [simp]:
  "will_retry (Retry b)" "will_retry (RetryWithBackoff b r)" "will_retry (RetryWithClientRebuild b)"
  "\<not> will_retry RetryWithImageStrip" "\<not> will_retry (EmitToSession e)" "\<not> will_retry (Fatal e)"
  by (simp_all add: will_retry_def)

lemma classify_early:
  "is_auth_error e \<or> is_encrypted_content_error e \<Longrightarrow>
     classify_error cu h e rc m th = EmitToSession (clone_error cu e)"
  "\<not> is_auth_error e \<Longrightarrow> \<not> is_encrypted_content_error e \<Longrightarrow>
     classify_error cu h e rc 0 th = Fatal (clone_error cu e)"
  "\<not> is_auth_error e \<Longrightarrow> \<not> is_encrypted_content_error e \<Longrightarrow> m \<noteq> 0 \<Longrightarrow>
     is_payload_too_large e \<or> is_byte_size_overflow_coded e \<or> is_image_processing_error e \<Longrightarrow>
     classify_error cu h e rc m th = RetryWithImageStrip"
  "\<not> is_auth_error e \<Longrightarrow> \<not> is_encrypted_content_error e \<Longrightarrow> m \<noteq> 0 \<Longrightarrow>
     \<not> (is_payload_too_large e \<or> is_byte_size_overflow_coded e \<or> is_image_processing_error e) \<Longrightarrow>
     is_retry_vetoed e \<Longrightarrow> classify_error cu h e rc m th = Fatal (clone_error cu e)"
  by (auto simp: classify_error_def)

lemma doom_classes:
  assumes "is_doom e"
  shows "is_retryable e" "\<not> is_auth_error e" "\<not> is_encrypted_content_error e" "\<not> is_payload_too_large e"
    "\<not> is_byte_size_overflow_coded e" "\<not> is_image_processing_error e" "\<not> is_retry_vetoed e"
    "\<not> is_rate_limited e"
  using assms by (cases e; simp add: is_doom_def error_class_defs)+

text \<open>The classes of \<open>classify_error\<close>, each with its decision.\<close>

lemma classify_will_retry: "will_retry (classify_error cu h e rc m th) \<longleftrightarrow> retry_allowed e rc m th"
proof -
  consider "is_auth_error e \<or> is_encrypted_content_error e"
    | "\<not> is_auth_error e" "\<not> is_encrypted_content_error e" "m = 0"
    | "\<not> is_auth_error e" "\<not> is_encrypted_content_error e" "m \<noteq> 0"
      "is_payload_too_large e \<or> is_byte_size_overflow_coded e \<or> is_image_processing_error e"
    | "\<not> is_auth_error e" "\<not> is_encrypted_content_error e" "m \<noteq> 0"
      "\<not> (is_payload_too_large e \<or> is_byte_size_overflow_coded e \<or> is_image_processing_error e)"
      "is_retry_vetoed e"
    | "is_doom e" "m \<noteq> 0"
    | "\<not> is_auth_error e" "\<not> is_encrypted_content_error e" "m \<noteq> 0"
      "\<not> (is_payload_too_large e \<or> is_byte_size_overflow_coded e \<or> is_image_processing_error e)"
      "\<not> is_retry_vetoed e" "\<not> is_doom e"
    by blast
  then show ?thesis
  proof cases
    case 1
    then show ?thesis by (auto simp: classify_early(1) retry_allowed_def)
  next
    case 2
    then show ?thesis by (simp add: classify_early(2) retry_allowed_def)
  next
    case 3
    then show ?thesis by (auto simp: classify_early(3) retry_allowed_def)
  next
    case 4
    then show ?thesis by (simp add: classify_early(4) retry_allowed_def)
  next
    case 5
    then show ?thesis by (simp add: classify_doom doom_classes retry_allowed_def)
  next
    case 6
    then show ?thesis
      using rate_limited_retryable [of e] by (simp add: classify_late retry_allowed_def) auto
  qed
qed

lemma classify_strip:
  "classify_error cu h e rc m th = RetryWithImageStrip \<longleftrightarrow>
     m \<noteq> 0 \<and> \<not> is_auth_error e \<and> \<not> is_encrypted_content_error e \<and>
     (is_payload_too_large e \<or> is_byte_size_overflow_coded e \<or> is_image_processing_error e)"
proof (cases "is_doom e \<and> m \<noteq> 0")
  case True
  then show ?thesis by (simp add: classify_doom doom_classes)
next
  case nd: False
  show ?thesis
  proof (cases "is_auth_error e \<or> is_encrypted_content_error e \<or> m = 0
      \<or> is_payload_too_large e \<or> is_byte_size_overflow_coded e \<or> is_image_processing_error e
      \<or> is_retry_vetoed e")
    case True
    then show ?thesis by (auto simp: classify_error_def)
  next
    case False
    then show ?thesis using nd by (simp add: classify_late)
  qed
qed

lemma classify_emit: "(\<exists>x. classify_error cu h e rc m th = EmitToSession x) \<longleftrightarrow> is_auth_error e \<or> is_encrypted_content_error e"
proof (cases "is_auth_error e \<or> is_encrypted_content_error e")
  case True
  then show ?thesis by (simp add: classify_early(1))
next
  case False
  then have "classify_error cu h e rc m th \<noteq> EmitToSession x" for x
    by (simp add: classify_error_def Let_def split: sampling_error.split)
  then show ?thesis using False by simp
qed

lemma classify_error_carried:
  "classify_error cu h e rc m th = Fatal x \<or> classify_error cu h e rc m th = EmitToSession x \<Longrightarrow> x = clone_error cu e"
  by (auto simp: classify_error_def Let_def split: if_splits sampling_error.splits)

lemma classify_backoff:
  assumes "classify_error cu h e rc m th = Retry b \<or> classify_error cu h e rc m th = RetryWithClientRebuild b"
  shows "b \<le> 36000"
proof -
  have "retry_allowed e rc m th" using assms classify_will_retry [of cu h e rc m th] by auto
  then show ?thesis
    using assms backoff_bounded
    by (cases "is_doom e") (auto simp: retry_allowed_def classify_doom classify_late split: if_splits)
qed

lemma clone_retryable: "is_retryable (clone_error cu e) \<longleftrightarrow> is_retryable e \<or> (\<exists>h. e = Http h)"
  by (cases e) (simp_all add: clone_error_def is_retryable_def)

subsection \<open>Properties\<close>

text \<open>
  C28. The retry decision, exactly.  The same payload is sent again precisely when retries are
  enabled, the error is neither an authentication nor an undecryptable-content error, blames
  neither the size nor an image of the request, is not vetoed by the server or by a size overflow,
  is transient, and (loops aside, which have a budget of their own) the attempt stays within the
  budget and, when rate-limited, below the rate-limit threshold.  Images are stripped precisely for
  size and image rejections; the session is asked precisely for the two credential-like errors;
  what is reported is the error itself; and a wait that the server did not dictate is at most 36
  seconds.  Copying an error keeps its retryability except that every transport error becomes
  retryable.
\<close>
theorem retry_decision_exact:
  assumes "d = classify_error cu h e rc m th"
  shows "(will_retry d \<longleftrightarrow> m \<noteq> 0 \<and> \<not> is_auth_error e \<and> \<not> is_encrypted_content_error e
      \<and> \<not> is_payload_too_large e \<and> \<not> is_byte_size_overflow_coded e \<and> \<not> is_image_processing_error e
      \<and> should_retry_header e \<noteq> Some False \<and> \<not> is_context_length_error e \<and> is_retryable e
      \<and> (is_doom e \<or> rc + 1 < m \<and> (is_rate_limited e \<longrightarrow> rc + 1 < th)))
    \<and> (d = RetryWithImageStrip \<longleftrightarrow> m \<noteq> 0 \<and> \<not> is_auth_error e \<and> \<not> is_encrypted_content_error e
      \<and> (is_payload_too_large e \<or> is_byte_size_overflow_coded e \<or> is_image_processing_error e))
    \<and> ((\<exists>x. d = EmitToSession x) \<longleftrightarrow> is_auth_error e \<or> is_encrypted_content_error e)
    \<and> (\<forall>x. d = Fatal x \<or> d = EmitToSession x \<longrightarrow> x = clone_error cu e)
    \<and> (\<forall>b. d = Retry b \<or> d = RetryWithClientRebuild b \<longrightarrow> b \<le> 36000)
    \<and> (is_retryable (clone_error cu e) \<longleftrightarrow> is_retryable e \<or> (\<exists>x. e = Http x))"
  unfolding assms
  by (intro conjI allI impI)
    (simp add: classify_will_retry retry_allowed_def is_retry_vetoed_def,
     rule classify_strip, rule classify_emit, erule classify_error_carried, erule classify_backoff,
     rule clone_retryable)

lemma retry_decision_exact_witness:
  "classify_error (\<lambda>j. j) 0 (EventStreamError ''reset'' :: unit sampling_error) 1 15 2 \<noteq> RetryWithImageStrip
   \<and> will_retry (classify_error (\<lambda>j. j) 0 (EventStreamError ''reset'' :: unit sampling_error) 1 15 2)"
proof -
  have "\<not> is_context_length_text ''reset''" by code_simp
  then show ?thesis
    using retry_decision_exact [OF refl, of "\<lambda>j. j" 0 "EventStreamError ''reset'' :: unit sampling_error" 1 15 2]
    by (simp add: error_class_defs is_doom_def)
qed

text \<open>
  The backoff, exactly: 2, 4, 8 and 16 seconds for the first four retries, then 30 seconds, and
  again 30 seconds from the 65th retry on; for the 61st to the 64th retry the shifted product
  wraps to zero, which the overflow check does not notice, and the retries do not wait at all.
  The jitter stays within a fifth of the base in either direction.
\<close>
theorem backoff_exact:
  "retry_base_ms n = (if n \<le> 1 then 2000 else if n \<le> 4 then 2000 * 2 ^ (n - 1)
      else if n \<le> 60 then 30000 else if n \<le> 64 then 0 else 30000)
   \<and> 4 * retry_base_ms n \<le> 5 * retry_backoff_with_jitter h n
   \<and> 5 * retry_backoff_with_jitter h n \<le> 6 * retry_base_ms n
   \<and> retry_backoff_with_jitter h 62 = 0"
proof -
  consider "n \<le> 1" | "n = 2" | "n = 3" | "n = 4" | "4 < n" by linarith
  then have exact: "retry_base_ms n = (if n \<le> 1 then 2000 else if n \<le> 4 then 2000 * 2 ^ (n - 1)
      else if n \<le> 60 then 30000 else if n \<le> 64 then 0 else 30000)"
    by cases (simp_all add: retry_base_exact)
  have "5 dvd retry_base_ms n" by (simp add: retry_base_exact)
  then obtain k where k: "retry_base_ms n = 5 * k" by (elim dvdE)
  then have "4 * retry_base_ms n \<le> 5 * retry_backoff_with_jitter h n"
    "5 * retry_backoff_with_jitter h n \<le> 6 * retry_base_ms n"
    using jitter_bounds [where base = "5 * k" and h = h] by (simp_all add: retry_backoff_with_jitter_def)
  moreover have "retry_backoff_with_jitter h 62 = 0"
    by (simp add: retry_backoff_with_jitter_def retry_base_exact jitter_backoff_def)
  ultimately show ?thesis using exact by blast
qed

end
