(* ===== verification/DoomLoop.thy ===== *)
theory DoomLoop
  imports Prelude
begin

section \<open>Server-reported reasoning loops\<close>

text \<open>
  The wire side of doom-loop recovery: trigger labels and the recovery policy
  (\<open>xai-grok-sampling-types/src/doom_loop.rs\<close>), the per-attempt collector
  (\<open>xai-grok-sampler/src/doom_loop.rs\<close>) and the per-request detector metadata
  (\<open>xai-grok-sampler/src/actor/request_metadata.rs\<close>).  \<open>u32\<close> values that are only parsed and
  compared are \<open>nat\<close>; \<open>serde_json::from_str\<close> is an argument.
\<close>

subsection \<open>Labels and policy\<close>

datatype signal_kind =
    TailRepetition nat
  | ExactRepetition nat nat
  | LowLogprob
  | UnknownKind string

record doom_signal =
  ds_kind :: signal_kind
  ds_channel :: string
  ds_raw :: string

definition split_once_or :: "char \<Rightarrow> string \<Rightarrow> string \<times> string" where
  "split_once_or c s = (case split_once c s of Some p \<Rightarrow> p | None \<Rightarrow> (s, []))"

definition parse_u32 :: "string \<Rightarrow> nat option" where
  "parse_u32 s = parse_uint (2 ^ 32 - 1) s"

definition parse_exact :: "string \<Rightarrow> signal_kind option" where
  "parse_exact dims =
     (case split_once CHR ''x'' dims of
        None \<Rightarrow> None
      | Some (sq, cnt) \<Rightarrow>
          (case (parse_u32 sq, parse_u32 cnt) of
             (Some a, Some b) \<Rightarrow> Some (ExactRepetition a b)
           | _ \<Rightarrow> None))"

definition signal_kind_of :: "string \<Rightarrow> signal_kind" where
  "signal_kind_of head =
     (case split_once CHR '':'' head of
        Some (name, rest) \<Rightarrow>
          if name = ''tail_repetition'' then
            (case parse_u32 rest of Some t \<Rightarrow> TailRepetition t | None \<Rightarrow> UnknownKind head)
          else if name = ''exact_repetition'' then
            (case parse_exact rest of Some k \<Rightarrow> k | None \<Rightarrow> UnknownKind head)
          else UnknownKind head
      | None \<Rightarrow> if head = ''low_logprob'' then LowLogprob else UnknownKind head)"

definition signal_parse :: "string \<Rightarrow> doom_signal" where
  "signal_parse raw =
     (let (head, channel) = split_once_or CHR ''@'' raw
      in \<lparr>ds_kind = signal_kind_of head, ds_channel = channel, ds_raw = raw\<rparr>)"

fun tightest_loop :: "string option \<Rightarrow> (nat \<times> string) option \<Rightarrow> string list
    \<Rightarrow> string option \<times> (nat \<times> string) option" where
  "tightest_loop first best [] = (first, best)"
| "tightest_loop first best (raw # raws) =
     tightest_loop
       (case first of None \<Rightarrow> Some raw | Some f \<Rightarrow> Some f)
       (case ds_kind (signal_parse raw) of
          TailRepetition t \<Rightarrow>
            (case best of
               None \<Rightarrow> Some (t, raw)
             | Some (bt, b) \<Rightarrow> if t < bt then Some (t, raw) else Some (bt, b))
        | _ \<Rightarrow> best)
       raws"

definition tightest :: "string list \<Rightarrow> string option" where
  "tightest raws =
     (let (first, best) = tightest_loop None None raws
      in case best of Some (_, raw) \<Rightarrow> Some raw | None \<Rightarrow> first)"

record doom_policy =
  dp_max_threshold :: nat
  dp_max_retries :: nat
  dp_window_tokens :: nat

definition default_doom_policy :: doom_policy where
  "default_doom_policy = \<lparr>dp_max_threshold = 64, dp_max_retries = 2, dp_window_tokens = 1024\<rparr>"

definition clamp_max_threshold :: "nat \<Rightarrow> nat" where "clamp_max_threshold v = max 2 (min 64 v)"
definition clamp_max_retries :: "nat \<Rightarrow> nat" where "clamp_max_retries v = max 0 (min 5 v)"
definition clamp_window_tokens :: "nat \<Rightarrow> nat" where
  "clamp_window_tokens v = (if 512 \<le> v \<and> v \<le> 4096 then v else 4096)"

definition is_confident :: "doom_policy \<Rightarrow> doom_signal \<Rightarrow> bool" where
  "is_confident p s \<longleftrightarrow> ds_channel s = ''thinking'' \<and>
     (case ds_kind s of TailRepetition t \<Rightarrow> t \<le> dp_max_threshold p | _ \<Rightarrow> False)"

definition confident_triggers :: "doom_policy \<Rightarrow> doom_signal list \<Rightarrow> string list" where
  "confident_triggers p signals = map ds_raw (filter (is_confident p) signals)"

subsection \<open>Peeking at raw events\<close>

definition CHECK_EVENT :: string where "CHECK_EVENT = ''response.doom_loop_check''"

datatype doom_peek =
    CheckEvent "doom_signal list"
  | ResponseField "doom_signal list"
  | PeekNone

definition parse_triggers :: "json option \<Rightarrow> doom_signal list" where
  "parse_triggers ts =
     (case ts of
        Some (JArr vs) \<Rightarrow> map signal_parse (List.map_filter json_as_str vs)
      | _ \<Rightarrow> [])"

definition triggers_at :: "json \<Rightarrow> json option" where
  "triggers_at v = Option.bind (json_get v ''doom_loop_check'') (\<lambda>d. json_get d ''triggers'')"

definition peek_doom_loop :: "(string \<Rightarrow> json option) \<Rightarrow> string \<Rightarrow> doom_peek" where
  "peek_doom_loop from_str data =
     (if \<not> contains_str data ''doom_loop_check'' then PeekNone
      else (case from_str data of
              None \<Rightarrow> PeekNone
            | Some v \<Rightarrow>
                if Option.bind (json_get v ''type'') json_as_str = Some CHECK_EVENT
                then CheckEvent (parse_triggers (triggers_at v))
                else (case Option.bind (json_get v ''response'') triggers_at of
                        Some ts \<Rightarrow> ResponseField (parse_triggers (Some ts))
                      | None \<Rightarrow> PeekNone)))"

definition is_check_event :: "(string \<Rightarrow> json option) \<Rightarrow> string \<Rightarrow> string \<Rightarrow> bool" where
  "is_check_event from_str event_name data \<longleftrightarrow>
     event_name = CHECK_EVENT \<or>
     contains_str data CHECK_EVENT \<and>
     (case from_str data of
        None \<Rightarrow> False
      | Some v \<Rightarrow> Option.bind (json_get v ''type'') json_as_str = Some CHECK_EVENT)"

subsection \<open>The per-attempt collector\<close>

definition MAX_SIGNALS :: nat where "MAX_SIGNALS = 64"
definition MAX_SIGNAL_BYTES :: nat where "MAX_SIGNAL_BYTES = 256"

record collector =
  co_signals :: "doom_signal list"
  co_malformed_logged :: bool
  co_policy :: doom_policy
  co_abort_disarmed :: bool

definition collector_new :: "doom_policy \<Rightarrow> collector" where
  "collector_new p =
     \<lparr>co_signals = [], co_malformed_logged = False, co_policy = p, co_abort_disarmed = False\<rparr>"

definition disarm_abort :: "collector \<Rightarrow> collector" where
  "disarm_abort c = c\<lparr>co_abort_disarmed := True\<rparr>"

definition abort_triggers :: "collector \<Rightarrow> string list option" where
  "abort_triggers c =
     (if co_abort_disarmed c then None
      else (let confident = confident_triggers (co_policy c) (co_signals c)
            in if confident = [] then None else Some confident))"

fun record_signals :: "doom_signal list \<Rightarrow> doom_signal list \<Rightarrow> doom_signal list" where
  "record_signals held [] = held"
| "record_signals held (s # ss) =
     (if MAX_SIGNALS \<le> length held then held
      else if length (ds_raw s) \<le> MAX_SIGNAL_BYTES \<and> ds_raw s \<notin> ds_raw ` set held
      then record_signals (held @ [s]) ss
      else record_signals held ss)"

definition collector_record :: "doom_signal list \<Rightarrow> collector \<Rightarrow> collector" where
  "collector_record ss c = c\<lparr>co_signals := record_signals (co_signals c) ss\<rparr>"

definition log_malformed_once :: "collector \<Rightarrow> collector" where
  "log_malformed_once c = c\<lparr>co_malformed_logged := True\<rparr>"

definition absorb_signals :: "doom_signal list \<Rightarrow> collector \<Rightarrow> collector" where
  "absorb_signals ss c = (if ss = [] then log_malformed_once c else collector_record ss c)"

definition absorb :: "(string \<Rightarrow> json option) \<Rightarrow> string \<Rightarrow> string \<Rightarrow> collector \<Rightarrow> bool \<times> collector" where
  "absorb from_str event_name data c =
     (let named = event_name = CHECK_EVENT
      in case peek_doom_loop from_str data of
           CheckEvent ss \<Rightarrow> (True, absorb_signals ss c)
         | ResponseField ss \<Rightarrow> (named, absorb_signals ss c)
         | PeekNone \<Rightarrow> (named, if named then log_malformed_once c else c))"

definition collector_take :: "collector \<Rightarrow> doom_signal list \<times> collector" where
  "collector_take c = (co_signals c, c\<lparr>co_signals := []\<rparr>)"

subsection \<open>Detector metadata of a request\<close>

fun merge_signal_labels :: "string list \<Rightarrow> string list \<Rightarrow> string list" where
  "merge_signal_labels target [] = target"
| "merge_signal_labels target (s # ss) =
     (if MAX_SIGNALS \<le> length target then target
      else if length s \<le> MAX_SIGNAL_BYTES \<and> s \<notin> set target
      then merge_signal_labels (target @ [s]) ss
      else merge_signal_labels target ss)"

definition MAX_RECOVERY_ATTEMPTS :: nat where "MAX_RECOVERY_ATTEMPTS = 16"

record recovery_attempt =
  ra_triggers :: "string list"
  ra_aborted_at_chunk :: "nat option"

text \<open>
  \<open>CompletionState\<close>: the one-shot sender is consumed by the first \<open>send\<close>; what it sent is kept
  in \<open>cs_sent\<close>.
\<close>

record 'r collected =
  cr_result :: 'r
  cr_terminal_event_queued :: bool
  cr_signals :: "string list"
  cr_attempts :: "recovery_attempt list"

record 'r completion_state =
  cs_tx :: bool
  cs_signals :: "string list"
  cs_attempts :: "recovery_attempt list"
  cs_sent :: "'r collected list"

definition completion_new :: "bool \<Rightarrow> 'r completion_state" where
  "completion_new tx = \<lparr>cs_tx = tx, cs_signals = [], cs_attempts = [], cs_sent = []\<rparr>"

definition merge_doom_loop_signals :: "string list \<Rightarrow> 'r completion_state \<Rightarrow> 'r completion_state" where
  "merge_doom_loop_signals ss c = c\<lparr>cs_signals := merge_signal_labels (cs_signals c) ss\<rparr>"

definition record_recovery_attempt ::
  "string list \<Rightarrow> nat option \<Rightarrow> 'r completion_state \<Rightarrow> 'r completion_state" where
  "record_recovery_attempt triggers chunk c =
     (if MAX_RECOVERY_ATTEMPTS \<le> length (cs_attempts c) then c
      else c\<lparr>cs_attempts := cs_attempts c @
               [\<lparr>ra_triggers = merge_signal_labels [] triggers, ra_aborted_at_chunk = chunk\<rparr>]\<rparr>)"

definition completion_send :: "'r \<Rightarrow> bool \<Rightarrow> 'r completion_state \<Rightarrow> 'r completion_state" where
  "completion_send r queued c =
     (if cs_tx c then
        c\<lparr>cs_tx := False, cs_signals := [], cs_attempts := [],
          cs_sent := cs_sent c @
            [\<lparr>cr_result = r, cr_terminal_event_queued = queued, cr_signals = cs_signals c,
              cr_attempts = cs_attempts c\<rparr>]\<rparr>
      else c)"

subsection \<open>Bounded sets of labels\<close>

text \<open>
  The collector and the request metadata share one contract: entries are added in order of arrival
  while there is room, once per label, and never when the label is oversized.
\<close>

locale bounded_labels =
  fixes key :: "'a \<Rightarrow> string" and push :: "'a list \<Rightarrow> 'a list \<Rightarrow> 'a list"
  assumes push_Nil: "push held [] = held"
    and push_full: "MAX_SIGNALS \<le> length held \<Longrightarrow> push held (s # ss) = held"
    and push_fresh: "length held < MAX_SIGNALS \<Longrightarrow> length (key s) \<le> MAX_SIGNAL_BYTES \<Longrightarrow>
      key s \<notin> key ` set held \<Longrightarrow> push held (s # ss) = push (held @ [s]) ss"
    and push_skip: "length held < MAX_SIGNALS \<Longrightarrow>
      MAX_SIGNAL_BYTES < length (key s) \<or> key s \<in> key ` set held \<Longrightarrow>
      push held (s # ss) = push held ss"
begin

definition bounded :: "'a list \<Rightarrow> bool" where
  "bounded held \<longleftrightarrow> length held \<le> MAX_SIGNALS \<and> distinct (map key held) \<and>
     (\<forall>s \<in> set held. length (key s) \<le> MAX_SIGNAL_BYTES)"

lemma bounded_Nil: "bounded []"
  by (simp add: bounded_def)

lemma push_cases:
  "MAX_SIGNALS \<le> length held \<and> push held (s # ss) = held
   \<or> push held (s # ss) = push held ss
   \<or> length held < MAX_SIGNALS \<and> length (key s) \<le> MAX_SIGNAL_BYTES \<and> key s \<notin> key ` set held
     \<and> push held (s # ss) = push (held @ [s]) ss"
  using push_full push_fresh push_skip by (meson not_le)

lemma bounded_snoc:
  assumes "bounded held" "length held < MAX_SIGNALS" "length (key s) \<le> MAX_SIGNAL_BYTES"
    "key s \<notin> key ` set held"
  shows "bounded (held @ [s])"
  using assms by (auto simp: bounded_def)

lemma bounded_push: "bounded held \<Longrightarrow> bounded (push held ss)"
proof (induction ss arbitrary: held)
  case Nil
  then show ?case by (simp add: push_Nil)
next
  case (Cons s ss)
  then show ?case using push_cases [of held s ss] bounded_snoc [of held s] by metis
qed

lemma push_extends: "\<exists>new. push held ss = held @ new \<and> set new \<subseteq> set ss"
proof (induction ss arbitrary: held)
  case Nil
  then show ?case by (simp add: push_Nil)
next
  case (Cons s ss)
  obtain new where new: "push held ss = held @ new" "set new \<subseteq> set ss" using Cons.IH by blast
  obtain new' where new': "push (held @ [s]) ss = held @ s # new'" "set new' \<subseteq> set ss"
    using Cons.IH [of "held @ [s]"] by auto
  show ?case
    using push_cases [of held s ss]
  proof (elim disjE conjE)
    assume "push held (s # ss) = held"
    then show ?case by simp
  next
    assume "push held (s # ss) = push held ss"
    then show ?case using new by auto
  next
    assume "push held (s # ss) = push (held @ [s]) ss"
    then show ?case using new' by (intro exI [of _ "s # new'"]) auto
  qed
qed

lemma push_complete:
  assumes "length (push held ss) < MAX_SIGNALS" "s \<in> set ss" "length (key s) \<le> MAX_SIGNAL_BYTES"
  shows "key s \<in> key ` set (push held ss)"
  using assms
proof (induction ss arbitrary: held)
  case (Cons a ss)
  obtain new where ext: "push held (a # ss) = held @ new" using push_extends by blast
  have room: "length held < MAX_SIGNALS" using Cons.prems(1) ext by simp
  obtain new' where ext': "push (held @ [a]) ss = (held @ [a]) @ new'" using push_extends by blast
  obtain new'' where ext'': "push held ss = held @ new''" using push_extends by blast
  show ?case
  proof (cases "length (key a) \<le> MAX_SIGNAL_BYTES \<and> key a \<notin> key ` set held")
    case True
    then have eq: "push held (a # ss) = push (held @ [a]) ss" using room push_fresh by simp
    show ?thesis
    proof (cases "s = a")
      case True
      then show ?thesis using ext' eq by simp
    next
      case False
      then show ?thesis using Cons.IH [of "held @ [a]"] Cons.prems eq by simp
    qed
  next
    case False
    then have eq: "push held (a # ss) = push held ss" using room by (intro push_skip) auto
    show ?thesis
    proof (cases "s = a")
      case True
      then show ?thesis using False Cons.prems(3) ext'' eq by (auto simp: image_Un)
    next
      case False
      then show ?thesis using Cons.IH [of held] Cons.prems eq by simp
    qed
  qed
qed simp

end

interpretation labels: bounded_labels "\<lambda>s. s" merge_signal_labels
  by unfold_locales auto

interpretation wire: bounded_labels ds_raw record_signals
  by unfold_locales auto

subsection \<open>Every history of a collector\<close>

inductive collector_step :: "collector \<Rightarrow> collector \<Rightarrow> bool" where
  absorbs: "collector_step c (snd (absorb from_str event_name data c))"
| disarms: "collector_step c (disarm_abort c)"
| takes: "collector_step c (snd (collector_take c))"

inductive_cases collector_stepE: "collector_step c c'"

definition collector_ok :: "collector \<Rightarrow> bool" where
  "collector_ok c \<longleftrightarrow> wire.bounded (co_signals c) \<and>
     (\<forall>s \<in> set (co_signals c). s = signal_parse (ds_raw s))"

lemma signal_parse_raw [simp]: "ds_raw (signal_parse raw) = raw"
  by (simp add: signal_parse_def split: prod.splits)

lemma parse_triggers_parsed: "s \<in> set (parse_triggers ts) \<Longrightarrow> s = signal_parse (ds_raw s)"
  by (auto simp: parse_triggers_def split: option.splits json.splits)

lemma peeked_parsed:
  "peek_doom_loop from_str data = CheckEvent ss \<or> peek_doom_loop from_str data = ResponseField ss
   \<Longrightarrow> s \<in> set ss \<Longrightarrow> s = signal_parse (ds_raw s)"
  using parse_triggers_parsed
  by (auto simp: peek_doom_loop_def split: if_splits option.splits)

lemma record_signals_ok:
  assumes "wire.bounded held" "\<forall>s \<in> set held. s = signal_parse (ds_raw s)"
    "\<forall>s \<in> set ss. s = signal_parse (ds_raw s)"
  shows "wire.bounded (record_signals held ss)"
    and "\<forall>s \<in> set (record_signals held ss). s = signal_parse (ds_raw s)"
proof -
  show "wire.bounded (record_signals held ss)" using assms(1) by (rule wire.bounded_push)
  obtain new where "record_signals held ss = held @ new" "set new \<subseteq> set ss"
    using wire.push_extends by blast
  then show "\<forall>s \<in> set (record_signals held ss). s = signal_parse (ds_raw s)"
    using assms(2,3) by auto
qed

lemma absorb_signals_ok:
  assumes "collector_ok c" "\<forall>s \<in> set ss. s = signal_parse (ds_raw s)"
  shows "collector_ok (absorb_signals ss c)"
proof (cases "ss = []")
  case True
  then show ?thesis using assms(1)
    by (simp add: absorb_signals_def log_malformed_once_def collector_ok_def)
next
  case False
  then show ?thesis
    using assms record_signals_ok [of "co_signals c" ss]
    unfolding collector_ok_def absorb_signals_def collector_record_def by simp
qed

lemma absorb_cases:
  "snd (absorb from_str event_name data c) \<in> {c, log_malformed_once c}
   \<or> (\<exists>ss. (peek_doom_loop from_str data = CheckEvent ss \<or> peek_doom_loop from_str data = ResponseField ss)
         \<and> snd (absorb from_str event_name data c) = absorb_signals ss c)"
  by (cases "peek_doom_loop from_str data") (simp_all add: absorb_def Let_def)

lemma absorb_ok: "collector_ok c \<Longrightarrow> collector_ok (snd (absorb from_str event_name data c))"
proof -
  assume c: "collector_ok c"
  consider "snd (absorb from_str event_name data c) = c"
    | "snd (absorb from_str event_name data c) = log_malformed_once c"
    | ss where "\<forall>s \<in> set ss. s = signal_parse (ds_raw s)"
        "snd (absorb from_str event_name data c) = absorb_signals ss c"
    using absorb_cases [of from_str event_name data c] peeked_parsed [of from_str data] by blast
  then show ?thesis
  proof cases
    case 1
    then show ?thesis using c by simp
  next
    case 2
    then show ?thesis using c by (simp add: collector_ok_def log_malformed_once_def)
  next
    case 3
    then show ?thesis using c absorb_signals_ok by simp
  qed
qed

lemma collector_ok_step: "collector_step c c' \<Longrightarrow> collector_ok c \<Longrightarrow> collector_ok c'"
  by (erule collector_stepE)
    (simp_all add: absorb_ok, simp_all add: collector_ok_def disarm_abort_def collector_take_def
      wire.bounded_Nil)

lemma collector_ok_reachable: "collector_step\<^sup>*\<^sup>* (collector_new p) c \<Longrightarrow> collector_ok c"
proof (induction rule: rtranclp_induct)
  case base
  show ?case by (simp add: collector_new_def collector_ok_def wire.bounded_Nil)
next
  case (step y z)
  then show ?case by (blast intro: collector_ok_step)
qed

lemma absorb_signals_fields:
  "co_policy (absorb_signals ss c) = co_policy c"
  "co_abort_disarmed (absorb_signals ss c) = co_abort_disarmed c"
  by (simp_all add: absorb_signals_def log_malformed_once_def collector_record_def)

lemma collector_step_policy:
  "collector_step c c' \<Longrightarrow> co_policy c' = co_policy c \<and> (co_abort_disarmed c \<longrightarrow> co_abort_disarmed c')"
  by (erule collector_stepE)
    (auto simp: absorb_def Let_def absorb_signals_fields log_malformed_once_def disarm_abort_def
      collector_take_def split: doom_peek.splits)

lemma collector_policy_reachable:
  "collector_step\<^sup>*\<^sup>* c c' \<Longrightarrow> co_policy c' = co_policy c \<and> (co_abort_disarmed c \<longrightarrow> co_abort_disarmed c')"
  by (induction rule: rtranclp_induct) (auto dest: collector_step_policy)

lemma confident_triggers_iff:
  "raw \<in> set (confident_triggers p ss) \<longleftrightarrow>
     (\<exists>s \<in> set ss. ds_raw s = raw \<and> ds_channel s = ''thinking'' \<and>
        (\<exists>t \<le> dp_max_threshold p. ds_kind s = TailRepetition t))"
proof -
  have "is_confident p s \<longleftrightarrow> ds_channel s = ''thinking'' \<and>
      (\<exists>t \<le> dp_max_threshold p. ds_kind s = TailRepetition t)" for s
    by (cases "ds_kind s") (simp_all add: is_confident_def)
  then show ?thesis unfolding confident_triggers_def by auto
qed

subsection \<open>Rendering and parsing a label\<close>

lemma digits_value_append:
  "digits_value acc (a @ b) = Option.bind (digits_value acc a) (\<lambda>v. digits_value v b)"
  by (induction a arbitrary: acc) auto

lemma byte_val_digit: "d < 10 \<Longrightarrow> byte_val (char_of (48 + d)) = 48 + d"
  by (simp add: byte_val_def)

lemma digits_value_digit: "d < 10 \<Longrightarrow> digits_value acc [char_of (48 + d)] = Some (10 * acc + d)"
  by (simp add: byte_val_digit is_ascii_digit_def)

lemma digits_value_show: "digits_value 0 (show_nat n) = Some n"
proof (induction n rule: show_nat.induct)
  case (1 n)
  show ?case
  proof (cases "n < 10")
    case True
    then show ?thesis using digits_value_digit [of n 0] by (simp add: show_nat.simps [of n])
  next
    case False
    have "digits_value 0 (show_nat (n div 10) @ [char_of (48 + n mod 10)])
        = digits_value (n div 10) [char_of (48 + n mod 10)]"
      using 1 False by (simp add: digits_value_append)
    also have "\<dots> = Some (10 * (n div 10) + n mod 10)" by (rule digits_value_digit) simp
    finally show ?thesis using False by (simp add: show_nat.simps [of n])
  qed
qed

lemma show_nat_digits: "\<forall>c \<in> set (show_nat n). is_ascii_digit c"
proof (induction n rule: show_nat.induct)
  case (1 n)
  show ?case
  proof (cases "n < 10")
    case True
    then show ?thesis by (simp add: show_nat.simps [of n] byte_val_digit is_ascii_digit_def)
  next
    case False
    have "is_ascii_digit (char_of (48 + n mod 10))" by (simp add: byte_val_digit is_ascii_digit_def)
    then show ?thesis using 1 False by (simp add: show_nat.simps [of n])
  qed
qed

lemma show_nat_nonempty: "show_nat n \<noteq> []"
  by (simp add: show_nat.simps [of n])

lemma parse_u32_show: "n < 2 ^ 32 \<Longrightarrow> parse_u32 (show_nat n) = Some n"
proof -
  assume n: "n < 2 ^ 32"
  obtain c cs where s: "show_nat n = c # cs" using show_nat_nonempty by (cases "show_nat n") auto
  have "is_ascii_digit c" using show_nat_digits [of n] s by simp
  then have "c \<noteq> CHR ''+''" by (auto simp: is_ascii_digit_def byte_val_def)
  then show ?thesis using n digits_value_show [of n] s by (simp add: parse_u32_def parse_uint_def)
qed

lemma split_once_append: "c \<notin> set a \<Longrightarrow> split_once c (a @ c # b) = Some (a, b)"
  by (induction a) auto

lemma digit_not: "\<not> is_ascii_digit c \<Longrightarrow> c \<notin> set (show_nat n)"
  using show_nat_digits by blast

definition tail_label :: "nat \<Rightarrow> string \<Rightarrow> string" where
  "tail_label t channel = ''tail_repetition:'' @ show_nat t @ CHR ''@'' # channel"

definition exact_label :: "nat \<Rightarrow> nat \<Rightarrow> string \<Rightarrow> string" where
  "exact_label a b channel = ''exact_repetition:'' @ show_nat a @ CHR ''x'' # show_nat b @ CHR ''@'' # channel"

lemma not_digits [simp]:
  "CHR ''@'' \<notin> set (show_nat n)" "CHR ''x'' \<notin> set (show_nat n)" "CHR '':'' \<notin> set (show_nat n)"
  by (rule digit_not, simp add: is_ascii_digit_def byte_val_def)+

lemma parse_tail_label:
  assumes "t < 2 ^ 32"
  shows "signal_parse (tail_label t ch)
    = \<lparr>ds_kind = TailRepetition t, ds_channel = ch, ds_raw = tail_label t ch\<rparr>"
proof -
  have "split_once CHR ''@'' ((''tail_repetition:'' @ show_nat t) @ CHR ''@'' # ch)
      = Some (''tail_repetition:'' @ show_nat t, ch)"
    by (rule split_once_append) simp
  moreover have "split_once CHR '':'' (''tail_repetition'' @ CHR '':'' # show_nat t)
      = Some (''tail_repetition'', show_nat t)"
    by (rule split_once_append) simp
  ultimately show ?thesis
    using parse_u32_show [OF assms]
    by (simp add: signal_parse_def split_once_or_def signal_kind_of_def tail_label_def)
qed

lemma parse_exact_label:
  assumes "a < 2 ^ 32" "b < 2 ^ 32"
  shows "signal_parse (exact_label a b ch)
    = \<lparr>ds_kind = ExactRepetition a b, ds_channel = ch, ds_raw = exact_label a b ch\<rparr>"
proof -
  have "split_once CHR ''@'' ((''exact_repetition:'' @ show_nat a @ CHR ''x'' # show_nat b) @ CHR ''@'' # ch)
      = Some (''exact_repetition:'' @ show_nat a @ CHR ''x'' # show_nat b, ch)"
    by (rule split_once_append) simp
  moreover have "split_once CHR '':'' (''exact_repetition'' @ CHR '':'' # show_nat a @ CHR ''x'' # show_nat b)
      = Some (''exact_repetition'', show_nat a @ CHR ''x'' # show_nat b)"
    by (rule split_once_append) simp
  moreover have "split_once CHR ''x'' (show_nat a @ CHR ''x'' # show_nat b) = Some (show_nat a, show_nat b)"
    by (rule split_once_append) simp
  ultimately show ?thesis
    using parse_u32_show [OF assms(1)] parse_u32_show [OF assms(2)]
    by (simp add: signal_parse_def split_once_or_def signal_kind_of_def exact_label_def parse_exact_def)
qed

subsection \<open>Properties\<close>

text \<open>
  Recovery acts only on confident evidence, and the evidence is bounded: in every history of a
  collector it holds at most 64 signals with distinct labels of at most 256 bytes, each the parse
  of its label; an abort is requested only with a non-empty list of labels that report a tail
  repetition in the thinking channel at or below the policy's threshold; and once the collector
  is disarmed no later event makes it request an abort again.
\<close>
theorem recovery_needs_confident_evidence:
  assumes "collector_step\<^sup>*\<^sup>* (collector_new p) c"
  shows "length (co_signals c) \<le> 64 \<and> distinct (map ds_raw (co_signals c)) \<and>
    (\<forall>s \<in> set (co_signals c). length (ds_raw s) \<le> 256 \<and> s = signal_parse (ds_raw s)) \<and>
    (\<forall>ts. abort_triggers c = Some ts \<longrightarrow> ts \<noteq> [] \<and>
       (\<forall>raw \<in> set ts. ds_channel (signal_parse raw) = ''thinking'' \<and>
          (\<exists>t \<le> dp_max_threshold p. ds_kind (signal_parse raw) = TailRepetition t))) \<and>
    (\<forall>c'. collector_step\<^sup>*\<^sup>* (disarm_abort c) c' \<longrightarrow> abort_triggers c' = None)"
proof -
  have ok: "collector_ok c" using assms by (rule collector_ok_reachable)
  have pol: "co_policy c = p"
    using collector_policy_reachable [OF assms] by (simp add: collector_new_def)
  have "ts \<noteq> [] \<and> (\<forall>raw \<in> set ts. ds_channel (signal_parse raw) = ''thinking'' \<and>
          (\<exists>t \<le> dp_max_threshold p. ds_kind (signal_parse raw) = TailRepetition t))"
    if "abort_triggers c = Some ts" for ts
  proof -
    have ts: "ts = confident_triggers p (co_signals c)" "ts \<noteq> []"
      using that pol by (auto simp: abort_triggers_def Let_def split: if_splits)
    then show ?thesis using ok confident_triggers_iff [of _ p "co_signals c"]
      by (fastforce simp: collector_ok_def)
  qed
  moreover have "abort_triggers c' = None" if "collector_step\<^sup>*\<^sup>* (disarm_abort c) c'" for c'
    using collector_policy_reachable [OF that] by (simp add: abort_triggers_def disarm_abort_def)
  ultimately show ?thesis
    using ok by (auto simp: collector_ok_def wire.bounded_def MAX_SIGNALS_def MAX_SIGNAL_BYTES_def)
qed

definition demo_collector :: collector where
  "demo_collector = snd (absorb
     (\<lambda>_. Some (JObj [(''type'', JStr CHECK_EVENT),
       (''doom_loop_check'', JObj [(''triggers'',
          JArr [JStr ''low_logprob@response'', JNull, JStr ''tail_repetition:8@thinking''])])]))
     CHECK_EVENT ''doom_loop_check'' (collector_new default_doom_policy))"

lemma demo_collector_aborts: "abort_triggers demo_collector = Some [''tail_repetition:8@thinking'']"
proof -
  have low: "signal_parse ''low_logprob@response''
      = \<lparr>ds_kind = LowLogprob, ds_channel = ''response'', ds_raw = ''low_logprob@response''\<rparr>"
    by (simp add: signal_parse_def split_once_or_def signal_kind_of_def)
  have tail: "signal_parse ''tail_repetition:8@thinking''
      = \<lparr>ds_kind = TailRepetition 8, ds_channel = ''thinking'', ds_raw = ''tail_repetition:8@thinking''\<rparr>"
  proof -
    have "of_char (CHR ''8'') = (56::nat)" by simp
    then have "char_of (56::nat) = CHR ''8''" using char_of_char [of "CHR ''8''"] by metis
    then have "show_nat 8 = ''8''" by (simp add: show_nat.simps [of 8])
    then have "tail_label 8 ''thinking'' = ''tail_repetition:8@thinking''" by (simp add: tail_label_def)
    then show ?thesis using parse_tail_label [of 8 "''thinking''"] by simp
  qed
  have "contains_str ''doom_loop_check'' ''doom_loop_check''"
    by (simp add: contains_str_def starts_with_def)
  then show ?thesis
    by (simp add: demo_collector_def absorb_def peek_doom_loop_def json_get_def json_as_str_def
      triggers_at_def parse_triggers_def List.map_filter_def low tail absorb_signals_def
      collector_record_def collector_new_def MAX_SIGNALS_def MAX_SIGNAL_BYTES_def abort_triggers_def
      confident_triggers_def is_confident_def default_doom_policy_def)
qed

lemma recovery_needs_confident_evidence_witness:
  "ds_channel (signal_parse ''tail_repetition:8@thinking'') = ''thinking''
   \<and> length (co_signals demo_collector) \<le> 64"
proof -
  have "collector_step\<^sup>*\<^sup>* (collector_new default_doom_policy) demo_collector"
    unfolding demo_collector_def by (rule r_into_rtranclp, rule absorbs)
  from recovery_needs_confident_evidence [OF this] demo_collector_aborts show ?thesis by auto
qed

text \<open>
  The label grammar is read back exactly: a rendered tail-repetition or exact-repetition label
  parses to its numbers and channel, whatever the channel contains, and is confident under a
  policy exactly when it reports a tail repetition of the thinking channel within the threshold.
\<close>
theorem trigger_label_round_trip:
  assumes "t < 2 ^ 32" and "a < 2 ^ 32" and "b < 2 ^ 32"
  shows "ds_kind (signal_parse (tail_label t ch)) = TailRepetition t
    \<and> ds_channel (signal_parse (tail_label t ch)) = ch
    \<and> ds_kind (signal_parse (exact_label a b ch)) = ExactRepetition a b
    \<and> ds_channel (signal_parse (exact_label a b ch)) = ch
    \<and> is_confident p (signal_parse (tail_label t ch)) = (ch = ''thinking'' \<and> t \<le> dp_max_threshold p)
    \<and> \<not> is_confident p (signal_parse (exact_label a b ch))"
  using assms by (simp add: parse_tail_label parse_exact_label is_confident_def)

lemma trigger_label_round_trip_witness:
  "ds_kind (signal_parse (tail_label 8 ''thinking'')) = TailRepetition 8"
  using trigger_label_round_trip [of 8 42 3 "''thinking''"] by simp

end
