(* ===== verification/RequestLoop.thy ===== *)
theory RequestLoop
  imports SamplerRetry DoomLoop
begin

section \<open>One sampling request, from the first attempt to its terminal event\<close>

text \<open>
  \<open>xai-grok-sampler/src/actor/request_task.rs\<close>: the retry loop \<open>run_request_task\<close>, the event pump
  \<open>drive_l2\<close> and the decision executor \<open>apply_retry_decision\<close>, with the parts of
  \<open>xai-grok-sampling-types/src/conversation.rs\<close> that they read (image stripping, the length policy,
  the empty-response test) and of \<open>compat.rs\<close> and \<open>doom_loop_recovery.rs\<close>.

  What the network, the clock and the user do is the record \<open>env\<close>, indexed by the number of the
  attempt: the events of the attempt's stream with the place where a cancellation is seen, the
  error that the raw stream captured, the turn that the recovery capture holds, whether the token
  is found cancelled at the loop head or in a sleep, whether a client could be rebuilt, and the
  hash behind the jitter.  Spans and log lines are left out; an event sent is an element of the
  log.
\<close>

subsection \<open>Conversation items\<close>

datatype content_part = TextPart string | ImagePart string

record tool_call =
  tc_id :: string
  tc_name :: string
  tc_arguments :: string

record assistant_item =
  as_content :: string
  as_tool_calls :: "tool_call list"
  as_model_id :: "string option"

record reasoning_item =
  ri_summary :: "string list"
  ri_content :: "string list option"
  ri_encrypted :: "string option"

datatype 'x conversation_item =
    SystemItem string
  | UserItem "content_part list" "string option"
  | AssistantItem assistant_item
  | ToolResultItem string string "content_part list"
  | BackendToolCallItem 'x
  | ReasoningItem reasoning_item

text \<open>The placeholder contains an em dash, three bytes in UTF-8.\<close>

definition IMAGE_STRIP_PLACEHOLDER :: string where
  "IMAGE_STRIP_PLACEHOLDER =
     ''[image removed '' @ [CHR 0xE2, CHR 0x80, CHR 0x94] @
     '' the server could not process it; its contents are unavailable. '' @
     ''Ask the user to re-attach the image if it is still needed.]''"

definition part_urls :: "content_part list \<Rightarrow> string list" where
  "part_urls ps = List.map_filter (\<lambda>p. case p of ImagePart u \<Rightarrow> Some u | TextPart _ \<Rightarrow> None) ps"

fun strip_part :: "content_part \<Rightarrow> content_part" where
  "strip_part (ImagePart u) = TextPart IMAGE_STRIP_PLACEHOLDER"
| "strip_part (TextPart t) = TextPart t"

fun strip_item :: "'x conversation_item \<Rightarrow> string list \<times> 'x conversation_item" where
  "strip_item (UserItem ps sr) = (part_urls ps, UserItem (map strip_part ps) sr)"
| "strip_item (ToolResultItem i c ps) =
     (part_urls ps, ToolResultItem i c (filter (\<lambda>p. case p of ImagePart _ \<Rightarrow> False | TextPart _ \<Rightarrow> True) ps))"
| "strip_item i = ([], i)"

definition strip_images :: "'x conversation_item list \<Rightarrow> string list \<times> 'x conversation_item list" where
  "strip_images items = (concat (map (fst \<circ> strip_item) items), map (snd \<circ> strip_item) items)"

definition SYSTEM_REMINDER_REASON :: string where "SYSTEM_REMINDER_REASON = ''system_reminder''"

definition system_reminder :: "string \<Rightarrow> 'x conversation_item" where
  "system_reminder content = UserItem [TextPart content] (Some SYSTEM_REMINDER_REASON)"

definition RECOVERY_REMINDER :: string where
  "RECOVERY_REMINDER =
     ''<system_reminder>Your messages have been flagged as looping. '' @
     ''Your response has been flagged as repeating the same text pattern. '' @
     ''Avoid excessive repetition. If you are having trouble ask the user for guidance.</system_reminder>''"

text \<open>The recovery capture yields only reasoning items and assistant texts (\<open>take_items\<close>).\<close>

datatype recovery_item = RecoveredReasoning reasoning_item | RecoveredText string

fun recovered :: "recovery_item \<Rightarrow> 'x conversation_item" where
  "recovered (RecoveredReasoning r) = ReasoningItem r"
| "recovered (RecoveredText t) = AssistantItem \<lparr>as_content = t, as_tool_calls = [], as_model_id = None\<rparr>"

definition append_recovery_context ::
  "'x conversation_item list \<Rightarrow> recovery_item list \<Rightarrow> 'x conversation_item list" where
  "append_recovery_context items failed_items =
     items @ map recovered failed_items @ [system_reminder RECOVERY_REMINDER]"

subsection \<open>Responses\<close>

datatype stop_reason = Stop | Length | ToolCalls | ContentFilter

fun stop_reason_str :: "stop_reason \<Rightarrow> string" where
  "stop_reason_str Stop = ''stop''"
| "stop_reason_str Length = ''length''"
| "stop_reason_str ToolCalls = ''tool_calls''"
| "stop_reason_str ContentFilter = ''content_filter''"

record token_usage =
  tu_prompt :: nat
  tu_completion :: nat
  tu_reasoning :: nat

record 'x response =
  rs_items :: "'x conversation_item list"
  rs_stop_reason :: "stop_reason option"
  rs_usage :: "token_usage option"
  rs_message_chunks_emitted :: nat
  rs_doom_loop_signals :: "doom_signal list"

definition response_assistant :: "'x response \<Rightarrow> assistant_item option" where
  "response_assistant r =
     Option.bind (List.find (\<lambda>i. case i of AssistantItem _ \<Rightarrow> True | _ \<Rightarrow> False) (rev (rs_items r)))
       (\<lambda>i. case i of AssistantItem a \<Rightarrow> Some a | _ \<Rightarrow> None)"

definition reasoning_items :: "'x response \<Rightarrow> reasoning_item list" where
  "reasoning_items r =
     List.map_filter (\<lambda>i. case i of ReasoningItem x \<Rightarrow> Some x | _ \<Rightarrow> None) (rs_items r)"

definition response_has_reasoning :: "'x response \<Rightarrow> bool" where
  "response_has_reasoning r \<longleftrightarrow>
     (\<exists>x \<in> set (reasoning_items r). ri_summary x \<noteq> [] \<or> ri_content x \<noteq> None \<or> ri_encrypted x \<noteq> None)"

definition response_empty_reason :: "'x response \<Rightarrow> empty_reason option" where
  "response_empty_reason r =
     (case response_assistant r of
        None \<Rightarrow> Some NoVisibleContent
      | Some a \<Rightarrow>
          if as_content a \<noteq> [] \<or> as_tool_calls a \<noteq> [] then None
          else if response_has_reasoning r then Some ReasoningOnly
          else Some NoVisibleContent)"

definition tool_calls :: "'x response \<Rightarrow> tool_call list" where
  "tool_calls r = (case response_assistant r of Some a \<Rightarrow> as_tool_calls a | None \<Rightarrow> [])"

definition accept_empty_snapshot :: "'x response \<Rightarrow> bool" where
  "accept_empty_snapshot r \<longleftrightarrow> 0 < rs_message_chunks_emitted r"

datatype length_policy = LengthFail | CompleteToolCalls | CompletePartial
datatype length_verdict = Pass | Salvage | SalvageToolCalls | VerdictFail

text \<open>\<open>is_json\<close>: whether \<open>serde_json\<close> accepts the text.\<close>

definition verdict_of :: "(string \<Rightarrow> bool) \<Rightarrow> length_policy \<Rightarrow> 'x response \<Rightarrow> length_verdict" where
  "verdict_of is_json p r =
     (if rs_stop_reason r \<noteq> Some Length then Pass
      else if tool_calls r \<noteq> [] then
        (if p \<noteq> LengthFail \<and>
            (\<forall>tc \<in> set (tool_calls r). trim (tc_arguments tc) = [] \<or> is_json (tc_arguments tc))
         then SalvageToolCalls else VerdictFail)
      else if p = CompletePartial \<and> response_empty_reason r = None then Salvage
      else VerdictFail)"

definition apply_length_policy ::
  "(string \<Rightarrow> bool) \<Rightarrow> length_policy \<Rightarrow> 'x response \<Rightarrow> 'j sampling_error + 'x response" where
  "apply_length_policy is_json p r =
     (case verdict_of is_json p r of
        Pass \<Rightarrow> Inr r
      | VerdictFail \<Rightarrow> Inl MaxTokensTruncation
      | Salvage \<Rightarrow> Inr r
      | SalvageToolCalls \<Rightarrow> Inr r)"

definition build_empty_context :: "empty_reason \<Rightarrow> 'x response \<Rightarrow> empty_context" where
  "build_empty_context reason r =
     (let a = response_assistant r in
      \<lparr>ec_reason = reason,
       ec_had_reasoning = response_has_reasoning r,
       ec_content_len = (case a of Some x \<Rightarrow> length (as_content x) | None \<Rightarrow> 0),
       ec_tool_call_count = (case a of Some x \<Rightarrow> length (as_tool_calls x) | None \<Rightarrow> 0),
       ec_finish_reason = map_option stop_reason_str (rs_stop_reason r),
       ec_completion_tokens = map_option tu_completion (rs_usage r),
       ec_reasoning_tokens = map_option tu_reasoning (rs_usage r),
       ec_prompt_tokens = map_option tu_prompt (rs_usage r),
       ec_model = (case Option.bind a as_model_id of Some m \<Rightarrow> m | None \<Rightarrow> []),
       ec_first_choice_seen = (Option.bind a as_model_id \<noteq> None)\<rparr>)"

subsection \<open>Errors as events carry them\<close>

datatype error_kind =
    KAuth | KHttp | KApi | KSerialization | KIdleTimeout | KRateLimited | KEmptyResponse
  | KMaxTokensTruncation | KDoomLoopDetected

record error_info =
  ei_kind :: error_kind
  ei_status_code :: "nat option"
  ei_message :: string
  ei_is_retryable :: bool
  ei_retry_after :: "nat option"
  ei_should_retry :: "bool option"
  ei_error_code :: "api_error_code option"
  ei_metadata :: "model_metadata option"
  ei_empty_context :: "empty_context option"
  ei_doom_triggers :: "string list option"
  ei_doom_chunk :: "nat option"
  ei_credential :: sent_credential

text \<open>
  What the loop uses of other crates: the display of a status and of a \<open>serde_json\<close> error,
  \<open>serde::de::Error::custom\<close>, and whether a text is JSON.
\<close>

record 'j loop_host =
  lh_status_text :: "nat \<Rightarrow> string"
  lh_show_json_error :: "'j \<Rightarrow> string"
  lh_custom :: "string \<Rightarrow> 'j"
  lh_is_json :: "string \<Rightarrow> bool"

definition SERIALIZATION_PREFIX :: string where "SERIALIZATION_PREFIX = ''serialization error: ''"

fun empty_reason_str :: "empty_reason \<Rightarrow> string" where
  "empty_reason_str ReasoningOnly = ''reasoning_only''"
| "empty_reason_str NoVisibleContent = ''no_visible_content''"

fun error_text :: "'j loop_host \<Rightarrow> 'j sampling_error \<Rightarrow> string" where
  "error_text h (Auth m _) = m"
| "error_text h (InvalidConfiguration m) = ''invalid client configuration: '' @ m"
| "error_text h (Http e) = ''request error: '' @ he_text e"
| "error_text h (Serialization j) = SERIALIZATION_PREFIX @ lh_show_json_error h j"
| "error_text h (Api st m _ _ _ _) = ''API error (status '' @ lh_status_text h st @ ''): '' @ m"
| "error_text h (EventStreamError m) = ''reqwest error stream: '' @ m"
| "error_text h (StreamError ty m _) = ''stream error ('' @ ty @ ''): '' @ m"
| "error_text h (IdleTimeout s) = ''inference idle timeout after '' @ show_nat s @ ''s with no chunks''"
| "error_text h (EmptyResponse c) = ''empty response from model ('' @ empty_reason_str (ec_reason c) @ '')''"
| "error_text h MaxTokensTruncation = ''response truncated by max_tokens''"
| "error_text h (DoomLoopDetected ts _) = ''doom loop detected: '' @ join_str '', '' ts"

definition detail_with_causes :: "'j loop_host \<Rightarrow> 'j sampling_error \<Rightarrow> string" where
  "detail_with_causes h e =
     (case e of
        Http he \<Rightarrow> error_text h e @ concat (map (\<lambda>c. '': '' @ c) (he_causes he))
      | _ \<Rightarrow> error_text h e)"

definition error_kind_of :: "'j sampling_error \<Rightarrow> error_kind" where
  "error_kind_of e =
     (case e of
        Auth _ _ \<Rightarrow> KAuth
      | InvalidConfiguration _ \<Rightarrow> KApi
      | Http _ \<Rightarrow> KHttp
      | Serialization _ \<Rightarrow> KSerialization
      | Api _ _ _ _ _ _ \<Rightarrow> (if is_rate_limited e then KRateLimited else KApi)
      | EventStreamError _ \<Rightarrow> KHttp
      | StreamError _ _ _ \<Rightarrow> KApi
      | IdleTimeout _ \<Rightarrow> KIdleTimeout
      | EmptyResponse _ \<Rightarrow> KEmptyResponse
      | MaxTokensTruncation \<Rightarrow> KMaxTokensTruncation
      | DoomLoopDetected _ _ \<Rightarrow> KDoomLoopDetected)"

definition error_info_of :: "'j loop_host \<Rightarrow> 'j sampling_error \<Rightarrow> error_info" where
  "error_info_of h e =
     \<lparr>ei_kind = error_kind_of e,
      ei_status_code = (case e of Api st _ _ _ _ _ \<Rightarrow> Some st | _ \<Rightarrow> None),
      ei_message = error_text h e,
      ei_is_retryable = is_retryable e,
      ei_retry_after = (case e of Api _ _ _ ra _ _ \<Rightarrow> ra | _ \<Rightarrow> None),
      ei_should_retry = should_retry_header e,
      ei_error_code =
        (case e of Api _ _ _ _ _ c \<Rightarrow> c | StreamError _ _ c \<Rightarrow> c | _ \<Rightarrow> None),
      ei_metadata = (case e of Api _ _ md _ _ _ \<Rightarrow> md | _ \<Rightarrow> None),
      ei_empty_context = (case e of EmptyResponse c \<Rightarrow> Some c | _ \<Rightarrow> None),
      ei_doom_triggers = (case e of DoomLoopDetected ts _ \<Rightarrow> Some ts | _ \<Rightarrow> None),
      ei_doom_chunk = (case e of DoomLoopDetected _ ck \<Rightarrow> ck | _ \<Rightarrow> None),
      ei_credential = (case e of Auth _ c \<Rightarrow> c | _ \<Rightarrow> UnknownCredential)\<rparr>"

definition cancelled_info :: error_info where
  "cancelled_info =
     \<lparr>ei_kind = KApi, ei_status_code = None, ei_message = ''request cancelled'',
      ei_is_retryable = False, ei_retry_after = None, ei_should_retry = None, ei_error_code = None,
      ei_metadata = None, ei_empty_context = None, ei_doom_triggers = None, ei_doom_chunk = None,
      ei_credential = UnknownCredential\<rparr>"

text \<open>\<open>split_whitespace\<close>: the maximal runs of non-space characters.\<close>

function split_ws :: "string \<Rightarrow> string \<Rightarrow> string list" where
  "split_ws cur s =
     (if s = [] then (if cur = [] then [] else [rev cur])
      else (case List.find (\<lambda>w. w \<noteq> [] \<and> starts_with s w) utf8_ws of
              Some w \<Rightarrow> (if cur = [] then [] else [rev cur]) @ split_ws [] (drop (length w) s)
            | None \<Rightarrow> split_ws (hd s # cur) (tl s)))"
  by pat_completeness auto
termination
  by (relation "measure (\<lambda>(cur, s). length s)")
    (use drop_starts_with_less in \<open>auto simp: find_Some_iff simp del: length_drop\<close>)

declare split_ws.simps [simp del]

definition split_whitespace :: "string \<Rightarrow> string list" where "split_whitespace s = split_ws [] s"

definition elapsed_in :: "string \<Rightarrow> nat" where
  "elapsed_in msg =
     (case List.map_filter
             (\<lambda>tok. Option.bind (strip_suffix tok ''s'') (parse_uint (2 ^ 64 - 1)))
             (split_whitespace msg) of
        n # _ \<Rightarrow> n
      | [] \<Rightarrow> 0)"

definition serialization_from_rendered :: "'j loop_host \<Rightarrow> string \<Rightarrow> 'j sampling_error" where
  "serialization_from_rendered h rendered =
     Serialization (lh_custom h
       (case strip_prefix rendered SERIALIZATION_PREFIX of Some r \<Rightarrow> r | None \<Rightarrow> rendered))"

text \<open>\<open>StatusCode::from_u16\<close> accepts 100 to 999.\<close>

definition synthesize_from_info :: "'j loop_host \<Rightarrow> error_info \<Rightarrow> 'j sampling_error" where
  "synthesize_from_info h i =
     (case ei_kind i of
        KIdleTimeout \<Rightarrow> IdleTimeout (elapsed_in (ei_message i))
      | KAuth \<Rightarrow> Auth (ei_message i) (ei_credential i)
      | KSerialization \<Rightarrow> serialization_from_rendered h (ei_message i)
      | KHttp \<Rightarrow> EventStreamError (ei_message i)
      | KApi \<Rightarrow> Api (case ei_status_code i of Some c \<Rightarrow> if 100 \<le> c \<and> c < 1000 then c else 500 | None \<Rightarrow> 500)
           (ei_message i) (ei_metadata i) (ei_retry_after i) (ei_should_retry i) (ei_error_code i)
      | KRateLimited \<Rightarrow> Api (case ei_status_code i of Some c \<Rightarrow> if 100 \<le> c \<and> c < 1000 then c else 500 | None \<Rightarrow> 500)
           (ei_message i) (ei_metadata i) (ei_retry_after i) (ei_should_retry i) (ei_error_code i)
      | KEmptyResponse \<Rightarrow>
          (case ei_empty_context i of
             Some c \<Rightarrow> EmptyResponse c
           | None \<Rightarrow> EventStreamError (ei_message i))
      | KMaxTokensTruncation \<Rightarrow> MaxTokensTruncation
      | KDoomLoopDetected \<Rightarrow>
          DoomLoopDetected (case ei_doom_triggers i of Some ts \<Rightarrow> ts | None \<Rightarrow> []) (ei_doom_chunk i))"

subsection \<open>Events\<close>

datatype channel = TextChannel | ReasoningChannel

datatype 'x stream_event =
    Completed "'x response"
  | Failed error_info
  | DoomLoopSignals "string list"
  | FirstToken
  | ChannelToken channel string
  | ToolCallDelta
  | BackendToolCallStarted
  | BackendToolCallCompleted
  | OtherEvent

datatype strip_reason = ServerRejected | PayloadHeuristic

datatype 'x sent_event =
    Forwarded "'x stream_event"
  | SentSignals "string list"
  | Retrying nat nat error_kind string "string list option" "nat option"
  | ImagesStripped "string list" strip_reason
  | SentFailed error_info
  | SentCompleted "'x response" nat

definition is_terminal_event :: "'x sent_event \<Rightarrow> bool" where
  "is_terminal_event e = (case e of SentFailed _ \<Rightarrow> True | SentCompleted _ _ \<Rightarrow> True | _ \<Rightarrow> False)"

definition shows_output :: "'x stream_event \<Rightarrow> bool" where
  "shows_output e =
     (case e of
        FirstToken \<Rightarrow> True | ChannelToken _ _ \<Rightarrow> True | ToolCallDelta \<Rightarrow> True
      | BackendToolCallStarted \<Rightarrow> True | BackendToolCallCompleted \<Rightarrow> True | _ \<Rightarrow> False)"

definition marks_replay_unsafe :: "'x stream_event \<Rightarrow> bool" where
  "marks_replay_unsafe e =
     (case e of ToolCallDelta \<Rightarrow> True | ChannelToken c _ \<Rightarrow> c = TextChannel | _ \<Rightarrow> False)"

subsection \<open>Driving one attempt\<close>

datatype ('x, 'j) attempt_outcome =
    AttemptCompleted "'x response"
  | AttemptEmpty empty_context "string list"
  | AttemptFailed "'j sampling_error" "string list" "recovery_item list"
  | AttemptCancelled
  | AttemptInitFailed "'j sampling_error"

text \<open>
  One poll of the attempt's stream: the cancellation token is checked first, then the next event.
  The end of the list is a stream dropped without a terminal event.
\<close>

datatype 'e poll = CancelSeen | Next 'e

record ('x, 'j) attempt_input =
  ai_init_error :: "'j sampling_error option"
  ai_polls :: "'x stream_event poll list"
  ai_captured :: "'j sampling_error option"
  ai_recovery_items :: "recovery_item list"

text \<open>The flags and the event channel that outlive the attempt.\<close>

record 'x pump =
  pu_observed :: bool
  pu_unsafe :: bool
  pu_log :: "'x sent_event list"

definition pump_send :: "'x sent_event \<Rightarrow> 'x pump \<Rightarrow> 'x pump" where
  "pump_send e p = p\<lparr>pu_log := pu_log p @ [e]\<rparr>"

definition completed_outcome ::
  "'j loop_host \<Rightarrow> doom_policy option \<Rightarrow> length_policy \<Rightarrow> recovery_item list \<Rightarrow> 'x response
   \<Rightarrow> string list \<Rightarrow> ('x, 'j) attempt_outcome" where
  "completed_outcome h doom_check lp items r all_triggers =
     (let confident = (case doom_check of
                         None \<Rightarrow> []
                       | Some p \<Rightarrow> confident_triggers p (rs_doom_loop_signals r))
      in if confident \<noteq> [] then AttemptFailed (DoomLoopDetected confident None) all_triggers items
         else (case apply_length_policy (lh_is_json h) lp r of
                 Inl e \<Rightarrow> AttemptFailed e all_triggers []
               | Inr r \<Rightarrow>
                   (case (rs_stop_reason r = Some ContentFilter, response_empty_reason r) of
                      (False, Some reason) \<Rightarrow>
                        if accept_empty_snapshot r then AttemptCompleted r
                        else AttemptEmpty (build_empty_context reason r) all_triggers
                    | _ \<Rightarrow> AttemptCompleted r)))"

definition failed_outcome ::
  "'j loop_host \<Rightarrow> 'j sampling_error option \<Rightarrow> recovery_item list \<Rightarrow> string list \<Rightarrow> error_info
   \<Rightarrow> ('x, 'j) attempt_outcome" where
  "failed_outcome h captured items signals info =
     (let e = (case captured of Some e \<Rightarrow> e | None \<Rightarrow> synthesize_from_info h info)
      in AttemptFailed e signals (case e of DoomLoopDetected _ _ \<Rightarrow> items | _ \<Rightarrow> []))"

definition forward_event :: "'x stream_event \<Rightarrow> 'x pump \<Rightarrow> 'x pump" where
  "forward_event e p =
     pump_send (Forwarded e)
       (p\<lparr>pu_observed := pu_observed p \<or> shows_output e, pu_unsafe := pu_unsafe p \<or> marks_replay_unsafe e\<rparr>)"

fun drive_l2 ::
  "'j loop_host \<Rightarrow> doom_policy option \<Rightarrow> length_policy \<Rightarrow> 'j sampling_error option
   \<Rightarrow> recovery_item list \<Rightarrow> string list \<Rightarrow> 'x stream_event poll list \<Rightarrow> 'x pump
   \<Rightarrow> ('x, 'j) attempt_outcome \<times> 'x pump" where
  "drive_l2 h dc lp captured items signals [] p =
     (AttemptFailed (EventStreamError ''stream dropped without terminal event'') signals [], p)"
| "drive_l2 h dc lp captured items signals (CancelSeen # ps) p = (AttemptCancelled, p)"
| "drive_l2 h dc lp captured items signals (Next e # ps) p =
     (case e of
        Completed r \<Rightarrow>
          (let all_triggers = merge_signal_labels [] (map ds_raw (rs_doom_loop_signals r));
               p1 = p\<lparr>pu_observed := True\<rparr>;
               p2 = (if all_triggers = [] then p1 else pump_send (SentSignals all_triggers) p1)
           in (completed_outcome h dc lp items r all_triggers, p2))
      | Failed info \<Rightarrow> (failed_outcome h captured items signals info, p)
      | DoomLoopSignals ts \<Rightarrow>
          drive_l2 h dc lp captured items (merge_signal_labels signals ts) ps
            (pump_send (SentSignals ts) p)
      | _ \<Rightarrow> drive_l2 h dc lp captured items signals ps (forward_event e p))"

datatype api_backend = ChatCompletions | Responses | Messages

text \<open>Only the Responses backend reports loops; only an armed attempt captures its turn.\<close>

definition run_one_attempt ::
  "'j loop_host \<Rightarrow> api_backend \<Rightarrow> doom_policy option \<Rightarrow> length_policy \<Rightarrow> ('x, 'j) attempt_input
   \<Rightarrow> 'x pump \<Rightarrow> ('x, 'j) attempt_outcome \<times> 'x pump" where
  "run_one_attempt h backend doom_check lp ai p =
     (case ai_init_error ai of
        Some e \<Rightarrow> (AttemptInitFailed e, p)
      | None \<Rightarrow>
          drive_l2 h (if backend = Responses then doom_check else None) lp (ai_captured ai)
            (if backend = Responses \<and> doom_check \<noteq> None then ai_recovery_items ai else [])
            [] (ai_polls ai) p)"

subsection \<open>The loop\<close>

record retry_settings =
  st_max_retries :: nat
  st_rate_limit_threshold :: nat
  st_only_before_output :: bool

record request_config =
  rc_max_retries :: "nat option"
  rc_doom_policy :: "doom_policy option"
  rc_backend :: api_backend
  rc_length_policy :: length_policy
  rc_settings :: retry_settings
  rc_env_max_retries :: "string option"

record ('x, 'j) request_env =
  en_client_error :: "'j sampling_error option"
  en_cancelled_at_head :: "nat \<Rightarrow> bool"
  en_attempt :: "nat \<Rightarrow> 'x conversation_item list \<Rightarrow> bool \<Rightarrow> bool \<Rightarrow> ('x, 'j) attempt_input"
  en_cancelled_in_sleep :: "nat \<Rightarrow> bool"
  en_hash :: "nat \<Rightarrow> nat"
  en_rebuild_ok :: "nat \<Rightarrow> bool"
  en_receiver_open :: "nat \<Rightarrow> bool"

type_synonym ('x, 'j) request_result = "'j sampling_error + ('x response \<times> nat)"

record ('x, 'j) request_state =
  rq_attempt :: nat
  rq_items :: "'x conversation_item list"
  rq_http1 :: bool
  rq_retry_count :: nat
  rq_doom_count :: nat
  rq_pump :: "'x pump"
  rq_completion :: "('x, 'j) request_result completion_state"
  rq_sleeps :: "nat list"

definition resolved_max_retries :: "request_config \<Rightarrow> nat" where
  "resolved_max_retries c =
     (let configured = (case rc_max_retries c of
                          Some n \<Rightarrow> Some n
                        | None \<Rightarrow> Some (st_max_retries (rc_settings c)))
      in if configured = Some 0 then 0
         else resolve_max_retries_with_env (rc_env_max_retries c) configured)"

definition doom_max_retries :: "request_config \<Rightarrow> nat" where
  "doom_max_retries c = (case rc_doom_policy c of None \<Rightarrow> 0 | Some p \<Rightarrow> dp_max_retries p)"

definition doom_check_of :: "request_config \<Rightarrow> ('x, 'j) request_state \<Rightarrow> doom_policy option" where
  "doom_check_of c s = (if rq_doom_count s < doom_max_retries c then rc_doom_policy c else None)"

definition effective_max_retries :: "request_config \<Rightarrow> 'x pump \<Rightarrow> nat" where
  "effective_max_retries c p =
     (if st_only_before_output (rc_settings c) \<and> pu_observed p \<or> pu_unsafe p then 0
      else resolved_max_retries c)"

definition rate_limit_threshold :: "request_config \<Rightarrow> nat" where
  "rate_limit_threshold c =
     (if st_rate_limit_threshold (rc_settings c) = 0 then RATE_LIMIT_RETRY_THRESHOLD
      else st_rate_limit_threshold (rc_settings c))"

definition send_event :: "'x sent_event \<Rightarrow> ('x, 'j) request_state \<Rightarrow> ('x, 'j) request_state" where
  "send_event e s = s\<lparr>rq_pump := pump_send e (rq_pump s)\<rparr>"

text \<open>A terminal event is queued when the receiver is still there; then the awaiting caller is answered.\<close>

definition finish_with ::
  "('x, 'j) request_env \<Rightarrow> 'x sent_event \<Rightarrow> ('x, 'j) request_result \<Rightarrow> ('x, 'j) request_state
   \<Rightarrow> ('x, 'j) request_state" where
  "finish_with en e r s =
     (let s1 = send_event e s
      in s1\<lparr>rq_completion := completion_send r (en_receiver_open en (rq_attempt s)) (rq_completion s1)\<rparr>)"

definition finish_failed ::
  "'j loop_host \<Rightarrow> ('x, 'j) request_env \<Rightarrow> 'j sampling_error \<Rightarrow> 'j sampling_error
   \<Rightarrow> ('x, 'j) request_state \<Rightarrow> ('x, 'j) request_state" where
  "finish_failed h en shown err s = finish_with en (SentFailed (error_info_of h shown)) (Inl err) s"

definition handle_cancellation ::
  "('x, 'j) request_env \<Rightarrow> ('x, 'j) request_state \<Rightarrow> ('x, 'j) request_state" where
  "handle_cancellation en s =
     finish_with en (SentFailed cancelled_info) (Inl (Auth ''request cancelled'' UnknownCredential)) s"

definition emit_retrying ::
  "'j loop_host \<Rightarrow> nat \<Rightarrow> nat \<Rightarrow> 'j sampling_error \<Rightarrow> ('x, 'j) request_state \<Rightarrow> ('x, 'j) request_state" where
  "emit_retrying h attempt max_retries err s =
     (let i = error_info_of h err
      in send_event (Retrying attempt max_retries (ei_kind i) (detail_with_causes h err)
                       (ei_doom_triggers i) (ei_doom_chunk i)) s)"

definition clone_of :: "'j loop_host \<Rightarrow> 'j sampling_error \<Rightarrow> 'j sampling_error" where
  "clone_of h e = clone_error (\<lambda>j. lh_custom h (lh_show_json_error h j)) e"

text \<open>\<open>sleep_or_cancel\<close>: the wait that was asked for, and whether it ran to its end.\<close>

definition sleep_or_cancel ::
  "('x, 'j) request_env \<Rightarrow> nat \<Rightarrow> ('x, 'j) request_state \<Rightarrow> bool \<times> ('x, 'j) request_state" where
  "sleep_or_cancel en ms s =
     (\<not> en_cancelled_in_sleep en (rq_attempt s), s\<lparr>rq_sleeps := rq_sleeps s @ [ms]\<rparr>)"

definition strip_with ::
  "strip_reason \<Rightarrow> ('x, 'j) request_state \<Rightarrow> ('x, 'j) request_state" where
  "strip_with reason s =
     (let (urls, items) = strip_images (rq_items s);
          s1 = s\<lparr>rq_items := items\<rparr>
      in if urls = [] then s1 else send_event (ImagesStripped urls reason) s1)"

definition strip_reason_of :: "'j sampling_error \<Rightarrow> strip_reason" where
  "strip_reason_of e =
     (case e of
        Api st _ _ _ _ (Some InvalidImage) \<Rightarrow> if st = 400 then ServerRejected else PayloadHeuristic
      | _ \<Rightarrow> PayloadHeuristic)"

definition count_retry ::
  "'j loop_host \<Rightarrow> nat \<Rightarrow> 'j sampling_error \<Rightarrow> ('x, 'j) request_state \<Rightarrow> ('x, 'j) request_state" where
  "count_retry h max_retries err s =
     (let n = Suc (rq_retry_count s)
      in emit_retrying h n max_retries err (s\<lparr>rq_retry_count := n\<rparr>))"

definition retry_after_sleep ::
  "'j loop_host \<Rightarrow> ('x, 'j) request_env \<Rightarrow> nat \<Rightarrow> 'j sampling_error \<Rightarrow> nat \<Rightarrow> bool
   \<Rightarrow> ('x, 'j) request_state \<Rightarrow> bool \<times> ('x, 'j) request_state" where
  "retry_after_sleep h en max_retries err backoff rebuild s =
     (let (slept, s1) = sleep_or_cancel en backoff (count_retry h max_retries err s)
      in if \<not> slept then (False, handle_cancellation en s1)
         else (True, if rebuild \<and> en_rebuild_ok en (rq_attempt s) then s1\<lparr>rq_http1 := True\<rparr> else s1))"

definition apply_retry_decision ::
  "'j loop_host \<Rightarrow> request_config \<Rightarrow> ('x, 'j) request_env \<Rightarrow> nat \<Rightarrow> 'j sampling_error
   \<Rightarrow> ('x, 'j) request_state \<Rightarrow> bool \<times> ('x, 'j) request_state" where
  "apply_retry_decision h c en max_retries err s =
     (let custom = (\<lambda>j. lh_custom h (lh_show_json_error h j));
          decision = classify_error custom (en_hash en (rq_attempt s)) err (rq_retry_count s)
                       max_retries (rate_limit_threshold c);
          s0 = (if will_retry decision \<and> is_likely_body_rejected err
                then strip_with PayloadHeuristic s else s)
      in case decision of
           Retry backoff \<Rightarrow> retry_after_sleep h en max_retries err backoff False s0
         | RetryWithBackoff backoff _ \<Rightarrow> retry_after_sleep h en max_retries err backoff False s0
         | RetryWithImageStrip \<Rightarrow>
             if fst (strip_images (rq_items s0)) = []
             then (False, finish_failed h en err (clone_of h err) (s0\<lparr>rq_items := snd (strip_images (rq_items s0))\<rparr>))
             else (True, count_retry h max_retries err (strip_with (strip_reason_of err) s0))
         | RetryWithClientRebuild backoff \<Rightarrow> retry_after_sleep h en max_retries err backoff True s0
         | EmitToSession e \<Rightarrow> (False, finish_failed h en e e s0)
         | Fatal e \<Rightarrow> (False, finish_failed h en e e s0))"

definition merge_signals :: "string list \<Rightarrow> ('x, 'j) request_state \<Rightarrow> ('x, 'j) request_state" where
  "merge_signals ts s = s\<lparr>rq_completion := merge_doom_loop_signals ts (rq_completion s)\<rparr>"

text \<open>A completed attempt ends the request.\<close>

definition accept_response ::
  "('x, 'j) request_env \<Rightarrow> 'x response \<Rightarrow> ('x, 'j) request_state \<Rightarrow> ('x, 'j) request_state" where
  "accept_response en r s =
     (let s1 = merge_signals (map ds_raw (rs_doom_loop_signals r)) s;
          attempts = rq_retry_count s + rq_doom_count s + 1
      in finish_with en (SentCompleted r attempts) (Inr (r, attempts)) s1)"

definition doom_resample ::
  "'j loop_host \<Rightarrow> request_config \<Rightarrow> ('x, 'j) request_env \<Rightarrow> 'j sampling_error \<Rightarrow> recovery_item list
   \<Rightarrow> ('x, 'j) request_state \<Rightarrow> bool \<times> ('x, 'j) request_state" where
  "doom_resample h c en err items s =
     (if st_only_before_output (rc_settings c) \<and> pu_observed (rq_pump s)
      then (False, finish_failed h en err (clone_of h err) s)
      else
        (let n = Suc (rq_doom_count s);
             s1 = s\<lparr>rq_doom_count := n,
                    rq_completion := record_recovery_attempt (doom_labels err) (doom_chunk err) (rq_completion s),
                    rq_items := append_recovery_context (rq_items s) items\<rparr>;
             s2 = emit_retrying h n (doom_max_retries c) err s1;
             (slept, s3) = sleep_or_cancel en (doom_loop_backoff (en_hash en (rq_attempt s))) s2
         in if slept then (True, s3) else (False, handle_cancellation en s3)))"

definition after_attempt ::
  "'j loop_host \<Rightarrow> request_config \<Rightarrow> ('x, 'j) request_env \<Rightarrow> ('x, 'j) attempt_outcome
   \<Rightarrow> ('x, 'j) request_state \<Rightarrow> bool \<times> ('x, 'j) request_state" where
  "after_attempt h c en outcome s =
     (let max_retries = effective_max_retries c (rq_pump s)
      in case outcome of
           AttemptCompleted r \<Rightarrow> (False, accept_response en r s)
         | AttemptEmpty context signals \<Rightarrow>
             apply_retry_decision h c en max_retries (EmptyResponse context) (merge_signals signals s)
         | AttemptFailed err signals items \<Rightarrow>
             (case err of
                DoomLoopDetected _ _ \<Rightarrow> doom_resample h c en err items (merge_signals signals s)
              | _ \<Rightarrow> apply_retry_decision h c en max_retries err (merge_signals signals s))
         | AttemptCancelled \<Rightarrow> (False, handle_cancellation en s)
         | AttemptInitFailed err \<Rightarrow> apply_retry_decision h c en max_retries err s)"

text \<open>One turn of the loop: \<open>Inl\<close> goes round again, \<open>Inr\<close> has answered.\<close>

definition loop_step ::
  "'j loop_host \<Rightarrow> request_config \<Rightarrow> ('x, 'j) request_env \<Rightarrow> ('x, 'j) request_state
   \<Rightarrow> ('x, 'j) request_state + ('x, 'j) request_state" where
  "loop_step h c en s =
     (if en_cancelled_at_head en (rq_attempt s) then Inr (handle_cancellation en s)
      else
        (let doom_check = doom_check_of c s;
             ai = en_attempt en (rq_attempt s) (rq_items s) (rq_http1 s) (doom_check \<noteq> None);
             (outcome, p) = run_one_attempt h (rc_backend c) doom_check (rc_length_policy c) ai (rq_pump s);
             (continue, s') = after_attempt h c en outcome (s\<lparr>rq_pump := p\<rparr>)
         in if continue then Inl (s'\<lparr>rq_attempt := Suc (rq_attempt s')\<rparr>) else Inr s'))"

fun request_loop ::
  "'j loop_host \<Rightarrow> request_config \<Rightarrow> ('x, 'j) request_env \<Rightarrow> nat \<Rightarrow> ('x, 'j) request_state
   \<Rightarrow> ('x, 'j) request_state option" where
  "request_loop h c en 0 s = None"
| "request_loop h c en (Suc fuel) s =
     (case loop_step h c en s of
        Inl s' \<Rightarrow> request_loop h c en fuel s'
      | Inr s' \<Rightarrow> Some s')"

definition initial_state :: "bool \<Rightarrow> 'x conversation_item list \<Rightarrow> ('x, 'j) request_state" where
  "initial_state awaited items =
     \<lparr>rq_attempt = 0, rq_items = items, rq_http1 = False, rq_retry_count = 0, rq_doom_count = 0,
      rq_pump = \<lparr>pu_observed = False, pu_unsafe = False, pu_log = []\<rparr>,
      rq_completion = completion_new awaited, rq_sleeps = []\<rparr>"

definition run_request_task ::
  "'j loop_host \<Rightarrow> request_config \<Rightarrow> ('x, 'j) request_env \<Rightarrow> nat \<Rightarrow> bool \<Rightarrow> 'x conversation_item list
   \<Rightarrow> ('x, 'j) request_state option" where
  "run_request_task h c en fuel awaited items =
     (case en_client_error en of
        Some err \<Rightarrow> Some (finish_failed h en err err (initial_state awaited items))
      | None \<Rightarrow> request_loop h c en fuel (initial_state awaited items))"

subsection \<open>Image stripping\<close>

lemma part_urls_strip [simp]: "part_urls (map strip_part ps) = []"
proof -
  have "(case strip_part p of ImagePart u \<Rightarrow> Some u | TextPart _ \<Rightarrow> None) = None" for p
    by (cases p) simp_all
  then show ?thesis by (induction ps) (simp_all add: part_urls_def List.map_filter_def)
qed

lemma part_urls_filter [simp]:
  "part_urls (filter (\<lambda>p. case p of ImagePart _ \<Rightarrow> False | TextPart _ \<Rightarrow> True) ps) = []"
  by (induction ps) (simp_all add: part_urls_def List.map_filter_def split: content_part.splits)

lemma strip_item_twice [simp]: "fst (strip_item (snd (strip_item i))) = []"
  by (cases i) simp_all

lemma strip_images_twice: "fst (strip_images (snd (strip_images items))) = []"
  by (simp add: strip_images_def)

lemma strip_images_append:
  "fst (strip_images (xs @ ys)) = fst (strip_images xs) @ fst (strip_images ys)"
  by (simp add: strip_images_def)

lemma recovered_no_images [simp]: "fst (strip_item (recovered ri)) = []"
  by (cases ri) simp_all

lemma recovery_context_no_images:
  "fst (strip_images (append_recovery_context items ris)) = fst (strip_images items)"
  by (simp add: append_recovery_context_def strip_images_append)
    (simp add: strip_images_def system_reminder_def part_urls_def List.map_filter_def)

subsection \<open>What each part of a turn changes\<close>

abbreviation images :: "('x, 'j) request_state \<Rightarrow> string list" where
  "images s \<equiv> fst (strip_images (rq_items s))"

lemma pump_send_simps [simp]:
  "pu_observed (pump_send e p) = pu_observed p" "pu_unsafe (pump_send e p) = pu_unsafe p"
  "pu_log (pump_send e p) = pu_log p @ [e]"
  by (simp_all add: pump_send_def)

lemma send_event_simps [simp]:
  "rq_attempt (send_event e s) = rq_attempt s" "rq_items (send_event e s) = rq_items s"
  "rq_retry_count (send_event e s) = rq_retry_count s" "rq_doom_count (send_event e s) = rq_doom_count s"
  "rq_pump (send_event e s) = pump_send e (rq_pump s)" "rq_completion (send_event e s) = rq_completion s"
  by (simp_all add: send_event_def)

lemma emit_retrying_simps [simp]:
  "rq_attempt (emit_retrying h a m e s) = rq_attempt s" "rq_items (emit_retrying h a m e s) = rq_items s"
  "rq_retry_count (emit_retrying h a m e s) = rq_retry_count s"
  "rq_doom_count (emit_retrying h a m e s) = rq_doom_count s"
  "pu_observed (rq_pump (emit_retrying h a m e s)) = pu_observed (rq_pump s)"
  "pu_unsafe (rq_pump (emit_retrying h a m e s)) = pu_unsafe (rq_pump s)"
  "rq_completion (emit_retrying h a m e s) = rq_completion s"
  by (simp_all add: emit_retrying_def Let_def)

lemma strip_with_simps [simp]:
  "rq_attempt (strip_with r s) = rq_attempt s" "rq_items (strip_with r s) = snd (strip_images (rq_items s))"
  "rq_retry_count (strip_with r s) = rq_retry_count s" "rq_doom_count (strip_with r s) = rq_doom_count s"
  "pu_observed (rq_pump (strip_with r s)) = pu_observed (rq_pump s)"
  "pu_unsafe (rq_pump (strip_with r s)) = pu_unsafe (rq_pump s)"
  "rq_completion (strip_with r s) = rq_completion s"
  by (simp_all add: strip_with_def Let_def split: prod.splits)

lemma count_retry_simps [simp]:
  "rq_attempt (count_retry h m e s) = rq_attempt s" "rq_items (count_retry h m e s) = rq_items s"
  "rq_retry_count (count_retry h m e s) = Suc (rq_retry_count s)"
  "rq_doom_count (count_retry h m e s) = rq_doom_count s"
  "pu_observed (rq_pump (count_retry h m e s)) = pu_observed (rq_pump s)"
  "pu_unsafe (rq_pump (count_retry h m e s)) = pu_unsafe (rq_pump s)"
  "rq_completion (count_retry h m e s) = rq_completion s"
  by (simp_all add: count_retry_def Let_def)

lemma merge_signals_simps [simp]:
  "rq_attempt (merge_signals ts s) = rq_attempt s" "rq_items (merge_signals ts s) = rq_items s"
  "rq_retry_count (merge_signals ts s) = rq_retry_count s"
  "rq_doom_count (merge_signals ts s) = rq_doom_count s" "rq_pump (merge_signals ts s) = rq_pump s"
  by (simp_all add: merge_signals_def)

lemma finish_with_simps [simp]:
  "rq_attempt (finish_with en e r s) = rq_attempt s" "rq_retry_count (finish_with en e r s) = rq_retry_count s"
  "rq_doom_count (finish_with en e r s) = rq_doom_count s"
  "pu_log (rq_pump (finish_with en e r s)) = pu_log (rq_pump s) @ [e]"
  by (simp_all add: finish_with_def Let_def)

text \<open>The states in which a request goes round again after a retry decision.\<close>

definition retried :: "nat \<Rightarrow> ('x, 'j) request_state \<Rightarrow> ('x, 'j) request_state \<Rightarrow> bool" where
  "retried m s s' \<longleftrightarrow> m \<noteq> 0 \<and> rq_attempt s' = rq_attempt s \<and> rq_doom_count s' = rq_doom_count s
     \<and> rq_retry_count s' = Suc (rq_retry_count s)
     \<and> pu_observed (rq_pump s') = pu_observed (rq_pump s) \<and> pu_unsafe (rq_pump s') = pu_unsafe (rq_pump s)"

lemma retry_after_sleep_cases:
  "retry_after_sleep h en m e b rb s = (True, s') \<Longrightarrow> m \<noteq> 0 \<Longrightarrow>
     retried m s s' \<and> rq_items s' = rq_items s"
  by (auto simp: retry_after_sleep_def sleep_or_cancel_def Let_def retried_def split: if_splits)

lemma retried_strip: "retried m (strip_with r s) s' = retried m s s'"
  by (simp add: retried_def)

lemma apply_retry_continues:
  assumes "apply_retry_decision h c en m err s = (True, s')"
  shows "retried m s s' \<and>
    ((is_doom err \<or> Suc (rq_retry_count s) < m) \<and> (images s = [] \<longrightarrow> images s' = [])
     \<or> images s \<noteq> [] \<and> images s' = [])"
proof -
  define d where "d = classify_error (\<lambda>j. lh_custom h (lh_show_json_error h j))
    (en_hash en (rq_attempt s)) err (rq_retry_count s) m (rate_limit_threshold c)"
  define s0 where "s0 = (if will_retry d \<and> is_likely_body_rejected err
    then strip_with PayloadHeuristic s else s)"
  have s0: "retried m s0 s' = retried m s s'" "images s = [] \<longrightarrow> images s0 = []"
    "\<not> will_retry d \<Longrightarrow> s0 = s"
    by (auto simp: s0_def retried_strip strip_images_twice)
  have run: "(case d of
         Retry backoff \<Rightarrow> retry_after_sleep h en m err backoff False s0
       | RetryWithBackoff backoff _ \<Rightarrow> retry_after_sleep h en m err backoff False s0
       | RetryWithImageStrip \<Rightarrow>
           if images s0 = []
           then (False, finish_failed h en err (clone_of h err) (s0\<lparr>rq_items := snd (strip_images (rq_items s0))\<rparr>))
           else (True, count_retry h m err (strip_with (strip_reason_of err) s0))
       | RetryWithClientRebuild backoff \<Rightarrow> retry_after_sleep h en m err backoff True s0
       | EmitToSession e \<Rightarrow> (False, finish_failed h en e e s0)
       | Fatal e \<Rightarrow> (False, finish_failed h en e e s0)) = (True, s')"
    using assms unfolding apply_retry_decision_def Let_def d_def [symmetric] s0_def [symmetric] .
  show ?thesis
  proof (cases "will_retry d")
    case True
    then have allowed: "m \<noteq> 0" "is_doom err \<or> Suc (rq_retry_count s) < m"
      unfolding d_def by (simp_all add: classify_will_retry retry_allowed_def) blast
    obtain b rb where "retry_after_sleep h en m err b rb s0 = (True, s')"
      using run True by (cases d) auto
    then have "retried m s0 s' \<and> rq_items s' = rq_items s0"
      using allowed(1) by (rule retry_after_sleep_cases)
    then show ?thesis using s0 allowed(2) by auto
  next
    case False
    have strip: "d = RetryWithImageStrip" using run False by (cases d) auto
    then have "m \<noteq> 0" unfolding d_def classify_strip by blast
    then show ?thesis
      using run strip s0(3) False
      by (auto simp: retried_def strip_images_twice split: if_splits)
  qed
qed

subsection \<open>A disarmed stream does not report a loop\<close>

text \<open>
  What the loop relies on and the stream layer promises: an attempt whose doom-loop abort is
  disarmed does not fail with a doom loop (the collector of theory \<open>DoomLoop\<close> requests no abort
  once disarmed), and a client that cannot open its stream does not report one.
\<close>

definition reports_doom :: "('x, 'j) attempt_input \<Rightarrow> bool" where
  "reports_doom ai \<longleftrightarrow>
     (\<exists>e. ai_captured ai = Some e \<and> is_doom e)
     \<or> (\<exists>i. Next (Failed i) \<in> set (ai_polls ai) \<and> ei_kind i = KDoomLoopDetected)"

definition streams_honour_disarm :: "('x, 'j) request_env \<Rightarrow> bool" where
  "streams_honour_disarm en \<longleftrightarrow>
     (\<forall>n items http1. \<not> reports_doom (en_attempt en n items http1 False)) \<and>
     (\<forall>n items http1 armed e.
        ai_init_error (en_attempt en n items http1 armed) = Some e \<longrightarrow> \<not> is_doom e)"

lemma synthesized_doom: "is_doom (synthesize_from_info h i) \<longleftrightarrow> ei_kind i = KDoomLoopDetected"
  by (simp add: synthesize_from_info_def is_doom_def serialization_from_rendered_def
      split: error_kind.split option.split)

lemma length_policy_error: "apply_length_policy ij lp r = Inl e \<Longrightarrow> \<not> is_doom e"
  by (auto simp: apply_length_policy_def is_doom_def split: length_verdict.splits)

lemma completed_not_doom:
  "completed_outcome h None lp items r ts = AttemptFailed e sg its \<Longrightarrow> \<not> is_doom e"
  by (auto simp: completed_outcome_def Let_def length_policy_error split: sum.splits option.splits bool.splits if_splits)

lemma drive_undoomed:
  fixes ps :: "'x stream_event poll list" and e :: "'j sampling_error"
  assumes "drive_l2 h None lp captured items signals ps p = (AttemptFailed e sg its, p')"
    "\<forall>x. captured = Some x \<longrightarrow> \<not> is_doom x"
    "\<forall>i. Next (Failed i) \<in> set ps \<longrightarrow> ei_kind i \<noteq> KDoomLoopDetected"
  shows "\<not> is_doom e"
  using assms
proof (induction ps arbitrary: signals p)
  case Nil
  then show ?case by (auto simp: is_doom_def)
next
  case (Cons q ps)
  show ?case
  proof (cases q)
    case CancelSeen
    then show ?thesis using Cons.prems by simp
  next
    case (Next ev)
    show ?thesis
    proof (cases ev)
      case fin: (Completed r)
      obtain ts where "completed_outcome h None lp items r ts = AttemptFailed e sg its"
        using Cons.prems(1) Next fin by (auto simp: Let_def)
      then show ?thesis by (rule completed_not_doom)
    next
      case Failed: (Failed i)
      then have "failed_outcome h captured items signals i = (AttemptFailed e sg its :: ('x, 'j) attempt_outcome)"
        using Cons.prems(1) Next by simp
      moreover have "ei_kind i \<noteq> KDoomLoopDetected" using Cons.prems(3) Next Failed by simp
      ultimately show ?thesis
        using Cons.prems(2) by (auto simp: failed_outcome_def Let_def synthesized_doom split: option.splits)
    qed (use Cons Next in auto)
  qed
qed

subsection \<open>One turn\<close>

text \<open>How a turn that goes round again relates the states around it.\<close>

definition resampled ::
  "request_config \<Rightarrow> ('x, 'j) request_state \<Rightarrow> ('x, 'j) request_state \<Rightarrow> bool" where
  "resampled c s s' \<longleftrightarrow>
     \<not> (st_only_before_output (rc_settings c) \<and> pu_observed (rq_pump s))
     \<and> rq_attempt s' = rq_attempt s \<and> rq_doom_count s' = Suc (rq_doom_count s)
     \<and> rq_retry_count s' = rq_retry_count s \<and> images s' = images s
     \<and> pu_observed (rq_pump s') = pu_observed (rq_pump s) \<and> pu_unsafe (rq_pump s') = pu_unsafe (rq_pump s)"

definition fewer_images :: "nat \<Rightarrow> ('x, 'j) request_state \<Rightarrow> ('x, 'j) request_state \<Rightarrow> bool" where
  "fewer_images m s s' \<longleftrightarrow> Suc (rq_retry_count s) < m \<and> (images s = [] \<longrightarrow> images s' = [])
     \<or> images s \<noteq> [] \<and> images s' = []"

lemma doom_resample_continues:
  "doom_resample h c en err items s = (True, s') \<Longrightarrow> resampled c s s'"
  by (auto simp: doom_resample_def resampled_def sleep_or_cancel_def Let_def recovery_context_no_images
      split: if_splits)

lemma retried_signals [simp]: "retried m (merge_signals ts s) s' = retried m s s'"
  by (simp add: retried_def)

lemma resampled_signals [simp]: "resampled c (merge_signals ts s) s' = resampled c s s'"
  by (simp add: resampled_def)

lemma after_attempt_continues:
  assumes "after_attempt h c en outcome s = (True, s')"
  shows "retried (effective_max_retries c (rq_pump s)) s s'
       \<and> (fewer_images (effective_max_retries c (rq_pump s)) s s' \<or>
          (\<exists>e. outcome = AttemptInitFailed e \<and> is_doom e))
     \<or> (\<exists>e sg items. outcome = AttemptFailed e sg items \<and> is_doom e \<and> resampled c s s')"
proof (cases outcome)
  case (AttemptEmpty ctx sg)
  then show ?thesis
    using assms apply_retry_continues [of h c en _ "EmptyResponse ctx" "merge_signals sg s" s']
    by (auto simp: after_attempt_def Let_def fewer_images_def is_doom_def)
next
  case (AttemptFailed e sg items)
  show ?thesis
  proof (cases "is_doom e")
    case True
    then have "doom_resample h c en e items (merge_signals sg s) = (True, s')"
      using assms AttemptFailed by (cases e) (simp_all add: after_attempt_def is_doom_def)
    then show ?thesis using AttemptFailed True doom_resample_continues by force
  next
    case False
    then have "apply_retry_decision h c en (effective_max_retries c (rq_pump s)) e (merge_signals sg s) = (True, s')"
      using assms AttemptFailed by (cases e) (simp_all add: after_attempt_def is_doom_def)
    then show ?thesis using False apply_retry_continues by (fastforce simp: fewer_images_def)
  qed
next
  case (AttemptInitFailed e)
  then show ?thesis
    using assms apply_retry_continues [of h c en _ e s s']
    by (auto simp: after_attempt_def Let_def fewer_images_def)
qed (use assms in \<open>simp_all add: after_attempt_def\<close>)

lemma loop_step_Inl:
  assumes "loop_step h c en s = Inl s'"
  obtains outcome p t where
    "run_one_attempt h (rc_backend c) (doom_check_of c s) (rc_length_policy c)
       (en_attempt en (rq_attempt s) (rq_items s) (rq_http1 s) (doom_check_of c s \<noteq> None)) (rq_pump s)
     = (outcome, p)"
    "after_attempt h c en outcome (s\<lparr>rq_pump := p\<rparr>) = (True, t)"
    "s' = t\<lparr>rq_attempt := Suc (rq_attempt t)\<rparr>"
proof -
  have *: "(let doom_check = doom_check_of c s;
             ai = en_attempt en (rq_attempt s) (rq_items s) (rq_http1 s) (doom_check \<noteq> None);
             (outcome, p) = run_one_attempt h (rc_backend c) doom_check (rc_length_policy c) ai (rq_pump s);
             (continue, t) = after_attempt h c en outcome (s\<lparr>rq_pump := p\<rparr>)
         in if continue then Inl (t\<lparr>rq_attempt := Suc (rq_attempt t)\<rparr>) else Inr t) = Inl s'"
    using assms by (simp add: loop_step_def split: if_splits)
  show ?thesis
    using * that by (auto simp: Let_def split: prod.splits if_splits)
qed

lemma run_one_attempt_doom:
  assumes "run_one_attempt h b dc lp ai p = (AttemptFailed e sg its, p')" "is_doom e"
  shows "dc \<noteq> None \<or> reports_doom ai"
proof (rule ccontr)
  assume "\<not> (dc \<noteq> None \<or> reports_doom ai)"
  then have none: "dc = None" "\<not> reports_doom ai" by simp_all
  then have "drive_l2 h None lp (ai_captured ai) [] [] (ai_polls ai) p = (AttemptFailed e sg its, p')"
    using assms(1) by (auto simp: run_one_attempt_def split: option.splits)
  then have "\<not> is_doom e"
    using none(2) by (rule_tac drive_undoomed) (auto simp: reports_doom_def)
  then show False using assms(2) by simp
qed

lemma drive_not_init: "fst (drive_l2 h dc lp cap items sg ps p) \<noteq> AttemptInitFailed e"
proof (induction ps arbitrary: sg p)
  case (Cons q ps)
  then show ?case
    by (cases q) (auto simp: completed_outcome_def failed_outcome_def Let_def
        split: stream_event.split sum.split option.split bool.split)
qed simp

lemma run_one_attempt_init:
  assumes "run_one_attempt h b dc lp ai p = (AttemptInitFailed e, p')"
  shows "ai_init_error ai = Some e"
proof (cases "ai_init_error ai")
  case None
  have "fst (run_one_attempt h b dc lp ai p) \<noteq> AttemptInitFailed e"
    by (simp add: run_one_attempt_def None drive_not_init)
  then show ?thesis using assms by simp
next
  case (Some x)
  then show ?thesis using assms by (simp add: run_one_attempt_def)
qed

subsection \<open>Termination\<close>

text \<open>
  The turns that are left: one for the images that can still be stripped, and what remains of the
  two budgets.
\<close>

definition rank :: "request_config \<Rightarrow> ('x, 'j) request_state \<Rightarrow> nat" where
  "rank c s = (if images s = [] then 0 else 1)
     + (resolved_max_retries c - 1 - rq_retry_count s) + (doom_max_retries c - rq_doom_count s)"

lemma effective_cases: "effective_max_retries c p \<noteq> 0 \<Longrightarrow> effective_max_retries c p = resolved_max_retries c"
  by (auto simp: effective_max_retries_def split: if_splits)

lemma retried_rank:
  assumes "retried m s t" "fewer_images m s t" "m \<noteq> 0 \<longrightarrow> m = resolved_max_retries c"
  shows "rank c t < rank c s"
proof -
  have m: "m = resolved_max_retries c" using assms(1,3) by (simp add: retried_def)
  have t: "rq_retry_count t = Suc (rq_retry_count s)" "rq_doom_count t = rq_doom_count s"
    using assms(1) by (simp_all add: retried_def)
  consider "Suc (rq_retry_count s) < m" "images s = [] \<longrightarrow> images t = []" | "images s \<noteq> []" "images t = []"
    using assms(2) by (auto simp: fewer_images_def)
  then show ?thesis
  proof cases
    case 1
    then have "resolved_max_retries c - 1 - rq_retry_count t < resolved_max_retries c - 1 - rq_retry_count s"
      using t(1) m by simp
    moreover have "(if images t = [] then 0 else 1) \<le> (if images s = [] then 0 else 1 :: nat)"
      using 1(2) by auto
    ultimately show ?thesis unfolding rank_def t(2) by linarith
  next
    case 2
    moreover have "resolved_max_retries c - 1 - rq_retry_count t \<le> resolved_max_retries c - 1 - rq_retry_count s"
      using t(1) by simp
    ultimately show ?thesis unfolding rank_def t(2) by simp
  qed
qed

lemma rank_pump [simp]: "rank c (s\<lparr>rq_pump := p\<rparr>) = rank c s"
  by (simp add: rank_def)

lemma rank_attempt [simp]: "rank c (s\<lparr>rq_attempt := n\<rparr>) = rank c s"
  by (simp add: rank_def)

lemma turn_decreases:
  assumes honour: "streams_honour_disarm en" and turn: "loop_step h c en s = Inl s'"
  shows "rank c s' < rank c s \<and> rq_attempt s' = Suc (rq_attempt s)"
proof -
  obtain outcome p t where run:
    "run_one_attempt h (rc_backend c) (doom_check_of c s) (rc_length_policy c)
       (en_attempt en (rq_attempt s) (rq_items s) (rq_http1 s) (doom_check_of c s \<noteq> None)) (rq_pump s)
     = (outcome, p)"
    and after: "after_attempt h c en outcome (s\<lparr>rq_pump := p\<rparr>) = (True, t)"
    and s': "s' = t\<lparr>rq_attempt := Suc (rq_attempt t)\<rparr>"
    using turn by (rule loop_step_Inl)
  have no_init: "\<not> (\<exists>e. outcome = AttemptInitFailed e \<and> is_doom e)"
  proof
    assume "\<exists>e. outcome = AttemptInitFailed e \<and> is_doom e"
    then obtain e where e: "outcome = AttemptInitFailed e" "is_doom e" by blast
    from run_one_attempt_init [OF run [unfolded e(1)]] e(2) honour
    show False unfolding streams_honour_disarm_def by blast
  qed
  let ?s = "s\<lparr>rq_pump := p\<rparr>" and ?m = "effective_max_retries c p"
  from after_attempt_continues [OF after] no_init
  consider (retry) "retried ?m ?s t" "fewer_images ?m ?s t"
    | (doom) e sg items where "outcome = AttemptFailed e sg items" "is_doom e" "resampled c ?s t"
    by auto
  then show ?thesis
  proof cases
    case retry
    then have "rank c t < rank c ?s" by (rule retried_rank) (use effective_cases in blast)
    then show ?thesis using retry(1) s' by (simp add: retried_def)
  next
    case doom
    have "doom_check_of c s \<noteq> None"
    proof
      assume none: "doom_check_of c s = None"
      from run_one_attempt_doom [OF run [unfolded doom(1)] doom(2)] none honour
      show False unfolding streams_honour_disarm_def by simp
    qed
    then have "rq_doom_count s < doom_max_retries c" by (simp add: doom_check_of_def split: if_splits)
    then show ?thesis using doom(3) s' by (simp add: resampled_def rank_def)
  qed
qed

lemma handle_cancellation_simps [simp]:
  "rq_attempt (handle_cancellation en s) = rq_attempt s"
  "rq_retry_count (handle_cancellation en s) = rq_retry_count s"
  "rq_doom_count (handle_cancellation en s) = rq_doom_count s"
  by (simp_all add: handle_cancellation_def)

lemma finish_failed_simps [simp]:
  "rq_attempt (finish_failed h en e r s) = rq_attempt s"
  by (simp_all add: finish_failed_def)

lemma retry_after_sleep_stops:
  "retry_after_sleep h en m e b rb s = (False, s') \<Longrightarrow> rq_attempt s' = rq_attempt s"
  by (auto simp: retry_after_sleep_def sleep_or_cancel_def Let_def split: if_splits)

lemma apply_retry_stops:
  assumes "apply_retry_decision h c en m err s = (False, s')"
  shows "rq_attempt s' = rq_attempt s"
  using assms unfolding apply_retry_decision_def Let_def
  by (auto split: retry_decision.splits if_splits dest: retry_after_sleep_stops)

lemma after_attempt_stops:
  assumes "after_attempt h c en outcome s = (False, s')"
  shows "rq_attempt s' = rq_attempt s"
proof (cases outcome)
  case (AttemptFailed e sg items)
  show ?thesis
  proof (cases "is_doom e")
    case True
    then have "doom_resample h c en e items (merge_signals sg s) = (False, s')"
      using assms AttemptFailed by (cases e) (simp_all add: after_attempt_def is_doom_def)
    then show ?thesis by (auto simp: doom_resample_def sleep_or_cancel_def Let_def split: if_splits)
  next
    case False
    then have "apply_retry_decision h c en (effective_max_retries c (rq_pump s)) e (merge_signals sg s) = (False, s')"
      using assms AttemptFailed by (cases e) (simp_all add: after_attempt_def is_doom_def)
    then show ?thesis using apply_retry_stops by fastforce
  qed
qed (use assms apply_retry_stops in \<open>fastforce simp: after_attempt_def accept_response_def Let_def\<close>)+

lemma loop_step_Inr:
  assumes "loop_step h c en s = Inr s'"
  shows "rq_attempt s' = rq_attempt s"
  using assms after_attempt_stops unfolding loop_step_def Let_def
  by (fastforce split: if_splits prod.splits)

lemma request_loop_returns:
  assumes "streams_honour_disarm en"
  shows "rank c s < fuel \<Longrightarrow>
    \<exists>s'. request_loop h c en fuel s = Some s' \<and> rq_attempt s' \<le> rq_attempt s + rank c s"
proof (induction fuel arbitrary: s)
  case (Suc fuel)
  show ?case
  proof (cases "loop_step h c en s")
    case (Inl t)
    then have t: "rank c t < rank c s" "rq_attempt t = Suc (rq_attempt s)"
      using turn_decreases [OF assms] by blast+
    then obtain s' where "request_loop h c en fuel t = Some s'" "rq_attempt s' \<le> rq_attempt t + rank c t"
      using Suc.IH [of t] Suc.prems by fastforce
    then show ?thesis using t Inl by auto
  next
    case (Inr t)
    then show ?thesis using loop_step_Inr [OF Inr] by simp
  qed
qed simp

subsection \<open>One answer per request\<close>

definition quiet :: "'x pump \<Rightarrow> bool" where
  "quiet p \<longleftrightarrow> (\<forall>e \<in> set (pu_log p). \<not> is_terminal_event e)"

definition running :: "bool \<Rightarrow> ('x, 'j) request_state \<Rightarrow> bool" where
  "running awaited s \<longleftrightarrow> quiet (rq_pump s) \<and> cs_tx (rq_completion s) = awaited \<and> cs_sent (rq_completion s) = []"

definition agrees :: "'x sent_event \<Rightarrow> ('x, 'j) request_result \<Rightarrow> bool" where
  "agrees e r =
     (case e of SentCompleted x n \<Rightarrow> r = Inr (x, n) | SentFailed _ \<Rightarrow> (\<exists>err. r = Inl err) | _ \<Rightarrow> False)"

definition answered :: "bool \<Rightarrow> ('x, 'j) request_state \<Rightarrow> bool" where
  "answered awaited s \<longleftrightarrow>
     (\<exists>pre e. pu_log (rq_pump s) = pre @ [e] \<and> is_terminal_event e
        \<and> (\<forall>x \<in> set pre. \<not> is_terminal_event x)
        \<and> (\<forall>r n. e = SentCompleted r n \<longrightarrow> n = Suc (rq_attempt s))
        \<and> (if awaited then \<exists>cr. cs_sent (rq_completion s) = [cr] \<and> agrees e (cr_result cr)
           else cs_sent (rq_completion s) = []))"

lemma is_terminal_event_simps [simp]:
  "\<not> is_terminal_event (Forwarded ev)" "\<not> is_terminal_event (SentSignals ts)"
  "\<not> is_terminal_event (Retrying a b k t dt ck)" "\<not> is_terminal_event (ImagesStripped us rs)"
  "is_terminal_event (SentFailed i)" "is_terminal_event (SentCompleted r n)"
  by (simp_all add: is_terminal_event_def)

lemma quiet_send [simp]: "quiet (pump_send e p) \<longleftrightarrow> quiet p \<and> \<not> is_terminal_event e"
  by (auto simp: quiet_def)

lemma quiet_flags [simp]:
  "quiet (p\<lparr>pu_observed := b\<rparr>) = quiet p" "quiet (p\<lparr>pu_unsafe := b\<rparr>) = quiet p"
  by (simp_all add: quiet_def)

lemma quiet_drive: "quiet p \<Longrightarrow> quiet (snd (drive_l2 h dc lp cap items sg ps p))"
proof (induction ps arbitrary: sg p)
  case (Cons q ps)
  then show ?case
    by (cases q) (simp_all add: Let_def forward_event_def split: stream_event.split)
qed simp

lemma quiet_attempt: "quiet p \<Longrightarrow> quiet (snd (run_one_attempt h b dc lp ai p))"
  by (simp add: run_one_attempt_def quiet_drive split: option.split)

lemma running_simps [simp]:
  "running aw (merge_signals ts s) = running aw s"
  "running aw (s\<lparr>rq_items := its\<rparr>) = running aw s"
  "running aw (s\<lparr>rq_http1 := b\<rparr>) = running aw s"
  "running aw (s\<lparr>rq_sleeps := sl\<rparr>) = running aw s"
  "running aw (s\<lparr>rq_attempt := n\<rparr>) = running aw s"
  "running aw (s\<lparr>rq_retry_count := n\<rparr>) = running aw s"
  "running aw (s\<lparr>rq_doom_count := n\<rparr>) = running aw s"
  "running aw (s\<lparr>rq_pump := p\<rparr>) \<longleftrightarrow> quiet p \<and> cs_tx (rq_completion s) = aw \<and> cs_sent (rq_completion s) = []"
  by (simp_all add: running_def merge_signals_def merge_doom_loop_signals_def)

lemma running_send [simp]: "running aw (send_event e s) \<longleftrightarrow> running aw s \<and> \<not> is_terminal_event e"
  by (auto simp: running_def)

lemma running_ops [simp]:
  "running aw (emit_retrying h a m e s) = running aw s"
  "running aw (strip_with r s) = running aw s"
  "running aw (count_retry h m e s) = running aw s"
  by (simp_all add: emit_retrying_def strip_with_def count_retry_def Let_def split: prod.split)

lemma running_recovery [simp]:
  "running aw (s\<lparr>rq_completion := record_recovery_attempt ts ck (rq_completion s)\<rparr>) = running aw s"
  by (simp add: running_def record_recovery_attempt_def)

lemma finish_with_answers:
  assumes "running aw s" "is_terminal_event e" "agrees e r"
    "\<And>x n. e = SentCompleted x n \<Longrightarrow> n = Suc (rq_attempt s)"
  shows "answered aw (finish_with en e r s)"
  using assms
  by (auto simp: answered_def running_def quiet_def finish_with_def completion_send_def Let_def
      intro!: exI [of _ "pu_log (rq_pump s)"] exI [of _ e])

lemma finish_failed_answers: "running aw s \<Longrightarrow> answered aw (finish_failed h en e err s)"
  unfolding finish_failed_def by (rule finish_with_answers) (simp_all add: agrees_def)

lemma cancellation_answers: "running aw s \<Longrightarrow> answered aw (handle_cancellation en s)"
  unfolding handle_cancellation_def by (rule finish_with_answers) (simp_all add: agrees_def)

text \<open>Whatever a turn decides, it goes on running or it answers.\<close>

definition settles :: "bool \<Rightarrow> bool \<times> ('x, 'j) request_state \<Rightarrow> bool" where
  "settles aw r \<longleftrightarrow> (if fst r then running aw (snd r) else answered aw (snd r))"

lemma settles_simps [simp]:
  "settles aw (True, s) = running aw s" "settles aw (False, s) = answered aw s"
  by (simp_all add: settles_def)

lemma sleep_settles: "running aw s \<Longrightarrow> settles aw (retry_after_sleep h en m e b rb s)"
  by (simp add: retry_after_sleep_def sleep_or_cancel_def Let_def cancellation_answers)

lemma apply_retry_settles:
  assumes "running aw s"
  shows "settles aw (apply_retry_decision h c en m err s)"
  unfolding apply_retry_decision_def Let_def
  by (auto simp: assms intro!: sleep_settles finish_failed_answers split: retry_decision.split)

lemma doom_resample_settles:
  assumes "running aw s"
  shows "settles aw (doom_resample h c en err items s)"
proof -
  have "running aw (s\<lparr>rq_doom_count := n,
      rq_completion := record_recovery_attempt ts ck (rq_completion s), rq_items := its\<rparr>)" for n ts ck its
    using assms by (simp add: running_def record_recovery_attempt_def)
  then show ?thesis
    using assms by (simp add: doom_resample_def sleep_or_cancel_def Let_def cancellation_answers finish_failed_answers)
qed

lemma after_attempt_settles:
  assumes "running aw s" "rq_attempt s = rq_retry_count s + rq_doom_count s"
  shows "settles aw (after_attempt h c en outcome s)"
proof (cases outcome)
  case (AttemptCompleted r)
  have "answered aw (accept_response en r s)"
    unfolding accept_response_def Let_def
    by (rule finish_with_answers) (use assms in \<open>simp_all add: agrees_def\<close>)
  then show ?thesis using AttemptCompleted by (simp add: after_attempt_def)
next
  case (AttemptFailed e sg items)
  then show ?thesis
    using assms(1)
    by (cases e) (simp_all add: after_attempt_def apply_retry_settles doom_resample_settles)
qed (use assms in \<open>simp_all add: after_attempt_def apply_retry_settles cancellation_answers\<close>)

definition balanced :: "('x, 'j) request_state \<Rightarrow> bool" where
  "balanced s \<longleftrightarrow> rq_attempt s = rq_retry_count s + rq_doom_count s"

lemma loop_step_settles:
  assumes "running aw s" "balanced s"
  shows "loop_step h c en s = Inr s' \<Longrightarrow> answered aw s'"
    and "loop_step h c en s = Inl s' \<Longrightarrow> running aw s' \<and> balanced s'"
proof -
  let ?ai = "en_attempt en (rq_attempt s) (rq_items s) (rq_http1 s) (doom_check_of c s \<noteq> None)"
  obtain outcome p where run:
    "run_one_attempt h (rc_backend c) (doom_check_of c s) (rc_length_policy c) ?ai (rq_pump s) = (outcome, p)"
    by fastforce
  have "quiet p" using quiet_attempt run assms(1) by (metis running_def snd_conv)
  then have "running aw (s\<lparr>rq_pump := p\<rparr>)" using assms(1) by (simp add: running_def)
  then have set: "settles aw (after_attempt h c en outcome (s\<lparr>rq_pump := p\<rparr>))"
    by (rule after_attempt_settles) (use assms(2) in \<open>simp add: balanced_def\<close>)
  obtain cont t where after: "after_attempt h c en outcome (s\<lparr>rq_pump := p\<rparr>) = (cont, t)" by fastforce
  have step: "loop_step h c en s =
      (if en_cancelled_at_head en (rq_attempt s) then Inr (handle_cancellation en s)
       else if cont then Inl (t\<lparr>rq_attempt := Suc (rq_attempt t)\<rparr>) else Inr t)"
    unfolding loop_step_def Let_def run prod.case after by simp
  show "loop_step h c en s = Inr s' \<Longrightarrow> answered aw s'"
    using step set after assms(1) cancellation_answers by (auto split: if_splits)
  assume "loop_step h c en s = Inl s'"
  then have cont: cont and s': "s' = t\<lparr>rq_attempt := Suc (rq_attempt t)\<rparr>"
    using step by (auto split: if_splits)
  have "balanced s'"
    using after_attempt_continues [of h c en outcome "s\<lparr>rq_pump := p\<rparr>" t] after cont s' assms(2)
    by (auto simp: balanced_def retried_def resampled_def)
  then show "running aw s' \<and> balanced s'" using set after cont s' by simp
qed

lemma request_loop_answers:
  "request_loop h c en fuel s = Some s' \<Longrightarrow> running aw s \<Longrightarrow> balanced s \<Longrightarrow> answered aw s'"
proof (induction fuel arbitrary: s)
  case (Suc fuel)
  then show ?case using loop_step_settles [OF Suc.prems(2,3), of h c en] by (auto split: sum.splits)
qed simp

lemma initial_running: "running aw (initial_state aw items) \<and> balanced (initial_state aw items)"
  by (simp add: running_def balanced_def initial_state_def quiet_def completion_new_def)

lemma initial_rank: "rank c (initial_state aw items) \<le> max 1 (resolved_max_retries c) + doom_max_retries c"
  by (auto simp: rank_def initial_state_def)

subsection \<open>Properties\<close>

text \<open>
  C23. A request always comes to an end.  When a disarmed stream reports no loop, the loop returns
  after at most one attempt more than its two budgets together (one attempt more again when the
  transport budget is zero), whatever the network answers, images are stripped, clients fail to
  rebuild and loops are reported: fuel for that many turns is enough.
\<close>
theorem request_returns:
  fixes en :: "('x, 'j) request_env"
  assumes "streams_honour_disarm en"
  shows "\<exists>s. run_request_task h c en (max 1 (resolved_max_retries c) + doom_max_retries c + 1) awaited items = Some s
    \<and> rq_attempt s + 1 \<le> max 1 (resolved_max_retries c) + doom_max_retries c + 1"
proof (cases "en_client_error en")
  case None
  let ?s = "initial_state awaited items :: ('x, 'j) request_state"
  have r: "rank c ?s \<le> max 1 (resolved_max_retries c) + doom_max_retries c" by (rule initial_rank)
  then have "rank c ?s < max 1 (resolved_max_retries c) + doom_max_retries c + 1" by linarith
  from request_loop_returns [OF assms this, of h] None r
  show ?thesis by (auto simp: run_request_task_def initial_state_def)
next
  case (Some err)
  then show ?thesis by (simp add: run_request_task_def finish_failed_def initial_state_def)
qed

definition demo_config :: request_config where
  "demo_config =
     \<lparr>rc_max_retries = Some 3, rc_doom_policy = Some default_doom_policy, rc_backend = Responses,
      rc_length_policy = CompleteToolCalls,
      rc_settings = \<lparr>st_max_retries = 15, st_rate_limit_threshold = 2, st_only_before_output = False\<rparr>,
      rc_env_max_retries = None\<rparr>"

definition loop_demo_host :: "unit loop_host" where
  "loop_demo_host = \<lparr>lh_status_text = show_nat, lh_show_json_error = (\<lambda>_. ''bad''), lh_custom = (\<lambda>_. ()),
     lh_is_json = (\<lambda>_. False)\<rparr>"

text \<open>A stream that shows text, then loops while it is armed and breaks when it is not.\<close>

definition loop_info :: error_info where
  "loop_info = error_info_of loop_demo_host (DoomLoopDetected [''tail_repetition:8@thinking''] (Some 3))"

definition demo_input :: "bool \<Rightarrow> (unit, unit) attempt_input" where
  "demo_input armed =
     \<lparr>ai_init_error = None,
      ai_polls = Next (ChannelToken TextChannel ''hi'') # (if armed then [Next (Failed loop_info)] else []),
      ai_captured = None, ai_recovery_items = []\<rparr>"

definition demo_env :: "(unit, unit) request_env" where
  "demo_env =
     \<lparr>en_client_error = None, en_cancelled_at_head = (\<lambda>_. False),
      en_attempt = (\<lambda>_ _ _ armed. demo_input armed), en_cancelled_in_sleep = (\<lambda>_. False),
      en_hash = (\<lambda>n. n), en_rebuild_ok = (\<lambda>_. True), en_receiver_open = (\<lambda>_. True)\<rparr>"

lemma demo_honours: "streams_honour_disarm demo_env"
  by (simp add: streams_honour_disarm_def demo_env_def demo_input_def reports_doom_def)

lemma request_returns_witness:
  "\<exists>s. run_request_task loop_demo_host demo_config demo_env 6 True [] = Some s \<and> rq_attempt s + 1 \<le> 6"
  using request_returns [OF demo_honours, of loop_demo_host demo_config True "[]"]
  by (simp add: resolved_max_retries_def doom_max_retries_def demo_config_def default_doom_policy_def
      resolve_max_retries_with_env_def)

text \<open>
  C24. Exactly one answer.  When the request task returns, its last event is the only terminal one;
  a caller that awaits the result has been answered exactly once, with the response that the event
  shows or with an error when the event reports a failure, and a caller that does not await it has
  been sent nothing; and the number of attempts reported with a response is the number made.
\<close>
theorem one_terminal_event:
  assumes "run_request_task h c en fuel awaited items = Some s"
  shows "\<exists>pre e. pu_log (rq_pump s) = pre @ [e] \<and> is_terminal_event e
    \<and> (\<forall>x \<in> set pre. \<not> is_terminal_event x)
    \<and> (\<forall>r n. e = SentCompleted r n \<longrightarrow> n = Suc (rq_attempt s))
    \<and> (if awaited then \<exists>cr. cs_sent (rq_completion s) = [cr] \<and> agrees e (cr_result cr)
       else cs_sent (rq_completion s) = [])"
proof -
  have "answered awaited s"
  proof (cases "en_client_error en")
    case None
    then have "request_loop h c en fuel (initial_state awaited items) = Some s"
      using assms by (simp add: run_request_task_def)
    then show ?thesis by (rule request_loop_answers) (simp_all add: initial_running)
  next
    case (Some err)
    then show ?thesis
      using assms by (auto simp: run_request_task_def initial_running intro: finish_failed_answers)
  qed
  then show ?thesis by (simp add: answered_def)
qed

definition refused_env :: "(unit, unit) request_env" where
  "refused_env = demo_env\<lparr>en_client_error := Some (InvalidConfiguration ''no model'')\<rparr>"

lemma one_terminal_event_witness:
  "\<exists>s. run_request_task loop_demo_host demo_config refused_env 0 True [] = Some s
     \<and> (\<exists>e. pu_log (rq_pump s) = [e] \<and> is_terminal_event e)"
proof -
  obtain s where s: "run_request_task loop_demo_host demo_config refused_env 0 True [] = Some s"
    and log: "length (pu_log (rq_pump s)) = 1"
    by (simp add: run_request_task_def refused_env_def finish_failed_def finish_with_def Let_def
        initial_state_def)
  from one_terminal_event [OF s] log show ?thesis using s by auto
qed

text \<open>
  Visible output is not resampled, except for a loop.  A turn that goes round again debits
  exactly one of the two budgets.  If the caller asked for retries only before output, nothing had
  been observed; and if text or a tool call had been shown, the turn was a loop resample, never a
  transport retry.
\<close>
theorem visible_output_not_retried:
  assumes "loop_step h c en s = Inl s'"
  shows "(rq_retry_count s' = Suc (rq_retry_count s) \<and> rq_doom_count s' = rq_doom_count s
      \<or> rq_retry_count s' = rq_retry_count s \<and> rq_doom_count s' = Suc (rq_doom_count s))
    \<and> (st_only_before_output (rc_settings c) \<longrightarrow> \<not> pu_observed (rq_pump s'))
    \<and> (pu_unsafe (rq_pump s') \<longrightarrow> rq_doom_count s' = Suc (rq_doom_count s))"
proof -
  obtain outcome p t where after: "after_attempt h c en outcome (s\<lparr>rq_pump := p\<rparr>) = (True, t)"
    and s': "s' = t\<lparr>rq_attempt := Suc (rq_attempt t)\<rparr>"
    using assms by (rule loop_step_Inl)
  let ?s = "s\<lparr>rq_pump := p\<rparr>"
  consider (retry) "retried (effective_max_retries c (rq_pump ?s)) ?s t" | (loop) "resampled c ?s t"
    using after_attempt_continues [OF after] by blast
  then show ?thesis
  proof cases
    case retry
    then have "effective_max_retries c p \<noteq> 0" by (simp add: retried_def)
    then show ?thesis using retry s' by (auto simp: retried_def effective_max_retries_def split: if_splits)
  next
    case loop
    then show ?thesis using s' by (auto simp: resampled_def)
  qed
qed

lemma synthesized_loop:
  "synthesize_from_info h loop_info = DoomLoopDetected [''tail_repetition:8@thinking''] (Some 3)"
  by (simp add: loop_info_def error_info_of_def error_kind_of_def synthesize_from_info_def)

lemma demo_goes_round:
  "\<exists>s'. loop_step loop_demo_host demo_config demo_env (initial_state True []) = Inl s'
     \<and> pu_unsafe (rq_pump s') \<and> rq_doom_count s' = 1"
  by (simp add: loop_step_def demo_env_def demo_config_def initial_state_def doom_check_of_def
      doom_max_retries_def default_doom_policy_def demo_input_def run_one_attempt_def
      forward_event_def failed_outcome_def synthesized_loop after_attempt_def doom_resample_def
      sleep_or_cancel_def shows_output_def marks_replay_unsafe_def Let_def)

text \<open>
  The exception is reachable, contrary to the comment that visible text must not be resampled:
  the stream of \<open>demo_env\<close> shows text and then loops, and is asked again.
\<close>
theorem visible_text_resampled_after_loop:
  "\<exists>s'. loop_step loop_demo_host demo_config demo_env (initial_state True []) = Inl s'
     \<and> Forwarded (ChannelToken TextChannel ''hi'') \<in> set (pu_log (rq_pump s')) \<and> rq_doom_count s' = 1"
  by (simp add: loop_step_def demo_env_def demo_config_def initial_state_def doom_check_of_def
      doom_max_retries_def default_doom_policy_def demo_input_def run_one_attempt_def
      forward_event_def failed_outcome_def synthesized_loop after_attempt_def doom_resample_def
      sleep_or_cancel_def emit_retrying_def send_event_def pump_send_def Let_def)

lemma visible_output_not_retried_witness:
  "\<exists>s'. loop_step loop_demo_host demo_config demo_env (initial_state True []) = Inl s'
     \<and> (rq_retry_count s' = 0 \<or> rq_doom_count s' = 0)"
proof -
  obtain s' where s': "loop_step loop_demo_host demo_config demo_env (initial_state True []) = Inl s'"
    using demo_goes_round by blast
  show ?thesis using visible_output_not_retried [OF s'] s' by (auto simp: initial_state_def)
qed

end
