(* ===== verification/ExecRisk.thy ===== *)
theory ExecRisk
  imports PermissionPolicy
begin

section \<open>Execution risk of a Bash segment\<close>

text \<open>
  \<open>permission/exec_risk.rs\<close>: which argument vectors make \<open>git\<close> or \<open>sort\<close> run another program,
  which \<open>git\<close> invocations are read-only queries, and which directories have to be searched for a
  repository configuration that would run programs (the ambient scan).

  What the file calls and does not contain is the record \<open>git_host\<close>: \<open>git2\<close>'s repository
  discovery, its configuration entries and boolean parser, and opening a file.
\<close>

named_theorems exec_simps \<open>unfolding equations of the argument-vector scans\<close>

subsection \<open>Normalising a segment\<close>

datatype normalized_argv = ArgvReady "string list" | ArgvFailClosed

primrec normalize_exec_rounds :: "nat \<Rightarrow> string list \<Rightarrow> normalized_argv" where
  "normalize_exec_rounds 0 current = ArgvFailClosed"
| "normalize_exec_rounds (Suc n) current =
     (let checked = unwrap_wrappers_checked current in
      if wp_exhausted checked \<or> wp_has_split_string checked \<or> wp_has_chdir checked
      then ArgvFailClosed
      else (case peel_transparent_prefixes (wp_words checked) of
              PeelAmbiguous \<Rightarrow> ArgvFailClosed
            | PeelReady after_trans \<Rightarrow>
                if length after_trans = length current
                   \<or> length after_trans = length (wp_words checked)
                then ArgvReady after_trans
                else normalize_exec_rounds n after_trans))"

definition normalize_for_exec_risk :: "string list \<Rightarrow> normalized_argv" where
  "normalize_for_exec_risk words = normalize_exec_rounds MAX_NORMALIZE_ROUNDS words"

subsection \<open>Programs and their options\<close>

definition is_accepted_long_option_prefix :: "string \<Rightarrow> string \<Rightarrow> nat \<Rightarrow> bool" where
  "is_accepted_long_option_prefix flag full min_len \<longleftrightarrow>
     starts_with flag ''--'' \<and> min_len \<le> length flag \<and> starts_with full flag
     \<and> list_all (\<lambda>b. is_ascii_alphanumeric b \<or> b = CHR ''-'') flag"

text \<open>\<open>normalized_token_basename\<close>: lower-cased base name without \<open>.exe\<close>.\<close>

definition normalized_token_basename :: "string \<Rightarrow> string" where
  "normalized_token_basename token =
     (let name = to_ascii_lowercase (base_name token)
      in case strip_suffix name ''.exe'' of Some stem \<Rightarrow> stem | None \<Rightarrow> name)"

definition normalized_program_name :: "string list \<Rightarrow> string option" where
  "normalized_program_name words =
     (case words of
        [] \<Rightarrow> None
      | raw # _ \<Rightarrow>
          if base_name raw = [] then None
          else (let name = to_ascii_lowercase (base_name raw)
                in Some (case strip_suffix name ''.exe'' of Some stem \<Rightarrow> stem | None \<Rightarrow> name)))"

definition is_git_program :: "string list \<Rightarrow> bool" where
  "is_git_program words \<longleftrightarrow> normalized_program_name words = Some ''git''"

definition is_sort_program :: "string list \<Rightarrow> bool" where
  "is_sort_program words \<longleftrightarrow> normalized_program_name words = Some ''sort''"

text \<open>The part of an option before its first \<open>=\<close>.\<close>

definition option_flag :: "string \<Rightarrow> string" where
  "option_flag tok = (case split_once CHR ''='' tok of Some (f, _) \<Rightarrow> f | None \<Rightarrow> tok)"

fun sort_scan :: "string list \<Rightarrow> bool" where
  "sort_scan [] = False"
| "sort_scan (w # ws) =
     (if w = ''--'' then False
      else if w = ''--compress-program'' \<or> starts_with w ''--compress-program='' then True
      else if is_accepted_long_option_prefix (option_flag w) ''--compress-program'' 4 then True
      else sort_scan ws)"

definition sort_has_compress_program_flag :: "string list \<Rightarrow> bool" where
  "sort_has_compress_program_flag words = sort_scan (drop 1 words)"

definition is_git_config_env_flag :: "string \<Rightarrow> bool" where
  "is_git_config_env_flag tok \<longleftrightarrow>
     tok = ''--config-env'' \<or> starts_with tok ''--config-env=''
     \<or> is_accepted_long_option_prefix (option_flag tok) ''--config-env'' 4"

definition is_git_repo_retarget_flag :: "string \<Rightarrow> bool" where
  "is_git_repo_retarget_flag tok \<longleftrightarrow>
     tok = ''--git-dir'' \<or> starts_with tok ''--git-dir=''
     \<or> tok = ''--work-tree'' \<or> starts_with tok ''--work-tree=''
     \<or> is_accepted_long_option_prefix (option_flag tok) ''--git-dir'' 4
     \<or> is_accepted_long_option_prefix (option_flag tok) ''--work-tree'' 4"

definition is_attached_git_config_c :: "string \<Rightarrow> bool" where
  "is_attached_git_config_c tok \<longleftrightarrow>
     starts_with tok ''-c'' \<and> 2 < length tok \<and> \<not> starts_with tok ''--''"

definition attached_git_c_path :: "string \<Rightarrow> string option" where
  "attached_git_c_path tok =
     (case strip_prefix tok ''-C'' of
        None \<Rightarrow> None
      | Some rest \<Rightarrow> if rest \<noteq> [] \<and> \<not> starts_with tok ''--'' then Some rest else None)"

definition git_global_option_takes_value :: "string \<Rightarrow> bool" where
  "git_global_option_takes_value tok \<longleftrightarrow>
     tok \<in> {''-C'', ''-c'', ''--git-dir'', ''--work-tree'', ''--namespace'', ''--super-prefix'',
            ''--exec-path'', ''--list-cmds'', ''--attr-source'', ''--config-env''}
     \<or> is_accepted_long_option_prefix tok ''--config-env'' 4
     \<or> is_accepted_long_option_prefix tok ''--git-dir'' 4
     \<or> is_accepted_long_option_prefix tok ''--work-tree'' 4
     \<or> is_accepted_long_option_prefix tok ''--namespace'' 7
     \<or> is_accepted_long_option_prefix tok ''--super-prefix'' 8
     \<or> is_accepted_long_option_prefix tok ''--exec-path'' 7
     \<or> is_accepted_long_option_prefix tok ''--list-cmds'' 7
     \<or> is_accepted_long_option_prefix tok ''--attr-source'' 8"

text \<open>The tail of an option that takes the next word as its value, when that word looks like one.\<close>

definition after_value :: "string \<Rightarrow> string list \<Rightarrow> string list" where
  "after_value tok rest =
     (if CHR ''='' \<notin> set tok \<and> git_global_option_takes_value tok
         \<and> (case rest of [] \<Rightarrow> False | n # _ \<Rightarrow> \<not> starts_with n ''-'' \<or> n = ''-'')
      then drop 1 rest else rest)"

lemma after_value_length [simp]: "length (after_value tok rest) \<le> length rest"
  by (simp add: after_value_def)

function git_global_scan :: "string list \<Rightarrow> bool" where
  "git_global_scan [] = False"
| "git_global_scan (tok # rest) =
     (if tok = ''--'' then False
      else if \<not> starts_with tok ''-'' \<or> tok = ''-'' then False
      else if tok = ''-c'' \<or> is_attached_git_config_c tok \<or> is_git_config_env_flag tok
              \<or> is_git_repo_retarget_flag tok
      then True
      else if attached_git_c_path tok \<noteq> None then git_global_scan rest
      else git_global_scan (after_value tok rest))"
  by pat_completeness auto
termination
  by (relation "measure length") (auto simp: le_imp_less_Suc)

definition git_has_exec_risk_global :: "string list \<Rightarrow> bool" where
  "git_has_exec_risk_global words = git_global_scan (drop 1 words)"

definition segment_has_exec_risk_flag :: "string list \<Rightarrow> bool" where
  "segment_has_exec_risk_flag words =
     (if is_sort_program words then sort_has_compress_program_flag words
      else if is_git_program words then git_has_exec_risk_global words
      else False)"

record segment_exec_facts =
  sf_exec_risk :: bool
  sf_has_git :: bool

definition segment_exec_facts :: "string list \<Rightarrow> segment_exec_facts" where
  "segment_exec_facts words =
     (case normalize_for_exec_risk words of
        ArgvFailClosed \<Rightarrow> \<lparr>sf_exec_risk = True, sf_has_git = False\<rparr>
      | ArgvReady inner \<Rightarrow>
          \<lparr>sf_exec_risk = segment_has_exec_risk_flag inner, sf_has_git = is_git_program inner\<rparr>)"

declare git_global_scan.simps(2) [simp del]

subsection \<open>Read-only \<open>git\<close> queries\<close>

definition SAFE_GIT_SUBCOMMANDS :: "string list" where
  "SAFE_GIT_SUBCOMMANDS =
     [''status'', ''branch'', ''log'', ''diff'', ''ls-files'', ''show'', ''rev-parse'', ''blame'',
      ''grep'', ''describe'', ''merge-base'', ''check-ignore'', ''check-attr'', ''cat-file'',
      ''ls-tree'', ''show-ref'', ''for-each-ref'', ''rev-list'', ''name-rev'', ''count-objects'',
      ''shortlog'']"

definition GIT_QUERY_UNSAFE_OPTIONS :: "string list" where
  "GIT_QUERY_UNSAFE_OPTIONS =
     [''--filters'', ''--textconv'', ''--output'', ''--ext-diff'', ''--open-files-in-pager'']"

definition git_query_option_is_unsafe :: "string \<Rightarrow> bool" where
  "git_query_option_is_unsafe word \<longleftrightarrow>
     (let flag = option_flag word in
      2 < length flag \<and> list_ex (\<lambda>full. starts_with full flag) GIT_QUERY_UNSAFE_OPTIONS)"

text \<open>The verb is found as the tail of the words that starts with it.\<close>

function git_verb_scan :: "string list \<Rightarrow> string list option" where
  "git_verb_scan [] = None"
| "git_verb_scan (tok # rest) =
     (if tok = ''-'' \<or> tok = ''--'' then None
      else if \<not> starts_with tok ''-'' then Some (tok # rest)
      else if tok = ''-C'' then git_verb_scan (drop 1 rest)
      else if attached_git_c_path tok \<noteq> None \<or> tok = ''--no-pager'' \<or> tok = ''-P''
      then git_verb_scan rest
      else None)"
  by pat_completeness auto
termination
  by (relation "measure length") (auto simp: le_imp_less_Suc)

declare git_verb_scan.simps(2) [simp del]

definition git_safe_query_verb_index :: "string list \<Rightarrow> nat option" where
  "git_safe_query_verb_index words =
     map_option (\<lambda>tail. length words - length tail) (git_verb_scan (drop 1 words))"

definition git_words_have_unsafe_query_option :: "string list \<Rightarrow> bool" where
  "git_words_have_unsafe_query_option words =
     (if first_opt words \<noteq> Some ''git'' then False
      else if list_ex git_query_option_is_unsafe (drop 1 words) then True
      else (case git_safe_query_verb_index words of
              None \<Rightarrow> False
            | Some i \<Rightarrow> words ! i = ''grep'')
           \<and> list_ex (\<lambda>w. starts_with w ''-O'') (drop 1 words))"

definition git_words_are_read_only_query :: "string list \<Rightarrow> bool" where
  "git_words_are_read_only_query words =
     (if first_opt words \<noteq> Some ''git'' then False
      else if git_has_exec_risk_global words then False
      else (case git_safe_query_verb_index words of
              None \<Rightarrow> False
            | Some i \<Rightarrow>
                if words ! i \<notin> set SAFE_GIT_SUBCOMMANDS then False
                else \<not> git_words_have_unsafe_query_option words))"

subsection \<open>Repository configuration\<close>

datatype open_result = Opened "bool option" | OpenNotFound | OpenError
datatype config_level = LevelLocal | LevelWorktree | LevelOther

record git_entry =
  ge_level :: config_level
  ge_name :: "string option"
  ge_value :: "string option"

text \<open>\<open>repo_entries\<close> is \<open>None\<close> when the configuration cannot be opened or listed, and an element
  is \<open>None\<close> when reading that entry fails.\<close>

record git_repo =
  repo_path :: string
  repo_commondir :: string
  repo_entries :: "git_entry option list option"

datatype discover_result = RepoFound git_repo | RepoNotFound | RepoError

record git_host =
  git_discover :: "string \<Rightarrow> discover_result"
  git_parse_bool :: "string \<Rightarrow> bool option"
  git_open_file :: "string \<Rightarrow> open_result"

definition local_git_config_entry_is_exec :: "git_host \<Rightarrow> string \<Rightarrow> string \<Rightarrow> bool" where
  "local_git_config_entry_is_exec G name0 value0 =
     (let name = to_ascii_lowercase name0; value = trim value0 in
      if value = [] then False
      else if name = ''core.fsmonitor'' then git_parse_bool G value = None
      else if name = ''diff.external'' then True
      else if (case strip_prefix name ''diff.'' of
                 None \<Rightarrow> False
               | Some rest \<Rightarrow> ends_with rest ''.command'' \<or> ends_with rest ''.textconv''
                              \<or> ends_with rest ''.external'')
      then True
      else (case strip_prefix name ''alias.'' of
              None \<Rightarrow> False
            | Some verb \<Rightarrow> verb \<in> set SAFE_GIT_SUBCOMMANDS \<and> starts_with value ''!''))"

definition path_unreadable :: "git_host \<Rightarrow> string \<Rightarrow> bool" where
  "path_unreadable G path =
     (case git_open_file G path of
        Opened (Some is_file) \<Rightarrow> \<not> is_file
      | Opened None \<Rightarrow> True
      | OpenNotFound \<Rightarrow> False
      | OpenError \<Rightarrow> True)"

definition unwrap_or_empty :: "string option \<Rightarrow> string" where
  "unwrap_or_empty s = (case s of None \<Rightarrow> [] | Some t \<Rightarrow> t)"

fun entries_have_exec :: "git_host \<Rightarrow> git_entry option list \<Rightarrow> bool" where
  "entries_have_exec G [] = False"
| "entries_have_exec G (None # es) = True"
| "entries_have_exec G (Some e # es) =
     (if ge_level e = LevelOther then entries_have_exec G es
      else if local_git_config_entry_is_exec G (unwrap_or_empty (ge_name e))
                (unwrap_or_empty (ge_value e))
      then True
      else entries_have_exec G es)"

definition local_repo_config_has_exec_risk :: "git_host \<Rightarrow> string \<Rightarrow> bool" where
  "local_repo_config_has_exec_risk G cwd =
     (case git_discover G cwd of
        RepoNotFound \<Rightarrow> False
      | RepoError \<Rightarrow> True
      | RepoFound repo \<Rightarrow>
          if path_unreadable G (path_join (repo_commondir repo) ''config'')
             \<or> path_unreadable G (path_join (repo_path repo) ''config'')
             \<or> path_unreadable G (path_join (repo_path repo) ''config.worktree'')
          then True
          else (case repo_entries repo of
                  None \<Rightarrow> True
                | Some es \<Rightarrow> entries_have_exec G es))"

subsection \<open>The ambient scan\<close>

definition is_static_path_operand :: "string \<Rightarrow> bool" where
  "is_static_path_operand p \<longleftrightarrow>
     p \<noteq> [] \<and> p \<noteq> ''-'' \<and> \<not> starts_with p ''-'' \<and> CHR ''$'' \<notin> set p \<and> CHR 0x60 \<notin> set p
     \<and> \<not> contains_str p ''$(''"

definition join_cwd :: "string \<Rightarrow> string \<Rightarrow> string" where
  "join_cwd base operand = (if is_absolute operand then operand else path_join base operand)"

text \<open>The operand loop of \<open>cd\<close>: \<open>None\<close> is the early return, the result is the target so far.\<close>

fun chdir_target :: "string list \<Rightarrow> string option \<Rightarrow> string option option" where
  "chdir_target [] target = Some target"
| "chdir_target (tok # args) target =
     (if tok = ''--'' then Some (first_opt args)
      else if starts_with tok ''-'' then None
      else if target \<noteq> None then None
      else chdir_target args (Some tok))"

definition apply_literal_chdir :: "string \<Rightarrow> string list \<Rightarrow> string option" where
  "apply_literal_chdir cwd words =
     (case chdir_target (drop 1 words) None of
        None \<Rightarrow> None
      | Some None \<Rightarrow> None
      | Some (Some target) \<Rightarrow>
          if is_static_path_operand target then Some (join_cwd cwd target) else None)"

function git_cwd_scan :: "string list \<Rightarrow> string \<Rightarrow> string option" where
  "git_cwd_scan [] cwd = Some cwd"
| "git_cwd_scan (tok # rest) cwd =
     (if tok = ''--'' \<or> \<not> starts_with tok ''-'' \<or> tok = ''-'' then Some cwd
      else if is_git_repo_retarget_flag tok then None
      else if tok = ''-C'' then
        (case rest of
           [] \<Rightarrow> None
         | path # rest' \<Rightarrow>
             if is_static_path_operand path then git_cwd_scan rest' (join_cwd cwd path) else None)
      else (case attached_git_c_path tok of
              Some path \<Rightarrow>
                if is_static_path_operand path then git_cwd_scan rest (join_cwd cwd path) else None
            | None \<Rightarrow> git_cwd_scan (after_value tok rest) cwd))"
  by pat_completeness auto
termination
  by (relation "measure (\<lambda>(ws, cwd). length ws)") (auto simp: le_imp_less_Suc)

declare git_cwd_scan.simps(2) [simp del]

definition git_effective_cwd :: "string list \<Rightarrow> string \<Rightarrow> string option" where
  "git_effective_cwd words start_cwd = git_cwd_scan (drop 1 words) start_cwd"

datatype ambient_scan_plan = ScanFailClosed | ScanCheckDirs "string list"

fun ambient_scan :: "string list list \<Rightarrow> string \<Rightarrow> string list \<Rightarrow> ambient_scan_plan" where
  "ambient_scan [] cwd git_cwds =
     (if git_cwds = [] then ScanFailClosed else ScanCheckDirs git_cwds)"
| "ambient_scan (raw # segments) cwd git_cwds =
     (case normalize_for_exec_risk raw of
        ArgvFailClosed \<Rightarrow> ScanFailClosed
      | ArgvReady words \<Rightarrow>
          (let prog = normalized_program_name words in
           if prog = Some ''cd'' \<or> prog = Some ''pushd'' then
             (case apply_literal_chdir cwd words of
                None \<Rightarrow> ScanFailClosed
              | Some next_cwd \<Rightarrow> ambient_scan segments next_cwd git_cwds)
           else if prog = Some ''popd'' then ScanFailClosed
           else if prog = Some ''git'' then
             (case git_effective_cwd words cwd of
                None \<Rightarrow> ScanFailClosed
              | Some effective \<Rightarrow> ambient_scan segments cwd (git_cwds @ [effective]))
           else ambient_scan segments cwd git_cwds))"

definition ambient_scan_plan_from_segments :: "string list list \<Rightarrow> string \<Rightarrow> ambient_scan_plan" where
  "ambient_scan_plan_from_segments raw_segments session_cwd = ambient_scan raw_segments session_cwd []"

definition ambient_exec_risk_from_plan :: "git_host \<Rightarrow> ambient_scan_plan \<Rightarrow> bool" where
  "ambient_exec_risk_from_plan G plan =
     (case plan of
        ScanFailClosed \<Rightarrow> True
      | ScanCheckDirs dirs \<Rightarrow> list_ex (local_repo_config_has_exec_risk G) dirs)"

subsection \<open>Unparseable scripts\<close>

definition token_separators :: "char list" where
  "token_separators = [CHR ''|'', CHR ''&'', CHR '';'', CHR ''('', CHR '')'', CHR 0x60, CHR 0x0A,
                       CHR ''<'', CHR ''>'']"

text \<open>\<open>cmd.split(..)\<close> at white space (by whole encodings) and at the separators.\<close>

function script_tokens :: "string \<Rightarrow> string \<Rightarrow> string list" where
  "script_tokens cur [] = [cur]"
| "script_tokens cur (c # cs) =
     (case ws_prefix (c # cs) of
        Some n \<Rightarrow> cur # script_tokens [] (drop (n - 1) cs)
      | None \<Rightarrow>
          if c \<in> set token_separators then cur # script_tokens [] cs
          else script_tokens (cur @ [c]) cs)"
  by pat_completeness auto
termination
  by (relation "measure (\<lambda>(cur, s). length s)") auto

declare script_tokens.simps(2) [simp del]

definition is_quote :: "char \<Rightarrow> bool" where
  "is_quote c \<longleftrightarrow> c = CHR 0x27 \<or> c = CHR 0x22 \<or> c = CHR 0x60"

definition trim_quotes :: "string \<Rightarrow> string" where
  "trim_quotes s = rev (dropWhile is_quote (rev (dropWhile is_quote s)))"

definition script_may_invoke_git :: "string \<Rightarrow> bool" where
  "script_may_invoke_git cmd \<longleftrightarrow>
     list_ex (\<lambda>token. trim_quotes token \<noteq> [] \<and> normalized_token_basename (trim_quotes token) = ''git'')
       (script_tokens [] cmd)"

subsection \<open>The normal form is the command that runs\<close>

lemma unwrap_rounds_complete:
  "\<not> wp_exhausted (unwrap_rounds n p) \<Longrightarrow> strip_wrapper_command (wp_words (unwrap_rounds n p)) = None"
proof (induction n arbitrary: p)
  case 0
  then show ?case using strip_wrapper_is_wrapper by fastforce
next
  case (Suc n)
  then show ?case by (cases "strip_wrapper_command (wp_words p)") auto
qed

lemma unwrap_complete:
  "\<not> wp_exhausted (unwrap_wrappers_checked ws) \<Longrightarrow>
   strip_wrapper_command (wp_words (unwrap_wrappers_checked ws)) = None"
  unfolding unwrap_wrappers_checked_def by (rule unwrap_rounds_complete)

lemma peels_star_length: "peels_star ws inner \<Longrightarrow> length inner \<le> length ws"
  using peels_star_suffix by fastforce

lemma peel_transparent_peels:
  "peel_transparent_prefixes ws = PeelReady inner \<Longrightarrow>
   peels_star ws inner \<and> strip_transparent_prefix inner = NotPrefix"
  unfolding peel_transparent_prefixes_def by (rule transparent_rounds_peels)

lemma normalize_exec_rounds_ready:
  "normalize_exec_rounds n ws = ArgvReady inner \<Longrightarrow> peels_star ws inner \<and> irreducible inner"
proof (induction n arbitrary: ws)
  case (Suc n)
  let ?c = "unwrap_wrappers_checked ws"
  from Suc.prems have nc: "\<not> wp_exhausted ?c" by (auto simp: Let_def split: if_splits)
  from Suc.prems obtain after where after: "peel_transparent_prefixes (wp_words ?c) = PeelReady after"
    by (auto simp: Let_def split: if_splits transparent_prefix_peel.splits)
  have w: "peels_star ws (wp_words ?c)"
    using unwrap_peels [of ws] by (simp add: unwrap_wrappers_def)
  from peel_transparent_peels [OF after] have t: "peels_star (wp_words ?c) after"
    "strip_transparent_prefix after = NotPrefix" by auto
  show ?case
  proof (cases "length after = length ws \<or> length after = length (wp_words ?c)")
    case True
    with peels_star_length [OF w] peels_star_length [OF t(1)]
    have "length after = length (wp_words ?c)" by linarith
    with t(1) have "after = wp_words ?c" by (rule peels_star_same_length)
    moreover from True Suc.prems after have "inner = after" by (auto simp: Let_def split: if_splits)
    ultimately show ?thesis using w t(2) unwrap_complete [OF nc] by (simp add: irreducible_def)
  next
    case False
    with Suc.prems after have "normalize_exec_rounds n after = ArgvReady inner"
      by (auto simp: Let_def split: if_splits)
    from Suc.IH [OF this] w t(1) show ?thesis by (meson rtranclp_trans)
  qed
qed simp

lemma normalize_exec_ready:
  assumes "normalize_for_exec_risk ws = ArgvReady inner"
  shows "peels_star ws n \<and> irreducible n \<longleftrightarrow> n = inner"
  using normalize_exec_rounds_ready [OF assms [unfolded normalize_for_exec_risk_def]]
    peels_star_confluent irreducible_peels_star by metis

lemma safe_facts_ready:
  "\<not> sf_exec_risk (segment_exec_facts ws) \<Longrightarrow> \<exists>inner. normalize_for_exec_risk ws = ArgvReady inner"
  by (auto simp: segment_exec_facts_def split: normalized_argv.splits)


definition wrapped_git :: "string list" where
  "wrapped_git = [''timeout'', ''30'', ''command'', ''-p'', ''nice'', ''/usr/bin/GIT.exe'', ''status'']"


subsection \<open>What a read-only query looks like\<close>

text \<open>
  The globals that are modelled as benign, as a grammar.  In the strict form the operand of \<open>-C\<close>
  does not look like an option.
\<close>

inductive benign_globals :: "bool \<Rightarrow> string list \<Rightarrow> bool" for strict where
  bg_none: "benign_globals strict []"
| bg_dir: "benign_globals strict gs \<Longrightarrow> (strict \<Longrightarrow> \<not> starts_with d ''-'' \<or> d = ''-'') \<Longrightarrow>
     benign_globals strict (''-C'' # d # gs)"
| bg_attached: "benign_globals strict gs \<Longrightarrow> attached_git_c_path tok \<noteq> None \<Longrightarrow>
     benign_globals strict (tok # gs)"
| bg_no_pager: "benign_globals strict gs \<Longrightarrow> tok \<in> {''--no-pager'', ''-P''} \<Longrightarrow>
     benign_globals strict (tok # gs)"

definition option_free :: "string \<Rightarrow> bool" where
  "option_free tok \<longleftrightarrow> \<not> starts_with tok ''-''"

lemma verb_scan_verb: "option_free v \<Longrightarrow> git_verb_scan (v # args) = Some (v # args)"
  by (auto simp: git_verb_scan.simps option_free_def starts_with_def)

lemma attached_c_shape: "attached_git_c_path tok \<noteq> None \<Longrightarrow> \<exists>d. d \<noteq> [] \<and> tok = ''-C'' @ d"
  by (auto simp: attached_git_c_path_def strip_prefix_Some split: option.splits if_splits)

lemma attached_c_simps:
  "d \<noteq> [] \<Longrightarrow> attached_git_c_path (''-C'' @ d) = Some d"
  by (simp add: attached_git_c_path_def strip_prefix_def starts_with_def)

lemma verb_scan_globals:
  assumes "benign_globals strict gs"
  shows "git_verb_scan (gs @ rest) = git_verb_scan rest"
  using assms
proof (induction rule: benign_globals.induct)
  case (bg_dir gs d)
  then show ?case by (simp add: git_verb_scan.simps starts_with_def)
next
  case (bg_attached gs tok)
  then obtain d where "d \<noteq> []" "tok = ''-C'' @ d" using attached_c_shape by blast
  with bg_attached show ?case by (simp add: git_verb_scan.simps starts_with_def)
next
  case (bg_no_pager gs tok)
  then show ?case by (auto simp: git_verb_scan.simps starts_with_def)
qed simp

lemma verb_scan_Some:
  "git_verb_scan ws = Some tail \<Longrightarrow>
   \<exists>gs v args. ws = gs @ v # args \<and> tail = v # args \<and> benign_globals False gs \<and> option_free v"
proof (induction ws rule: git_verb_scan.induct)
  case (2 tok rest)
  show ?case
  proof (cases "\<not> starts_with tok ''-''")
    case True
    with "2.prems" have "tail = tok # rest" by (auto simp: git_verb_scan.simps split: if_splits)
    with True show ?thesis
      by (intro exI [of _ "[]"] exI [of _ tok] exI [of _ rest]) (auto simp: option_free_def intro: bg_none)
  next
    case False
    with "2.prems" consider
        (dir) "tok = ''-C''" "git_verb_scan (drop 1 rest) = Some tail"
      | (skip) "tok \<noteq> ''-C''" "git_verb_scan rest = Some tail"
          "attached_git_c_path tok \<noteq> None \<or> tok \<in> {''--no-pager'', ''-P''}"
      by (auto simp: git_verb_scan.simps split: if_splits)
    then show ?thesis
    proof cases
      case dir
      then obtain d rest' where r: "rest = d # rest'" by (cases rest) auto
      from dir "2.IH"(1) False obtain gs v args where
        "drop 1 rest = gs @ v # args" "tail = v # args" "benign_globals False gs" "option_free v"
        by auto
      with r dir show ?thesis
        by (intro exI [of _ "''-C'' # d # gs"] exI [of _ v] exI [of _ args]) (auto intro: bg_dir)
    next
      case skip
      from skip "2.IH"(2) False "2.prems" obtain gs v args where
        *: "rest = gs @ v # args" "tail = v # args" "benign_globals False gs" "option_free v"
        by (auto simp: git_verb_scan.simps split: if_splits)
      from skip(3) *(3) have "benign_globals False (tok # gs)"
        by (auto intro: bg_attached bg_no_pager)
      with * show ?thesis
        by (intro exI [of _ "tok # gs"] exI [of _ v] exI [of _ args]) simp
    qed
  qed
qed simp

lemma verb_index_at:
  assumes "benign_globals strict gs" "option_free v"
  shows "git_safe_query_verb_index (p # gs @ v # args) = Some (Suc (length gs))"
  using verb_scan_globals [OF assms(1)] verb_scan_verb [OF assms(2)]
  by (simp add: git_safe_query_verb_index_def)

lemma global_scan_verb: "option_free v \<Longrightarrow> \<not> git_global_scan (v # args)"
  by (auto simp: git_global_scan.simps option_free_def)

lemma option_flag_Cons: "c \<noteq> CHR ''='' \<Longrightarrow> option_flag (c # cs) = c # option_flag cs"
  by (auto simp: option_flag_def split: option.splits)

lemma single_dash_not_global:
  "c \<noteq> CHR ''-'' \<Longrightarrow> c \<noteq> CHR ''='' \<Longrightarrow> \<not> is_git_config_env_flag (CHR ''-'' # c # cs)
     \<and> \<not> is_git_repo_retarget_flag (CHR ''-'' # c # cs)"
  by (auto simp: is_git_config_env_flag_def is_git_repo_retarget_flag_def option_flag_Cons
      is_accepted_long_option_prefix_def starts_with_def)

lemma plain_global_not_risky:
  "\<not> is_git_config_env_flag ''--no-pager'' \<and> \<not> is_git_repo_retarget_flag ''--no-pager''
   \<and> \<not> git_global_option_takes_value ''--no-pager'' \<and> \<not> git_global_option_takes_value ''-P''
   \<and> git_global_option_takes_value ''-C''
   \<and> attached_git_c_path ''--no-pager'' = None \<and> attached_git_c_path ''-P'' = None
   \<and> attached_git_c_path ''-C'' = None"
  by code_simp

lemma global_scan_globals:
  assumes "benign_globals True gs"
  shows "git_global_scan (gs @ rest) = git_global_scan rest"
  using assms
proof (induction rule: benign_globals.induct)
  case (bg_dir gs d)
  then show ?case
    by (simp add: git_global_scan.simps plain_global_not_risky single_dash_not_global
        is_attached_git_config_c_def after_value_def starts_with_def)
next
  case (bg_attached gs tok)
  then obtain d where "d \<noteq> []" "tok = ''-C'' @ d" using attached_c_shape by blast
  with bg_attached show ?case
    by (simp add: git_global_scan.simps single_dash_not_global is_attached_git_config_c_def starts_with_def)
next
  case (bg_no_pager gs tok)
  then consider "tok = ''--no-pager''" | "tok = ''-P''" by auto
  then show ?case
    using bg_no_pager
    by cases (simp_all add: git_global_scan.simps plain_global_not_risky single_dash_not_global
        is_attached_git_config_c_def after_value_def starts_with_def)
qed simp

text \<open>The condition on everything after \<open>git\<close> once the verb is known.\<close>

definition query_options_ok :: "string \<Rightarrow> string list \<Rightarrow> bool" where
  "query_options_ok v ws \<longleftrightarrow>
     v \<in> set SAFE_GIT_SUBCOMMANDS \<and> list_all (\<lambda>w. \<not> git_query_option_is_unsafe w) ws
     \<and> (v = ''grep'' \<longrightarrow> list_all (\<lambda>w. \<not> starts_with w ''-O'') ws)"

lemma unsafe_option_at:
  assumes "benign_globals strict gs" "option_free v"
  shows "git_words_have_unsafe_query_option (''git'' # gs @ v # args) \<longleftrightarrow>
    \<not> list_all (\<lambda>w. \<not> git_query_option_is_unsafe w) (gs @ v # args)
    \<or> (v = ''grep'' \<and> \<not> list_all (\<lambda>w. \<not> starts_with w ''-O'') (gs @ v # args))"
  by (simp add: git_words_have_unsafe_query_option_def first_opt_def verb_index_at [OF assms]
      nth_append list_all_iff list_ex_iff del: list_all_append list_ex_append)

lemma read_only_at:
  assumes "benign_globals strict gs" "option_free v"
  shows "git_words_are_read_only_query (''git'' # gs @ v # args) \<longleftrightarrow>
    \<not> git_global_scan (gs @ v # args) \<and> query_options_ok v (gs @ v # args)"
  by (simp add: git_words_are_read_only_query_def first_opt_def verb_index_at [OF assms] nth_append
      git_has_exec_risk_global_def unsafe_option_at [OF assms] query_options_ok_def) blast

lemma read_only_shape:
  assumes "git_words_are_read_only_query ws"
  shows "\<exists>gs v args. ws = ''git'' # gs @ v # args \<and> benign_globals False gs \<and> option_free v"
proof -
  from assms obtain rest where ws: "ws = ''git'' # rest"
    by (cases ws) (auto simp: git_words_are_read_only_query_def first_opt_def split: if_splits)
  from assms ws obtain tail where "git_verb_scan rest = Some tail"
    by (auto simp: git_words_are_read_only_query_def git_safe_query_verb_index_def first_opt_def
        split: if_splits option.splits)
  from verb_scan_Some [OF this] ws show ?thesis by auto
qed

text \<open>
  Exactly which \<open>git\<close> command lines are approved as read-only queries.  Anything approved is
  literally \<open>git\<close>, then only \<open>-C\<close> directories and pager switches, then a verb of the table, with no
  option of the unsafe table (nor an abbreviation of one) anywhere and no \<open>-O\<close> word under \<open>grep\<close>;
  and where no \<open>-C\<close> operand looks like an option, that is also sufficient: the extra scan of the
  globals decides nothing there.
\<close>
theorem read_only_git_queries:
  shows "git_words_are_read_only_query ws \<longrightarrow>
      (\<exists>gs v args. ws = ''git'' # gs @ v # args \<and> benign_globals False gs
         \<and> query_options_ok v (gs @ v # args))
    \<and> (benign_globals True gs \<and> option_free v \<longrightarrow>
         git_words_are_read_only_query (''git'' # gs @ v # args) = query_options_ok v (gs @ v # args))"
proof (intro conjI impI)
  assume ro: "git_words_are_read_only_query ws"
  from read_only_shape [OF ro] obtain gs v args where
    *: "ws = ''git'' # gs @ v # args" "benign_globals False gs" "option_free v" by blast
  with ro show "\<exists>gs v args. ws = ''git'' # gs @ v # args \<and> benign_globals False gs
         \<and> query_options_ok v (gs @ v # args)"
    using read_only_at by blast
next
  assume *: "benign_globals True gs \<and> option_free v"
  show "git_words_are_read_only_query (''git'' # gs @ v # args) = query_options_ok v (gs @ v # args)"
    using read_only_at [of True gs v args] global_scan_globals [of gs "v # args"]
      global_scan_verb [of v args] * by blast
qed

lemma read_only_git_queries_witness:
  "git_words_are_read_only_query [''git'', ''-C'', ''/tmp/r'', ''-P'', ''log'', ''-p'']
   \<and> benign_globals True [''-C'', ''/tmp/r'', ''-P'']
   \<and> query_options_ok ''log'' [''-C'', ''/tmp/r'', ''-P'', ''log'', ''-p'']"
proof -
  have q: "git_words_are_read_only_query [''git'', ''-C'', ''/tmp/r'', ''-P'', ''log'', ''-p'']"
    by code_simp
  have g: "benign_globals True [''-C'', ''/tmp/r'', ''-P'']"
    by (intro bg_dir bg_no_pager bg_none) (simp_all add: starts_with_def)
  have v: "option_free ''log''" by code_simp
  show ?thesis
    using q g v read_only_git_queries [of _ "[''-C'', ''/tmp/r'', ''-P'']" "''log''" "[''-p'']"] by simp
qed

text \<open>
  Three command lines that are approved as read-only although they are not: a \<open>-O\<close> bundled
  behind another short option of \<open>git grep\<close> (which opens the matches in a program of the caller's
  choice), the deletion of a branch, and a branch description, which runs the repository's editor.
\<close>
lemma approved_but_not_read_only:
  "git_words_are_read_only_query [''git'', ''grep'', ''-nOtouch x'', ''pattern'']
   \<and> \<not> git_words_are_read_only_query [''git'', ''grep'', ''-Otouch x'', ''pattern'']
   \<and> git_words_are_read_only_query [''git'', ''branch'', ''-D'', ''main'']
   \<and> git_words_are_read_only_query [''git'', ''branch'', ''--edit-description'']"
  by code_simp

subsection \<open>What a clean ambient scan guarantees\<close>

text \<open>The shell's working directory after a list of segments, when every \<open>cd\<close> among them succeeds.\<close>

definition chdir_step :: "string list \<Rightarrow> string \<Rightarrow> string option" where
  "chdir_step raw cwd =
     (case normalize_for_exec_risk raw of
        ArgvFailClosed \<Rightarrow> None
      | ArgvReady words \<Rightarrow>
          if normalized_program_name words \<in> {Some ''cd'', Some ''pushd''}
          then apply_literal_chdir cwd words
          else if normalized_program_name words = Some ''popd'' then None else Some cwd)"

primrec cwd_after :: "string list list \<Rightarrow> string \<Rightarrow> string option" where
  "cwd_after [] cwd = Some cwd"
| "cwd_after (raw # segments) cwd = Option.bind (chdir_step raw cwd) (cwd_after segments)"

lemma ambient_scan_Cons:
  assumes scan: "ambient_scan (raw # segments) cwd acc = ScanCheckDirs ds"
  obtains words next_cwd acc' where "normalize_for_exec_risk raw = ArgvReady words"
    "chdir_step raw cwd = Some next_cwd" "ambient_scan segments next_cwd acc' = ScanCheckDirs ds"
    "set acc \<subseteq> set acc'"
    "is_git_program words \<longrightarrow> (\<exists>e. git_effective_cwd words cwd = Some e \<and> e \<in> set acc')"
proof -
  from scan obtain words where w: "normalize_for_exec_risk raw = ArgvReady words"
    by (auto split: normalized_argv.splits)
  let ?prog = "normalized_program_name words"
  consider (cd) "?prog = Some ''cd'' \<or> ?prog = Some ''pushd''" | (git) "?prog = Some ''git''"
    | (other) "?prog \<notin> {Some ''cd'', Some ''pushd'', Some ''popd'', Some ''git''}"
    using scan w by (auto simp: Let_def split: if_splits)
  then show thesis
  proof cases
    case cd
    then obtain c where "apply_literal_chdir cwd words = Some c" "ambient_scan segments c acc = ScanCheckDirs ds"
      using scan w by (auto simp: Let_def split: if_splits option.splits)
    with cd w that [of words c acc] show thesis by (auto simp: chdir_step_def is_git_program_def)
  next
    case git
    then obtain e where "git_effective_cwd words cwd = Some e"
      "ambient_scan segments cwd (acc @ [e]) = ScanCheckDirs ds"
      using scan w by (auto simp: Let_def split: if_splits option.splits)
    with git w that [of words cwd "acc @ [e]"] show thesis by (auto simp: chdir_step_def)
  next
    case other
    with scan w that [of words cwd acc] show thesis by (auto simp: chdir_step_def is_git_program_def)
  qed
qed

lemma ambient_scan_keeps: "ambient_scan segments cwd acc = ScanCheckDirs ds \<Longrightarrow> set acc \<subseteq> set ds"
proof (induction segments arbitrary: cwd acc)
  case (Cons raw segments)
  from Cons.prems show ?case by (rule ambient_scan_Cons) (use Cons.IH in blast)
qed (auto split: if_splits)

lemma ambient_scan_covers:
  assumes "ambient_scan (pre @ raw # post) cwd acc = ScanCheckDirs ds"
    "normalize_for_exec_risk raw = ArgvReady words" "is_git_program words"
  shows "\<exists>c e. cwd_after pre cwd = Some c \<and> git_effective_cwd words c = Some e \<and> e \<in> set ds"
  using assms(1)
proof (induction pre arbitrary: cwd acc)
  case Nil
  then have "ambient_scan (raw # post) cwd acc = ScanCheckDirs ds" by simp
  then show ?case
    by (rule ambient_scan_Cons) (use assms(2,3) ambient_scan_keeps in fastforce)
next
  case (Cons p pre)
  then have "ambient_scan (p # pre @ raw # post) cwd acc = ScanCheckDirs ds" by simp
  then show ?case by (rule ambient_scan_Cons) (use Cons.IH in fastforce)
qed

lemma ambient_scan_normalised:
  "ambient_scan segments cwd acc = ScanCheckDirs ds \<Longrightarrow> raw \<in> set segments \<Longrightarrow>
   \<exists>w. normalize_for_exec_risk raw = ArgvReady w"
proof (induction segments arbitrary: cwd acc)
  case (Cons p segments)
  from Cons.prems(1) show ?case by (rule ambient_scan_Cons) (use Cons in auto)
qed simp

lemma entries_have_exec_iff:
  "entries_have_exec G es \<longleftrightarrow>
     None \<in> set es \<or> (\<exists>e. Some e \<in> set es \<and> ge_level e \<noteq> LevelOther
       \<and> local_git_config_entry_is_exec G (unwrap_or_empty (ge_name e)) (unwrap_or_empty (ge_value e)))"
  by (induction G es rule: entries_have_exec.induct) auto

definition repo_config_clean :: "git_host \<Rightarrow> string \<Rightarrow> bool" where
  "repo_config_clean G cwd \<longleftrightarrow>
     (case git_discover G cwd of
        RepoNotFound \<Rightarrow> True
      | RepoError \<Rightarrow> False
      | RepoFound repo \<Rightarrow>
          (case repo_entries repo of
             None \<Rightarrow> False
           | Some es \<Rightarrow> list_all (\<lambda>en. case en of None \<Rightarrow> False | Some e \<Rightarrow>
               ge_level e = LevelOther
               \<or> \<not> local_git_config_entry_is_exec G (unwrap_or_empty (ge_name e))
                     (unwrap_or_empty (ge_value e))) es))"

lemma no_risk_clean: "\<not> local_repo_config_has_exec_risk G cwd \<Longrightarrow> repo_config_clean G cwd"
  by (auto simp: local_repo_config_has_exec_risk_def repo_config_clean_def entries_have_exec_iff
      list_all_iff split: discover_result.splits option.splits if_splits) (metis not_None_eq)

text \<open>
  When the ambient scan finds no risk, every segment of the script was normalised, and for each
  segment whose running command is \<open>git\<close> the directory it runs in (the session's directory moved by
  the \<open>cd\<close>s before it, then by its own \<open>-C\<close>s) was determined and the repository found there has a
  readable configuration without a local or worktree entry that would execute a program.
\<close>
theorem clean_scan_covers_every_git:
  assumes "\<not> ambient_exec_risk_from_plan G (ambient_scan_plan_from_segments (pre @ raw # post) cwd)"
    and "peels_star raw n" "irreducible n" "is_git_program n"
  shows "\<exists>c e. cwd_after pre cwd = Some c \<and> git_effective_cwd n c = Some e \<and> repo_config_clean G e"
proof -
  from assms(1) obtain ds where
    plan: "ambient_scan (pre @ raw # post) cwd [] = ScanCheckDirs ds"
    and safe: "\<forall>d\<in>set ds. \<not> local_repo_config_has_exec_risk G d"
    by (auto simp: ambient_exec_risk_from_plan_def ambient_scan_plan_from_segments_def list_ex_iff
        split: ambient_scan_plan.splits)
  from ambient_scan_normalised [OF plan, of raw]
  have "\<exists>w. normalize_for_exec_risk raw = ArgvReady w" by simp
  then obtain w where w: "normalize_for_exec_risk raw = ArgvReady w" ..
  with assms(2,3) have "n = w" using normalize_exec_ready by blast
  with ambient_scan_covers [OF plan w] assms(4) safe no_risk_clean show ?thesis by blast
qed

definition demo_git_host :: git_host where
  "demo_git_host =
     \<lparr>git_discover = (\<lambda>d. if d = ''/evil'' then
          RepoFound \<lparr>repo_path = ''/evil/.git/'', repo_commondir = ''/evil/.git/'',
            repo_entries = Some [Some \<lparr>ge_level = LevelLocal, ge_name = Some ''core.fsmonitor'',
                                       ge_value = Some ''./run-me''\<rparr>]\<rparr>
          else RepoNotFound),
      git_parse_bool = (\<lambda>v. if v = ''true'' then Some True else None),
      git_open_file = (\<lambda>p. Opened (Some True))\<rparr>"

definition git_status :: "string list" where "git_status = [''git'', ''status'']"

lemma git_status_running: "peels_star git_status git_status \<and> irreducible git_status \<and> is_git_program git_status"
proof -
  have "irreducible git_status" "is_git_program git_status" unfolding irreducible_def by code_simp+
  then show ?thesis by simp
qed

lemma clean_scan_covers_every_git_witness:
  "\<exists>c e. cwd_after [[''cd'', ''/tmp'']] ''/evil'' = Some c \<and> git_effective_cwd git_status c = Some e
     \<and> repo_config_clean demo_git_host e"
proof -
  have "\<not> ambient_exec_risk_from_plan demo_git_host
          (ambient_scan_plan_from_segments ([[''cd'', ''/tmp'']] @ git_status # []) ''/evil'')"
    by code_simp
  from clean_scan_covers_every_git [OF this] git_status_running show ?thesis by blast
qed

text \<open>
  The scan sees the segments and not the operators between them.  In \<open>cd /tmp | git status\<close> the
  \<open>cd\<close> runs in a subshell of its own, so \<open>git\<close> stays in the session's directory; the plan nevertheless
  searches \<open>/tmp\<close> only, and in a repository whose configuration runs a program on \<open>git status\<close> the
  scan reports no risk, although for \<open>git status\<close> alone it does.
\<close>
lemma piped_cd_hides_the_repository:
  "ambient_scan_plan_from_segments [[''cd'', ''/tmp''], git_status] cwd = ScanCheckDirs [''/tmp'']
   \<and> \<not> ambient_exec_risk_from_plan demo_git_host
         (ambient_scan_plan_from_segments [[''cd'', ''/tmp''], git_status] ''/evil'')
   \<and> ambient_exec_risk_from_plan demo_git_host
         (ambient_scan_plan_from_segments [git_status] ''/evil'')"
proof -
  have "is_absolute ''/tmp''" "is_static_path_operand ''/tmp''"
    "normalize_for_exec_risk [''cd'', ''/tmp''] = ArgvReady [''cd'', ''/tmp'']"
    "normalize_for_exec_risk git_status = ArgvReady git_status"
    "normalized_program_name [''cd'', ''/tmp''] = Some ''cd''"
    "normalized_program_name git_status = Some ''git''"
    "chdir_target [''/tmp''] None = Some (Some ''/tmp'')"
    by code_simp+
  then have p: "ambient_scan_plan_from_segments [[''cd'', ''/tmp''], git_status] cwd
      = ScanCheckDirs [''/tmp'']" for cwd
    by (simp add: ambient_scan_plan_from_segments_def Let_def apply_literal_chdir_def join_cwd_def
        git_effective_cwd_def git_status_def git_cwd_scan.simps starts_with_def)
  have "\<not> ambient_exec_risk_from_plan demo_git_host (ScanCheckDirs [''/tmp''])"
    "ambient_exec_risk_from_plan demo_git_host (ambient_scan_plan_from_segments [git_status] ''/evil'')"
    by code_simp+
  with p show ?thesis by simp
qed

text \<open>
  Wrappers whose options are not modelled do not fail closed here: behind an unknown option of
  \<open>env\<close> a \<open>git -c\<close> override is neither an execution risk nor recognised as \<open>git\<close>, while without
  the option it is flagged.
\<close>
lemma unmodelled_env_option_hides_git:
  "segment_exec_facts [''env'', ''--ignore-signal=HUP'', ''git'', ''-c'', ''core.pager=x'', ''log'']
     = \<lparr>sf_exec_risk = False, sf_has_git = False\<rparr>
   \<and> segment_exec_facts [''env'', ''git'', ''-c'', ''core.pager=x'', ''log'']
     = \<lparr>sf_exec_risk = True, sf_has_git = True\<rparr>"
  by code_simp
text \<open>
  The gaps of the static risk scan.  A \<open>cd\<close> in a pipeline sends the configuration scan to a
  directory \<open>git\<close> never runs in, so a repository that executes a program is reported clean; a
  \<open>-O\<close> bundled behind another short option of \<open>git grep\<close> and two modifying forms of
  \<open>git branch\<close> are approved as read-only queries; and behind an unknown option of \<open>env\<close> a
  \<open>git -c\<close> override is neither a risk nor recognised as \<open>git\<close>.
\<close>
theorem exec_risk_gaps:
  "(\<not> ambient_exec_risk_from_plan demo_git_host
         (ambient_scan_plan_from_segments [[''cd'', ''/tmp''], git_status] ''/evil'')
    \<and> ambient_exec_risk_from_plan demo_git_host
         (ambient_scan_plan_from_segments [git_status] ''/evil''))
   \<and> git_words_are_read_only_query [''git'', ''grep'', ''-nOtouch x'', ''pattern'']
   \<and> \<not> git_words_are_read_only_query [''git'', ''grep'', ''-Otouch x'', ''pattern'']
   \<and> git_words_are_read_only_query [''git'', ''branch'', ''-D'', ''main'']
   \<and> git_words_are_read_only_query [''git'', ''branch'', ''--edit-description'']
   \<and> segment_exec_facts [''env'', ''--ignore-signal=HUP'', ''git'', ''-c'', ''core.pager=x'', ''log'']
     = \<lparr>sf_exec_risk = False, sf_has_git = False\<rparr>
   \<and> segment_exec_facts [''env'', ''git'', ''-c'', ''core.pager=x'', ''log'']
     = \<lparr>sf_exec_risk = True, sf_has_git = True\<rparr>"
  using piped_cd_hides_the_repository [of "''/evil''"] approved_but_not_read_only
    unmodelled_env_option_hides_git by blast

end
