(* ===== verification/ShellAccess.thy ===== *)
theory ShellAccess
  imports PolicyProofs
begin

section \<open>Files read and written by a shell command\<close>

text \<open>
  \<open>permission/shell_access.rs\<close>: the files a script reads or writes through its commands and its
  redirections, the gate that applies the file rules of the policy to them, the paths an edit must
  not touch silently, and the floor for shells inside shells.

  The syntax tree is walked with an explicit stack, as in the source.  A stack element carries the
  chain of its ancestors, each with the sibling that follows the step taken, which is what
  \<open>parent()\<close> and \<open>next_sibling()\<close> return.
\<close>

subsection \<open>Modes and programs\<close>

datatype shell_file_mode = ReadMode | WriteMode | CreateMode

definition shell_reader_programs :: "string list" where
  "shell_reader_programs =
     [''cat'', ''tac'', ''nl'', ''head'', ''tail'', ''grep'', ''egrep'', ''fgrep'', ''rg'', ''sed'',
      ''awk'', ''less'', ''more'', ''bat'', ''strings'', ''xxd'', ''od'', ''hexdump'', ''base64'',
      ''base32'', ''cut'', ''sort'', ''uniq'', ''wc'', ''type'', ''get-content'', ''gc'', ''diff'',
      ''comm'', ''rev'', ''jq'', ''yq'', ''select-string'', ''sls'', ''ag'', ''ack'', ''zcat'',
      ''zless'', ''zmore'', ''zgrep'', ''zegrep'', ''zfgrep'', ''bzcat'', ''bzgrep'', ''xzcat'',
      ''xzgrep'', ''zstdcat'', ''lz4cat'']"

definition shell_writer_programs :: "string list" where
  "shell_writer_programs =
     [''tee'', ''set-content'', ''out-file'', ''add-content'', ''tee-object'', ''truncate'']"

definition shell_file_mode :: "string \<Rightarrow> shell_file_mode option" where
  "shell_file_mode program =
     (if program \<in> set shell_reader_programs then Some ReadMode
      else if program \<in> set shell_writer_programs then Some WriteMode
      else None)"

definition shell_program_name :: "string \<Rightarrow> string" where
  "shell_program_name word = base_name word"

subsection \<open>Walking the tree\<close>

type_synonym ts_frames = "(ts_node \<times> ts_node option) list"

definition child_frames :: "ts_node \<Rightarrow> ts_frames \<Rightarrow> (ts_node \<times> ts_frames) list" where
  "child_frames p ctx =
     (let ch = ts_children p in
      map (\<lambda>i. (ch ! i, (p, if Suc i < length ch then Some (ch ! Suc i) else None) # ctx))
        [0..<length ch])"

lemma child_frames_nodes: "map fst (child_frames p ctx) = ts_children p"
  by (simp add: child_frames_def Let_def comp_def map_nth)

text \<open>The nodes in the order the stack yields them; the top of the stack is the head.\<close>

function visit_nodes :: "(ts_node \<times> ts_frames) list \<Rightarrow> (ts_node \<times> ts_frames) list" where
  "visit_nodes [] = []"
| "visit_nodes ((n, ctx) # stack) = (n, ctx) # visit_nodes (rev (child_frames n ctx) @ stack)"
  by pat_completeness auto

lemma size_list_fst: "size_list (size \<circ> fst) xs = size_list size (map fst xs)"
  by (induction xs) auto

lemma child_frames_size: "size_list (size \<circ> fst) (child_frames n ctx) = size_list size (ts_children n)"
  unfolding size_list_fst child_frames_nodes ..

lemma children_smaller: "size_list size (ts_children n) < size n"
  by (cases n) simp

termination visit_nodes
proof (relation "measure (size_list (size \<circ> fst))", goal_cases)
  case (2 n ctx stack)
  from children_smaller [of n] show ?case
    by (simp only: in_measure size_list_append size_list_rev child_frames_size list.size) (simp add: comp_def)
qed simp

definition tree_nodes :: "ts_node \<Rightarrow> (ts_node \<times> ts_frames) list" where
  "tree_nodes root = visit_nodes [(root, [])]"

definition child_by_field :: "string \<Rightarrow> ts_node \<Rightarrow> ts_node option" where
  "child_by_field f n = List.find (\<lambda>c. ts_field c = Some f) (ts_children n)"

subsection \<open>Execution scopes\<close>

record exec_scope =
  sc_start :: int
  sc_end :: int

definition scope_contains :: "exec_scope \<Rightarrow> exec_scope \<Rightarrow> bool" where
  "scope_contains a b \<longleftrightarrow> sc_start a \<le> sc_start b \<and> sc_end b \<le> sc_end a"

definition node_scope :: "ts_node \<Rightarrow> exec_scope" where
  "node_scope n = \<lparr>sc_start = int (ts_start n), sc_end = int (ts_end n)\<rparr>"

definition whole_scope :: exec_scope where
  "whole_scope = \<lparr>sc_start = 0, sc_end = 2 ^ 64 - 1\<rparr>"

fun execution_scope :: "ts_node \<Rightarrow> ts_frames \<Rightarrow> exec_scope" where
  "execution_scope current [] = whole_scope"
| "execution_scope current ((up, sibling) # ctx) =
     (if (case sibling of Some s \<Rightarrow> ts_kind s = ''&'' | None \<Rightarrow> False)
      then node_scope (if ts_kind current = ''list'' then current else up)
      else if ts_kind up \<in> {''subshell'', ''command_substitution'', ''process_substitution''}
      then node_scope up
      else if ts_kind up = ''pipeline'' then node_scope current
      else execution_scope up ctx)"

record cwd_poison =
  cp_at :: nat
  cp_scope :: exec_scope

definition is_cwd_changer :: "string \<Rightarrow> bool" where
  "is_cwd_changer program \<longleftrightarrow> program \<in> {''cd'', ''pushd'', ''popd''}"

definition poison_of :: "string \<Rightarrow> ts_node \<times> ts_frames \<Rightarrow> cwd_poison option" where
  "poison_of src nc =
     (case nc of (node, ctx) \<Rightarrow>
        if ts_kind node = ''command''
           \<and> (case Option.bind (child_by_field ''name'' node) (node_text src) of
                None \<Rightarrow> False
              | Some program \<Rightarrow> is_cwd_changer (shell_program_name program))
        then Some \<lparr>cp_at = ts_start node, cp_scope = execution_scope node ctx\<rparr> else None)"

definition cwd_poison_positions :: "ts_node \<Rightarrow> string \<Rightarrow> cwd_poison list" where
  "cwd_poison_positions root src = List.map_filter (poison_of src) (tree_nodes root)"

definition script_has_cwd_change :: "ts_node \<Rightarrow> string \<Rightarrow> bool" where
  "script_has_cwd_change root src \<longleftrightarrow> cwd_poison_positions root src \<noteq> []"

definition cwd_unpinned_before :: "cwd_poison list \<Rightarrow> nat \<Rightarrow> exec_scope \<Rightarrow> bool" where
  "cwd_unpinned_before positions pos scope \<longleftrightarrow>
     list_ex (\<lambda>p. cp_at p < pos \<and> (cp_scope p = scope \<or> scope_contains (cp_scope p) scope)) positions"

subsection \<open>Words of an invocation\<close>

record shell_invocation =
  iv_start :: nat
  iv_scope :: exec_scope
  iv_words :: "shell_word list"
  iv_wrapper_words :: "string list"

fun literal_words :: "shell_word list \<Rightarrow> string list" where
  "literal_words [] = []"
| "literal_words (LiteralWord w # ws) = w # literal_words ws"
| "literal_words (UntrustedWord # ws) = literal_words ws"

record invocation_peel =
  ip_words :: "shell_word list"
  ip_has_chdir :: bool
  ip_has_split_string :: bool
  ip_env_options_uncertain :: bool
  ip_exhausted :: bool
  ip_ambiguous :: bool

definition unwrap_invocation_checked :: "shell_invocation \<Rightarrow> invocation_peel" where
  "unwrap_invocation_checked iv =
     (let norm = normalize_command_words (iv_wrapper_words iv);
          peeled_count = length (iv_wrapper_words iv) - length (wp_words norm)
      in \<lparr>ip_words = drop peeled_count (iv_words iv),
          ip_has_chdir = wp_has_chdir norm,
          ip_has_split_string = wp_has_split_string norm,
          ip_env_options_uncertain = wp_env_options_uncertain norm,
          ip_exhausted = wp_exhausted norm,
          ip_ambiguous = np_ambiguous norm\<rparr>)"

datatype arg_text = ArgLiteral string | ArgAmbiguous

definition expansion_kinds :: "string list" where
  "expansion_kinds =
     [''expansion'', ''simple_expansion'', ''command_substitution'', ''arithmetic_expansion'',
      ''process_substitution'']"

text \<open>The node itself is not tested, only its descendants.\<close>

definition node_has_expansion :: "ts_node \<Rightarrow> bool" where
  "node_has_expansion node \<longleftrightarrow>
     list_ex (\<lambda>(n, ctx). ts_kind n \<in> set expansion_kinds) (drop 1 (tree_nodes node))"

definition is_windows_path_like :: "string \<Rightarrow> bool" where
  "is_windows_path_like raw \<longleftrightarrow>
     starts_with raw [bslash, bslash]
     \<or> (case raw of b # c # _ \<Rightarrow> is_ascii_alphabetic b \<and> c = CHR '':'' | _ \<Rightarrow> False)"

fun fold_escapes :: "string \<Rightarrow> string option" where
  "fold_escapes [] = Some []"
| "fold_escapes (c # cs) =
     (if c = bslash then
        (case cs of [] \<Rightarrow> None | n # cs' \<Rightarrow> map_option (\<lambda>r. n # r) (fold_escapes cs'))
      else map_option (\<lambda>r. c # r) (fold_escapes cs))"

definition decode_unquoted_word :: "string \<Rightarrow> string option" where
  "decode_unquoted_word raw =
     (if bslash \<notin> set raw then Some raw
      else if is_windows_path_like raw then Some raw
      else fold_escapes raw)"

fun fold_double_quoted :: "string \<Rightarrow> string option" where
  "fold_double_quoted [] = Some []"
| "fold_double_quoted (c # cs) =
     (if c \<noteq> bslash then map_option (\<lambda>r. c # r) (fold_double_quoted cs)
      else (case cs of
              [] \<Rightarrow> None
            | n # cs' \<Rightarrow>
                if n \<in> {CHR ''$'', CHR 0x60, CHR 0x22, bslash, CHR 0x0A}
                then map_option (\<lambda>r. n # r) (fold_double_quoted cs')
                else map_option (\<lambda>r. bslash # n # r) (fold_double_quoted cs')))"

definition decode_double_quoted_content :: "string \<Rightarrow> string option" where
  "decode_double_quoted_content content =
     (if bslash \<notin> set content then Some content else fold_double_quoted content)"

definition strip_both :: "char \<Rightarrow> string \<Rightarrow> string" where
  "strip_both q raw =
     (case Option.bind (strip_prefix raw [q]) (\<lambda>s. strip_suffix s [q]) of
        Some s \<Rightarrow> s | None \<Rightarrow> raw)"

definition literal_or_ambiguous :: "string option \<Rightarrow> arg_text" where
  "literal_or_ambiguous s = (case s of Some t \<Rightarrow> ArgLiteral t | None \<Rightarrow> ArgAmbiguous)"

definition shell_node_arg :: "ts_node \<Rightarrow> string \<Rightarrow> arg_text option" where
  "shell_node_arg node src =
     (if ts_kind node = ''variable_assignment'' then None
      else if ts_kind node = ''word'' \<or> ts_kind node = ''number'' then
        Some (literal_or_ambiguous (Option.bind (node_text src node) decode_unquoted_word))
      else if ts_kind node = ''raw_string'' then
        map_option (\<lambda>raw. ArgLiteral (strip_both CHR 0x27 raw)) (node_text src node)
      else if ts_kind node = ''string'' then
        (if node_has_expansion node then Some ArgAmbiguous
         else map_option
           (\<lambda>raw. literal_or_ambiguous (decode_double_quoted_content (strip_both CHR 0x22 raw)))
           (node_text src node))
      else if ts_kind node = ''concatenation'' then
        (if node_has_expansion node then Some ArgAmbiguous
         else Some (literal_or_ambiguous
                (Option.bind (node_text src node) decode_shell_literal_spelling)))
      else Some ArgAmbiguous)"

definition operand_word :: "string \<Rightarrow> ts_node \<Rightarrow> shell_word option" where
  "operand_word src child =
     (let operand = (if ts_kind child = ''command_name''
                     then Option.bind (first_opt (filter ts_named (ts_children child)))
                            (\<lambda>inner. shell_node_arg inner src)
                     else shell_node_arg child src)
      in case operand of
           None \<Rightarrow> None
         | Some (ArgLiteral w) \<Rightarrow> Some (LiteralWord w)
         | Some ArgAmbiguous \<Rightarrow> Some UntrustedWord)"

definition wrapper_word :: "shell_word \<Rightarrow> string" where
  "wrapper_word w = (case w of LiteralWord s \<Rightarrow> s | UntrustedWord \<Rightarrow> NUL_WORD)"

definition invocation_of :: "string \<Rightarrow> ts_node \<times> ts_frames \<Rightarrow> shell_invocation option" where
  "invocation_of src nc =
     (case nc of (node, ctx) \<Rightarrow>
        if ts_kind node = ''command'' then
          (let words = List.map_filter (operand_word src) (filter ts_named (ts_children node))
           in Some \<lparr>iv_start = ts_start node, iv_scope = execution_scope node ctx,
                    iv_words = words, iv_wrapper_words = map wrapper_word words\<rparr>)
        else None)"

definition shell_command_invocations :: "ts_node \<Rightarrow> string \<Rightarrow> shell_invocation list" where
  "shell_command_invocations root src =
     sort_key iv_start (List.map_filter (invocation_of src) (tree_nodes root))"

definition words_are_opaque_shell :: "shell_word list \<Rightarrow> bool" where
  "words_are_opaque_shell words \<longleftrightarrow>
     is_potential_inline (shell_dash_c_script words)
     \<or> (case words of LiteralWord p # _ \<Rightarrow> shell_program_name p = ''eval'' | _ \<Rightarrow> False)"

definition tree_has_opaque_shell :: "ts_node \<Rightarrow> string \<Rightarrow> bool" where
  "tree_has_opaque_shell root src \<longleftrightarrow>
     list_ex (\<lambda>iv. words_are_opaque_shell (ip_words (unwrap_invocation_checked iv)))
       (shell_command_invocations root src)"

subsection \<open>Redirections\<close>

record shell_redirect =
  rd_path :: "string option"
  rd_mode :: shell_file_mode
  rd_ambiguous :: bool
  rd_start :: nat
  rd_scope :: exec_scope

definition shell_arg_is_ambiguous :: "string \<Rightarrow> bool" where
  "shell_arg_is_ambiguous token \<longleftrightarrow> CHR ''*'' \<in> set token \<or> CHR ''?'' \<in> set token \<or> CHR ''['' \<in> set token"

fun redirect_kind :: "ts_node list \<Rightarrow> string option" where
  "redirect_kind [] = None"
| "redirect_kind (c # cs) =
     (if contains_str (ts_kind c) ''<<'' then None
      else if CHR ''>'' \<in> set (ts_kind c) \<or> CHR ''<'' \<in> set (ts_kind c) then Some (ts_kind c)
      else redirect_kind cs)"

definition shell_redirect_one :: "ts_node \<Rightarrow> string \<Rightarrow> (string option \<times> shell_file_mode \<times> bool) option" where
  "shell_redirect_one node src =
     (case redirect_kind (ts_children node) of
        None \<Rightarrow> None
      | Some redirect \<Rightarrow>
          (let mode = (if CHR ''>'' \<in> set redirect then WriteMode else ReadMode);
               duplicates_fd = (redirect = ''>&'' \<or> redirect = ''<&'')
           in case Option.bind (child_by_field ''destination'' node) (\<lambda>d. shell_node_arg d src) of
                None \<Rightarrow> None
              | Some (ArgLiteral s) \<Rightarrow>
                  if s = [] \<or> starts_with s ''&''
                     \<or> duplicates_fd \<and> (s = ''-'' \<or> list_all is_ascii_digit s)
                  then None else Some (Some s, mode, shell_arg_is_ambiguous s)
              | Some ArgAmbiguous \<Rightarrow> Some (None, mode, True)))"

definition redirect_of :: "string \<Rightarrow> ts_node \<times> ts_frames \<Rightarrow> shell_redirect option" where
  "redirect_of src nc =
     (case nc of (node, ctx) \<Rightarrow>
        if ts_kind node = ''file_redirect'' then
          (case shell_redirect_one node src of
             None \<Rightarrow> None
           | Some (path, mode, ambiguous) \<Rightarrow>
               Some \<lparr>rd_path = path, rd_mode = mode, rd_ambiguous = ambiguous,
                     rd_start = ts_start node, rd_scope = execution_scope node ctx\<rparr>)
        else None)"

definition shell_redirect_targets :: "ts_node \<Rightarrow> string \<Rightarrow> shell_redirect list" where
  "shell_redirect_targets root src = List.map_filter (redirect_of src) (tree_nodes root)"

subsection \<open>Operands that name files\<close>

fun file_candidates_from :: "bool \<Rightarrow> string list \<Rightarrow> string list" where
  "file_candidates_from end_of_options [] = []"
| "file_candidates_from end_of_options (token # ts) =
     (if \<not> end_of_options \<and> token = ''--'' then file_candidates_from True ts
      else if end_of_options \<or> (token \<noteq> ''-'' \<and> \<not> starts_with token ''-'')
      then token # file_candidates_from end_of_options ts
      else file_candidates_from end_of_options ts)"

definition shell_file_candidates :: "string list \<Rightarrow> string list" where
  "shell_file_candidates words = file_candidates_from False (drop 1 words)"

definition shell_sed_in_place :: "string list \<Rightarrow> bool" where
  "shell_sed_in_place words \<longleftrightarrow>
     list_ex (\<lambda>w. w = ''--in-place'' \<or> starts_with w ''--in-place=''
                  \<or> starts_with w ''-'' \<and> \<not> starts_with w ''--'' \<and> CHR ''i'' \<in> set w)
       (drop 1 words)"

definition nonempty_suffix :: "string \<Rightarrow> string \<Rightarrow> string option" where
  "nonempty_suffix token p =
     (case strip_prefix token p of Some v \<Rightarrow> (if v \<noteq> [] then Some v else None) | None \<Rightarrow> None)"

fun shell_output_flag_values :: "string list \<Rightarrow> string list" where
  "shell_output_flag_values [] = []"
| "shell_output_flag_values (token # ts) =
     (case (strip_prefix token ''--output='', nonempty_suffix token ''-o'') of
        (Some v, _) \<Rightarrow> [v]
      | (None, Some v) \<Rightarrow> [v]
      | (None, None) \<Rightarrow>
          if token = ''--output'' \<or> token = ''-o''
          then (case first_opt ts of Some v \<Rightarrow> [v] | None \<Rightarrow> []) else [])
     @ shell_output_flag_values ts"

fun value_flag_values :: "string list \<Rightarrow> string \<Rightarrow> string list" where
  "value_flag_values [] flag = []"
| "value_flag_values (token # ts) flag =
     (case strip_prefix token (flag @ ''='') of
        Some v \<Rightarrow> [v]
      | None \<Rightarrow>
          if token = flag then (case first_opt ts of Some v \<Rightarrow> [v] | None \<Rightarrow> [])
          else if \<not> starts_with flag ''--'' then
            (case nonempty_suffix token flag of Some v \<Rightarrow> [v] | None \<Rightarrow> [])
          else [])
     @ value_flag_values ts flag"

definition dd_operand :: "string \<Rightarrow> (string \<times> shell_file_mode) option" where
  "dd_operand token =
     (case strip_prefix token ''if='' of
        Some p \<Rightarrow> Some (p, ReadMode)
      | None \<Rightarrow> map_option (\<lambda>p. (p, WriteMode)) (strip_prefix token ''of=''))"

definition special_file_operands :: "string \<Rightarrow> string list \<Rightarrow> (string \<times> shell_file_mode) list" where
  "special_file_operands program words =
     (if program = ''dd'' then List.map_filter dd_operand (drop 1 words)
      else if program = ''sort'' \<or> program = ''go'' \<or> program = ''git'' then
        map (\<lambda>v. (v, WriteMode)) (shell_output_flag_values words)
      else if program = ''rustc'' then
        map (\<lambda>v. (v, WriteMode)) (shell_output_flag_values words @ value_flag_values words ''--out-dir'')
      else if program = ''rustfmt'' then map (\<lambda>v. (v, WriteMode)) (shell_file_candidates words)
      else [])"

definition is_creation_program :: "string \<Rightarrow> bool" where
  "is_creation_program program \<longleftrightarrow> program = ''mkdir'' \<or> program = ''touch''"

definition shell_path_command_operands ::
    "string \<Rightarrow> string list \<Rightarrow> (string \<times> shell_file_mode) list option" where
  "shell_path_command_operands program words =
     (let operands = shell_file_candidates words in
      if program \<in> {''cp'', ''mv'', ''ln'', ''install''} then
        (if operands = [] then None
         else Some (map (\<lambda>s. (s, ReadMode)) (butlast operands) @ [(last operands, WriteMode)]))
      else if program = ''rm'' \<or> program = ''rmdir'' then Some (map (\<lambda>c. (c, WriteMode)) operands)
      else if is_creation_program program then Some (map (\<lambda>c. (c, CreateMode)) operands)
      else if program = ''uniq'' then
        (case operands of
           inp # outp # _ \<Rightarrow> Some [(inp, ReadMode), (outp, WriteMode)]
         | _ \<Rightarrow> None)
      else None)"

definition is_directory_operand :: "string \<Rightarrow> bool" where
  "is_directory_operand token \<longleftrightarrow> token = ''.'' \<or> token = ''..'' \<or> ends_with token ''/''"

definition shell_reader_can_recurse :: "string \<Rightarrow> string list \<Rightarrow> string list \<Rightarrow> bool" where
  "shell_reader_can_recurse program words candidates \<longleftrightarrow>
     program \<in> {''grep'', ''egrep'', ''fgrep''}
       \<and> list_ex (\<lambda>w. w = ''--recursive'' \<or> w = ''--dereference-recursive''
                     \<or> starts_with w ''-'' \<and> \<not> starts_with w ''--''
                        \<and> (CHR ''r'' \<in> set w \<or> CHR ''R'' \<in> set w)) words
     \<or> program \<in> {''rg'', ''ag'', ''ack''}
       \<and> (length candidates \<le> 1 \<or> list_ex is_directory_operand (drop 1 candidates))"

subsection \<open>Spelling of paths\<close>

definition is_absolute_shell_path :: "string \<Rightarrow> bool" where
  "is_absolute_shell_path path \<longleftrightarrow>
     starts_with path ''/'' \<or> starts_with path ''~/''
     \<or> (case path of _ # b # _ \<Rightarrow> b = CHR '':'' | _ \<Rightarrow> False)"

definition is_path_quote :: "char \<Rightarrow> bool" where
  "is_path_quote c \<longleftrightarrow> c = CHR 0x22 \<or> c = CHR 0x27"

definition normalize_shell_path_raw :: "string \<Rightarrow> string" where
  "normalize_shell_path_raw path =
     (let p = path_match_string (rev (dropWhile is_path_quote (rev (dropWhile is_path_quote path))))
      in case strip_prefix p ''/c/'' of Some rest \<Rightarrow> ''C:/'' @ rest | None \<Rightarrow> p)"

definition push_segment :: "bool \<Rightarrow> string list \<Rightarrow> string \<Rightarrow> string list" where
  "push_segment rooted out seg =
     (if seg = [] \<or> seg = ''.'' then out
      else if seg = ''..'' then
        (if out \<noteq> [] \<and> last out \<noteq> ''..'' then butlast out
         else if \<not> rooted then out @ [''..''] else out)
      else out @ [seg])"

definition lexical_normalize :: "string \<Rightarrow> string" where
  "lexical_normalize path =
     (let n = (case path of _ # b # _ \<Rightarrow> if b = CHR '':'' then 2 else 0 | _ \<Rightarrow> 0);
          drive = take n path; rest = drop n path; rooted = starts_with rest ''/'';
          body = join_str ''/'' (foldl (push_segment rooted) [] (split_char CHR ''/'' rest))
      in if rooted then drive @ ''/'' @ body else drive @ body)"

definition normalize_shell_path :: "string \<Rightarrow> string" where
  "normalize_shell_path path = lexical_normalize (normalize_shell_path_raw path)"

definition shell_access :: "shell_file_mode \<Rightarrow> string \<Rightarrow> access_kind" where
  "shell_access mode path = (case mode of ReadMode \<Rightarrow> ReadAccess (Some path) | _ \<Rightarrow> EditAccess path)"

subsection \<open>The file gate of a script\<close>

definition escalate_access ::
    "'g host \<Rightarrow> 'g compiled_policy \<Rightarrow> string option \<Rightarrow> access_kind \<Rightarrow> gate_decision option" where
  "escalate_access H pol rule_cwd access =
     (case evaluate_lexical_with_cwd H pol access rule_cwd of
        Some (DReject reason) \<Rightarrow> Some (GReject reason)
      | Some DAsk \<Rightarrow> Some GAskRuleMatch
      | _ \<Rightarrow> None)"

definition shell_absolute :: "string \<Rightarrow> string \<Rightarrow> string" where
  "shell_absolute cwd path =
     (if is_absolute_shell_path path then path else normalize_shell_path (path_join cwd path))"

definition raw_absolute_operand :: "string \<Rightarrow> bool \<Rightarrow> string \<Rightarrow> string option" where
  "raw_absolute_operand cwd cwd_unpinned token =
     (let raw = normalize_shell_path_raw token in
      if is_absolute_shell_path raw then Some raw
      else if cwd_unpinned then None
      else Some (normalize_shell_path_raw (path_join cwd raw)))"

definition resolved_operand_gate ::
    "'g host \<Rightarrow> 'g compiled_policy \<Rightarrow> string option \<Rightarrow> string \<Rightarrow> shell_file_mode \<Rightarrow> bool \<Rightarrow> string
      \<Rightarrow> gate_decision option" where
  "resolved_operand_gate H pol rule_cwd cwd mode cwd_unpinned token =
     (case raw_absolute_operand cwd cwd_unpinned token of
        None \<Rightarrow> None
      | Some raw_absolute \<Rightarrow>
          (case follow_absolute_symlink H raw_absolute (shell_absolute cwd (normalize_shell_path token)) of
             FollowTarget resolved \<Rightarrow> escalate_access H pol rule_cwd (shell_access mode resolved)
           | FollowUnresolvable \<Rightarrow> Some GAskFailClosed
           | FollowNone \<Rightarrow> None))"

definition evaluate_shell_path ::
    "'g host \<Rightarrow> 'g compiled_policy \<Rightarrow> string \<Rightarrow> string \<Rightarrow> shell_file_mode \<Rightarrow> bool
      \<Rightarrow> gate_decision option" where
  "evaluate_shell_path H pol token cwd mode cwd_unpinned =
     (let path = normalize_shell_path token;
          rooted = is_absolute_shell_path path;
          rule_cwd = (if rooted \<or> \<not> cwd_unpinned then Some cwd else None);
          resolved_decision = resolved_operand_gate H pol rule_cwd cwd mode cwd_unpinned token;
          path_decision = escalate_access H pol rule_cwd (shell_access mode path);
          anchored_decision =
            (if cwd_unpinned \<and> \<not> rooted then None
             else combine_gate_decisions
                    (escalate_access H pol rule_cwd (shell_access mode (shell_absolute cwd path)))
                    resolved_decision)
      in combine_gate_decisions (combine_gate_decisions path_decision anchored_decision)
           (fail_closed_if (cwd_unpinned \<and> \<not> rooted)))"

record gate_acc =
  ga_decision :: "gate_decision option"
  ga_forced :: bool

definition force_ask :: "bool \<Rightarrow> gate_acc \<Rightarrow> gate_acc" where
  "force_ask b acc = acc\<lparr>ga_forced := ga_forced acc \<or> b\<rparr>"

definition add_decision :: "gate_decision option \<Rightarrow> gate_acc \<Rightarrow> gate_acc" where
  "add_decision d acc = acc\<lparr>ga_decision := combine_gate_decisions (ga_decision acc) d\<rparr>"

text \<open>An operand: a wildcard forces a prompt, and the path goes through the rules.\<close>

definition add_operand ::
    "'g host \<Rightarrow> 'g compiled_policy \<Rightarrow> string \<Rightarrow> bool \<Rightarrow> string \<times> shell_file_mode \<Rightarrow> gate_acc \<Rightarrow> gate_acc" where
  "add_operand H pol cwd unpinned pm acc =
     add_decision (evaluate_shell_path H pol (fst pm) cwd (snd pm) unpinned)
       (force_ask (shell_arg_is_ambiguous (fst pm)) acc)"

definition add_operands ::
    "'g host \<Rightarrow> 'g compiled_policy \<Rightarrow> string \<Rightarrow> bool \<Rightarrow> (string \<times> shell_file_mode) list \<Rightarrow> gate_acc \<Rightarrow> gate_acc" where
  "add_operands H pol cwd unpinned ops acc =
     foldl (\<lambda>a pm. add_operand H pol cwd unpinned pm a) acc ops"

definition redirect_step ::
    "'g host \<Rightarrow> 'g compiled_policy \<Rightarrow> string \<Rightarrow> bool \<Rightarrow> cwd_poison list \<Rightarrow> gate_acc \<Rightarrow> shell_redirect \<Rightarrow> gate_acc" where
  "redirect_step H pol cwd cwd_unpinned changes acc r =
     (let acc1 = force_ask (rd_ambiguous r) acc in
      case rd_path r of
        None \<Rightarrow> acc1
      | Some path \<Rightarrow>
          add_decision
            (evaluate_shell_path H pol path cwd (rd_mode r)
               (cwd_unpinned \<or> cwd_unpinned_before changes (rd_start r) (rd_scope r))) acc1)"

text \<open>The inline script of an invocation; \<open>rec\<close> is \<open>None\<close> when no depth remains.\<close>

definition inline_step ::
    "(string \<Rightarrow> bool \<Rightarrow> gate_decision option) option \<Rightarrow> bool \<Rightarrow> bool \<Rightarrow> shell_word list \<Rightarrow> gate_acc \<Rightarrow> gate_acc" where
  "inline_step rec parse_failed unpinned words acc =
     (let inline = shell_dash_c_script words;
          acc1 = force_ask (parse_failed \<and> inline \<noteq> NotInline) acc
      in case inline of
           InlineLiteral i \<Rightarrow>
             (case rec of
                None \<Rightarrow> force_ask True acc1
              | Some f \<Rightarrow>
                  (case words ! i of
                     LiteralWord inner \<Rightarrow> add_decision (f inner unpinned) acc1
                   | UntrustedWord \<Rightarrow> acc1))
         | NotInline \<Rightarrow> acc1
         | _ \<Rightarrow> force_ask True acc1)"

definition operand_modes :: "string \<Rightarrow> string list \<Rightarrow> shell_file_mode list" where
  "operand_modes program words =
     (case shell_file_mode program of
        Some m \<Rightarrow>
          if program = ''sed'' \<and> shell_sed_in_place words then [ReadMode, WriteMode]
          else (case m of ReadMode \<Rightarrow> [ReadMode] | WriteMode \<Rightarrow> [WriteMode] | CreateMode \<Rightarrow> [])
      | None \<Rightarrow> [])"

definition program_step ::
    "'g host \<Rightarrow> 'g compiled_policy \<Rightarrow> string \<Rightarrow> bool \<Rightarrow> bool \<Rightarrow> shell_word list \<Rightarrow> string \<Rightarrow> gate_acc \<Rightarrow> gate_acc" where
  "program_step H pol cwd parse_failed unpinned words program acc =
     (let literals = literal_words words;
          candidates = shell_file_candidates literals;
          path_operands = shell_path_command_operands program literals;
          known = (program = ''dd'' \<or> shell_file_mode program \<noteq> None \<or> path_operands \<noteq> None);
          acc1 = force_ask (known \<and> (unpinned \<or> UntrustedWord \<in> set words \<or> parse_failed)) acc;
          acc2 = add_operands H pol cwd unpinned (special_file_operands program literals) acc1
      in if program = ''dd'' then acc2
         else (case path_operands of
                 Some ops \<Rightarrow> add_operands H pol cwd unpinned ops acc2
               | None \<Rightarrow>
                   (let modes = operand_modes program literals in
                    if modes = [] then acc2
                    else force_ask (shell_reader_can_recurse program literals candidates)
                           (add_operands H pol cwd unpinned
                              (concat (map (\<lambda>t. map (\<lambda>m. (t, m)) modes) candidates)) acc2))))"

definition invocation_step ::
    "'g host \<Rightarrow> 'g compiled_policy \<Rightarrow> string \<Rightarrow> (string \<Rightarrow> bool \<Rightarrow> gate_decision option) option \<Rightarrow> bool \<Rightarrow> bool
      \<Rightarrow> cwd_poison list \<Rightarrow> gate_acc \<Rightarrow> shell_invocation \<Rightarrow> gate_acc" where
  "invocation_step H pol cwd rec parse_failed cwd_unpinned changes acc iv =
     (let peeled = unwrap_invocation_checked iv;
          words = ip_words peeled;
          unpinned = (cwd_unpinned \<or> cwd_unpinned_before changes (iv_start iv) (iv_scope iv)
                      \<or> ip_has_chdir peeled);
          acc1 = force_ask (ip_exhausted peeled \<or> ip_has_split_string peeled
                            \<or> ip_env_options_uncertain peeled \<or> ip_ambiguous peeled) acc;
          acc2 = inline_step rec parse_failed unpinned words acc1
      in case words of
           LiteralWord head # _ \<Rightarrow>
             (let program = to_ascii_lowercase (shell_program_name head) in
              if is_cwd_changer program then acc2
              else program_step H pol cwd parse_failed unpinned words program acc2)
         | _ \<Rightarrow> acc2)"

definition shell_file_access_with ::
    "'g host \<Rightarrow> 'g compiled_policy \<Rightarrow> string \<Rightarrow> (string \<Rightarrow> bool \<Rightarrow> gate_decision option) option \<Rightarrow> bool \<Rightarrow> string \<Rightarrow> bool
      \<Rightarrow> gate_decision option" where
  "shell_file_access_with H pol cwd rec entered_inline cmd cwd_unpinned =
     (case parse_shell H cmd of
        None \<Rightarrow> fail_closed_if entered_inline
      | Some root \<Rightarrow>
          (let parse_failed = ts_error root;
               changes = cwd_poison_positions root cmd;
               acc0 = \<lparr>ga_decision = None, ga_forced = entered_inline \<and> parse_failed\<rparr>;
               acc1 = foldl (redirect_step H pol cwd cwd_unpinned changes) acc0
                        (shell_redirect_targets root cmd);
               acc2 = foldl (invocation_step H pol cwd rec parse_failed cwd_unpinned changes) acc1
                        (shell_command_invocations root cmd)
           in combine_gate_decisions (ga_decision acc2) (fail_closed_if (ga_forced acc2))))"

text \<open>\<open>evaluate_shell_file_access_inner\<close>, by the inline depth that remains.\<close>

primrec shell_file_access_inner ::
    "'g host \<Rightarrow> 'g compiled_policy \<Rightarrow> string \<Rightarrow> nat \<Rightarrow> bool \<Rightarrow> string \<Rightarrow> bool \<Rightarrow> gate_decision option" where
  "shell_file_access_inner H pol cwd 0 entered = shell_file_access_with H pol cwd None entered"
| "shell_file_access_inner H pol cwd (Suc n) entered =
     shell_file_access_with H pol cwd (Some (shell_file_access_inner H pol cwd n True)) entered"

definition evaluate_shell_file_access_gate ::
    "'g host \<Rightarrow> 'g compiled_policy \<Rightarrow> string \<Rightarrow> string \<Rightarrow> gate_decision option" where
  "evaluate_shell_file_access_gate H pol cmd cwd =
     (if \<not> cp_has_file_restrictions pol then None
      else shell_file_access_inner H pol cwd MAX_INLINE_SHELL_DEPTH False cmd False)"

subsection \<open>Paths a command writes\<close>

definition written_paths :: "(string \<times> shell_file_mode) list \<Rightarrow> string list" where
  "written_paths ops = map fst (filter (\<lambda>pm. snd pm = WriteMode) ops)"

definition command_words_write_paths :: "string list \<Rightarrow> string list" where
  "command_words_write_paths words =
     (let inner = unwrap_wrappers words in
      case inner of
        [] \<Rightarrow> []
      | w # _ \<Rightarrow>
          (let program = to_ascii_lowercase (shell_program_name w);
               special = written_paths (special_file_operands program inner)
           in case shell_path_command_operands program inner of
                Some ops \<Rightarrow> special @ written_paths ops
              | None \<Rightarrow>
                  special @
                  (if shell_file_mode program = Some WriteMode
                      \<or> program = ''sed'' \<and> shell_sed_in_place inner
                   then shell_file_candidates inner else [])))"

definition command_words_creation_paths :: "string list \<Rightarrow> string list" where
  "command_words_creation_paths words =
     (let inner = unwrap_wrappers words in
      case inner of
        [] \<Rightarrow> []
      | w # _ \<Rightarrow>
          (case shell_path_command_operands (to_ascii_lowercase (shell_program_name w)) inner of
             None \<Rightarrow> []
           | Some ops \<Rightarrow> map fst (filter (\<lambda>pm. snd pm = CreateMode) ops)))"

record write_paths_split =
  ws_redirect_paths :: "string list"
  ws_unextracted_write_redirect :: bool
  ws_word_paths :: "string list"
  ws_creation_paths :: "string list"

definition command_write_paths_split :: "ts_node \<Rightarrow> string \<Rightarrow> write_paths_split" where
  "command_write_paths_split root src =
     (let writes = filter (\<lambda>r. rd_mode r = WriteMode) (shell_redirect_targets root src);
          invocations = map (\<lambda>iv. literal_words (iv_words iv)) (shell_command_invocations root src)
      in \<lparr>ws_redirect_paths = List.map_filter rd_path writes,
          ws_unextracted_write_redirect = list_ex (\<lambda>r. rd_path r = None) writes,
          ws_word_paths = concat (map command_words_write_paths invocations),
          ws_creation_paths = concat (map command_words_creation_paths invocations)\<rparr>)"

definition command_write_paths_in_tree :: "ts_node \<Rightarrow> string \<Rightarrow> string list" where
  "command_write_paths_in_tree root src =
     (let s = command_write_paths_split root src in ws_redirect_paths s @ ws_word_paths s)"

definition is_safe_write_sink :: "string \<Rightarrow> bool" where
  "is_safe_write_sink path \<longleftrightarrow> path \<in> {''/dev/null'', ''/dev/stdout'', ''/dev/stderr''}"

subsection \<open>Targets an edit must not touch silently\<close>

datatype protected_edit_reason =
    HookRoot | GitHooks | SshDir | StartupFile | EtcDir | GrokConfig | GrokSandbox | ClaudeSettings
  | CursorHooks | SensitivePath

fun protected_kind :: "protected_edit_reason \<Rightarrow> string" where
  "protected_kind HookRoot = ''hook_root''"
| "protected_kind GitHooks = ''git_hooks''"
| "protected_kind SshDir = ''ssh''"
| "protected_kind StartupFile = ''startup_file''"
| "protected_kind EtcDir = ''etc''"
| "protected_kind GrokConfig = ''grok_config''"
| "protected_kind GrokSandbox = ''grok_sandbox''"
| "protected_kind ClaudeSettings = ''claude_settings''"
| "protected_kind CursorHooks = ''cursor_hooks''"
| "protected_kind SensitivePath = ''sensitive''"

text \<open>\<open>Path::starts_with\<close> and equality of paths compare components.\<close>

definition path_starts_with :: "string \<Rightarrow> string \<Rightarrow> bool" where
  "path_starts_with s p \<longleftrightarrow> take (length (components p)) (components s) = components p"

definition path_eq :: "string \<Rightarrow> string \<Rightarrow> bool" where
  "path_eq s p \<longleftrightarrow> components s = components p"

fun comp_name :: "path_comp \<Rightarrow> string option" where
  "comp_name (Normal s) = Some (to_ascii_lowercase s)"
| "comp_name _ = None"

definition lower_components :: "string \<Rightarrow> string list" where
  "lower_components path = List.map_filter comp_name (components path)"

definition comps_end_with :: "string list \<Rightarrow> string list \<Rightarrow> bool" where
  "comps_end_with cs tail \<longleftrightarrow> length tail \<le> length cs \<and> drop (length cs - length tail) cs = tail"

fun has_pair :: "string \<Rightarrow> string \<Rightarrow> string list \<Rightarrow> bool" where
  "has_pair a b (x # y # ys) \<longleftrightarrow> (x = a \<and> y = b) \<or> has_pair a b (y # ys)"
| "has_pair a b _ \<longleftrightarrow> False"

fun git_modules_hooks :: "string list \<Rightarrow> bool" where
  "git_modules_hooks [] = False"
| "git_modules_hooks (c # cs) =
     (c = ''.git'' \<and> first_opt cs = Some ''modules'' \<and> ''hooks'' \<in> set (drop 2 cs)
      \<or> git_modules_hooks cs)"

definition protected_git_hooks_path :: "string list \<Rightarrow> bool" where
  "protected_git_hooks_path cs \<longleftrightarrow> has_pair ''.git'' ''hooks'' cs \<or> git_modules_hooks cs"

definition grok_home_matches :: "'g host \<Rightarrow> string option \<Rightarrow> (string \<Rightarrow> bool) \<Rightarrow> bool" where
  "grok_home_matches H home P =
     (case home of
        None \<Rightarrow> False
      | Some h \<Rightarrow>
          (let lexical = normalize_lexically h in
           P lexical
           \<or> (case resolve_following_symlinks H lexical of Some r \<Rightarrow> P r | None \<Rightarrow> False)))"

definition path_is_under_user_grok_hook_root :: "string \<Rightarrow> string \<Rightarrow> bool" where
  "path_is_under_user_grok_hook_root path grok_home \<longleftrightarrow>
     path_starts_with path (path_join grok_home ''hooks'')
     \<or> path_eq path (path_join grok_home ''hooks-paths'')"

definition protected_grok_hook_root :: "'g host \<Rightarrow> string option \<Rightarrow> string \<Rightarrow> string list \<Rightarrow> bool" where
  "protected_grok_hook_root H home path cs \<longleftrightarrow>
     has_pair ''.grok'' ''hooks'' cs \<or> comps_end_with cs [''.grok'', ''hooks-paths'']
     \<or> grok_home_matches H home (path_is_under_user_grok_hook_root path)"

definition protected_grok_config_file ::
    "'g host \<Rightarrow> string option \<Rightarrow> string \<Rightarrow> string list \<Rightarrow> protected_edit_reason option" where
  "protected_grok_config_file H home path cs =
     (case (if cs = [] then None
            else if last cs \<in> {''config.toml'', ''managed_config.toml'', ''requirements.toml''}
            then Some GrokConfig
            else if last cs = ''sandbox.toml'' then Some GrokSandbox else None) of
        None \<Rightarrow> None
      | Some reason \<Rightarrow>
          if (2 \<le> length cs \<and> cs ! (length cs - 2) = ''.grok'')
             \<or> grok_home_matches H home
                 (\<lambda>h. case parent path of Some p \<Rightarrow> path_eq p h | None \<Rightarrow> False)
          then Some reason else None)"

definition STARTUP_FILES :: "string list" where
  "STARTUP_FILES =
     [''.bashrc'', ''.bash_profile'', ''.bash_login'', ''.bash_logout'', ''.profile'', ''.zshrc'',
      ''.zshenv'', ''.zprofile'', ''.zlogin'', ''.zlogout'', ''.kshrc'', ''.cshrc'', ''.tcshrc'',
      ''.login'', ''.logout'', ''.inputrc'', ''.xprofile'']"

definition edit_reason_of :: "'g host \<Rightarrow> string option \<Rightarrow> string \<Rightarrow> protected_edit_reason option" where
  "edit_reason_of H home path =
     (let cs = lower_components path; file = (if cs = [] then [] else last cs) in
      if protected_grok_hook_root H home path cs then Some HookRoot
      else if comps_end_with cs [''.claude'', ''settings.json'']
              \<or> comps_end_with cs [''.claude'', ''settings.local.json''] then Some ClaudeSettings
      else if comps_end_with cs [''.cursor'', ''hooks.json''] then Some CursorHooks
      else if protected_git_hooks_path cs then Some GitHooks
      else if ''.ssh'' \<in> set cs then Some SshDir
      else if file \<in> set STARTUP_FILES then Some StartupFile
      else (case protected_grok_config_file H home path cs of
              Some reason \<Rightarrow> Some reason
            | None \<Rightarrow>
                if path_eq path ''/etc'' \<or> path_starts_with path ''/etc'' then Some EtcDir else None))"

definition resolved_path_is_within_root :: "'g host \<Rightarrow> string \<Rightarrow> string \<Rightarrow> bool" where
  "resolved_path_is_within_root H resolved root =
     (case resolve_following_symlinks H root of
        Some r \<Rightarrow> path_starts_with resolved r
      | None \<Rightarrow> True)"

definition edit_target_protection :: "'g host \<Rightarrow> string option \<Rightarrow> string \<Rightarrow> protected_edit_reason option" where
  "edit_target_protection H home path =
     (if \<not> is_absolute path then Some SensitivePath
      else (case edit_reason_of H home (normalize_lexically path) of
              Some reason \<Rightarrow> Some reason
            | None \<Rightarrow>
                (case resolve_following_symlinks H path of
                   None \<Rightarrow> Some SensitivePath
                 | Some resolved \<Rightarrow>
                     (case edit_reason_of H home resolved of
                        Some reason \<Rightarrow> Some reason
                      | None \<Rightarrow>
                          if resolved_path_is_within_root H resolved ''/etc''
                          then Some SensitivePath else None))))"

subsection \<open>What the file gate decides\<close>

text \<open>
  The paths a script touches, at the top or inside the scripts it hands to a shell, with the mode
  and with the information whether the working directory is still known there.
\<close>

definition invocation_unpinned :: "ts_node \<Rightarrow> string \<Rightarrow> bool \<Rightarrow> shell_invocation \<Rightarrow> bool" where
  "invocation_unpinned root cmd u iv \<longleftrightarrow>
     u \<or> cwd_unpinned_before (cwd_poison_positions root cmd) (iv_start iv) (iv_scope iv)
     \<or> ip_has_chdir (unwrap_invocation_checked iv)"

definition redirect_unpinned :: "ts_node \<Rightarrow> string \<Rightarrow> bool \<Rightarrow> shell_redirect \<Rightarrow> bool" where
  "redirect_unpinned root cmd u r \<longleftrightarrow>
     u \<or> cwd_unpinned_before (cwd_poison_positions root cmd) (rd_start r) (rd_scope r)"

definition program_operands :: "string \<Rightarrow> string list \<Rightarrow> (string \<times> shell_file_mode) list" where
  "program_operands program literals =
     special_file_operands program literals @
     (if program = ''dd'' then []
      else (case shell_path_command_operands program literals of
              Some ops \<Rightarrow> ops
            | None \<Rightarrow> concat (map (\<lambda>t. map (\<lambda>m. (t, m)) (operand_modes program literals))
                               (shell_file_candidates literals))))"

definition words_operands :: "shell_word list \<Rightarrow> (string \<times> shell_file_mode) list" where
  "words_operands words =
     (case words of
        LiteralWord head # _ \<Rightarrow>
          (let program = to_ascii_lowercase (shell_program_name head) in
           if is_cwd_changer program then [] else program_operands program (literal_words words))
      | _ \<Rightarrow> [])"

definition words_inner :: "shell_word list \<Rightarrow> string option" where
  "words_inner words =
     (case shell_dash_c_script words of
        InlineLiteral i \<Rightarrow> (case words ! i of LiteralWord s \<Rightarrow> Some s | UntrustedWord \<Rightarrow> None)
      | _ \<Rightarrow> None)"

definition invocation_operands :: "shell_invocation \<Rightarrow> (string \<times> shell_file_mode) list" where
  "invocation_operands iv = words_operands (ip_words (unwrap_invocation_checked iv))"

definition invocation_inner :: "shell_invocation \<Rightarrow> string option" where
  "invocation_inner iv = words_inner (ip_words (unwrap_invocation_checked iv))"

inductive touches ::
    "'g host \<Rightarrow> nat \<Rightarrow> string \<Rightarrow> bool \<Rightarrow> string \<Rightarrow> shell_file_mode \<Rightarrow> bool \<Rightarrow> bool" for H where
  redirect: "parse_shell H cmd = Some root \<Longrightarrow> r \<in> set (shell_redirect_targets root cmd) \<Longrightarrow>
    rd_path r = Some p \<Longrightarrow> touches H n cmd u p (rd_mode r) (redirect_unpinned root cmd u r)"
| operand: "parse_shell H cmd = Some root \<Longrightarrow> iv \<in> set (shell_command_invocations root cmd) \<Longrightarrow>
    (p, m) \<in> set (invocation_operands iv) \<Longrightarrow>
    touches H n cmd u p m (invocation_unpinned root cmd u iv)"
| inner: "parse_shell H cmd = Some root \<Longrightarrow> iv \<in> set (shell_command_invocations root cmd) \<Longrightarrow>
    invocation_inner iv = Some s \<Longrightarrow>
    touches H n s (invocation_unpinned root cmd u iv) p m v \<Longrightarrow> touches H (Suc n) cmd u p m v"

inductive_simps touches_0: "touches H 0 cmd u p m v"
inductive_simps touches_Suc: "touches H (Suc n) cmd u p m v"

abbreviation acc_rank :: "gate_acc \<Rightarrow> nat" where
  "acc_rank acc \<equiv> gate.orank (ga_decision acc)"

lemma foldl_rank:
  fixes R :: "'b \<Rightarrow> nat"
  assumes "\<And>acc x. x \<in> set xs \<Longrightarrow> k < R (f acc x) \<longleftrightarrow> k < R acc \<or> P x"
  shows "k < R (foldl f acc xs) \<longleftrightarrow> k < R acc \<or> (\<exists>x \<in> set xs. P x)"
  using assms by (induction xs arbitrary: acc) auto

lemma force_ask_rank [simp]: "acc_rank (force_ask b acc) = acc_rank acc"
  by (simp add: force_ask_def)

lemma add_decision_rank [simp]: "acc_rank (add_decision d acc) = max (acc_rank acc) (gate.orank d)"
  by (simp add: add_decision_def gate.orank_comb)

lemma add_operands_rank:
  "k < acc_rank (add_operands H pol cwd u ops acc) \<longleftrightarrow>
     k < acc_rank acc \<or> (\<exists>pm \<in> set ops. k < gate.orank (evaluate_shell_path H pol (fst pm) cwd (snd pm) u))"
  unfolding add_operands_def by (rule foldl_rank) (auto simp: add_operand_def)

lemma redirect_step_rank:
  "k < acc_rank (redirect_step H pol cwd u (cwd_poison_positions root cmd) acc r) \<longleftrightarrow>
     k < acc_rank acc
     \<or> (\<exists>p. rd_path r = Some p
          \<and> k < gate.orank (evaluate_shell_path H pol p cwd (rd_mode r) (redirect_unpinned root cmd u r)))"
  by (auto simp: redirect_step_def Let_def redirect_unpinned_def split: option.splits)

lemma program_step_rank:
  "k < acc_rank (program_step H pol cwd pf u words program acc) \<longleftrightarrow>
     k < acc_rank acc
     \<or> (\<exists>(p, m) \<in> set (program_operands program (literal_words words)).
          k < gate.orank (evaluate_shell_path H pol p cwd m u))"
  by (simp add: program_step_def Let_def program_operands_def add_operands_rank case_prod_beta bex_Un
      split: option.split)

lemma inline_step_rank:
  "k < acc_rank (inline_step rec pf u words acc) \<longleftrightarrow>
     k < acc_rank acc \<or> (\<exists>f s. rec = Some f \<and> words_inner words = Some s \<and> k < gate.orank (f s u))"
  by (auto simp: inline_step_def words_inner_def Let_def
      split: inline_script.splits option.splits shell_word.splits)

text \<open>What happens to the words of an invocation once they are peeled.\<close>

definition words_step ::
    "'g host \<Rightarrow> 'g compiled_policy \<Rightarrow> string \<Rightarrow> bool \<Rightarrow> bool \<Rightarrow> shell_word list \<Rightarrow> gate_acc \<Rightarrow> gate_acc" where
  "words_step H pol cwd pf u words acc =
     (case words of
        LiteralWord head # _ \<Rightarrow>
          (let program = to_ascii_lowercase (shell_program_name head) in
           if is_cwd_changer program then acc else program_step H pol cwd pf u words program acc)
      | _ \<Rightarrow> acc)"

lemma words_step_rank:
  "k < acc_rank (words_step H pol cwd pf u words acc) \<longleftrightarrow>
     k < acc_rank acc
     \<or> (\<exists>(p, m) \<in> set (words_operands words). k < gate.orank (evaluate_shell_path H pol p cwd m u))"
proof (cases words)
  case (Cons w ws)
  then show ?thesis
    by (cases w) (simp_all add: words_step_def words_operands_def Let_def program_step_rank)
qed (simp add: words_step_def words_operands_def)

lemma invocation_step_rank:
  "k < acc_rank (invocation_step H pol cwd rec pf u (cwd_poison_positions root cmd) acc iv) \<longleftrightarrow>
     k < acc_rank acc
     \<or> (\<exists>f s. rec = Some f \<and> invocation_inner iv = Some s
          \<and> k < gate.orank (f s (invocation_unpinned root cmd u iv)))
     \<or> (\<exists>(p, m) \<in> set (invocation_operands iv).
          k < gate.orank (evaluate_shell_path H pol p cwd m (invocation_unpinned root cmd u iv)))"
proof -
  let ?w = "ip_words (unwrap_invocation_checked iv)" and ?u = "invocation_unpinned root cmd u iv"
  obtain b where b: "invocation_step H pol cwd rec pf u (cwd_poison_positions root cmd) acc iv
      = words_step H pol cwd pf ?u ?w (inline_step rec pf ?u ?w (force_ask b acc))"
    unfolding invocation_step_def words_step_def Let_def invocation_unpinned_def by blast
  show ?thesis
    by (simp only: b words_step_rank inline_step_rank force_ask_rank invocation_inner_def
        invocation_operands_def disj_assoc)
qed

lemma redirects_rank:
  "k < acc_rank (foldl (redirect_step H pol cwd u (cwd_poison_positions root cmd)) acc rs) \<longleftrightarrow>
     k < acc_rank acc
     \<or> (\<exists>r \<in> set rs. \<exists>p. rd_path r = Some p
          \<and> k < gate.orank (evaluate_shell_path H pol p cwd (rd_mode r) (redirect_unpinned root cmd u r)))"
  by (rule foldl_rank) (rule redirect_step_rank)

lemma invocations_rank:
  "k < acc_rank (foldl (invocation_step H pol cwd rec pf u (cwd_poison_positions root cmd)) acc ivs) \<longleftrightarrow>
     k < acc_rank acc
     \<or> (\<exists>iv \<in> set ivs.
          (\<exists>f s. rec = Some f \<and> invocation_inner iv = Some s
             \<and> k < gate.orank (f s (invocation_unpinned root cmd u iv)))
          \<or> (\<exists>(p, m) \<in> set (invocation_operands iv).
               k < gate.orank (evaluate_shell_path H pol p cwd m (invocation_unpinned root cmd u iv))))"
  by (rule foldl_rank) (rule invocation_step_rank)

lemma bex_pair: "(\<exists>(p, m) \<in> S. Q p m) \<longleftrightarrow> (\<exists>p m. (p, m) \<in> S \<and> Q p m)"
  by auto

lemma file_access_with_rank:
  assumes "2 \<le> k" "parse_shell H cmd = Some root"
  shows "k < gate.orank (shell_file_access_with H pol cwd rec entered cmd u) \<longleftrightarrow>
      (\<exists>r p. r \<in> set (shell_redirect_targets root cmd) \<and> rd_path r = Some p
         \<and> k < gate.orank (evaluate_shell_path H pol p cwd (rd_mode r) (redirect_unpinned root cmd u r)))
    \<or> (\<exists>iv f s. iv \<in> set (shell_command_invocations root cmd) \<and> rec = Some f
         \<and> invocation_inner iv = Some s \<and> k < gate.orank (f s (invocation_unpinned root cmd u iv)))
    \<or> (\<exists>iv p m. iv \<in> set (shell_command_invocations root cmd) \<and> (p, m) \<in> set (invocation_operands iv)
         \<and> k < gate.orank (evaluate_shell_path H pol p cwd m (invocation_unpinned root cmd u iv)))"
proof -
  have f: "\<not> k < gate.orank (fail_closed_if b)" for b using assms by simp
  let ?a = "foldl (invocation_step H pol cwd rec (ts_error root) u (cwd_poison_positions root cmd))
       (foldl (redirect_step H pol cwd u (cwd_poison_positions root cmd))
          \<lparr>ga_decision = None, ga_forced = entered \<and> ts_error root\<rparr> (shell_redirect_targets root cmd))
       (shell_command_invocations root cmd)"
  have "k < gate.orank (shell_file_access_with H pol cwd rec entered cmd u) \<longleftrightarrow> k < acc_rank ?a"
    using f by (simp add: shell_file_access_with_def assms(2) Let_def gate.orank_comb less_max_iff_disj
        del: orank_fail_closed)
  then show ?thesis
    unfolding invocations_rank redirects_rank bex_pair gate_acc.simps gate.orank_simps by blast
qed

lemma file_access_with_unparsed:
  "2 \<le> k \<Longrightarrow> parse_shell H cmd = None \<Longrightarrow> \<not> k < gate.orank (shell_file_access_with H pol cwd rec entered cmd u)"
  by (simp add: shell_file_access_with_def)

lemma touches_parsed: "touches H n cmd u p m v \<Longrightarrow> parse_shell H cmd \<noteq> None"
  by (cases rule: touches.cases) auto

lemma touches_SucE:
  assumes "touches H n' cmd u p m v" "parse_shell H cmd = Some root"
  obtains (redirect) r where "r \<in> set (shell_redirect_targets root cmd)" "rd_path r = Some p"
      "m = rd_mode r" "v = redirect_unpinned root cmd u r"
  | (operand) iv where "iv \<in> set (shell_command_invocations root cmd)"
      "(p, m) \<in> set (invocation_operands iv)" "v = invocation_unpinned root cmd u iv"
  | (inner) n iv s where "n' = Suc n" "iv \<in> set (shell_command_invocations root cmd)"
      "invocation_inner iv = Some s" "touches H n s (invocation_unpinned root cmd u iv) p m v"
  using assms by (cases rule: touches.cases) auto

lemma file_access_rank:
  assumes k: "2 \<le> k"
  shows "k < gate.orank (shell_file_access_inner H pol cwd n entered cmd u) \<longleftrightarrow>
    (\<exists>p m v. touches H n cmd u p m v \<and> k < gate.orank (evaluate_shell_path H pol p cwd m v))"
    (is "?gate n entered cmd u \<longleftrightarrow> ?touched n cmd u")
proof (induction n arbitrary: entered cmd u)
  case (0 entered cmd u)
  show ?case
  proof (cases "parse_shell H cmd")
    case None
    then show ?thesis using file_access_with_unparsed [OF k None] touches_parsed by fastforce
  next
    case (Some root)
    show ?thesis
    proof
      assume "?gate 0 entered cmd u"
      then show "?touched 0 cmd u"
        unfolding shell_file_access_inner.simps file_access_with_rank [OF k Some]
        by (elim disjE exE conjE) (blast intro: touches.redirect [OF Some] touches.operand [OF Some])+
    next
      assume "?touched 0 cmd u"
      then obtain p m v where t: "touches H 0 cmd u p m v"
        and g: "k < gate.orank (evaluate_shell_path H pol p cwd m v)" by blast
      from t Some g show "?gate 0 entered cmd u"
        unfolding shell_file_access_inner.simps file_access_with_rank [OF k Some]
        by (cases rule: touches_SucE) blast+
    qed
  qed
next
  case (Suc n entered cmd u)
  show ?case
  proof (cases "parse_shell H cmd")
    case None
    then show ?thesis using file_access_with_unparsed [OF k None] touches_parsed by fastforce
  next
    case (Some root)
    let ?rec = "shell_file_access_inner H pol cwd n True"
    show ?thesis
    proof
      assume "?gate (Suc n) entered cmd u"
      then show "?touched (Suc n) cmd u"
        unfolding shell_file_access_inner.simps file_access_with_rank [OF k Some] option.inject
      proof (elim disjE exE conjE)
        fix iv f s
        assume iv: "iv \<in> set (shell_command_invocations root cmd)" "invocation_inner iv = Some s"
          and f: "?rec = f" and g: "k < gate.orank (f s (invocation_unpinned root cmd u iv))"
        from g f Suc.IH obtain p m v where "touches H n s (invocation_unpinned root cmd u iv) p m v"
          "k < gate.orank (evaluate_shell_path H pol p cwd m v)" by blast
        with iv touches.inner [OF Some iv] show ?thesis by blast
      qed (blast intro: touches.redirect [OF Some] touches.operand [OF Some])+
    next
      assume "?touched (Suc n) cmd u"
      then obtain p m v where t: "touches H (Suc n) cmd u p m v"
        and g: "k < gate.orank (evaluate_shell_path H pol p cwd m v)" by blast
      from t Some show "?gate (Suc n) entered cmd u"
      proof (cases rule: touches_SucE)
        case (inner n' iv s)
        then have "k < gate.orank (?rec s (invocation_unpinned root cmd u iv))"
          using Suc.IH g by blast
        with inner show ?thesis
          unfolding shell_file_access_inner.simps file_access_with_rank [OF k Some] by blast
      next
        case (redirect r)
        with g show ?thesis
          unfolding shell_file_access_inner.simps file_access_with_rank [OF k Some] by blast
      next
        case (operand iv)
        with g show ?thesis
          unfolding shell_file_access_inner.simps file_access_with_rank [OF k Some] by blast
      qed
    qed
  qed
qed

text \<open>
  The spellings under which one operand is checked: as written, anchored in the working directory
  when that is known, and the target of a symbolic link on the way.
\<close>

definition operand_forms :: "'g host \<Rightarrow> string \<Rightarrow> bool \<Rightarrow> string \<Rightarrow> string set" where
  "operand_forms H cwd unpinned token =
     (let path = normalize_shell_path token;
          anchored = (is_absolute_shell_path path \<or> \<not> unpinned);
          raw = raw_absolute_operand cwd unpinned token
      in {path} \<union> (if anchored then {shell_absolute cwd path} else {})
         \<union> {t. anchored \<and> (\<exists>r. raw = Some r
                \<and> follow_absolute_symlink H r (shell_absolute cwd path) = FollowTarget t)})"

definition operand_rule_cwd :: "string \<Rightarrow> bool \<Rightarrow> string \<Rightarrow> string option" where
  "operand_rule_cwd cwd unpinned token =
     (if is_absolute_shell_path (normalize_shell_path token) \<or> \<not> unpinned then Some cwd else None)"

lemma resolved_operand_rank:
  assumes "2 \<le> k"
  shows "k < gate.orank (resolved_operand_gate H pol c cwd mode u token) \<longleftrightarrow>
    (\<exists>r t. raw_absolute_operand cwd u token = Some r
       \<and> follow_absolute_symlink H r (shell_absolute cwd (normalize_shell_path token)) = FollowTarget t
       \<and> k < gate.orank (escalate_access H pol c (shell_access mode t)))"
proof (cases "raw_absolute_operand cwd u token")
  case (Some r)
  then show ?thesis
    using assms
    by (cases "follow_absolute_symlink H r (shell_absolute cwd (normalize_shell_path token))")
      (simp_all add: resolved_operand_gate_def)
qed (simp add: resolved_operand_gate_def)

lemma shell_path_rank:
  assumes k: "2 \<le> k"
  shows "k < gate.orank (evaluate_shell_path H pol token cwd mode u) \<longleftrightarrow>
    (\<exists>f \<in> operand_forms H cwd u token.
       k < gate.orank (escalate_access H pol (operand_rule_cwd cwd u token) (shell_access mode f)))"
proof -
  let ?p = "normalize_shell_path token" and ?c = "operand_rule_cwd cwd u token"
  have f: "\<not> k < gate.orank (fail_closed_if b)" for b using k by simp
  have "k < gate.orank (evaluate_shell_path H pol token cwd mode u) \<longleftrightarrow>
      k < gate.orank (escalate_access H pol ?c (shell_access mode ?p))
      \<or> (is_absolute_shell_path ?p \<or> \<not> u)
        \<and> (k < gate.orank (escalate_access H pol ?c (shell_access mode (shell_absolute cwd ?p)))
           \<or> k < gate.orank (resolved_operand_gate H pol ?c cwd mode u token))"
    using f by (cases "is_absolute_shell_path ?p \<or> \<not> u")
      (auto simp: evaluate_shell_path_def Let_def gate.orank_comb less_max_iff_disj
        operand_rule_cwd_def simp del: orank_fail_closed)
  also have "\<dots> \<longleftrightarrow> (\<exists>f \<in> operand_forms H cwd u token.
       k < gate.orank (escalate_access H pol ?c (shell_access mode f)))"
    unfolding resolved_operand_rank [OF k] operand_forms_def Let_def
    by (cases "is_absolute_shell_path ?p \<or> \<not> u") auto
  finally show ?thesis .
qed

definition shell_path_denied :: "'g host \<Rightarrow> permission_config \<Rightarrow> string \<Rightarrow> string \<Rightarrow> shell_file_mode \<Rightarrow> bool \<Rightarrow> bool" where
  "shell_path_denied H cfg cwd p m u \<longleftrightarrow>
     (\<exists>f \<in> operand_forms H cwd u p. denied_by H cfg (shell_access m f) (operand_rule_cwd cwd u p))"

definition shell_path_asked :: "'g host \<Rightarrow> permission_config \<Rightarrow> string \<Rightarrow> string \<Rightarrow> shell_file_mode \<Rightarrow> bool \<Rightarrow> bool" where
  "shell_path_asked H cfg cwd p m u \<longleftrightarrow>
     (\<exists>f \<in> operand_forms H cwd u p. asked_by H cfg (shell_access m f) (operand_rule_cwd cwd u p))"

lemma escalate_access_rank:
  "3 < gate.orank (escalate_access H (compile_policy H cfg) c a) \<longleftrightarrow> denied_by H cfg a c"
  "2 < gate.orank (escalate_access H (compile_policy H cfg) c a) \<longleftrightarrow> denied_by H cfg a c \<or> asked_by H cfg a c"
  using lexical_reject_iff [of H cfg a c] lexical_ask_iff [of H cfg a c]
  by (auto simp: escalate_access_def evaluate_lexical_spec split: option.splits decision.splits)

lemma file_rule_restricts:
  assumes "r \<in> set (pcf_rules cfg)" "applies H (shell_access m f) c r" "pr_action r \<noteq> AllowRule"
  shows "cp_has_file_restrictions (compile_policy H cfg)"
proof -
  from assms(2) have "pr_tool r \<in> {ReadTool, EditTool, AnyTool}"
    by (cases m; cases "pr_tool r") (auto simp: applies_def rule_applies_def shell_access_def)
  with assms(1,3) show ?thesis
    by (cases "pr_action r") (auto simp: compile_policy_def Let_def list_ex_iff restricts_def)
qed

lemma no_file_restrictions:
  "\<not> cp_has_file_restrictions (compile_policy H cfg) \<Longrightarrow>
   \<not> shell_path_denied H cfg cwd p m u \<and> \<not> shell_path_asked H cfg cwd p m u"
  using file_rule_restricts
  by (fastforce simp: shell_path_denied_def shell_path_asked_def denied_by_def asked_by_def)

lemma shell_path_denied_rank:
  "3 < gate.orank (evaluate_shell_path H (compile_policy H cfg) p cwd m u) \<longleftrightarrow> shell_path_denied H cfg cwd p m u"
  "2 < gate.orank (evaluate_shell_path H (compile_policy H cfg) p cwd m u) \<longleftrightarrow>
     shell_path_denied H cfg cwd p m u \<or> shell_path_asked H cfg cwd p m u"
  by (auto simp: shell_path_rank escalate_access_rank shell_path_denied_def shell_path_asked_def)

lemma file_gate_rank:
  fixes H :: "'g host" and cfg cmd cwd
  defines "g \<equiv> evaluate_shell_file_access_gate H (compile_policy H cfg) cmd cwd"
  shows "3 < gate.orank g \<longleftrightarrow>
      (\<exists>p m u. touches H MAX_INLINE_SHELL_DEPTH cmd False p m u \<and> shell_path_denied H cfg cwd p m u)"
    and "2 < gate.orank g \<longleftrightarrow>
      (\<exists>p m u. touches H MAX_INLINE_SHELL_DEPTH cmd False p m u
         \<and> (shell_path_denied H cfg cwd p m u \<or> shell_path_asked H cfg cwd p m u))"
  unfolding g_def evaluate_shell_file_access_gate_def
  by (cases "cp_has_file_restrictions (compile_policy H cfg)";
      simp add: file_access_rank shell_path_denied_rank no_file_restrictions)+

text \<open>
  C7. The file gate of a script is exact in both directions.  It rejects precisely when the script
  touches, through a redirection or an operand of a command it knows, at the top or inside the scripts
  it hands to a shell, a path that some deny rule covers under one of its spellings (as written,
  anchored in the working directory, or the target of a link); and it reports a rule match that asks
  precisely when no touched path is denied and some ask rule covers one.
\<close>
theorem shell_file_gate_exact:
  "((\<exists>why. evaluate_shell_file_access_gate H (compile_policy H cfg) cmd cwd = Some (GReject why)) \<longleftrightarrow>
      (\<exists>p m u. touches H MAX_INLINE_SHELL_DEPTH cmd False p m u \<and> shell_path_denied H cfg cwd p m u))
   \<and> (evaluate_shell_file_access_gate H (compile_policy H cfg) cmd cwd = Some GAskRuleMatch \<longleftrightarrow>
      (\<nexists>p m u. touches H MAX_INLINE_SHELL_DEPTH cmd False p m u \<and> shell_path_denied H cfg cwd p m u)
      \<and> (\<exists>p m u. touches H MAX_INLINE_SHELL_DEPTH cmd False p m u \<and> shell_path_asked H cfg cwd p m u))"
  unfolding gate_from_rank file_gate_rank by blast

text \<open>A link to a denied file is rejected when \<open>cat\<close> reads it; the same words under \<open>echo\<close> are not.\<close>

lemma linked_read_rejected:
  defines "pol \<equiv> compile_policy demo_host (demo_cfg [demo_rule DenyRule ReadTool (Some ''/etc/passwd'')])"
  shows "evaluate_shell_file_access_gate demo_host pol ''cat /w/link'' ''/w''
      = Some (GReject (deny_reason (demo_rule DenyRule ReadTool (Some ''/etc/passwd''))))
    \<and> evaluate_shell_file_access_gate demo_host pol ''echo /w/link'' ''/w'' = None"
  unfolding pol_def by code_simp

subsection \<open>Two normalisers of one path\<close>

lemma push_segments_plain:
  assumes "\<forall>p \<in> set ps. CHR ''/'' \<notin> set p" "list_all plain_name out"
  shows "list_all plain_name (foldl (push_segment True) out ps)
    \<and> foldl push_comp (RootDir # map Normal out) (body_comps ps)
        = RootDir # map Normal (foldl (push_segment True) out ps)"
  using assms
proof (induction ps arbitrary: out)
  case Nil
  then show ?case by (simp add: body_comps_def map_filter_simps)
next
  case (Cons p ps)
  let ?out = "push_segment True out p"
  have plain: "list_all plain_name ?out"
    using Cons.prems by (auto simp: push_segment_def plain_name_def list_all_iff dest: in_set_butlastD)
  have dd: "''..'' \<notin> set out" using Cons.prems(2) by (auto simp: list_all_iff plain_name_def)
  have "foldl push_comp (RootDir # map Normal out) (body_comps (p # ps))
      = foldl push_comp (RootDir # map Normal ?out) (body_comps ps)"
  proof (cases out rule: rev_cases)
    case Nil
    then show ?thesis
      by (simp add: body_comps_def map_filter_simps piece_comp_def push_comp_def push_segment_def)
  next
    case (snoc ys y)
    with dd have "y \<noteq> ''..''" by auto
    with snoc show ?thesis
      by (simp add: body_comps_def map_filter_simps piece_comp_def push_comp_def push_segment_def
          butlast_append)
  qed
  with Cons.IH [of ?out] plain Cons.prems(1) show ?case by simp
qed

lemma comp_str_Normal: "map comp_str (map Normal ns) = ns"
  by (induction ns) auto

text \<open>
  The file gate and the edit tools normalise paths with different code, and on every absolute
  path without a drive-like second byte the two agree: the spelling the gate matches rules against is
  the spelling the edit tool matches them against.
\<close>
theorem normalisers_agree:
  assumes "is_absolute path" "drop 1 path = [] \<or> hd (drop 1 path) \<noteq> CHR '':''"
  shows "lexical_normalize path = normalize_lexically path"
proof -
  let ?segs = "split_char CHR ''/'' path" and ?out = "foldl (push_segment True) [] (split_char CHR ''/'' path)"
  have n: "(case path of _ # b # _ \<Rightarrow> if b = CHR '':'' then 2 else 0 | _ \<Rightarrow> 0) = (0::nat)"
    using assms(2) by (auto split: list.splits)
  have l: "lexical_normalize path = ''/'' @ join_str ''/'' ?out"
    using assms(1) n unfolding lexical_normalize_def Let_def is_absolute_def by simp
  have p: "list_all plain_name ?out
      \<and> foldl push_comp [RootDir] (body_comps ?segs) = RootDir # map Normal ?out"
    using push_segments_plain [of ?segs "[]"] split_char_no_sep by simp
  have c: "normalize_comps (components path) = RootDir # map Normal ?out"
    using p assms(1) by (simp add: normalize_comps_def components_def push_comp_def)
  from p have "\<forall>c \<in> set (map Normal ?out). comp_ok c \<and> c \<noteq> RootDir" by (auto simp: list_all_iff)
  from collect_rooted [OF this] have "normalize_lexically path = ''/'' @ join_str ''/'' ?out"
    unfolding normalize_lexically_def c comp_str_Normal by (simp add: Let_def)
  with l show ?thesis by simp
qed

lemma normalisers_agree_witness:
  "lexical_normalize ''/w/./a/../../../etc//passwd'' = ''/etc/passwd''
   \<and> normalize_lexically ''/w/./a/../../../etc//passwd'' = ''/etc/passwd''"
proof -
  have "lexical_normalize ''/w/./a/../../../etc//passwd'' = ''/etc/passwd''" by code_simp
  moreover have "is_absolute ''/w/./a/../../../etc//passwd''" by code_simp
  ultimately show ?thesis using normalisers_agree [of "''/w/./a/../../../etc//passwd''"] by simp
qed

end
