(* ===== verification/AutoMode.thy ===== *)
theory AutoMode
  imports ExecRisk ShellAccess
begin

section \<open>The auto permission mode\<close>

text \<open>
  \<open>permission/auto_mode/\<close>: the security findings about a Bash command and what they constrain, the
  risk of its environment assignments, the rule-based classifier, and the classifier that consults a
  model.  The model itself (a side query of the session) and the JSON parser are parameters.
\<close>

subsection \<open>Security findings\<close>

datatype finding =
    FailClosedPolicy | UnparseableShell | OpaqueShell | ExecOrAmbientGit | EnvInjection | UnvettedEnv
  | FileWrite | DangerousCommand | SpecialExecSurface

definition all_findings :: "finding list" where
  "all_findings =
     [FailClosedPolicy, UnparseableShell, OpaqueShell, ExecOrAmbientGit, EnvInjection, UnvettedEnv,
      FileWrite, DangerousCommand, SpecialExecSurface]"

fun finding_token :: "finding \<Rightarrow> string" where
  "finding_token FailClosedPolicy = ''fail_closed_policy''"
| "finding_token UnparseableShell = ''unparseable_shell''"
| "finding_token OpaqueShell = ''opaque_shell''"
| "finding_token ExecOrAmbientGit = ''exec_or_ambient_git''"
| "finding_token EnvInjection = ''env_injection''"
| "finding_token UnvettedEnv = ''unvetted_env''"
| "finding_token FileWrite = ''file_write''"
| "finding_token DangerousCommand = ''dangerous_command''"
| "finding_token SpecialExecSurface = ''special_exec_surface''"

fun is_grant_floor :: "finding \<Rightarrow> bool" where
  "is_grant_floor FileWrite = True"
| "is_grant_floor UnvettedEnv = True"
| "is_grant_floor EnvInjection = True"
| "is_grant_floor OpaqueShell = True"
| "is_grant_floor ExecOrAmbientGit = True"
| "is_grant_floor SpecialExecSurface = True"
| "is_grant_floor _ = False"

text \<open>\<open>BashSecurityAssessment\<close>: the \<open>BTreeSet\<close> is a set; iteration is in the order of the variants.\<close>

type_synonym assessment = "finding set"

definition in_order :: "assessment \<Rightarrow> finding list" where
  "in_order a = filter (\<lambda>f. f \<in> a) all_findings"

definition constrains_broad_grant :: "assessment \<Rightarrow> bool" where
  "constrains_broad_grant a \<longleftrightarrow> list_ex is_grant_floor (in_order a)"

definition is_file_write_only :: "assessment \<Rightarrow> bool" where
  "is_file_write_only a \<longleftrightarrow> length (in_order a) = 1 \<and> FileWrite \<in> a"

definition assessment_tokens :: "assessment \<Rightarrow> string list" where
  "assessment_tokens a = map finding_token (in_order a)"

lemma set_all_findings: "set all_findings = UNIV"
proof -
  have "f \<in> set all_findings" for f by (cases f) (simp_all add: all_findings_def)
  then show ?thesis by blast
qed

lemma set_in_order [simp]: "set (in_order a) = a"
  by (simp add: in_order_def set_all_findings)

lemma constrains_broad_grant_iff: "constrains_broad_grant a \<longleftrightarrow> (\<exists>f \<in> a. is_grant_floor f)"
  by (simp add: constrains_broad_grant_def list_ex_iff)

subsection \<open>Environment assignments\<close>

datatype env_risk = EnvSafe | EnvUnvetted | EnvInjected

definition env_level :: "env_risk \<Rightarrow> nat" where
  "env_level r = (case r of EnvSafe \<Rightarrow> 0 | EnvUnvetted \<Rightarrow> 1 | EnvInjected \<Rightarrow> 2)"

instantiation env_risk :: linorder
begin

definition less_eq_env_risk :: "env_risk \<Rightarrow> env_risk \<Rightarrow> bool" where
  "less_eq_env_risk a b \<longleftrightarrow> env_level a \<le> env_level b"

definition less_env_risk :: "env_risk \<Rightarrow> env_risk \<Rightarrow> bool" where
  "less_env_risk a b \<longleftrightarrow> env_level a < env_level b"

instance
  by intro_classes
    (auto simp: less_eq_env_risk_def less_env_risk_def env_level_def split: env_risk.splits)

end

definition SAFE_ENV_KEYS :: "string list" where
  "SAFE_ENV_KEYS =
     [''CARGO_TERM_COLOR'', ''CARGO_TERM_PROGRESS_WHEN'', ''RUST_LOG'', ''RUST_LOG_STYLE'',
      ''RUST_BACKTRACE'', ''RUST_TEST_THREADS'', ''RUST_MIN_STACK'', ''NO_COLOR'', ''CLICOLOR'',
      ''CLICOLOR_FORCE'', ''FORCE_COLOR'', ''COLORTERM'']"

definition INJECTION_ENV_KEYS :: "string list" where
  "INJECTION_ENV_KEYS =
     [''LD_PRELOAD'', ''LD_AUDIT'', ''BASH_ENV'', ''ENV'', ''IFS'', ''PATH'', ''GIT_EXTERNAL_DIFF'',
      ''GIT_PROXY_COMMAND'', ''PROMPT_COMMAND'']"

definition INJECTION_ENV_KEY_PREFIXES :: "string list" where
  "INJECTION_ENV_KEY_PREFIXES = [''DYLD_'', ''GIT_CONFIG'']"

definition env_key_risk :: "string \<Rightarrow> env_risk" where
  "env_key_risk key =
     (if key \<in> set SAFE_ENV_KEYS then EnvSafe
      else if key \<in> set INJECTION_ENV_KEYS \<or> list_ex (\<lambda>p. starts_with key p) INJECTION_ENV_KEY_PREFIXES
      then EnvInjected else EnvUnvetted)"

text \<open>The arguments of one \<open>env\<close>: \<open>None\<close> is the early return on an option.\<close>

fun env_args_risk :: "bool \<Rightarrow> env_risk \<Rightarrow> string list \<Rightarrow> env_risk option" where
  "env_args_risk opts_over risk [] = Some risk"
| "env_args_risk opts_over risk (arg # args) =
     (if arg = ''--'' then env_args_risk True risk args
      else if \<not> opts_over \<and> starts_with arg ''-'' then None
      else (case split_once CHR ''='' arg of
              Some (key, _) \<Rightarrow> env_args_risk opts_over (max risk (env_key_risk key)) args
            | None \<Rightarrow> Some risk))"

primrec command_env_rounds :: "nat \<Rightarrow> env_risk \<Rightarrow> string list \<Rightarrow> env_risk" where
  "command_env_rounds 0 risk current = risk"
| "command_env_rounds (Suc n) risk current =
     (case (if head_base current = Some ''env'' then env_args_risk False risk (drop 1 current)
            else Some risk) of
        None \<Rightarrow> EnvInjected
      | Some risk' \<Rightarrow>
          (case strip_wrapper_command current of
             Some inner \<Rightarrow> command_env_rounds n risk' inner
           | None \<Rightarrow> risk'))"

definition command_env_risk :: "string list \<Rightarrow> env_risk" where
  "command_env_risk words = command_env_rounds 8 EnvSafe words"

definition assignment_key :: "ts_node \<Rightarrow> string \<Rightarrow> string" where
  "assignment_key node src =
     (case List.find (\<lambda>c. ts_kind c = ''variable_name'' \<and> node_text src c \<noteq> None) (ts_children node) of
        Some c \<Rightarrow> (case node_text src c of Some t \<Rightarrow> t | None \<Rightarrow> [])
      | None \<Rightarrow> (case node_text src node of Some t \<Rightarrow> hd (split_char CHR ''='' t) | None \<Rightarrow> []))"

definition inline_env_risk :: "ts_node \<Rightarrow> string \<Rightarrow> env_risk" where
  "inline_env_risk root src =
     foldl (\<lambda>risk (node, ctx).
              if ts_kind node = ''variable_assignment''
              then max risk (env_key_risk (assignment_key node src)) else risk)
       EnvSafe (tree_nodes root)"

definition script_env_risk :: "ts_node \<Rightarrow> string \<Rightarrow> plain_command list \<Rightarrow> env_risk" where
  "script_env_risk root src cmds =
     foldl (\<lambda>risk c. max risk (command_env_risk (pc_words c))) (inline_env_risk root src) cmds"

subsection \<open>Routine commands\<close>

definition ROUTINE_PREFIXES :: "string list" where
  "ROUTINE_PREFIXES =
     [''cargo '', ''git add'', ''git commit'', ''git checkout'', ''git switch'', ''git stash'',
      ''git pull'', ''git fetch'', ''git worktree list'', ''pytest'', ''python '', ''python3 '',
      ''node '', ''rustc '', ''rustfmt'', ''clippy'', ''make '', ''cmake '', ''cd'', ''pushd'',
      ''popd'', ''ls'', ''pwd'', ''echo '', ''printf '', ''cat '', ''head '', ''tail '', ''wc '',
      ''rg '', ''grep '', ''which '', ''type '', ''true'', ''false'', ''test '', ''sort '', ''uniq '',
      ''tr '', ''cut '', ''diff '', ''jq '', ''date'', ''whoami'', ''hostname'', ''uname'', ''nproc'',
      ''printenv'', ''stat '', ''file '', ''tree'', ''basename '', ''dirname '', ''realpath '',
      ''readlink '', ''strings '', ''sleep '', ''df '', ''du '', ''ps '', ''top'', ''htop'', ''bazel '',
      ''just '', ''go '', ''kubectl get'', ''kubectl logs'', ''kubectl describe'', ''set'']"

definition KUBECTL_UNSAFE_FLAGS :: "string list" where
  "KUBECTL_UNSAFE_FLAGS =
     [''--kubeconfig'', ''--context'', ''--cluster'', ''--server'', ''-s'', ''--token'', ''--user'',
      ''--as'', ''--as-group'', ''--as-uid'', ''--as-user-extra'', ''--username'', ''--password'',
      ''--client-certificate'', ''--client-key'', ''--certificate-authority'']"

definition NPM_SAFE_SUBCOMMANDS :: "string list" where
  "NPM_SAFE_SUBCOMMANDS =
     [''install'', ''i'', ''ci'', ''add'', ''remove'', ''rm'', ''uninstall'', ''update'', ''up'',
      ''upgrade'', ''test'', ''t'', ''run'', ''run-script'', ''start'', ''build'', ''audit'', ''list'',
      ''ls'', ''ll'', ''outdated'', ''why'', ''view'', ''info'', ''dedupe'', ''prune'', ''version'',
      ''pack'', ''config'', ''link'', ''unlink'', ''rebuild'', ''store'', ''fetch'', ''import'']"

definition UV_SAFE_SUBCOMMANDS :: "string list" where
  "UV_SAFE_SUBCOMMANDS =
     [''sync'', ''pip'', ''lock'', ''venv'', ''add'', ''remove'', ''tree'', ''export'', ''build'',
      ''version'', ''python'', ''cache'', ''init'', ''self'', ''help'']"

definition RUSTUP_SAFE_SUBCOMMANDS :: "string list" where
  "RUSTUP_SAFE_SUBCOMMANDS =
     [''show'', ''toolchain'', ''component'', ''target'', ''default'', ''update'', ''which'', ''doc'',
      ''self'', ''completions'', ''set'', ''override'']"

definition nonflag_tokens :: "string list \<Rightarrow> nat \<Rightarrow> string list" where
  "nonflag_tokens inner n = take n (filter (\<lambda>w. \<not> starts_with w ''-'') (drop 1 inner))"

definition gh_subcommand_is_read_only :: "string list \<Rightarrow> bool" where
  "gh_subcommand_is_read_only inner =
     (case nonflag_tokens inner 2 of
        [grp, sub] \<Rightarrow>
          grp \<in> {''pr'', ''issue'', ''release'', ''run'', ''workflow'', ''repo'', ''gist''}
            \<and> sub \<in> {''view'', ''list'', ''status'', ''checks'', ''diff''}
          \<or> grp = ''auth'' \<and> sub = ''status''
      | [t] \<Rightarrow> t = ''status''
      | _ \<Rightarrow> False)"

definition is_node_manager :: "string \<Rightarrow> bool" where
  "is_node_manager head \<longleftrightarrow> head \<in> {''npm'', ''pnpm'', ''yarn''}"

definition nth_opt :: "'a list \<Rightarrow> nat \<Rightarrow> 'a option" where
  "nth_opt xs i = (if i < length xs then Some (xs ! i) else None)"

definition launcher_subcommand :: "string \<Rightarrow> string list \<Rightarrow> string option" where
  "launcher_subcommand head inner =
     map_option (\<lambda>sub. if is_node_manager head \<and> sub = ''x'' then ''exec''
                        else if is_node_manager head \<and> sub = ''innit'' then ''init'' else sub)
       (nth_opt inner 1)"

definition is_remote_launcher :: "string \<Rightarrow> string list \<Rightarrow> bool" where
  "is_remote_launcher head inner =
     (if head = ''npx'' \<or> head = ''uvx'' then True
      else if head = ''uv'' \<and> nth_opt inner 1 = Some ''tool'' \<and> nth_opt inner 2 = Some ''run'' then True
      else (case launcher_subcommand head inner of
              None \<Rightarrow> False
            | Some sub \<Rightarrow>
                is_node_manager head
                \<and> (sub \<in> {''dlx'', ''create'', ''explore''}
                   \<or> sub = ''init''
                      \<and> (case nth_opt inner 2 of Some a \<Rightarrow> \<not> starts_with a ''-'' | None \<Rightarrow> False))))"

datatype launch_target = NotLauncher | LaunchInner "string list" | LaunchUnresolved

definition launch_from :: "nat \<Rightarrow> string list \<Rightarrow> launch_target" where
  "launch_from start inner =
     (case nth_opt inner start of
        Some tok \<Rightarrow> if \<not> starts_with tok ''-'' then LaunchInner (drop start inner) else LaunchUnresolved
      | None \<Rightarrow> LaunchUnresolved)"

definition explicit_launch_target :: "string \<Rightarrow> string list \<Rightarrow> launch_target" where
  "explicit_launch_target head inner =
     (case launcher_subcommand head inner of
        None \<Rightarrow> NotLauncher
      | Some sub \<Rightarrow>
          if head = ''uv'' \<and> sub = ''run'' then launch_from 2 inner
          else if head = ''rustup'' \<and> sub = ''run'' then
            (case nth_opt inner 2 of
               Some toolchain \<Rightarrow>
                 if \<not> starts_with toolchain ''-'' then launch_from 3 inner else LaunchUnresolved
             | None \<Rightarrow> LaunchUnresolved)
          else if is_node_manager head \<and> sub = ''exec'' then
            launch_from (if nth_opt inner 2 = Some ''--'' then 3 else 2) inner
          else NotLauncher)"

definition launched_writes_nonsink :: "string list \<Rightarrow> bool" where
  "launched_writes_nonsink words \<longleftrightarrow>
     list_ex (\<lambda>p. \<not> is_safe_write_sink p) (command_words_write_paths words)"

definition is_lone_wrapper :: "string list \<Rightarrow> bool" where
  "is_lone_wrapper words \<longleftrightarrow> length words = 1 \<and> is_wrapper_command words"

definition find_is_read_only :: "string list \<Rightarrow> bool" where
  "find_is_read_only words \<longleftrightarrow>
     list_all (\<lambda>w. w \<notin> set [''-delete'', ''-exec'', ''-execdir'', ''-ok'', ''-okdir'', ''-fprint'',
                             ''-fprint0'', ''-fprintf'', ''-fls'']) words"

definition matches_routine_prefix :: "string list \<Rightarrow> bool" where
  "matches_routine_prefix inner =
     (let joined = to_ascii_lowercase (join_str '' '' inner)
      in list_ex (\<lambda>p. matches_command_prefix joined (trim p)) ROUTINE_PREFIXES)"

definition kubectl_flag_unsafe :: "string \<Rightarrow> bool" where
  "kubectl_flag_unsafe w \<longleftrightarrow> option_flag w \<in> set KUBECTL_UNSAFE_FLAGS"

definition rg_pre_flag :: "string \<Rightarrow> bool" where
  "rg_pre_flag w \<longleftrightarrow> w = ''--pre'' \<or> starts_with w ''--pre=''"

text \<open>A command that is no package manager, its wrappers already peeled.\<close>

definition plain_command_is_routine :: "string \<Rightarrow> string list \<Rightarrow> bool" where
  "plain_command_is_routine head inner =
     (if head = ''find'' then find_is_read_only inner
      else if head = ''git'' \<and> git_words_are_read_only_query inner then True
      else if head = ''git'' \<and> git_words_have_unsafe_query_option inner then False
      else if head = ''tree''
              \<and> list_ex (\<lambda>w. starts_with w ''-'' \<and> \<not> starts_with w ''--'' \<and> CHR ''o'' \<in> set w
                              \<or> starts_with w ''--output'') inner
      then False
      else if head = ''rg'' \<and> list_ex rg_pre_flag inner then False
      else if head = ''kubectl'' \<and> list_ex kubectl_flag_unsafe (drop 1 inner) then False
      else if head = ''gh'' then gh_subcommand_is_read_only inner
      else matches_routine_prefix inner)"

definition safe_manager_subcommand :: "string \<Rightarrow> string list \<Rightarrow> bool" where
  "safe_manager_subcommand prog inner =
     (case launcher_subcommand prog inner of
        None \<Rightarrow> False
      | Some s \<Rightarrow>
          is_node_manager prog \<and> s \<in> set NPM_SAFE_SUBCOMMANDS
          \<or> prog = ''uv'' \<and> s \<in> set UV_SAFE_SUBCOMMANDS
          \<or> prog = ''rustup'' \<and> s \<in> set RUSTUP_SAFE_SUBCOMMANDS)"

definition is_package_manager :: "string \<Rightarrow> bool" where
  "is_package_manager prog \<longleftrightarrow> is_node_manager prog \<or> prog \<in> {''uv'', ''uvx'', ''npx'', ''rustup''}"

definition lower_head :: "string list \<Rightarrow> string" where
  "lower_head inner = to_ascii_lowercase (base_name (hd inner))"

lemma launch_shorter: "explicit_launch_target head inner = LaunchInner l \<Longrightarrow> length l < length inner"
  by (auto simp: explicit_launch_target_def launch_from_def nth_opt_def split: option.splits if_splits)

lemma unwrap_length: "length (unwrap_wrappers ws) \<le> length ws"
  using unwrap_peels [of ws] by (rule peels_star_length)

text \<open>
  \<open>bash_command_is_routine\<close> and \<open>package_manager_subcommand_is_routine\<close>, which call each other on
  the command a launcher starts.
\<close>

function bash_command_is_routine :: "string list \<Rightarrow> bool" where
  "bash_command_is_routine words =
     (let inner = unwrap_wrappers words in
      if inner = [] \<or> is_lone_wrapper inner then True
      else let head = lower_head inner in
        if is_package_manager head then
          (if is_remote_launcher head inner then False
           else (case explicit_launch_target head inner of
                   LaunchUnresolved \<Rightarrow> False
                 | LaunchInner launched \<Rightarrow>
                     command_env_risk launched = EnvSafe \<and> \<not> launched_writes_nonsink launched
                     \<and> bash_command_is_routine launched
                 | NotLauncher \<Rightarrow> safe_manager_subcommand head inner))
        else plain_command_is_routine head inner)"
  by pat_completeness auto
termination
proof (relation "measure length", goal_cases)
  case (2 words inner head launched)
  then show ?case using launch_shorter unwrap_length [of words] by fastforce
qed simp

declare bash_command_is_routine.simps [simp del]

subsection \<open>Text handling\<close>

definition neutralize_line :: "string \<Rightarrow> string" where
  "neutralize_line line =
     (let heading = trim_start line in
      if starts_with heading ''#''
      then take (length line - length heading) line @ [bslash] @ drop (length line - length heading) line
      else line)"

definition neutralize_headings :: "string \<Rightarrow> string" where
  "neutralize_headings text = join_str [CHR 0x0A] (map neutralize_line (str_lines text))"

function split_whitespace_go :: "string \<Rightarrow> string \<Rightarrow> string list" where
  "split_whitespace_go cur [] = (if cur = [] then [] else [cur])"
| "split_whitespace_go cur (c # cs) =
     (case ws_prefix (c # cs) of
        Some n \<Rightarrow> (if cur = [] then [] else [cur]) @ split_whitespace_go [] (drop (n - 1) cs)
      | None \<Rightarrow> split_whitespace_go (cur @ [c]) cs)"
  by pat_completeness auto
termination
  by (relation "measure (\<lambda>(cur, s). length s)") auto

declare split_whitespace_go.simps(2) [simp del]

definition char_count :: "string \<Rightarrow> nat" where
  "char_count s = length (filter (\<lambda>c. \<not> is_continuation c) s)"

text \<open>The byte index of the \<open>n\<close>th character, or the length.\<close>

fun char_index :: "nat \<Rightarrow> string \<Rightarrow> nat" where
  "char_index n [] = 0"
| "char_index n (c # cs) =
     (if is_continuation c then Suc (char_index n cs)
      else if n = 0 then 0 else Suc (char_index (n - 1) cs))"

definition truncate_line :: "string \<Rightarrow> nat \<Rightarrow> string" where
  "truncate_line line max_chars =
     (if length line \<le> max_chars then line
      else if char_count line \<le> max_chars then line
      else take (char_index max_chars line) line @ '' [... truncated ('' @ show_nat (char_count line)
             @ '' chars total)]'')"

subsection \<open>What a classifier is told and answers\<close>

datatype verdict = VAllow | VBlock | VUnavailable

datatype classifier_failure = TimedOut | TransportError string

datatype provenance = ByModel | ByRules | ByFailure classifier_failure

record classifier_outcome =
  co_verdict :: verdict
  co_reason :: "string option"
  co_provenance :: provenance

definition rules_outcome :: "verdict \<Rightarrow> classifier_outcome" where
  "rules_outcome v = \<lparr>co_verdict = v, co_reason = None, co_provenance = ByRules\<rparr>"

definition model_outcome :: "verdict \<Rightarrow> string option \<Rightarrow> classifier_outcome" where
  "model_outcome v reason = \<lparr>co_verdict = v, co_reason = reason, co_provenance = ByModel\<rparr>"

fun failure_text :: "classifier_failure \<Rightarrow> string" where
  "failure_text TimedOut = ''permission auto classifier timed out''"
| "failure_text (TransportError reason) = reason"

definition failure_outcome :: "classifier_failure \<Rightarrow> classifier_outcome" where
  "failure_outcome f =
     \<lparr>co_verdict = VUnavailable, co_reason = Some (failure_text f), co_provenance = ByFailure f\<rparr>"

definition is_timeout :: "classifier_outcome \<Rightarrow> bool" where
  "is_timeout o' \<longleftrightarrow> co_provenance o' = ByFailure TimedOut"

datatype classifier_turn =
    UserText string
  | AssistantToolUse string string
  | PermissionDecision string string bool

record classifier_context =
  cc_turns :: "classifier_turn list"
  cc_project_instructions :: "string option"
  cc_security_findings :: assessment

fun render_untrusted :: "classifier_turn \<Rightarrow> string option" where
  "render_untrusted (UserText text) = Some (''User: '' @ neutralize_headings text)"
| "render_untrusted (AssistantToolUse tool args) =
     Some (neutralize_headings tool @ '' '' @ neutralize_headings args)"
| "render_untrusted (PermissionDecision _ _ _) = None"

definition transcript_text :: "classifier_context \<Rightarrow> string" where
  "transcript_text ctx = join_str [CHR 0x0A] (List.map_filter render_untrusted (cc_turns ctx))"

subsection \<open>The rule-based classifier\<close>

definition classify_bash :: "shell_parser \<Rightarrow> string \<Rightarrow> verdict" where
  "classify_bash parse cmd =
     (case parse cmd of
        None \<Rightarrow> VBlock
      | Some root \<Rightarrow>
          (case try_parse_word_only_commands_sequence root cmd of
             None \<Rightarrow> VBlock
           | Some cmds \<Rightarrow>
               if script_env_risk root cmd cmds \<noteq> EnvSafe then VBlock
               else if list_ex (\<lambda>p. \<not> is_safe_write_sink p) (command_write_paths_in_tree root cmd)
               then VBlock
               else if cmds \<noteq> [] \<and> list_all (\<lambda>c. bash_command_is_routine (pc_words c)) cmds
               then VAllow else VBlock))"

definition dangerous_patterns :: "string list" where
  "dangerous_patterns =
     [''rm -rf /'', ''rm -rf /*'', ''mkfs'', ''dd if='', '':(){ :|:& };:'', ''curl | sh'',
      ''curl|sh'', ''curl | bash'', ''curl|bash'', ''wget | sh'', ''wget|sh'', ''wget | bash'',
      ''wget|bash'', ''chmod 777'', ''chmod -r 777'', ''chmod +x /tmp'', ''base64 -d'',
      ''base64 --decode'', ''nc -e'', ''ncat -e'', ''/dev/tcp/'', ''shutdown'', ''reboot'',
      ''useradd'', ''userdel'', ''passwd '', ''chown -r /'', ''iptables -f'', ''kill -9 1'',
      ''sudo rm'', ''sudo dd'', ''sudo mkfs'', ''exfiltrat'', ''steal credential'', ''send secrets'']"

definition hostile_intents :: "string list" where
  "hostile_intents =
     [''delete all files'', ''wipe the disk'', ''exfiltrate'', ''steal secrets'',
      ''send my credentials'', ''ignore safety'', ''bypass permission'']"

definition contains_any :: "string \<Rightarrow> string list \<Rightarrow> bool" where
  "contains_any s ps \<longleftrightarrow> list_ex (contains_str s) ps"

text \<open>Both arms of the source's \<open>WebFetch\<close> case block.\<close>

definition classify_sync ::
    "shell_parser \<Rightarrow> string \<Rightarrow> access_kind \<Rightarrow> string option \<Rightarrow> classifier_context \<Rightarrow> verdict" where
  "classify_sync parse tool_name access detail ctx =
     (let d = to_ascii_lowercase (unwrap_or_empty detail);
          tool = to_ascii_lowercase tool_name;
          transcript = to_ascii_lowercase (transcript_text ctx);
          blob = tool @ '' '' @ d @ '' '' @ transcript
      in if contains_any tool [''ask_user'', ''askuserquestion''] then VBlock
         else if contains_any blob dangerous_patterns then VBlock
         else if contains_any blob [''curl'', ''wget'', ''fetch'']
                 \<and> contains_any blob [''| sh'', ''|sh'', ''| bash'', ''|bash'', ''| zsh'', ''|zsh'']
         then VBlock
         else if contains_any transcript hostile_intents then VBlock
         else (case access of
                 BashAccess cmd \<Rightarrow> classify_bash parse cmd
               | WebFetchAccess _ \<Rightarrow> VBlock
               | EditAccess _ \<Rightarrow> VBlock
               | MCPToolAccess _ _ \<Rightarrow> VBlock
               | AgentMessageAccess _ \<Rightarrow> VBlock
               | _ \<Rightarrow> VAllow))"

subsection \<open>Reading the model's answer\<close>

definition json_as_bool :: "json \<Rightarrow> bool option" where
  "json_as_bool v = (case v of JBool b \<Rightarrow> Some b | _ \<Rightarrow> None)"

definition should_block_of :: "json \<Rightarrow> bool option" where
  "should_block_of v =
     Option.bind (case json_get v ''shouldBlock'' of
                    Some b \<Rightarrow> Some b | None \<Rightarrow> json_get v ''should_block'') json_as_bool"

definition CLASSIFIER_REASON_MAX_LEN :: nat where "CLASSIFIER_REASON_MAX_LEN = 400"

definition classifier_reason :: "json \<Rightarrow> string option" where
  "classifier_reason v =
     (case Option.bind (json_get v ''reason'') json_as_str of
        None \<Rightarrow> None
      | Some r \<Rightarrow>
          (let s = join_str '' '' (split_whitespace_go [] r)
           in if s = [] then None else Some (truncate_line s CLASSIFIER_REASON_MAX_LEN)))"

definition rfind_char :: "char \<Rightarrow> string \<Rightarrow> nat option" where
  "rfind_char c s = (if c \<in> set s then Some (length s - Suc (length (takeWhile (\<lambda>x. x \<noteq> c) (rev s)))) else None)"

definition braced_slice :: "string \<Rightarrow> string option" where
  "braced_slice s =
     (case (find_str ''{'' s, rfind_char CHR ''}'' s) of
        (Some i, Some j) \<Rightarrow> if i < j then Some (take (Suc j - i) (drop i s)) else None
      | _ \<Rightarrow> None)"

definition json_verdict :: "(string \<Rightarrow> json option) \<Rightarrow> string \<Rightarrow> classifier_outcome option" where
  "json_verdict parse_json s =
     (case parse_json s of
        None \<Rightarrow> None
      | Some v \<Rightarrow>
          map_option (\<lambda>b. model_outcome (if b then VBlock else VAllow) (classifier_reason v))
            (should_block_of v))"

definition terse_verdict :: "string \<Rightarrow> verdict" where
  "terse_verdict lower =
     (if trim lower \<in> {''block'', ''blocked'', ''deny'', ''denied''} then VBlock
      else if trim lower \<in> {''allow'', ''allowed'', ''approve'', ''approved''} then VAllow
      else VUnavailable)"

definition parse_classifier_model_output :: "(string \<Rightarrow> json option) \<Rightarrow> string \<Rightarrow> classifier_outcome" where
  "parse_classifier_model_output parse_json text =
     (let trimmed = trim text in
      if trimmed = [] then rules_outcome VUnavailable
      else (case json_verdict parse_json trimmed of
              Some o' \<Rightarrow> o'
            | None \<Rightarrow>
                (case Option.bind (braced_slice trimmed) (json_verdict parse_json) of
                   Some o' \<Rightarrow> o'
                 | None \<Rightarrow>
                     (let lower = to_ascii_lowercase trimmed in
                      if contains_str lower (CHR 0x22 # ''shouldblock'' @ CHR 0x22 # '': true'')
                         \<or> contains_str lower (''shouldblock'' @ CHR 0x22 # '':true'')
                      then model_outcome VBlock None
                      else model_outcome (terse_verdict lower) None))))"

end
