(* ===== verification/BashGrants.thy ===== *)
theory BashGrants
  imports AutoMode
begin

section \<open>Grants for Bash commands\<close>

text \<open>
  \<open>permission/state.rs\<close> (the stored grants), the classification of a Bash request against them
  (\<open>permission/manager/mod.rs\<close>, \<open>evaluate_bash\<close>), and the translation between a prompt and a stored
  grant (\<open>permission/manager/bash_grants.rs\<close>).

  A \<open>HashSet\<close> is the list of its elements in the order it is iterated; \<open>insert\<close> adds what is not
  there.
\<close>

subsection \<open>The stored state\<close>

datatype edit_policy = EditAsk | EditAllow | EditReject

record permission_state =
  ps_edit_policy :: edit_policy
  ps_allow_bash_execute :: bool
  ps_allowed_bash :: "string list"
  ps_disallowed_bash :: "string list"
  ps_bash_globs :: "string list"
  ps_web_domains :: "string list"
  ps_mcp_tools :: "string list"
  ps_mcp_servers :: "string list"
  ps_denied_mcp_tools :: "string list"
  ps_denied_web_domains :: "string list"
  ps_mcp_grants_version :: int

definition VALIDATED_MCP_SERVER_GRANTS_VERSION :: int where
  "VALIDATED_MCP_SERVER_GRANTS_VERSION = 1"

definition permission_state_default :: permission_state where
  "permission_state_default =
     \<lparr>ps_edit_policy = EditAsk, ps_allow_bash_execute = False, ps_allowed_bash = [],
      ps_disallowed_bash = [], ps_bash_globs = [], ps_web_domains = [], ps_mcp_tools = [],
      ps_mcp_servers = [], ps_denied_mcp_tools = [], ps_denied_web_domains = [],
      ps_mcp_grants_version = VALIDATED_MCP_SERVER_GRANTS_VERSION\<rparr>"

definition hs_insert :: "'a \<Rightarrow> 'a list \<Rightarrow> 'a list" where
  "hs_insert x xs = (if x \<in> set xs then xs else xs @ [x])"

definition hs_extend :: "'a list \<Rightarrow> 'a list \<Rightarrow> 'a list" where
  "hs_extend xs ys = foldl (\<lambda>s y. hs_insert y s) xs ys"

lemma set_hs_insert [simp]: "set (hs_insert x xs) = insert x (set xs)"
  by (auto simp: hs_insert_def)

lemma set_hs_extend [simp]: "set (hs_extend xs ys) = set xs \<union> set ys"
  unfolding hs_extend_def by (induction ys arbitrary: xs) auto

definition merge_grants_from :: "permission_state \<Rightarrow> permission_state \<Rightarrow> permission_state" where
  "merge_grants_from s other =
     s\<lparr>ps_allow_bash_execute := ps_allow_bash_execute s \<or> ps_allow_bash_execute other,
       ps_allowed_bash := hs_extend (ps_allowed_bash s) (ps_allowed_bash other),
       ps_disallowed_bash := hs_extend (ps_disallowed_bash s) (ps_disallowed_bash other),
       ps_bash_globs := hs_extend (ps_bash_globs s) (ps_bash_globs other),
       ps_web_domains := hs_extend (ps_web_domains s) (ps_web_domains other),
       ps_mcp_tools := hs_extend (ps_mcp_tools s) (ps_mcp_tools other),
       ps_mcp_servers := hs_extend (ps_mcp_servers s) (ps_mcp_servers other),
       ps_denied_mcp_tools := hs_extend (ps_denied_mcp_tools s) (ps_denied_mcp_tools other),
       ps_denied_web_domains := hs_extend (ps_denied_web_domains s) (ps_denied_web_domains other)\<rparr>"

subsection \<open>Commands that need no grant, and commands no prefix grant covers\<close>

definition rg_has_pre_flag :: "string list \<Rightarrow> bool" where
  "rg_has_pre_flag words \<longleftrightarrow>
     normalized_command_head words = Some ''rg'' \<and> list_ex rg_pre_flag words"

definition kubectl_has_unsafe_flag :: "string list \<Rightarrow> bool" where
  "kubectl_has_unsafe_flag words \<longleftrightarrow>
     normalized_command_head words = Some ''kubectl'' \<and> list_ex kubectl_flag_unsafe (drop 1 words)"

definition ps_value_flags :: "string list" where
  "ps_value_flags =
     [''-o'', ''-O'', ''--format'', ''--sort'', ''-p'', ''-q'', ''-t'', ''-u'', ''-U'', ''-g'', ''-G'',
      ''-C'', ''-s'', ''--pid'', ''--ppid'', ''--sid'', ''--tty'', ''--user'', ''--group'', ''--cols'',
      ''--columns'', ''--width'', ''o'', ''O'']"

definition ps_short_cluster :: "string \<Rightarrow> bool" where
  "ps_short_cluster s \<longleftrightarrow> starts_with s ''-'' \<and> \<not> starts_with s ''--''"

definition ps_dump_letters :: "string \<Rightarrow> bool" where
  "ps_dump_letters s \<longleftrightarrow>
     CHR ''E'' \<in> set s
     \<or> CHR ''e'' \<in> set s
       \<and> (\<not> starts_with s ''-''
          \<or> ps_short_cluster s \<and> (CHR ''a'' \<in> set s \<or> CHR ''x'' \<in> set s))"

fun ps_scan :: "bool \<Rightarrow> string list \<Rightarrow> bool" where
  "ps_scan skip_next [] = False"
| "ps_scan skip_next (s # ws) =
     (if skip_next then ps_scan False ws
      else if starts_with s ''--format='' \<or> starts_with s ''--sort='' then ps_scan False ws
      else if s \<in> set ps_value_flags then ps_scan True ws
      else if starts_with s ''-o'' \<or> starts_with s ''-O'' then ps_scan False ws
      else if ps_dump_letters s then True
      else if ps_short_cluster s \<and> (ends_with s ''o'' \<or> ends_with s ''O'') then ps_scan True ws
      else ps_scan False ws)"

definition ps_dumps_environment :: "string list \<Rightarrow> bool" where
  "ps_dumps_environment words \<longleftrightarrow>
     normalized_command_head words = Some ''ps'' \<and> ps_scan False (drop 1 words)"

definition is_safe_git_query_prefix :: "string \<Rightarrow> bool" where
  "is_safe_git_query_prefix cmd =
     (case strip_prefix cmd ''git '' of
        None \<Rightarrow> False
      | Some rest \<Rightarrow> list_ex (matches_command_prefix rest) SAFE_GIT_SUBCOMMANDS)"

definition safe_command_prefixes :: "string list" where
  "safe_command_prefixes =
     [''ls'', ''cat'', ''pwd'', ''date'', ''whoami'', ''hostname'', ''uptime'', ''grep'', ''rg'',
      ''kubectl get'', ''kubectl logs'', ''kubectl describe'', ''ps'', ''bin/explorer ls'', ''head'',
      ''tail'', ''wc'', ''sort'', ''uniq'', ''tr'', ''cut'', ''echo'', ''printf'']"

definition is_safe_command_words_str :: "string \<Rightarrow> bool" where
  "is_safe_command_words_str cmd \<longleftrightarrow>
     is_safe_git_query_prefix cmd \<or> list_ex (matches_command_prefix cmd) safe_command_prefixes"

definition join_words :: "string list \<Rightarrow> string" where
  "join_words words = join_str '' '' words"

definition special_surface :: "string list \<Rightarrow> bool" where
  "special_surface words \<longleftrightarrow>
     rg_has_pre_flag words \<or> kubectl_has_unsafe_flag words \<or> ps_dumps_environment words"

definition is_safe_command_words :: "string list \<Rightarrow> bool" where
  "is_safe_command_words words =
     (if words = [] \<or> special_surface words then False
      else if hd words = ''git'' then git_words_are_read_only_query words
      else is_safe_command_words_str (join_words words))"

definition ALWAYS_SAFE_COMMANDS :: "string list" where
  "ALWAYS_SAFE_COMMANDS =
     [''ls'', ''cat'', ''pwd'', ''date'', ''whoami'', ''hostname'', ''uptime'', ''ps'', ''grep'', ''rg'',
      ''kubectl get'', ''kubectl logs'', ''kubectl describe'', ''bin/explorer ls'']"

definition is_always_safe_command_words :: "string list \<Rightarrow> bool" where
  "is_always_safe_command_words words =
     (if words = [] \<or> special_surface words then False
      else if hd words = ''git'' then git_words_are_read_only_query words
      else list_ex (matches_command_prefix (join_words words)) ALWAYS_SAFE_COMMANDS)"

definition is_safe_creation_command :: "string list \<Rightarrow> bool" where
  "is_safe_creation_command words = (case words of [] \<Rightarrow> False | w # _ \<Rightarrow> is_creation_program w)"

definition DANGEROUS_PREFIXES :: "string list" where
  "DANGEROUS_PREFIXES =
     [''rm'', ''chmod'', ''chown'', ''chgrp'', ''chattr'', ''pkill'', ''kill'', ''killall'', ''git push'']"

definition is_dangerous_command_words :: "string list \<Rightarrow> bool" where
  "is_dangerous_command_words words =
     (case normalized_command_head words of
        None \<Rightarrow> False
      | Some head \<Rightarrow>
          (let joined = (if length words = 1 then head else head @ '' '' @ join_words (drop 1 words))
           in list_ex (matches_command_prefix joined) DANGEROUS_PREFIXES))"

subsection \<open>The scope of a grant\<close>

definition always_allow_scope_pinned :: "string list \<Rightarrow> bool" where
  "always_allow_scope_pinned words \<longleftrightarrow>
     is_dangerous_command_words words \<or> head_is_exec_vehicle words
     \<or> normalized_command_head words = Some ''sed''"

definition gh_always_allow_scope :: "string list \<Rightarrow> nat option" where
  "gh_always_allow_scope words =
     (if normalized_command_head words \<noteq> Some ''gh'' then None
      else Some (case (nth_opt words 1, nth_opt words 2) of
                   (Some grp, Some verb) \<Rightarrow>
                     if \<not> starts_with grp ''-'' \<and> \<not> starts_with verb ''-'' then 3 else length words
                 | _ \<Rightarrow> length words))"

definition flag_scope :: "string list \<Rightarrow> nat \<Rightarrow> nat" where
  "flag_scope words n = n + length (takeWhile (\<lambda>w. starts_with w ''-'') (drop n words))"

definition base_scope :: "string list \<Rightarrow> nat" where
  "base_scope words =
     (if is_safe_command_words words \<and> is_safe_command_words_str (hd words) then 1
      else if is_safe_command_words words \<and> 2 \<le> length words
              \<and> is_safe_command_words_str (join_words (take 2 words)) then 2
      else flag_scope words (min (length words) 2))"

definition default_always_allow_scope :: "string list \<Rightarrow> nat" where
  "default_always_allow_scope words =
     (if words = [] then 0
      else if always_allow_scope_pinned words then length words
      else (case gh_always_allow_scope words of Some n \<Rightarrow> n | None \<Rightarrow> base_scope words))"

definition default_always_deny_scope :: "string list \<Rightarrow> nat" where
  "default_always_deny_scope words = (if words = [] then 0 else base_scope words)"

definition minimum_always_allow_scope :: "string list \<Rightarrow> nat" where
  "minimum_always_allow_scope words =
     (if always_allow_scope_pinned words then length words
      else (case gh_always_allow_scope words of Some n \<Rightarrow> n | None \<Rightarrow> 1))"

definition matches_bash_glob :: "'g host \<Rightarrow> string \<Rightarrow> string \<Rightarrow> bool" where
  "matches_bash_glob H segment_str pattern = bash_pattern_matches_command H pattern segment_str"

subsection \<open>Grants of a whole script\<close>

definition words_join_unambiguously :: "shell_parser \<Rightarrow> string list \<Rightarrow> bool" where
  "words_join_unambiguously parse words =
     (let joined = join_words words in
      case all_commands_from_script parse joined of
        Some [only] \<Rightarrow> spans_whole_script only joined \<and> pc_words only = words
      | _ \<Rightarrow> False)"

definition whole_script_grant ::
    "shell_parser \<Rightarrow> string \<Rightarrow> plain_command list \<Rightarrow> permission_state \<Rightarrow> bool" where
  "whole_script_grant parse cmd segments s \<longleftrightarrow>
     cmd \<in> set (ps_allowed_bash s)
     \<or> (case segments of
          [only] \<Rightarrow>
            spans_whole_script only cmd \<and> words_join_unambiguously parse (pc_words only)
            \<and> join_words (pc_words only) \<in> set (ps_allowed_bash s)
        | _ \<Rightarrow> False)"

subsection \<open>Classification of a request\<close>

datatype segment_evaluation =
    AutoAllow (via_session_grant: bool)
  | RejectBash string
  | NeedsPrompts "string list"
  | Unparseable

record bash_evaluation =
  be_segments :: segment_evaluation
  be_exact_grant :: bool
  be_all_segments_granted :: bool
  be_assessment :: assessment
  be_redirect_write :: bool
  be_ambient_segments :: "string list list option"
  be_creation_paths :: "string list"
  be_has_cwd_change :: bool

definition env_risk_finding :: "env_risk \<Rightarrow> assessment" where
  "env_risk_finding r =
     (case r of EnvInjected \<Rightarrow> {EnvInjection} | EnvUnvetted \<Rightarrow> {UnvettedEnv} | EnvSafe \<Rightarrow> {})"

definition rejection_text :: "string \<Rightarrow> string" where
  "rejection_text d = ''User previously rejected `'' @ d @ ''` in this project''"

definition disallow_entry :: "permission_state \<Rightarrow> string \<Rightarrow> string option" where
  "disallow_entry s text = List.find (matches_command_prefix text) (ps_disallowed_bash s)"

definition raw_deny_rejection :: "string \<Rightarrow> permission_state \<Rightarrow> segment_evaluation option" where
  "raw_deny_rejection cmd s = map_option (\<lambda>d. RejectBash (rejection_text d)) (disallow_entry s cmd)"

definition undecomposable ::
    "string \<Rightarrow> permission_state \<Rightarrow> assessment \<Rightarrow> bash_evaluation" where
  "undecomposable cmd s findings =
     \<lparr>be_segments = (case raw_deny_rejection cmd s of Some r \<Rightarrow> r | None \<Rightarrow> Unparseable),
      be_exact_grant = cmd \<in> set (ps_allowed_bash s), be_all_segments_granted = False,
      be_assessment = findings \<union> {UnparseableShell}
                      \<union> (if script_may_invoke_git cmd then {ExecOrAmbientGit} else {}),
      be_redirect_write = True, be_ambient_segments = None, be_creation_paths = [],
      be_has_cwd_change = False\<rparr>"

text \<open>What the loop over the segments has gathered.\<close>

record segment_acc =
  sa_prompts :: "string list"
  sa_via_grant :: bool
  sa_all_granted :: bool
  sa_exec_risk :: bool
  sa_has_git :: bool
  sa_raw :: "string list list"
  sa_findings :: assessment

definition segment_granted :: "'g host \<Rightarrow> permission_state \<Rightarrow> string list \<Rightarrow> bool" where
  "segment_granted H s words =
     (let t = join_words words in
      (if always_allow_scope_pinned words then t \<in> set (ps_allowed_bash s)
       else list_ex (matches_command_prefix t) (ps_allowed_bash s))
      \<or> list_ex (matches_bash_glob H t) (ps_bash_globs s))"

definition note_segment :: "string list \<Rightarrow> segment_acc \<Rightarrow> segment_acc" where
  "note_segment raw acc =
     (let facts = segment_exec_facts raw in
      acc\<lparr>sa_raw := sa_raw acc @ [raw],
          sa_findings := sa_findings acc
            \<union> (if words_are_opaque_shell (map LiteralWord (unwrap_wrappers raw)) then {OpaqueShell} else {})
            \<union> (if sf_exec_risk facts then {ExecOrAmbientGit} else {}),
          sa_exec_risk := sa_exec_risk acc \<or> sf_exec_risk facts,
          sa_has_git := sa_has_git acc \<or> sf_has_git facts\<rparr>)"

definition needs_exact_grant :: "string list \<Rightarrow> bool" where
  "needs_exact_grant words \<longleftrightarrow>
     kubectl_has_unsafe_flag words \<or> rg_has_pre_flag words \<or> ps_dumps_environment words
     \<or> git_words_have_unsafe_query_option words"

definition matched_safe :: "bool \<Rightarrow> string list \<Rightarrow> bool" where
  "matched_safe honor_safe_lists words \<longleftrightarrow>
     honor_safe_lists
     \<and> (is_safe_command_words words \<or> is_always_safe_command_words words
        \<or> is_safe_creation_command words)"

definition judge_segment ::
    "'g host \<Rightarrow> permission_state \<Rightarrow> bool \<Rightarrow> string list \<Rightarrow> segment_acc \<Rightarrow> segment_acc" where
  "judge_segment H s honor_safe_lists words acc0 =
     (let t = join_words words;
          granted = segment_granted H s words;
          acc = acc0\<lparr>sa_all_granted := sa_all_granted acc0 \<and> granted\<rparr>
      in if is_dangerous_command_words words then
           acc\<lparr>sa_findings := sa_findings acc \<union> {DangerousCommand}, sa_prompts := sa_prompts acc @ [t]\<rparr>
         else if needs_exact_grant words \<and> t \<notin> set (ps_allowed_bash s) then
           acc\<lparr>sa_findings := sa_findings acc \<union> {SpecialExecSurface}, sa_prompts := sa_prompts acc @ [t]\<rparr>
         else if granted then acc\<lparr>sa_via_grant := True\<rparr>
         else if matched_safe honor_safe_lists words then acc
         else acc\<lparr>sa_prompts := sa_prompts acc @ [t]\<rparr>)"

text \<open>\<open>Inl\<close> is the early return on a denied segment.\<close>

fun eval_segments ::
    "'g host \<Rightarrow> permission_state \<Rightarrow> bool \<Rightarrow> plain_command list \<Rightarrow> segment_acc
     \<Rightarrow> (string \<times> segment_acc) + segment_acc" where
  "eval_segments H s honor [] acc = Inr acc"
| "eval_segments H s honor (c # cs) acc =
     (let words = unwrap_wrappers (pc_words c); acc1 = note_segment (pc_words c) acc in
      if is_setup_command words then eval_segments H s honor cs acc1
      else (case disallow_entry s (join_words words) of
              Some d \<Rightarrow> Inl (rejection_text d, acc1)
            | None \<Rightarrow> eval_segments H s honor cs (judge_segment H s honor words acc1)))"

definition redirect_write_of :: "write_paths_split \<Rightarrow> bool" where
  "redirect_write_of w \<longleftrightarrow>
     ws_unextracted_write_redirect w \<or> list_ex (\<lambda>p. \<not> is_safe_write_sink p) (ws_redirect_paths w)"

definition initial_findings :: "ts_node \<Rightarrow> string \<Rightarrow> plain_command list \<Rightarrow> assessment" where
  "initial_findings root cmd segments =
     (let w = command_write_paths_split root cmd in
      (if redirect_write_of w \<or> list_ex (\<lambda>p. \<not> is_safe_write_sink p) (ws_word_paths w)
       then {FileWrite} else {})
      \<union> env_risk_finding (script_env_risk root cmd segments))"

definition evaluate_bash ::
    "'g host \<Rightarrow> string \<Rightarrow> permission_state \<Rightarrow> bool \<Rightarrow> bash_evaluation" where
  "evaluate_bash H cmd s honor_safe_lists =
     (case parse_shell H cmd of
        None \<Rightarrow> undecomposable cmd s {}
      | Some root \<Rightarrow>
          (let w = command_write_paths_split root cmd in
           case try_parse_word_only_commands_sequence root cmd of
             None \<Rightarrow>
               undecomposable cmd s
                 (initial_findings root cmd []
                  \<union> (if tree_has_opaque_shell root cmd then {OpaqueShell} else {}))
           | Some segments \<Rightarrow>
               (let exact = whole_script_grant (parse_shell H) cmd segments s in
                case eval_segments H s honor_safe_lists segments
                       \<lparr>sa_prompts = [], sa_via_grant = False, sa_all_granted = True,
                        sa_exec_risk = False, sa_has_git = False, sa_raw = [],
                        sa_findings = initial_findings root cmd segments\<rparr> of
                  Inl (reason, acc) \<Rightarrow>
                    \<lparr>be_segments = RejectBash reason, be_exact_grant = exact,
                     be_all_segments_granted = sa_all_granted acc, be_assessment = sa_findings acc,
                     be_redirect_write = redirect_write_of w, be_ambient_segments = None,
                     be_creation_paths = [], be_has_cwd_change = False\<rparr>
                | Inr acc \<Rightarrow>
                    \<lparr>be_segments = (if sa_prompts acc = [] then AutoAllow (sa_via_grant acc)
                                    else NeedsPrompts (sa_prompts acc)),
                     be_exact_grant = exact, be_all_segments_granted = sa_all_granted acc,
                     be_assessment = sa_findings acc, be_redirect_write = redirect_write_of w,
                     be_ambient_segments =
                       (if sa_has_git acc \<and> \<not> sa_exec_risk acc then Some (sa_raw acc) else None),
                     be_creation_paths = ws_creation_paths w,
                     be_has_cwd_change = script_has_cwd_change root cmd\<rparr>)))"

subsection \<open>Reasons of a decision (\<open>permission/manager/reasons.rs\<close>)\<close>

datatype reason =
    YoloReason | PolicyAllowReason | PolicyDenyReason | PolicyAskReason | BashCommandGateAsk
  | ShellFileGateAsk | AutoFastPathReason | AutoClassifierAllow | AutoClassifierDeny
  | AutoClassifierTimeout | AutoClassifierUnavailable | AutoDenialLimit | SandboxAuto
  | PersistedGrant | SessionGrant | StaticAllowlist | SafeCommand | SessionDeny | PromptDenyReason
  | PromptAllowReason | NeedsUser | BashRequestFloor | OpaqueShellReason | HookAsk | RequesterGone

fun reason_str :: "reason \<Rightarrow> string" where
  "reason_str YoloReason = ''yolo''"
| "reason_str PolicyAllowReason = ''policy_allow''"
| "reason_str PolicyDenyReason = ''policy_deny''"
| "reason_str PolicyAskReason = ''policy_ask''"
| "reason_str BashCommandGateAsk = ''bash_command_gate_ask''"
| "reason_str ShellFileGateAsk = ''shell_file_gate_ask''"
| "reason_str AutoFastPathReason = ''auto_fast_path''"
| "reason_str AutoClassifierAllow = ''auto_classifier_allow''"
| "reason_str AutoClassifierDeny = ''auto_classifier_deny''"
| "reason_str AutoClassifierTimeout = ''auto_classifier_timeout''"
| "reason_str AutoClassifierUnavailable = ''auto_classifier_unavailable''"
| "reason_str AutoDenialLimit = ''auto_denial_limit''"
| "reason_str SandboxAuto = ''sandbox_auto''"
| "reason_str PersistedGrant = ''persisted_grant''"
| "reason_str SessionGrant = ''session_grant''"
| "reason_str StaticAllowlist = ''static_allowlist''"
| "reason_str SafeCommand = ''safe_command''"
| "reason_str SessionDeny = ''session_deny''"
| "reason_str PromptDenyReason = ''prompt_deny''"
| "reason_str PromptAllowReason = ''prompt_allow''"
| "reason_str NeedsUser = ''needs_user''"
| "reason_str BashRequestFloor = ''bash_request_floor''"
| "reason_str OpaqueShellReason = ''opaque_shell''"
| "reason_str HookAsk = ''hook_ask''"
| "reason_str RequesterGone = ''requester_gone''"

subsection \<open>Floors, and what a grant decides\<close>

definition persisted_bash_auto_allows :: "permission_state \<Rightarrow> string \<Rightarrow> string option \<Rightarrow> bool" where
  "persisted_bash_auto_allows s cmd yolo_pin \<longleftrightarrow>
     ps_allow_bash_execute s \<and> yolo_pin = None \<or> cmd \<in> set (ps_allowed_bash s)"

definition bash_request_floor_requires_prompt :: "bash_evaluation option \<Rightarrow> bool" where
  "bash_request_floor_requires_prompt ev =
     (case ev of
        None \<Rightarrow> False
      | Some e \<Rightarrow> \<not> be_exact_grant e \<and> constrains_broad_grant (be_assessment e))"

definition narrow_allow_clears_write_floor ::
    "'g host \<Rightarrow> bash_evaluation option \<Rightarrow> 'g compiled_policy option \<Rightarrow> access_kind \<Rightarrow> bool" where
  "narrow_allow_clears_write_floor H ev policy access =
     ((case ev of None \<Rightarrow> False
       | Some e \<Rightarrow> is_file_write_only (be_assessment e) \<and> \<not> be_redirect_write e)
      \<and> (case policy of None \<Rightarrow> False | Some p \<Rightarrow> narrow_allow_authorizes H p access))"

definition bash_assessment_is_clear :: "bash_evaluation option \<Rightarrow> bool" where
  "bash_assessment_is_clear ev = (case ev of None \<Rightarrow> True | Some e \<Rightarrow> be_assessment e = {})"

definition classifier_assessment :: "bash_evaluation option \<Rightarrow> bool \<Rightarrow> assessment" where
  "classifier_assessment ev fail_closed_policy =
     (case ev of None \<Rightarrow> {} | Some e \<Rightarrow> be_assessment e)
     \<union> (if fail_closed_policy then {FailClosedPolicy} else {})"

definition sandbox_may_auto_allow_bash :: "bash_evaluation option \<Rightarrow> bool \<Rightarrow> bool" where
  "sandbox_may_auto_allow_bash ev sandbox_active \<longleftrightarrow>
     sandbox_active \<and> \<not> bash_request_floor_requires_prompt ev"

record bash_grant_opts =
  go_honor_safe_lists :: bool
  go_allow_blanket :: bool
  go_conservative_blanket :: bool

definition PRE_CLASSIFIER :: bash_grant_opts where
  "PRE_CLASSIFIER =
     \<lparr>go_honor_safe_lists = True, go_allow_blanket = True, go_conservative_blanket = True\<rparr>"

definition ASK_FLOOR_REMEMBER :: bash_grant_opts where
  "ASK_FLOOR_REMEMBER =
     \<lparr>go_honor_safe_lists = False, go_allow_blanket = False, go_conservative_blanket = False\<rparr>"

definition post_classify :: "bool \<Rightarrow> bash_grant_opts" where
  "post_classify auto_forced_prompt =
     \<lparr>go_honor_safe_lists = True, go_allow_blanket = \<not> auto_forced_prompt,
      go_conservative_blanket = False\<rparr>"

definition bash_grant_pre_decision ::
    "string \<Rightarrow> bash_evaluation \<Rightarrow> permission_state \<Rightarrow> string option \<Rightarrow> bash_grant_opts
     \<Rightarrow> (decision \<times> reason) option" where
  "bash_grant_pre_decision cmd ev s yolo_pin opts =
     (case be_segments ev of
        RejectBash reason \<Rightarrow> Some (DReject reason, SessionDeny)
      | _ \<Rightarrow>
          if bash_request_floor_requires_prompt (Some ev) then None
          else (case be_segments ev of
                  RejectBash reason \<Rightarrow> Some (DReject reason, SessionDeny)
                | AutoAllow via \<Rightarrow>
                    if \<not> go_honor_safe_lists opts \<and> \<not> be_all_segments_granted ev then None
                    else Some (DAllow, if via then SessionGrant else SafeCommand)
                | NeedsPrompts _ \<Rightarrow>
                    if \<not> go_allow_blanket opts then None
                    else if go_conservative_blanket opts \<and> DangerousCommand \<in> be_assessment ev
                    then (if be_exact_grant ev then Some (DAllow, SessionGrant) else None)
                    else if persisted_bash_auto_allows s cmd yolo_pin then Some (DAllow, SessionGrant)
                    else None
                | Unparseable \<Rightarrow>
                    if \<not> go_allow_blanket opts then None
                    else if (if go_conservative_blanket opts then be_exact_grant ev
                             else persisted_bash_auto_allows s cmd yolo_pin)
                    then Some (DAllow, SessionGrant) else None))"

subsection \<open>From a prompt to a stored grant\<close>

definition always_allow_scope_persists :: "shell_parser \<Rightarrow> highlights \<Rightarrow> nat \<Rightarrow> bool" where
  "always_allow_scope_persists parse h n =
     (let words = hl_words h in
      if n = 0 \<or> length words < n \<or> n < minimum_always_allow_scope words then False
      else words_join_unambiguously parse (take n words)
           \<or> n = length words \<and> hl_prefix h = [] \<and> hl_suffix h = [])"

definition MAX_SEGMENT_GRANTS :: nat where "MAX_SEGMENT_GRANTS = 5"

definition grant_key_of :: "shell_parser \<Rightarrow> plain_command \<Rightarrow> string option" where
  "grant_key_of parse c =
     (let words = unwrap_wrappers (pc_words c) in
      if words \<noteq> [] \<and> \<not> is_setup_command words \<and> \<not> is_dangerous_command_words words
         \<and> \<not> head_is_exec_vehicle words \<and> words_join_unambiguously parse words
      then Some (join_words words) else None)"

definition bash_grant_segments :: "shell_parser \<Rightarrow> string \<Rightarrow> string list" where
  "bash_grant_segments parse cmd =
     (case all_commands_from_script parse cmd of
        None \<Rightarrow> []
      | Some segments \<Rightarrow>
          (let grants = List.map_filter (grant_key_of parse) segments
           in if MAX_SEGMENT_GRANTS < length grants then [] else grants))"

definition label_verified :: "shell_parser \<Rightarrow> string list \<Rightarrow> string \<Rightarrow> bool" where
  "label_verified parse words label \<longleftrightarrow>
     list_ex (\<lambda>n. words_join_unambiguously parse (take n words) \<and> join_words (take n words) = label)
       [minimum_always_allow_scope words..<Suc (length words)]"

definition grant_bash :: "string \<Rightarrow> permission_state \<Rightarrow> permission_state" where
  "grant_bash key s = s\<lparr>ps_allowed_bash := hs_insert key (ps_allowed_bash s)\<rparr>"

definition persist_bash_always_allow ::
    "shell_parser \<Rightarrow> permission_state \<Rightarrow> string \<Rightarrow> string \<Rightarrow> permission_state run" where
  "persist_bash_always_allow parse s cmd label =
     (case primary_command_from_script parse cmd of
        Panicked \<Rightarrow> Panicked
      | Returned None \<Rightarrow> Returned s
      | Returned (Some h) \<Rightarrow>
          Returned
            (if label_verified parse (hl_words h) label then grant_bash label s
             else if hl_prefix h = [] \<and> hl_suffix h = [] \<and> join_words (hl_words h) = label
             then grant_bash cmd s
             else s))"

definition bash_glob_covers_script :: "'g host \<Rightarrow> string \<Rightarrow> string \<Rightarrow> bool" where
  "bash_glob_covers_script H cmd pattern =
     (if bash_glob_is_catchall H pattern then False
      else (case all_commands_from_script (parse_shell H) cmd of
              None \<Rightarrow> bash_pattern_matches_command H pattern cmd
            | Some segments \<Rightarrow>
                list_ex (\<lambda>c. let words = unwrap_wrappers (pc_words c)
                             in words \<noteq> [] \<and> \<not> is_setup_command words
                                \<and> bash_pattern_matches_command H pattern (join_words words))
                  segments))"

definition always_allow_row_is_effective :: "'g host \<Rightarrow> string \<Rightarrow> bool run" where
  "always_allow_row_is_effective H cmd =
     (case primary_command_from_script (parse_shell H) cmd of
        Panicked \<Rightarrow> Panicked
      | Returned None \<Rightarrow> Returned False
      | Returned (Some h) \<Rightarrow>
          (let scope = default_always_allow_scope (hl_words h) in
           if \<not> always_allow_scope_persists (parse_shell H) h scope then Returned False
           else (case persist_bash_always_allow (parse_shell H) permission_state_default cmd
                        (join_words (take scope (hl_words h))) of
                   Panicked \<Rightarrow> Panicked
                 | Returned scratch \<Rightarrow>
                     Returned
                       (case bash_grant_pre_decision cmd (evaluate_bash H cmd scratch True) scratch None
                               PRE_CLASSIFIER of
                          Some (DAllow, _) \<Rightarrow> True
                        | _ \<Rightarrow> False))))"

subsection \<open>What the classification of a script says\<close>

text \<open>The commands of a script that count: wrappers peeled, setup commands left out.\<close>

definition live_commands :: "plain_command list \<Rightarrow> string list list" where
  "live_commands cs = filter (\<lambda>w. \<not> is_setup_command w) (map (\<lambda>c. unwrap_wrappers (pc_words c)) cs)"

definition denied_command :: "permission_state \<Rightarrow> string list \<Rightarrow> bool" where
  "denied_command s w \<longleftrightarrow> (\<exists>d \<in> set (ps_disallowed_bash s). matches_command_prefix (join_words w) d)"

definition may_run :: "'g host \<Rightarrow> permission_state \<Rightarrow> bool \<Rightarrow> string list \<Rightarrow> bool" where
  "may_run H s honor w \<longleftrightarrow>
     \<not> is_dangerous_command_words w
     \<and> (needs_exact_grant w \<longrightarrow> join_words w \<in> set (ps_allowed_bash s))
     \<and> (segment_granted H s w \<or> matched_safe honor w)"

lemma live_commands_simps [simp]:
  "live_commands [] = []"
  "live_commands (c # cs)
     = (if is_setup_command (unwrap_wrappers (pc_words c)) then live_commands cs
        else unwrap_wrappers (pc_words c) # live_commands cs)"
  by (simp_all add: live_commands_def)

lemma disallow_entry_iff: "(disallow_entry s t = None) \<longleftrightarrow> (\<forall>d \<in> set (ps_disallowed_bash s). \<not> matches_command_prefix t d)"
  by (simp add: disallow_entry_def find_None_iff) blast

lemma denied_command_iff: "denied_command s w \<longleftrightarrow> disallow_entry s (join_words w) \<noteq> None"
  by (simp add: denied_command_def disallow_entry_iff del: not_None_eq)

lemma note_segment_simps [simp]:
  "sa_prompts (note_segment raw acc) = sa_prompts acc"
  "sa_all_granted (note_segment raw acc) = sa_all_granted acc"
  "DangerousCommand \<in> sa_findings (note_segment raw acc) \<longleftrightarrow> DangerousCommand \<in> sa_findings acc"
  by (simp_all add: note_segment_def Let_def)

lemma judge_segment_simps [simp]:
  "sa_prompts (judge_segment H s honor w acc)
     = sa_prompts acc @ (if may_run H s honor w then [] else [join_words w])"
  "DangerousCommand \<in> sa_findings (judge_segment H s honor w acc)
     \<longleftrightarrow> DangerousCommand \<in> sa_findings acc \<or> is_dangerous_command_words w"
  "sa_all_granted (judge_segment H s honor w acc) \<longleftrightarrow> sa_all_granted acc \<and> segment_granted H s w"
  by (auto simp: judge_segment_def may_run_def Let_def)

lemma eval_segments_reject:
  "(\<exists>r. eval_segments H s honor cs acc = Inl r) \<longleftrightarrow> (\<exists>w \<in> set (live_commands cs). denied_command s w)"
  by (induction H s honor cs acc rule: eval_segments.induct)
    (auto simp: denied_command_iff Let_def split: option.splits)

lemma eval_segments_text:
  "eval_segments H s honor cs acc = Inl (r, acc') \<Longrightarrow> \<exists>d \<in> set (ps_disallowed_bash s). r = rejection_text d"
proof (induction H s honor cs acc rule: eval_segments.induct)
  case (2 H s honor c cs acc)
  then show ?case
    by (auto simp: Let_def disallow_entry_def find_Some_iff split: if_splits option.splits)
qed simp

lemma eval_segments_accept:
  "eval_segments H s honor cs acc = Inr acc' \<Longrightarrow>
     sa_prompts acc' = sa_prompts acc @ map join_words (filter (\<lambda>w. \<not> may_run H s honor w) (live_commands cs))
     \<and> (DangerousCommand \<in> sa_findings acc'
          \<longleftrightarrow> DangerousCommand \<in> sa_findings acc \<or> (\<exists>w \<in> set (live_commands cs). is_dangerous_command_words w))
     \<and> (sa_all_granted acc' \<longleftrightarrow> sa_all_granted acc \<and> (\<forall>w \<in> set (live_commands cs). segment_granted H s w))"
  by (induction H s honor cs acc rule: eval_segments.induct)
    (auto simp: Let_def split: if_splits option.splits)

lemma initial_findings_not_dangerous: "DangerousCommand \<notin> initial_findings root cmd cs"
  by (auto simp: initial_findings_def env_risk_finding_def Let_def split: env_risk.splits)

text \<open>The outcome of a script that decomposes, and of one that does not.\<close>

lemma evaluate_bash_decomposed:
  fixes s honor
  assumes cs: "all_commands_from_script (parse_shell H) cmd = Some cs"
  defines "ev \<equiv> evaluate_bash H cmd s honor"
  shows "if \<exists>w \<in> set (live_commands cs). denied_command s w
         then \<exists>d \<in> set (ps_disallowed_bash s). be_segments ev = RejectBash (rejection_text d)
         else be_segments ev
                = (if \<forall>w \<in> set (live_commands cs). may_run H s honor w
                   then AutoAllow (via_session_grant (be_segments ev))
                   else NeedsPrompts (map join_words (filter (\<lambda>w. \<not> may_run H s honor w) (live_commands cs))))
              \<and> (DangerousCommand \<in> be_assessment ev
                   \<longleftrightarrow> (\<exists>w \<in> set (live_commands cs). is_dangerous_command_words w))"
    and "be_exact_grant ev = whole_script_grant (parse_shell H) cmd cs s"
proof -
  obtain root where root: "parse_shell H cmd = Some root"
    and seq: "try_parse_word_only_commands_sequence root cmd = Some cs"
    using cs by (auto simp: all_commands_from_script_def split: option.splits)
  define acc where "acc = \<lparr>sa_prompts = [], sa_via_grant = False, sa_all_granted = True,
      sa_exec_risk = False, sa_has_git = False, sa_raw = [], sa_findings = initial_findings root cmd cs\<rparr>"
  have sel: "sa_prompts acc = []" "sa_findings acc = initial_findings root cmd cs"
    by (simp_all add: acc_def)
  note ev = ev_def [unfolded evaluate_bash_def root option.case Let_def seq, folded acc_def]
  show "be_exact_grant ev = whole_script_grant (parse_shell H) cmd cs s"
    by (auto simp: ev split: sum.splits)
  show "if \<exists>w \<in> set (live_commands cs). denied_command s w
         then \<exists>d \<in> set (ps_disallowed_bash s). be_segments ev = RejectBash (rejection_text d)
         else be_segments ev
                = (if \<forall>w \<in> set (live_commands cs). may_run H s honor w
                   then AutoAllow (via_session_grant (be_segments ev))
                   else NeedsPrompts (map join_words (filter (\<lambda>w. \<not> may_run H s honor w) (live_commands cs))))
              \<and> (DangerousCommand \<in> be_assessment ev
                   \<longleftrightarrow> (\<exists>w \<in> set (live_commands cs). is_dangerous_command_words w))"
  proof (cases "eval_segments H s honor cs acc")
    case (Inl r)
    then obtain t a where "eval_segments H s honor cs acc = Inl (t, a)" by (cases r) auto
    moreover from this have "\<exists>w \<in> set (live_commands cs). denied_command s w"
      using eval_segments_reject [of H s honor cs acc] by simp
    ultimately show ?thesis using eval_segments_text [of H s honor cs acc t a] by (auto simp: ev)
  next
    case (Inr a)
    then have "\<not> (\<exists>w \<in> set (live_commands cs). denied_command s w)"
      using eval_segments_reject [of H s honor cs acc] by simp
    moreover have "filter (\<lambda>w. \<not> may_run H s honor w) (live_commands cs) = []
                   \<longleftrightarrow> (\<forall>w \<in> set (live_commands cs). may_run H s honor w)"
      by (simp add: filter_empty_conv)
    ultimately show ?thesis
      using eval_segments_accept [OF Inr] initial_findings_not_dangerous [of root cmd cs]
      by (simp add: ev Inr sel)
  qed
qed

lemma evaluate_bash_undecomposed:
  assumes "all_commands_from_script (parse_shell H) cmd = None"
  shows "be_segments (evaluate_bash H cmd s honor)
           = (case raw_deny_rejection cmd s of Some r \<Rightarrow> r | None \<Rightarrow> Unparseable)"
    and "be_exact_grant (evaluate_bash H cmd s honor) \<longleftrightarrow> cmd \<in> set (ps_allowed_bash s)"
    and "UnparseableShell \<in> be_assessment (evaluate_bash H cmd s honor)"
    and "DangerousCommand \<notin> be_assessment (evaluate_bash H cmd s honor)"
  using assms
  by (auto simp: evaluate_bash_def all_commands_from_script_def undecomposable_def Let_def
      initial_findings_def env_risk_finding_def split: option.splits env_risk.splits)


text \<open>
  C8. The classification of a Bash request, on every branch.  A script that decomposes is rejected
  exactly when a command of it (wrappers peeled, setup commands left out) is under a remembered
  denial; it is allowed without a prompt exactly when every command may run on its own: not
  dangerous, on an executing or disclosing surface only under an exact grant, and granted or built
  in as safe.  A script that does not decompose is rejected when its text is under a denial, and is
  otherwise left to the caller.
\<close>

theorem bash_verdict_exact:
  "case all_commands_from_script (parse_shell H) cmd of
     Some cs \<Rightarrow>
       ((\<exists>t. be_segments (evaluate_bash H cmd s honor) = RejectBash t)
          \<longleftrightarrow> (\<exists>w \<in> set (live_commands cs). denied_command s w))
       \<and> ((\<exists>via. be_segments (evaluate_bash H cmd s honor) = AutoAllow via)
          \<longleftrightarrow> set (live_commands cs) \<subseteq> {w. \<not> denied_command s w \<and> may_run H s honor w})
   | None \<Rightarrow>
       be_segments (evaluate_bash H cmd s honor)
         = (case disallow_entry s cmd of Some d \<Rightarrow> RejectBash (rejection_text d) | None \<Rightarrow> Unparseable)"
proof (cases "all_commands_from_script (parse_shell H) cmd")
  case None
  then show ?thesis
    by (simp add: evaluate_bash_undecomposed raw_deny_rejection_def option.case_distrib split: option.split)
next
  case (Some cs)
  show ?thesis
    using evaluate_bash_decomposed(1) [OF Some, of s honor]
    by (auto simp: Some split: if_splits)
qed

text \<open>
  What the grant gate before the classifier lets through.  If it allows a script that
  decomposes, no command of it is under a denial, and either the whole script was granted, or none
  of its commands is dangerous, no effect that a broad grant cannot vouch for was found, and every
  command may run on its own or the blanket grant is on and not pinned away.
\<close>

theorem grant_gate_allows_safely:
  assumes "all_commands_from_script (parse_shell H) cmd = Some cs"
    and "bash_grant_pre_decision cmd (evaluate_bash H cmd s honor) s yolo_pin PRE_CLASSIFIER
           = Some (DAllow, r)"
  shows "(\<forall>w \<in> set (live_commands cs). \<not> denied_command s w)
    \<and> (whole_script_grant (parse_shell H) cmd cs s
       \<or> (\<forall>w \<in> set (live_commands cs). \<not> is_dangerous_command_words w)
         \<and> \<not> constrains_broad_grant (be_assessment (evaluate_bash H cmd s honor))
         \<and> ((\<forall>w \<in> set (live_commands cs). may_run H s honor w)
            \<or> ps_allow_bash_execute s \<and> yolo_pin = None))"
proof -
  let ?ev = "evaluate_bash H cmd s honor"
  note dec = evaluate_bash_decomposed(1) [OF assms(1), of s honor]
    and exact = evaluate_bash_decomposed(2) [OF assms(1), of s honor]
  have nd: "\<not> (\<exists>w \<in> set (live_commands cs). denied_command s w)"
  proof
    assume "\<exists>w \<in> set (live_commands cs). denied_command s w"
    then obtain t where "be_segments ?ev = RejectBash t" using dec by auto
    then show False using assms(2) by (simp add: bash_grant_pre_decision_def)
  qed
  then have seg: "be_segments ?ev = (if \<forall>w \<in> set (live_commands cs). may_run H s honor w
                   then AutoAllow (via_session_grant (be_segments ?ev))
                   else NeedsPrompts (map join_words (filter (\<lambda>w. \<not> may_run H s honor w) (live_commands cs))))"
    and dang: "DangerousCommand \<in> be_assessment ?ev \<longleftrightarrow> (\<exists>w \<in> set (live_commands cs). is_dangerous_command_words w)"
    using dec by simp_all
  have floor: "be_exact_grant ?ev \<or> \<not> constrains_broad_grant (be_assessment ?ev)"
    using assms(2)
    by (auto simp: bash_grant_pre_decision_def bash_request_floor_requires_prompt_def
        split: segment_evaluation.splits if_splits)
  show ?thesis
  proof (cases "\<forall>w \<in> set (live_commands cs). may_run H s honor w")
    case True
    then show ?thesis using nd floor exact by (auto simp: may_run_def)
  next
    case False
    with seg obtain ps where "be_segments ?ev = NeedsPrompts ps" by (metis (no_types, lifting))
    then have "be_exact_grant ?ev \<or> DangerousCommand \<notin> be_assessment ?ev \<and> persisted_bash_auto_allows s cmd yolo_pin"
      using assms(2) by (auto simp: bash_grant_pre_decision_def PRE_CLASSIFIER_def split: if_splits)
    then show ?thesis
      using nd floor exact dang by (auto simp: persisted_bash_auto_allows_def whole_script_grant_def)
  qed
qed

definition push_granted :: permission_state where
  "push_granted = permission_state_default\<lparr>ps_allowed_bash := [''git push origin'']\<rparr>"

lemma grant_gate_allows_safely_witness:
  "bash_grant_pre_decision ''git push origin'' (evaluate_bash demo_host ''git push origin'' push_granted True)
     push_granted None PRE_CLASSIFIER = Some (DAllow, SessionGrant)
   \<and> set (live_commands (the (all_commands_from_script demo_parse ''git push origin'')))
        \<subseteq> {w. \<not> denied_command push_granted w}"
proof -
  have c: "all_commands_from_script (parse_shell demo_host) ''git push origin''
           = Some (the (all_commands_from_script demo_parse ''git push origin''))"
    by code_simp
  have a: "bash_grant_pre_decision ''git push origin'' (evaluate_bash demo_host ''git push origin'' push_granted True)
     push_granted None PRE_CLASSIFIER = Some (DAllow, SessionGrant)"
    by code_simp
  show ?thesis using grant_gate_allows_safely [OF c a] a by blast
qed

subsection \<open>Scopes\<close>

lemma base_scope_range: "words \<noteq> [] \<Longrightarrow> 1 \<le> base_scope words \<and> base_scope words \<le> length words"
proof -
  assume w: "words \<noteq> []"
  have "length (takeWhile (\<lambda>w. starts_with w ''-'') (drop n words)) \<le> length words - n" for n
    by (metis length_drop length_takeWhile_le)
  from this [of "min (length words) 2"] w show ?thesis
    by (auto simp: base_scope_def flag_scope_def Suc_le_eq)
qed

lemma gh_scope_range: "gh_always_allow_scope words = Some n \<Longrightarrow> words \<noteq> [] \<Longrightarrow> 1 \<le> n \<and> n \<le> length words"
  by (auto simp: gh_always_allow_scope_def nth_opt_def Suc_le_eq split: if_splits option.splits)

lemma minimum_scope_range:
  "words \<noteq> [] \<Longrightarrow> 1 \<le> minimum_always_allow_scope words \<and> minimum_always_allow_scope words \<le> length words"
  using gh_scope_range [of words]
  by (auto simp: minimum_always_allow_scope_def Suc_le_eq split: option.splits)

text \<open>
  The scope a prompt opens on is one it may offer: never below the narrowest scope, never past
  the command, and the whole command for a pinned one.
\<close>

theorem default_scope_offerable:
  "words \<noteq> [] \<Longrightarrow>
     1 \<le> minimum_always_allow_scope words
     \<and> minimum_always_allow_scope words \<le> default_always_allow_scope words
     \<and> default_always_allow_scope words \<le> length words
     \<and> (always_allow_scope_pinned words
          \<longrightarrow> minimum_always_allow_scope words = length words)"
  using base_scope_range [of words] gh_scope_range [of words]
  by (auto simp: minimum_always_allow_scope_def default_always_allow_scope_def Suc_le_eq split: option.splits)

lemma default_scope_offerable_witness:
  "minimum_always_allow_scope [''gh'', ''pr'', ''merge'', ''7''] = 3
   \<and> minimum_always_allow_scope [''gh'', ''pr'', ''merge'', ''7'']
       \<le> default_always_allow_scope [''gh'', ''pr'', ''merge'', ''7'']"
proof -
  have "minimum_always_allow_scope [''gh'', ''pr'', ''merge'', ''7''] = 3" by code_simp
  then show ?thesis using default_scope_offerable [of "[''gh'', ''pr'', ''merge'', ''7'']"] by simp
qed


lemma join_str_append: "xs \<noteq> [] \<Longrightarrow> ys \<noteq> [] \<Longrightarrow> join_str sep (xs @ ys) = join_str sep xs @ sep @ join_str sep ys"
proof (induction sep xs rule: join_str.induct)
  case (2 sep x)
  then show ?case by (cases ys) auto
qed auto

lemma join_take_less:
  assumes "1 \<le> n" "n < m" "m \<le> length ws"
  shows "length (join_words (take n ws)) < length (join_words (take m ws))"
proof -
  have "take m ws = take n ws @ take (m - n) (drop n ws)"
    using assms by (metis le_add_diff_inverse less_imp_le take_add)
  moreover have "take n ws \<noteq> []" "take (m - n) (drop n ws) \<noteq> []" using assms by auto
  ultimately show ?thesis by (simp add: join_words_def join_str_append)
qed

lemma join_take_inj:
  assumes "1 \<le> n" "n \<le> length ws" "1 \<le> m" "m \<le> length ws" "join_words (take n ws) = join_words (take m ws)"
  shows "n = m"
  using join_take_less [of n m ws] join_take_less [of m n ws] assms
  by (metis linorder_neqE_nat less_irrefl)

lemma label_verified_iff:
  "label_verified parse ws l
     \<longleftrightarrow> (\<exists>n \<ge> minimum_always_allow_scope ws. n \<le> length ws \<and> words_join_unambiguously parse (take n ws)
          \<and> join_words (take n ws) = l)"
  by (auto simp: label_verified_def list_ex_iff less_Suc_eq_le simp del: upt_Suc)

lemma label_verified_take:
  assumes "1 \<le> n" "n \<le> length ws"
  shows "label_verified parse ws (join_words (take n ws))
           \<longleftrightarrow> minimum_always_allow_scope ws \<le> n \<and> words_join_unambiguously parse (take n ws)"
proof
  have ws: "ws \<noteq> []" using assms by auto
  assume "label_verified parse ws (join_words (take n ws))"
  then obtain m where m: "minimum_always_allow_scope ws \<le> m" "m \<le> length ws"
    "words_join_unambiguously parse (take m ws)" "join_words (take m ws) = join_words (take n ws)"
    by (auto simp: label_verified_iff)
  moreover have "1 \<le> m" using minimum_scope_range [OF ws] m(1) by simp
  ultimately have "m = n" using join_take_inj assms by metis
  then show "minimum_always_allow_scope ws \<le> n \<and> words_join_unambiguously parse (take n ws)" using m by simp
next
  assume "minimum_always_allow_scope ws \<le> n \<and> words_join_unambiguously parse (take n ws)"
  then show "label_verified parse ws (join_words (take n ws))"
    using assms by (auto simp: label_verified_iff)
qed

text \<open>
  A scope the prompt's arrows stop at is a scope that saves something: accepting the first
  \<open>n\<close> words of the command stores a grant exactly when the predicate behind the arrows holds.
\<close>

theorem scope_persists_exact:
  assumes "primary_command_from_script parse cmd = Returned (Some h)"
    and "1 \<le> n" and "n \<le> length (hl_words h)"
  shows "always_allow_scope_persists parse h n
     \<longleftrightarrow> persist_bash_always_allow parse permission_state_default cmd (join_words (take n (hl_words h)))
           \<noteq> Returned permission_state_default"
proof -
  have g: "grant_bash key permission_state_default \<noteq> permission_state_default" for key
    by (simp add: grant_bash_def permission_state_default_def hs_insert_def)
  have r: "minimum_always_allow_scope (hl_words h) \<le> length (hl_words h)"
    using minimum_scope_range [of "hl_words h"] assms(2,3) by fastforce
  have "join_words (hl_words h) = join_words (take n (hl_words h)) \<longleftrightarrow> n = length (hl_words h)"
    using join_take_less [OF assms(2), of "length (hl_words h)" "hl_words h"] assms(3)
    by (cases "n = length (hl_words h)") (simp, metis le_neq_implies_less less_irrefl order_refl take_all)
  then show ?thesis
    using assms label_verified_take [OF assms(2,3), of parse] g r
    by (auto simp: always_allow_scope_persists_def persist_bash_always_allow_def Let_def)
qed

lemma scope_persists_exact_witness:
  "persist_bash_always_allow demo_parse permission_state_default ''cargo test --lib'' ''cargo test''
     \<noteq> Returned permission_state_default
   \<and> always_allow_scope_persists demo_parse
       \<lparr>hl_prefix = [], hl_words = [''cargo'', ''test'', ''--lib''], hl_suffix = []\<rparr> 2"
proof -
  have h: "primary_command_from_script demo_parse ''cargo test --lib''
      = Returned (Some \<lparr>hl_prefix = [], hl_words = [''cargo'', ''test'', ''--lib''], hl_suffix = []\<rparr>)"
    by code_simp
  have p: "always_allow_scope_persists demo_parse
       \<lparr>hl_prefix = [], hl_words = [''cargo'', ''test'', ''--lib''], hl_suffix = []\<rparr> 2"
    by code_simp
  have t: "join_words (take 2 [''cargo'', ''test'', ''--lib'']) = ''cargo test''" by (simp add: join_words_def)
  show ?thesis using scope_persists_exact [OF h, of 2] p t by simp
qed

text \<open>
  A forged or stale answer cannot widen a pinned command (a dangerous verb, an exec vehicle or
  \<open>sed\<close>): whatever label comes back, the only key it can add is the whole command or the whole
  script, and nothing else of the state changes.
\<close>

theorem pinned_grant_is_whole:
  assumes "primary_command_from_script parse cmd = Returned (Some h)"
    and "always_allow_scope_pinned (hl_words h)"
    and "persist_bash_always_allow parse s cmd label = Returned s'"
  shows "s' = s \<or> s' = grant_bash (join_words (hl_words h)) s \<or> s' = grant_bash cmd s"
proof (cases "label_verified parse (hl_words h) label")
  case True
  then have "label = join_words (hl_words h)"
    using assms(2) by (auto simp: label_verified_iff minimum_always_allow_scope_def)
  then show ?thesis using assms True by (simp add: persist_bash_always_allow_def)
next
  case False
  then show ?thesis using assms by (auto simp: persist_bash_always_allow_def split: if_splits)
qed

lemma pinned_grant_is_whole_witness:
  "persist_bash_always_allow demo_parse permission_state_default ''git push origin'' ''git push'' = Returned permission_state_default
   \<and> (permission_state_default = permission_state_default
      \<or> permission_state_default = grant_bash ''git push origin'' permission_state_default)"
proof -
  have h: "primary_command_from_script demo_parse ''git push origin''
      = Returned (Some \<lparr>hl_prefix = [], hl_words = [''git'', ''push'', ''origin''], hl_suffix = []\<rparr>)"
    by code_simp
  have p: "always_allow_scope_pinned (hl_words \<lparr>hl_prefix = [], hl_words = [''git'', ''push'', ''origin''], hl_suffix = []\<rparr>)"
    by code_simp
  have r: "persist_bash_always_allow demo_parse permission_state_default ''git push origin'' ''git push''
           = Returned permission_state_default"
    by code_simp
  show ?thesis using pinned_grant_is_whole [OF h p r] r by blast
qed

text \<open>
  A dangerous verb behind a global option of \<open>git\<close> is not seen as dangerous.  The prompt for
  \<open>git --no-pager push --force\<close> offers to remember \<open>git --no-pager\<close>, and once it is remembered
  every command that starts so, a force push included, is allowed without a prompt and without a
  finding.
\<close>

theorem push_behind_global_option:
  "always_allow_row_is_effective demo_host ''git --no-pager push --force'' = Returned True
   \<and> persist_bash_always_allow demo_parse permission_state_default
       ''git --no-pager log --oneline'' ''git --no-pager''
       = Returned (grant_bash ''git --no-pager'' permission_state_default)
   \<and> be_segments (evaluate_bash demo_host ''git --no-pager push --force''
        (grant_bash ''git --no-pager'' permission_state_default) True) = AutoAllow True
   \<and> be_assessment (evaluate_bash demo_host ''git --no-pager push --force''
        (grant_bash ''git --no-pager'' permission_state_default) True) = {}
   \<and> be_segments (evaluate_bash demo_host ''git push --force''
        (grant_bash ''git push'' permission_state_default) True) = NeedsPrompts [''git push --force'']"
  by (intro conjI; code_simp)

text \<open>
  The blanket grant passes dangerous commands.  Outside the auto mode (where the gate is asked
  with \<open>post_classify False\<close>) the stored \<open>allow_bash_execute\<close> allows \<open>git push\<close>; the gate before
  the classifier does not.
\<close>

theorem blanket_grant_runs_dangerous:
  "let s = permission_state_default\<lparr>ps_allow_bash_execute := True\<rparr>;
       ev = evaluate_bash demo_host ''git push'' s True
   in DangerousCommand \<in> be_assessment ev
      \<and> bash_grant_pre_decision ''git push'' ev s None (post_classify False) = Some (DAllow, SessionGrant)
      \<and> bash_grant_pre_decision ''git push'' ev s None PRE_CLASSIFIER = None"
  unfolding Let_def by (intro conjI; code_simp)

end
