(* ===== verification/WebDomains.thy ===== *)
theory WebDomains
  imports PermissionPolicy
begin

section \<open>Domains of web fetches\<close>

text \<open>
  \<open>web_fetch/domain.rs\<close>: the precomputed allow list of hosts and path prefixes; and the remembered
  denials of hosts in \<open>permission/manager/mod.rs\<close>.  The URL parser is a parameter: what the code
  reads of a parsed URL is its host and its path.
\<close>

record parsed_url =
  pu_host :: "string option"
  pu_path :: string

datatype host_entry = AnyPath | PathPrefixes "string list"

type_synonym domain_matcher = "(string \<times> host_entry) list"

definition split_host :: "string \<Rightarrow> string \<times> string option" where
  "split_host s =
     (if CHR ''/'' \<in> set s
      then (takeWhile (\<lambda>c. c \<noteq> CHR ''/'') s, Some (dropWhile (\<lambda>c. c \<noteq> CHR ''/'') s))
      else (s, None))"

text \<open>The map of hosts as an association list, the newest entry first.\<close>

definition add_prefix :: "string \<Rightarrow> string \<Rightarrow> domain_matcher \<Rightarrow> domain_matcher" where
  "add_prefix host p m =
     (case map_of m host of
        Some (PathPrefixes ps) \<Rightarrow> if p \<in> set ps then m else (host, PathPrefixes (ps @ [p])) # m
      | Some AnyPath \<Rightarrow> m
      | None \<Rightarrow> (host, PathPrefixes [p]) # m)"

definition matcher_entry :: "'g host \<Rightarrow> domain_matcher \<Rightarrow> string \<Rightarrow> domain_matcher" where
  "matcher_entry H m raw =
     (let normalized = normalize_domain H raw in
      if normalized = [] then m
      else (case split_host normalized of
              (host, None) \<Rightarrow> (host, AnyPath) # m
            | (host, Some raw_path) \<Rightarrow>
                if map_of m host = Some AnyPath then m
                else
                  (let p = trim_end_char CHR ''/'' raw_path in
                   if p = [] \<or> p = ''/'' then (host, AnyPath) # m
                   else add_prefix host (if starts_with p ''/'' then p else CHR ''/'' # p) m)))"

definition domain_matcher_new :: "'g host \<Rightarrow> string list \<Rightarrow> domain_matcher" where
  "domain_matcher_new H raw_entries = foldl (matcher_entry H) [] raw_entries"

definition path_under :: "string \<Rightarrow> string \<Rightarrow> bool" where
  "path_under path p \<longleftrightarrow>
     path = p \<or> starts_with path p \<and> length p < length path \<and> path ! length p = CHR ''/''"

text \<open>\<open>check\<close>: \<open>None\<close> permits the fetch, \<open>Some\<close> names the refused domain.\<close>

definition domain_check :: "'g host \<Rightarrow> domain_matcher \<Rightarrow> parsed_url \<Rightarrow> string option" where
  "domain_check H m url =
     (case pu_host url of
        None \<Rightarrow> Some []
      | Some raw_host \<Rightarrow>
          (let host = normalize_domain H raw_host in
           case map_of m host of
             Some AnyPath \<Rightarrow> None
           | Some (PathPrefixes ps) \<Rightarrow>
               if list_ex (path_under (unicode_lower H (pu_path url))) ps then None else Some host
           | None \<Rightarrow> Some host))"

definition domain_from_url :: "'g host \<Rightarrow> (string \<Rightarrow> parsed_url option) \<Rightarrow> string \<Rightarrow> string option" where
  "domain_from_url H parse_url raw_url =
     (case parse_url raw_url of
        None \<Rightarrow> None
      | Some u \<Rightarrow> map_option (normalize_domain H) (pu_host u))"

subsection \<open>Remembered denials\<close>

definition web_fetch_deny_key :: "'g host \<Rightarrow> string \<Rightarrow> string" where
  "web_fetch_deny_key H host = unicode_lower H (trim_end_char CHR ''.'' (trim host))"

definition web_fetch_deny_key_from_url ::
    "'g host \<Rightarrow> (string \<Rightarrow> parsed_url option) \<Rightarrow> string \<Rightarrow> string option" where
  "web_fetch_deny_key_from_url H parse_url url =
     (case Option.bind (parse_url url) pu_host of
        None \<Rightarrow> None
      | Some host \<Rightarrow>
          (let key = web_fetch_deny_key H host in if key = [] then None else Some key))"

definition denial_covers :: "string \<Rightarrow> string \<Rightarrow> bool" where
  "denial_covers domain denied \<longleftrightarrow>
     denied \<noteq> []
     \<and> (domain = denied
        \<or> length denied + 1 < length domain \<and> ends_with domain denied
           \<and> domain ! (length domain - length denied - 1) = CHR ''.'')"

definition denied_web_fetch_domain :: "'g host \<Rightarrow> string \<Rightarrow> string list \<Rightarrow> string option" where
  "denied_web_fetch_domain H host disallowed =
     (if disallowed = [] then None
      else List.find (denial_covers (web_fetch_deny_key H host)) disallowed)"

subsection \<open>What an allow list permits\<close>

text \<open>One entry permits a host and a (lower-cased) path.\<close>

definition entry_permits :: "'g host \<Rightarrow> string \<Rightarrow> string \<Rightarrow> string \<Rightarrow> bool" where
  "entry_permits H host path raw \<longleftrightarrow>
     normalize_domain H raw \<noteq> []
     \<and> fst (split_host (normalize_domain H raw)) = host
     \<and> (case snd (split_host (normalize_domain H raw)) of
          None \<Rightarrow> True
        | Some p \<Rightarrow> trim_end_char CHR ''/'' p = [] \<or> path_under path (trim_end_char CHR ''/'' p))"

fun host_permits :: "host_entry option \<Rightarrow> string \<Rightarrow> bool" where
  "host_permits None path = False"
| "host_permits (Some AnyPath) path = True"
| "host_permits (Some (PathPrefixes ps)) path = list_ex (path_under path) ps"

lemma trim_end_char_shape: "\<exists>n. s = trim_end_char c s @ replicate n c"
proof -
  have "\<exists>n. t = replicate n c @ dropWhile (\<lambda>x. x = c) t" for t
    by (induction t) (auto intro: exI [of _ 0] exI [of _ "Suc _"])
  then obtain n where "rev s = replicate n c @ dropWhile (\<lambda>x. x = c) (rev s)" by blast
  then have "rev (rev s) = rev (replicate n c @ dropWhile (\<lambda>x. x = c) (rev s))" by simp
  then show ?thesis by (auto simp: trim_end_char_def)
qed

lemma trim_end_char_not_single: "trim_end_char c s \<noteq> [c]"
proof -
  have "dropWhile (\<lambda>x. x = c) t \<noteq> [c]" for t by (induction t) auto
  then show ?thesis unfolding trim_end_char_def by (metis rev_singleton_conv)
qed

lemma trim_end_char_starts:
  assumes "trim_end_char c (d # s) \<noteq> []"
  shows "starts_with (trim_end_char c (d # s)) [d]"
proof -
  obtain n where "d # s = trim_end_char c (d # s) @ replicate n c" using trim_end_char_shape by blast
  then show ?thesis using assms by (cases "trim_end_char c (d # s)") (auto simp: starts_with_def)
qed

lemma host_permits_add_prefix:
  "host_permits (map_of (add_prefix h p m) host) path
     \<longleftrightarrow> host_permits (map_of m host) path \<or> h = host \<and> path_under path p"
proof (cases "h = host")
  case True
  then show ?thesis
    by (cases "map_of m host" rule: option.exhaust; simp add: add_prefix_def)
      (auto simp: list_ex_iff split: host_entry.splits)
next
  case False
  then show ?thesis by (auto simp: add_prefix_def split: option.splits host_entry.splits)
qed

lemma split_host_path: "split_host s = (h, Some p) \<Longrightarrow> \<exists>r. p = CHR ''/'' # r"
proof -
  assume a: "split_host s = (h, Some p)"
  then have s: "CHR ''/'' \<in> set s" "p = dropWhile (\<lambda>c. c \<noteq> CHR ''/'') s"
    by (auto simp: split_host_def split: if_splits)
  then have "p \<noteq> []" by auto
  then have "hd p = CHR ''/''" using hd_dropWhile [of "\<lambda>c. c \<noteq> CHR ''/''" s] s(2) by simp
  then show ?thesis using \<open>p \<noteq> []\<close> by (cases p) auto
qed

lemma matcher_entry_permits:
  "host_permits (map_of (matcher_entry H m raw) host) path
     \<longleftrightarrow> host_permits (map_of m host) path \<or> entry_permits H host path raw"
proof (cases "normalize_domain H raw = []")
  case True
  then show ?thesis by (simp add: matcher_entry_def entry_permits_def)
next
  case False
  obtain h q where hq: "split_host (normalize_domain H raw) = (h, q)" by (cases "split_host (normalize_domain H raw)")
  show ?thesis
  proof (cases q)
    case None
    then show ?thesis using False hq by (auto simp: matcher_entry_def entry_permits_def Let_def)
  next
    case (Some r)
    then obtain r' where r: "r = CHR ''/'' # r'" using split_host_path hq by blast
    let ?p = "trim_end_char CHR ''/'' r"
    have p: "?p \<noteq> ''/''" "?p \<noteq> [] \<Longrightarrow> starts_with ?p ''/''"
      using trim_end_char_not_single trim_end_char_starts unfolding r by blast+
    show ?thesis
    proof (cases "map_of m h = Some AnyPath")
      case True
      then show ?thesis using False hq Some by (auto simp: matcher_entry_def entry_permits_def Let_def)
    next
      case any: False
      then show ?thesis
      proof (cases "?p = []")
        case True
        then show ?thesis using False hq Some any by (auto simp: matcher_entry_def entry_permits_def Let_def)
      next
        case np: False
        then have "matcher_entry H m raw = add_prefix h ?p m"
          using False hq Some any p by (simp add: matcher_entry_def Let_def)
        then show ?thesis using False hq Some np host_permits_add_prefix by (auto simp: entry_permits_def)
      qed
    qed
  qed
qed

lemma matcher_permits:
  "host_permits (map_of (foldl (matcher_entry H) m raws) host) path
     \<longleftrightarrow> host_permits (map_of m host) path \<or> (\<exists>raw \<in> set raws. entry_permits H host path raw)"
  by (induction raws arbitrary: m) (auto simp: matcher_entry_permits)

lemma domain_check_permits:
  "domain_check H m url = None
     \<longleftrightarrow> (\<exists>h. pu_host url = Some h
            \<and> host_permits (map_of m (normalize_domain H h)) (unicode_lower H (pu_path url)))"
  by (auto simp: domain_check_def Let_def split: option.splits host_entry.splits)

text \<open>
  C37. The precomputed matcher permits exactly what some entry of the list permits on its own: the
  order of the entries, repetitions, and a host that is listed with and without a path never widen
  or narrow it.
\<close>

theorem domain_matcher_exact:
  "domain_check H (domain_matcher_new H raws) url = None
     \<longleftrightarrow> (\<exists>h. pu_host url = Some h
            \<and> (\<exists>raw \<in> set raws.
                 entry_permits H (normalize_domain H h) (unicode_lower H (pu_path url)) raw))"
  by (simp add: domain_check_permits domain_matcher_new_def matcher_permits)

lemma denied_domain_iff:
  "denied_web_fetch_domain H host ds \<noteq> None
     \<longleftrightarrow> (\<exists>d \<in> set ds. denial_covers (web_fetch_deny_key H host) d)"
  using find_None_iff [of "denial_covers (web_fetch_deny_key H host)" ds]
  by (cases ds) (auto simp: denied_web_fetch_domain_def)

end
