(* ===== verification/ToolIds.thy ===== *)
theory ToolIds
  imports Prelude
begin

section \<open>Identifiers and qualified tool names\<close>

text \<open>
  \<open>xai-tool-protocol/src/ids.rs\<close>: the validating constructors of the identifiers that travel on the
  wire (an identifier is its string, a constructor returns it or an error), and
  \<open>parse_mcp_qualified_name\<close> of \<open>xai-grok-mcp/src/servers.rs\<close>, which splits a tool name into the
  server and the tool.
\<close>

subsection \<open>Constructors\<close>

datatype id_error = IdEmpty | IdInvalidFormat string | IdReservedPrefix string

definition is_id_char :: "char \<Rightarrow> bool" where
  "is_id_char c \<longleftrightarrow> is_ascii_alphanumeric c \<or> c = CHR ''_'' \<or> c = CHR ''-''"

definition is_valid_segment :: "string \<Rightarrow> bool" where
  "is_valid_segment s \<longleftrightarrow> s \<noteq> [] \<and> list_all is_id_char s"

definition ensure_non_empty :: "string \<Rightarrow> id_error + unit" where
  "ensure_non_empty s = (if s = [] then Inl IdEmpty else Inr ())"

text \<open>The constructor the macro \<open>opaque_id\<close> writes, with the validator it is given.\<close>

definition opaque_id_new :: "(string \<Rightarrow> id_error + unit) \<Rightarrow> string \<Rightarrow> id_error + string" where
  "opaque_id_new validator s =
     (case ensure_non_empty s of
        Inl e \<Rightarrow> Inl e
      | Inr _ \<Rightarrow> (case validator s of Inl e \<Rightarrow> Inl e | Inr _ \<Rightarrow> Inr s))"

definition HUB_RESERVED_SESSION_PREFIX :: string where
  "HUB_RESERVED_SESSION_PREFIX = ''__hub:''"

definition validate_session_id :: "string \<Rightarrow> id_error + unit" where
  "validate_session_id s =
     (if starts_with s HUB_RESERVED_SESSION_PREFIX then Inl (IdReservedPrefix s) else Inr ())"

definition SERVER_ID_RESERVED_PREFIX :: string where
  "SERVER_ID_RESERVED_PREFIX = ''auto:''"

definition validate_server_id :: "string \<Rightarrow> id_error + unit" where
  "validate_server_id s =
     (if starts_with s SERVER_ID_RESERVED_PREFIX then Inl (IdReservedPrefix s) else Inr ())"

text \<open>\<open>splitn(3, ':')\<close>: one part, two, or more.\<close>

definition is_well_formed_tool_id :: "string \<Rightarrow> bool" where
  "is_well_formed_tool_id s =
     (case split_char CHR '':'' s of
        [a] \<Rightarrow> is_valid_segment a
      | [a, b] \<Rightarrow> is_valid_segment a \<and> is_valid_segment b
      | _ \<Rightarrow> False)"

definition validate_tool_id :: "string \<Rightarrow> id_error + unit" where
  "validate_tool_id s = (if is_well_formed_tool_id s then Inr () else Inl (IdInvalidFormat s))"

definition session_id_new :: "string \<Rightarrow> id_error + string" where
  "session_id_new s = opaque_id_new validate_session_id s"

definition server_id_new :: "string \<Rightarrow> id_error + string" where
  "server_id_new s = opaque_id_new validate_server_id s"

definition tool_id_new :: "string \<Rightarrow> id_error + string" where
  "tool_id_new s = opaque_id_new validate_tool_id s"

text \<open>The connection is an argument of the source's function that it does not use.\<close>

definition synthesize_for_tool :: "string \<Rightarrow> string" where
  "synthesize_for_tool tool_id = SERVER_ID_RESERVED_PREFIX @ ''tool:'' @ tool_id"

subsection \<open>Qualified MCP names\<close>

text \<open>The positions of \<open>__\<close> in a name, overlapping ones included.\<close>

definition mcp_boundaries :: "string \<Rightarrow> nat list" where
  "mcp_boundaries name = filter (\<lambda>i. take 2 (drop i name) = ''__'') [0..<length name]"

definition parse_mcp_qualified_name :: "string \<Rightarrow> (string \<times> string \<times> string) option" where
  "parse_mcp_qualified_name name =
     (case mcp_boundaries name of
        [b] \<Rightarrow>
          (let server = take b name; tool = drop (b + 2) name
           in if server = [] \<or> tool = [] then None
              else (case tool_id_new name of
                      Inl _ \<Rightarrow> None
                    | Inr i \<Rightarrow> Some (i, server, tool)))
      | _ \<Rightarrow> None)"

subsection \<open>Which strings are tool identifiers\<close>

lemma split_char_one: "split_char c s = [a] \<longleftrightarrow> a = s \<and> c \<notin> set s"
proof (cases "c \<in> set s")
  case True
  then obtain x y where s: "s = x @ c # y" and x: "c \<notin> set x" using split_list_first [OF True] by blast
  show ?thesis using split_char_append_sep [OF x, of y] split_char_not_Nil [of c y] by (auto simp: s)
qed (auto simp: split_char_piece)

lemma split_char_two:
  "split_char c s = [a, b] \<longleftrightarrow> s = a @ c # b \<and> c \<notin> set a \<and> c \<notin> set b"
proof (cases "c \<in> set s")
  case True
  then obtain x y where s: "s = x @ c # y" and x: "c \<notin> set x" using split_list_first [OF True] by blast
  show ?thesis
  proof
    assume "split_char c s = [a, b]"
    then show "s = a @ c # b \<and> c \<notin> set a \<and> c \<notin> set b"
      using split_char_append_sep [OF x, of y] split_char_one [of c y b] x by (auto simp: s)
  next
    assume "s = a @ c # b \<and> c \<notin> set a \<and> c \<notin> set b"
    then show "split_char c s = [a, b]" by (auto simp: split_char_append_sep split_char_piece)
  qed
qed (auto simp: split_char_piece)

lemma segment_no_colon: "is_valid_segment s \<Longrightarrow> CHR '':'' \<notin> set s"
proof -
  have "\<not> is_id_char CHR '':''" by code_simp
  then show "is_valid_segment s \<Longrightarrow> CHR '':'' \<notin> set s"
    by (auto simp: is_valid_segment_def list_all_iff)
qed

lemma well_formed_tool_id_iff:
  "is_well_formed_tool_id s \<longleftrightarrow>
     is_valid_segment s \<or> (\<exists>a b. s = a @ CHR '':'' # b \<and> is_valid_segment a \<and> is_valid_segment b)"
proof
  assume w: "is_well_formed_tool_id s"
  then consider a where "split_char CHR '':'' s = [a]" "is_valid_segment a"
    | a b where "split_char CHR '':'' s = [a, b]" "is_valid_segment a" "is_valid_segment b"
    by (auto simp: is_well_formed_tool_id_def split: list.splits)
  then show "is_valid_segment s
      \<or> (\<exists>a b. s = a @ CHR '':'' # b \<and> is_valid_segment a \<and> is_valid_segment b)"
    by cases (auto simp: split_char_one split_char_two)
next
  assume "is_valid_segment s
      \<or> (\<exists>a b. s = a @ CHR '':'' # b \<and> is_valid_segment a \<and> is_valid_segment b)"
  then show "is_well_formed_tool_id s"
    by (auto simp: is_well_formed_tool_id_def split_char_append_sep split_char_piece segment_no_colon)
qed

text \<open>
  C36. The tool identifiers are exactly a name, or a namespace and a name with a colon between them, each
  a nonempty word of ASCII letters, digits, underscores and hyphens; the constructor returns such a
  string unchanged, tells an empty string from a malformed one, and returns nothing else.
\<close>

theorem tool_id_exact:
  "tool_id_new s =
     (if s = [] then Inl IdEmpty
      else if is_valid_segment s
              \<or> (\<exists>a b. s = a @ CHR '':'' # b \<and> is_valid_segment a \<and> is_valid_segment b)
      then Inr s else Inl (IdInvalidFormat s))"
  unfolding well_formed_tool_id_iff [symmetric]
  by (simp add: tool_id_new_def opaque_id_new_def ensure_non_empty_def validate_tool_id_def)

subsection \<open>Server identifiers the hub makes up\<close>

text \<open>
  An identifier the hub synthesises for a tool is one no client can supply: its constructor refuses
  it as reserved; and two tools never share one.
\<close>

theorem synthesized_server_ids_are_reserved:
  "server_id_new (synthesize_for_tool t) = Inl (IdReservedPrefix (synthesize_for_tool t))
   \<and> (synthesize_for_tool t = synthesize_for_tool t' \<longleftrightarrow> t = t')"
  by (auto simp: server_id_new_def opaque_id_new_def ensure_non_empty_def validate_server_id_def
      synthesize_for_tool_def starts_with_append SERVER_ID_RESERVED_PREFIX_def)

subsection \<open>Which names are qualified\<close>

lemma boundary_iff:
  "i \<in> set (mcp_boundaries name) \<longleftrightarrow> i < length name \<and> take 2 (drop i name) = ''__''"
  by (auto simp: mcp_boundaries_def)

lemma boundary_split: "i \<in> set (mcp_boundaries name) \<longleftrightarrow> name = take i name @ ''__'' @ drop (i + 2) name"
  (is "?l \<longleftrightarrow> ?r")
proof
  assume ?l
  then have "drop i name = ''__'' @ drop 2 (drop i name)"
    using append_take_drop_id [of 2 "drop i name"] by (simp add: boundary_iff)
  then show ?r by (metis add.commute append_take_drop_id drop_drop)
next
  assume r: ?r
  then have l: "i < length name"
    by (metis (no_types, lifting) add_less_same_cancel1 append_eq_conv_conj append_self_conv2
        drop_eq_Nil2 length_append linorder_not_less list.distinct(1) not_add_less1 self_append_conv2 take_all)
  then have "drop i name = ''__'' @ drop (i + 2) name"
    by (metis append_eq_conv_conj append_take_drop_id r same_append_eq)
  then show ?l using l by (simp add: boundary_iff)
qed

definition qualified_splits :: "string \<Rightarrow> (string \<times> string) set" where
  "qualified_splits name = {(a, b). name = a @ ''__'' @ b}"

lemma boundary_of_split: "(a, b) \<in> qualified_splits name \<Longrightarrow> length a \<in> set (mcp_boundaries name)"
  by (simp add: qualified_splits_def boundary_split)

lemma split_of_boundary:
  "i \<in> set (mcp_boundaries name) \<Longrightarrow> (take i name, drop (i + 2) name) \<in> qualified_splits name"
  using boundary_split by (simp add: qualified_splits_def)

lemma only_boundary: "mcp_boundaries name = [i] \<longleftrightarrow> set (mcp_boundaries name) = {i}"
proof
  assume s: "set (mcp_boundaries name) = {i}"
  have "distinct (mcp_boundaries name)" by (simp add: mcp_boundaries_def)
  then have "length (mcp_boundaries name) = 1" using s distinct_card [of "mcp_boundaries name"] by simp
  then show "mcp_boundaries name = [i]" using s by (auto simp: length_Suc_conv)
qed simp

lemma one_split_iff:
  "qualified_splits name = {(server, tool)} \<longleftrightarrow>
     mcp_boundaries name = [length server] \<and> take (length server) name = server
     \<and> drop (length server + 2) name = tool"
proof
  assume q: "qualified_splits name = {(server, tool)}"
  then have n: "name = server @ ''__'' @ tool" by (auto simp: qualified_splits_def)
  have "i = length server" if "i \<in> set (mcp_boundaries name)" for i
  proof -
    have "take i name = server" using split_of_boundary [OF that] unfolding q by simp
    moreover have "i < length name" using that by (simp add: boundary_iff)
    ultimately show ?thesis by auto
  qed
  moreover have "length server \<in> set (mcp_boundaries name)" using q by (intro boundary_of_split) blast
  ultimately have "set (mcp_boundaries name) = {length server}" by blast
  then show "mcp_boundaries name = [length server] \<and> take (length server) name = server
     \<and> drop (length server + 2) name = tool"
    unfolding only_boundary using n by simp
next
  assume b: "mcp_boundaries name = [length server] \<and> take (length server) name = server
     \<and> drop (length server + 2) name = tool"
  then have "(server, tool) \<in> qualified_splits name" using split_of_boundary [of "length server" name] by simp
  moreover have "p = (server, tool)" if "p \<in> qualified_splits name" for p
  proof -
    obtain u v where p: "p = (u, v)" by (cases p)
    have "length u = length server" using boundary_of_split [OF that [unfolded p]] b by simp
    then show ?thesis using that calculation by (auto simp: p qualified_splits_def)
  qed
  ultimately show "qualified_splits name = {(server, tool)}" by blast
qed

text \<open>
  A name is read as a server and a tool exactly when it can be cut at a double underscore in one way
  only (a triple underscore can be cut in two), neither part is empty, and the whole name is a tool
  identifier; the parts are then those of the only cut.
\<close>

theorem qualified_name_exact:
  "parse_mcp_qualified_name name = Some (i, server, tool) \<longleftrightarrow>
     i = name \<and> qualified_splits name = {(server, tool)} \<and> server \<noteq> [] \<and> tool \<noteq> []
     \<and> tool_id_new name = Inr name"
proof -
  have id: "k = name" if "tool_id_new name = Inr k" for k
    using that by (auto simp: tool_id_new_def opaque_id_new_def split: sum.splits)
  have one: "parse_mcp_qualified_name name = Some (i, server, tool) \<longleftrightarrow>
      (\<exists>b. mcp_boundaries name = [b] \<and> server = take b name \<and> tool = drop (b + 2) name
           \<and> server \<noteq> [] \<and> tool \<noteq> [] \<and> tool_id_new name = Inr i)"
    unfolding parse_mcp_qualified_name_def Let_def
    by (cases "mcp_boundaries name" rule: list.exhaust; cases "tl (mcp_boundaries name)"; auto split: sum.splits)
  have len: "b \<le> length name" if "mcp_boundaries name = [b]" for b
    using that boundary_iff [of b name] by simp
  show ?thesis
  proof
    assume "parse_mcp_qualified_name name = Some (i, server, tool)"
    then obtain b where b: "mcp_boundaries name = [b]" "server = take b name" "tool = drop (b + 2) name"
        and r: "server \<noteq> []" "tool \<noteq> []" "tool_id_new name = Inr i"
      unfolding one by blast
    have "length server = b" using len [OF b(1)] b(2) by simp
    then show "i = name \<and> qualified_splits name = {(server, tool)} \<and> server \<noteq> [] \<and> tool \<noteq> []
        \<and> tool_id_new name = Inr name"
      using b r id [OF r(3)] by (simp add: one_split_iff)
  next
    assume "i = name \<and> qualified_splits name = {(server, tool)} \<and> server \<noteq> [] \<and> tool \<noteq> []
        \<and> tool_id_new name = Inr name"
    then show "parse_mcp_qualified_name name = Some (i, server, tool)"
      unfolding one one_split_iff by metis
  qed
qed

end
