(* ===== verification/GatePreflight.thy ===== *)
theory GatePreflight
  imports BashGrants WebDomains AutoClassifier ToolIds
begin

section \<open>Before the decision: managed policy and session grants\<close>

text \<open>
  \<open>permission/gate_preflight.rs\<close> (the managed policy's verdict on one request, with the provenance
  of each ask), the session grants consulted before the classifier
  (\<open>permission/manager/mod.rs\<close>), and the resolution of a path argument of a model
  (\<open>xai-grok-tools/src/types/resources.rs\<close>).
\<close>

subsection \<open>Preflight\<close>

record gate_preflight =
  gp_direct :: "decision option"
  gp_bash_command :: "gate_decision option"
  gp_shell_file :: "gate_decision option"
  gp_native_symlink_fail_closed :: bool
  gp_defers_gate_ask :: bool

definition preflight_evaluate ::
    "'g host \<Rightarrow> 'g compiled_policy option \<Rightarrow> access_kind \<Rightarrow> string \<Rightarrow> bool \<Rightarrow> gate_preflight" where
  "preflight_evaluate H policy access cwd auto_mode =
     (let (direct, native) =
            (case policy of
               Some p \<Rightarrow> evaluate_with_cwd_details H p access (Some cwd)
             | None \<Rightarrow> (None, False));
          (bash_command, shell_file) =
            (case (policy, access) of
               (Some p, BashAccess cmd) \<Rightarrow>
                 (evaluate_bash_command_gate H p cmd, evaluate_shell_file_access_gate H p cmd cwd)
             | _ \<Rightarrow> (None, None));
          rule_match_ask =
            (direct = Some DAsk \<or> bash_command = Some GAskRuleMatch \<or> shell_file = Some GAskRuleMatch);
          fail_closed_ask = (bash_command = Some GAskFailClosed \<or> shell_file = Some GAskFailClosed)
      in \<lparr>gp_direct = direct, gp_bash_command = bash_command, gp_shell_file = shell_file,
          gp_native_symlink_fail_closed = native,
          gp_defers_gate_ask = auto_mode \<and> fail_closed_ask \<and> \<not> rule_match_ask\<rparr>)"

definition gate_asks :: "gate_decision option \<Rightarrow> bool" where
  "gate_asks g = (case g of Some GAskRuleMatch \<Rightarrow> True | Some GAskFailClosed \<Rightarrow> True | _ \<Rightarrow> False)"

definition policy_decision_of :: "gate_preflight \<Rightarrow> decision option" where
  "policy_decision_of p =
     combine_decisions
       (combine_decisions (gp_direct p) (map_option into_decision (gp_bash_command p)))
       (map_option into_decision (gp_shell_file p))"

definition policy_forced_prompt :: "gate_preflight \<Rightarrow> bool" where
  "policy_forced_prompt p \<longleftrightarrow> policy_decision_of p = Some DAsk"

definition shell_file_forced_prompt :: "gate_preflight \<Rightarrow> bool" where
  "shell_file_forced_prompt p \<longleftrightarrow> gate_asks (gp_shell_file p)"

definition shell_forced_prompt :: "gate_preflight \<Rightarrow> bool" where
  "shell_forced_prompt p \<longleftrightarrow>
     gate_asks (gp_bash_command p) \<or> shell_file_forced_prompt p \<or> gp_native_symlink_fail_closed p"

definition admits_auto_classifier :: "gate_preflight \<Rightarrow> bool" where
  "admits_auto_classifier p \<longleftrightarrow> \<not> policy_forced_prompt p \<or> gp_defers_gate_ask p"

definition prompt_trigger :: "gate_preflight \<Rightarrow> reason option \<Rightarrow> reason option" where
  "prompt_trigger p auto_prompt_reason =
     (if gp_direct p = Some DAsk then Some PolicyAskReason
      else if gp_defers_gate_ask p then auto_prompt_reason
      else if gate_asks (gp_bash_command p) then Some BashCommandGateAsk
      else if shell_file_forced_prompt p then Some ShellFileGateAsk
      else auto_prompt_reason)"

subsection \<open>Remembered MCP tools\<close>

definition mcp_server_prefix_allowed :: "string \<Rightarrow> string list \<Rightarrow> bool" where
  "mcp_server_prefix_allowed name servers \<longleftrightarrow>
     servers \<noteq> []
     \<and> (case parse_mcp_qualified_name name of None \<Rightarrow> False | Some (_, server, _) \<Rightarrow> server \<in> set servers)"

definition mcp_pre_decision :: "string \<Rightarrow> permission_state \<Rightarrow> bool \<Rightarrow> bool \<Rightarrow> decision option" where
  "mcp_pre_decision name s forced_prompt remember_tool_approvals =
     (if name \<in> set (ps_denied_mcp_tools s) then Some (DReject (rejection_text name))
      else if forced_prompt \<and> \<not> remember_tool_approvals then None
      else if name \<in> set (ps_mcp_tools s) then Some DAllow
      else if mcp_server_prefix_allowed name (ps_mcp_servers s) then Some DAllow
      else None)"

subsection \<open>Web fetches\<close>

definition web_fetch_deny_pre_decision :: "'g host \<Rightarrow> parsed_url \<Rightarrow> permission_state \<Rightarrow> decision option" where
  "web_fetch_deny_pre_decision H url s =
     (case pu_host url of
        None \<Rightarrow> None
      | Some h \<Rightarrow>
          map_option (\<lambda>d. DReject (rejection_text d))
            (denied_web_fetch_domain H h (ps_denied_web_domains s)))"

subsection \<open>Session grants before the classifier\<close>

definition deny_or :: "reason \<Rightarrow> decision \<Rightarrow> reason" where
  "deny_or r d = (case d of DReject _ \<Rightarrow> SessionDeny | _ \<Rightarrow> r)"

definition session_grant_pre_decision ::
    "'g host \<Rightarrow> (string \<Rightarrow> parsed_url option) \<Rightarrow> access_kind \<Rightarrow> bash_evaluation option
     \<Rightarrow> permission_state \<Rightarrow> bool \<Rightarrow> domain_matcher \<Rightarrow> bool \<Rightarrow> string option
     \<Rightarrow> (decision \<times> reason) option" where
  "session_grant_pre_decision H parse_url access ev s allow_edits static honor_static yolo_pin =
     (case access of
        MCPToolAccess name _ \<Rightarrow>
          map_option (\<lambda>d. (d, deny_or SessionGrant d)) (mcp_pre_decision name s False False)
      | WebFetchAccess url \<Rightarrow>
          (case parse_url url of
             None \<Rightarrow> None
           | Some u \<Rightarrow>
               (case web_fetch_deny_pre_decision H u s of
                  Some d \<Rightarrow> Some (d, SessionDeny)
                | None \<Rightarrow>
                    if honor_static \<and> domain_check H static u = None then Some (DAllow, StaticAllowlist)
                    else (case pu_host u of
                            None \<Rightarrow> None
                          | Some h \<Rightarrow>
                              if normalize_domain H h \<in> set (ps_web_domains s)
                              then Some (DAllow, SessionGrant) else None)))
      | EditAccess _ \<Rightarrow> if allow_edits then Some (DAllow, SessionGrant) else None
      | BashAccess cmd \<Rightarrow>
          (case ev of
             None \<Rightarrow> None
           | Some e \<Rightarrow> bash_grant_pre_decision cmd e s yolo_pin PRE_CLASSIFIER)
      | _ \<Rightarrow> None)"

subsection \<open>Path arguments of a model\<close>

definition is_arg_quote :: "char \<Rightarrow> bool" where
  "is_arg_quote c \<longleftrightarrow> c = CHR 0x22 \<or> c = CHR 0x27"

definition trim_arg_quotes :: "string \<Rightarrow> string" where
  "trim_arg_quotes s = rev (dropWhile is_arg_quote (rev (dropWhile is_arg_quote s)))"

definition strip_literal_escape :: "string \<Rightarrow> string option" where
  "strip_literal_escape s =
     (case strip_suffix s [bslash, CHR ''n''] of
        Some t \<Rightarrow> Some t
      | None \<Rightarrow>
          (case strip_suffix s [bslash, CHR ''r''] of
             Some t \<Rightarrow> Some t
           | None \<Rightarrow> strip_suffix s [bslash, CHR ''t'']))"

lemma strip_suffix_shorter: "strip_suffix s p = Some t \<Longrightarrow> p \<noteq> [] \<Longrightarrow> length t < length s"
  using starts_with_length [of "rev s" "rev p"]
  by (cases p; cases s) (auto simp: strip_suffix_def ends_with_def split: if_splits)

lemma strip_front_length: "length (strip_front ws s) \<le> length s"
proof (induction ws s rule: strip_front.induct)
  case (1 ws s)
  show ?case
  proof (cases "List.find (\<lambda>w. w \<noteq> [] \<and> starts_with s w) ws")
    case None
    then show ?thesis by (simp add: strip_front_stop)
  next
    case (Some w)
    then show ?thesis using 1 [OF Some] strip_front_go [OF Some] by simp
  qed
qed

lemma trim_end_length: "length (trim_end s) \<le> length s"
  using strip_front_length [of "map rev utf8_ws" "rev s"] by (simp add: trim_end_def)

function strip_literal_escapes :: "string \<Rightarrow> string" where
  "strip_literal_escapes s =
     (case strip_literal_escape s of None \<Rightarrow> s | Some t \<Rightarrow> strip_literal_escapes (trim_end t))"
  by pat_completeness auto
termination
proof (relation "measure length", goal_cases)
  case (2 s t)
  then have "length t < length s"
    by (auto simp: strip_literal_escape_def split: option.splits dest: strip_suffix_shorter)
  then show ?case using trim_end_length [of t] by simp
qed simp

declare strip_literal_escapes.simps [simp del]

definition sanitize_model_path_arg :: "string \<Rightarrow> string" where
  "sanitize_model_path_arg input =
     (let trimmed = trim input;
          unquoted = trim (trim_arg_quotes trimmed)
      in if 2 \<le> length trimmed \<and> is_arg_quote (hd trimmed) \<and> is_arg_quote (last trimmed)
         then strip_literal_escapes unquoted else unquoted)"

definition resolve_model_path :: "(string \<Rightarrow> string) \<Rightarrow> string \<Rightarrow> string option \<Rightarrow> string \<Rightarrow> string" where
  "resolve_model_path tilde cwd display_cwd input =
     (let expanded = tilde (sanitize_model_path_arg input);
          base = (case display_cwd of Some d \<Rightarrow> d | None \<Rightarrow> cwd)
      in if display_cwd \<noteq> None \<and> is_absolute expanded then
           (case path_strip_prefix expanded base of
              Some rest \<Rightarrow> path_join cwd rest
            | None \<Rightarrow> expanded)
         else if \<not> is_absolute expanded \<and> expanded \<noteq> [] then
           (case path_strip_prefix (CHR ''/'' # expanded) base of
              Some rest \<Rightarrow> path_join cwd rest
            | None \<Rightarrow> path_join cwd expanded)
         else path_join cwd expanded)"

end
