(* ===== verification/PermissionManager.thy ===== *)
theory PermissionManager
  imports GatePreflight
begin

section \<open>The permission manager\<close>

text \<open>
  The actor of \<open>permission/manager/mod.rs\<close>: its state, the commands that switch its modes, and the
  decision of one permission request, in the order of the source.

  What the actor awaits is the record \<open>request_io\<close>: whether the requester went away at each point it
  is looked at, the store's reload, the answer of the prompt.  The classifier is the model of
  \<open>AutoClassifier\<close>.  Persisting the state and notifying of a prompt are effects, in order.
\<close>

subsection \<open>Prompt outcomes (\<open>permission/prompter.rs\<close>)\<close>

datatype prompt_outcome =
    AllowOnce
  | AllowAlways
  | AllowEditsForSession
  | AllowAlwaysBashCommand string
  | AllowAlwaysBashGlob string
  | AllowAlwaysDomain string
  | AllowAlwaysMcpTool string
  | AllowAlwaysMcpServer string
  | RejectOnce
  | RejectAlwaysBashCommand string
  | RejectAlwaysMcpTool string
  | RejectAlwaysDomain string
  | PromptCancelled
  | PromptFollowup string
  | PromptError string

datatype outcome_kind =
    KAllowOnce | KAllowAlways | KAllowEditsForSession | KAllowAlwaysBash | KAllowAlwaysBashGlob
  | KAllowAlwaysDomain | KAllowAlwaysMcpTool | KAllowAlwaysMcpServer | KRejectOnce
  | KRejectAlwaysBash | KRejectAlwaysMcpTool | KRejectAlwaysDomain | KCancelled | KFollowup | KError

fun outcome_kind_of :: "prompt_outcome \<Rightarrow> outcome_kind" where
  "outcome_kind_of AllowOnce = KAllowOnce"
| "outcome_kind_of AllowAlways = KAllowAlways"
| "outcome_kind_of AllowEditsForSession = KAllowEditsForSession"
| "outcome_kind_of (AllowAlwaysBashCommand _) = KAllowAlwaysBash"
| "outcome_kind_of (AllowAlwaysBashGlob _) = KAllowAlwaysBashGlob"
| "outcome_kind_of (AllowAlwaysDomain _) = KAllowAlwaysDomain"
| "outcome_kind_of (AllowAlwaysMcpTool _) = KAllowAlwaysMcpTool"
| "outcome_kind_of (AllowAlwaysMcpServer _) = KAllowAlwaysMcpServer"
| "outcome_kind_of RejectOnce = KRejectOnce"
| "outcome_kind_of (RejectAlwaysBashCommand _) = KRejectAlwaysBash"
| "outcome_kind_of (RejectAlwaysMcpTool _) = KRejectAlwaysMcpTool"
| "outcome_kind_of (RejectAlwaysDomain _) = KRejectAlwaysDomain"
| "outcome_kind_of PromptCancelled = KCancelled"
| "outcome_kind_of (PromptFollowup _) = KFollowup"
| "outcome_kind_of (PromptError _) = KError"

subsection \<open>State, environment, and what a request is given\<close>

definition AUTO_DENY_CONSECUTIVE_LIMIT :: nat where "AUTO_DENY_CONSECUTIVE_LIMIT = 3"
definition AUTO_DENY_TOTAL_LIMIT :: nat where "AUTO_DENY_TOTAL_LIMIT = 20"
definition MAX_RECORDED_PERMISSION_DECISIONS :: nat where "MAX_RECORDED_PERMISSION_DECISIONS = 12"

text \<open>What is fixed when the actor is spawned.\<close>

record 'g manager_env =
  me_host :: "'g host"
  me_git :: git_host
  me_home :: "string option"
  me_tilde :: "string \<Rightarrow> string"
  me_parse_url :: "string \<Rightarrow> parsed_url option"
  me_show_json :: "json \<Rightarrow> string"
  me_cwd :: string
  me_yolo_pin :: "string option"
  me_prompt_policy :: prompt_policy
  me_policy :: "'g compiled_policy option"
  me_static_domains :: domain_matcher
  me_static_is_default :: bool
  me_remember_tool_approvals :: bool
  me_can_present_prompt :: bool
  me_sandbox_auto_allow :: bool

text \<open>
  The actor's variables.  The two flags are the atomics that other tasks read.
\<close>

record manager =
  pm_state :: permission_state
  pm_yolo :: bool
  pm_auto :: bool
  pm_yolo_flag :: bool
  pm_auto_flag :: bool
  pm_classifier :: "llm_classifier option"
  pm_consecutive_denials :: nat
  pm_total_denials :: nat
  pm_classifier_turns :: "classifier_turn list"
  pm_recorded_decisions :: "classifier_turn list"
  pm_project_instructions :: "string option"
  pm_pin_refusal_logged :: bool
  pm_allow_edits_for_session :: bool

record permission_request =
  rq_access :: access_kind
  rq_path_context :: "(string \<times> string option) option"
  rq_hook_ask :: bool

record request_io =
  io_closed_at_dequeue :: bool
  io_reload :: "permission_state option"
  io_scan_joined :: bool
  io_closed_after_scan :: bool
  io_closed_in_classify :: bool
  io_closed_before_prompt :: bool
  io_prompt :: prompt_outcome
  io_closed_in_prompt :: bool
  io_closed_at_end :: bool

datatype request_classification =
    NotClassified
  | FastPathTaken
  | Classified (classified_assessment: assessment) (classified_verdict: "verdict option")

record permission_event =
  pe_decision :: decision
  pe_auto_approved :: bool
  pe_user_prompted :: bool
  pe_outcome :: "outcome_kind option"
  pe_reason :: "reason option"
  pe_yolo :: bool
  pe_classification :: request_classification
  pe_denials :: "(nat \<times> nat) option"

datatype manager_effect =
    PersistMerging permission_state
  | ReplaceOnDisk permission_state
  | NotifyPrompt

text \<open>What one request does: the event, the resolution sent (none to a requester that is gone).\<close>

record manager_result =
  rr_manager :: manager
  rr_event :: permission_event
  rr_resolution :: "decision option"
  rr_effects :: "manager_effect list"

subsection \<open>Spawning and the mode commands\<close>

definition clamp_yolo :: "bool \<Rightarrow> string option \<Rightarrow> bool" where
  "clamp_yolo requested pin \<longleftrightarrow> requested \<and> pin = None"

definition spawn_manager ::
    "'g manager_env \<Rightarrow> bool \<Rightarrow> permission_config option \<Rightarrow> permission_state \<Rightarrow> llm_classifier
     \<Rightarrow> manager \<times> manager_effect list" where
  "spawn_manager E requested_yolo config loaded default_classifier =
     (let yolo = clamp_yolo requested_yolo (me_yolo_pin E);
          seed_auto =
            (\<not> yolo \<and> (case config of None \<Rightarrow> False | Some c \<Rightarrow> pcf_prompt_policy c = PromptAuto));
          legacy = (ps_edit_policy loaded = EditAllow);
          st = (if legacy then loaded\<lparr>ps_edit_policy := EditAsk\<rparr> else loaded)
      in (\<lparr>pm_state = st, pm_yolo = yolo, pm_auto = seed_auto, pm_yolo_flag = yolo,
           pm_auto_flag = seed_auto, pm_classifier = Some default_classifier,
           pm_consecutive_denials = 0, pm_total_denials = 0, pm_classifier_turns = [],
           pm_recorded_decisions = [], pm_project_instructions = None,
           pm_pin_refusal_logged = False, pm_allow_edits_for_session = False\<rparr>,
          if legacy then [PersistMerging st] else []))"

definition set_yolo_mode :: "'g manager_env \<Rightarrow> bool \<Rightarrow> manager \<Rightarrow> manager" where
  "set_yolo_mode E enabled m =
     (let clamped = clamp_yolo enabled (me_yolo_pin E);
          m1 = m\<lparr>pm_pin_refusal_logged := pm_pin_refusal_logged m \<or> enabled \<and> \<not> clamped,
                 pm_yolo := clamped, pm_yolo_flag := clamped\<rparr>
      in if clamped then m1\<lparr>pm_auto := False, pm_auto_flag := False\<rparr> else m1)"

definition set_auto_mode :: "llm_classifier \<Rightarrow> bool \<Rightarrow> manager \<Rightarrow> manager" where
  "set_auto_mode default_classifier enabled m =
     (let m1 = m\<lparr>pm_auto := enabled, pm_auto_flag := enabled\<rparr>
      in if enabled
         then m1\<lparr>pm_yolo := False, pm_yolo_flag := False,
                 pm_classifier := (case pm_classifier m of
                                     Some c \<Rightarrow> Some c | None \<Rightarrow> Some default_classifier)\<rparr>
         else m1)"

definition reset_state :: "manager \<Rightarrow> manager \<times> manager_effect list" where
  "reset_state m =
     (m\<lparr>pm_state := permission_state_default, pm_allow_edits_for_session := False\<rparr>,
      [ReplaceOnDisk permission_state_default])"

subsection \<open>Facts about the request\<close>

fun access_detail_of :: "(json \<Rightarrow> string) \<Rightarrow> access_kind \<Rightarrow> string option" where
  "access_detail_of show_json (ReadAccess _) = None"
| "access_detail_of show_json (GrepAccess p _) = p"
| "access_detail_of show_json (EditAccess p) = Some p"
| "access_detail_of show_json (BashAccess cmd) = Some cmd"
| "access_detail_of show_json (MCPToolAccess name input) = Some (mcp_access_detail show_json name input)"
| "access_detail_of show_json (WebFetchAccess url) = Some url"
| "access_detail_of show_json (WebSearchAccess q) = Some q"
| "access_detail_of show_json (AgentMessageAccess i) = Some i"

definition reloads_store :: "access_kind \<Rightarrow> bool" where
  "reloads_store access =
     (case access of BashAccess _ \<Rightarrow> True | MCPToolAccess _ _ \<Rightarrow> True | WebFetchAccess _ \<Rightarrow> True | _ \<Rightarrow> False)"

definition refresh :: "permission_request \<Rightarrow> request_io \<Rightarrow> manager \<Rightarrow> manager" where
  "refresh rq io m =
     (if reloads_store (rq_access rq)
      then (case io_reload io of
              Some fresh \<Rightarrow> m\<lparr>pm_state := merge_grants_from (pm_state m) fresh\<rparr>
            | None \<Rightarrow> m)
      else m)"

definition request_cwd :: "'g manager_env \<Rightarrow> permission_request \<Rightarrow> string" where
  "request_cwd E rq = (case rq_path_context rq of Some (real, _) \<Rightarrow> real | None \<Rightarrow> me_cwd E)"

text \<open>The ambient scan of a plan runs on the blocking pool; a task that dies counts as a risk.\<close>

definition ambient_risk :: "git_host \<Rightarrow> bool \<Rightarrow> string list list \<Rightarrow> string \<Rightarrow> bool" where
  "ambient_risk G joined raw cwd =
     (case ambient_scan_plan_from_segments raw cwd of
        ScanFailClosed \<Rightarrow> True
      | ScanCheckDirs dirs \<Rightarrow> if joined then ambient_exec_risk_from_plan G (ScanCheckDirs dirs) else True)"

definition scanned_evaluation ::
    "'g manager_env \<Rightarrow> permission_request \<Rightarrow> request_io \<Rightarrow> permission_state \<Rightarrow> bash_evaluation option" where
  "scanned_evaluation E rq io s =
     (case rq_access rq of
        BashAccess cmd \<Rightarrow>
          (let ev = evaluate_bash (me_host E) cmd s True in
           Some (case be_ambient_segments ev of
                   None \<Rightarrow> ev
                 | Some raw \<Rightarrow>
                     ev\<lparr>be_ambient_segments := None,
                        be_assessment := be_assessment ev
                          \<union> (if ambient_risk (me_git E) (io_scan_joined io) raw (request_cwd E rq)
                             then {ExecOrAmbientGit} else {})\<rparr>))
      | _ \<Rightarrow> None)"

definition scan_ran :: "'g manager_env \<Rightarrow> permission_request \<Rightarrow> permission_state \<Rightarrow> bool" where
  "scan_ran E rq s =
     (case rq_access rq of
        BashAccess cmd \<Rightarrow> be_ambient_segments (evaluate_bash (me_host E) cmd s True) \<noteq> None
      | _ \<Rightarrow> False)"

definition resolve_target :: "'g manager_env \<Rightarrow> permission_request \<Rightarrow> string \<Rightarrow> string" where
  "resolve_target E rq path =
     (case rq_path_context rq of
        Some (real, display) \<Rightarrow> resolve_model_path (me_tilde E) real display path
      | None \<Rightarrow> resolve_model_path (me_tilde E) (me_cwd E) None path)"

definition target_protection ::
    "'g manager_env \<Rightarrow> permission_request \<Rightarrow> string \<Rightarrow> protected_edit_reason option" where
  "target_protection E rq path =
     edit_target_protection (me_host E) (me_home E) (resolve_target E rq path)"

definition protected_edit_of ::
    "'g manager_env \<Rightarrow> permission_request \<Rightarrow> bash_evaluation option \<Rightarrow> protected_edit_reason option" where
  "protected_edit_of E rq ev =
     (case rq_access rq of
        EditAccess path \<Rightarrow> target_protection E rq path
      | BashAccess _ \<Rightarrow>
          (case ev of
             None \<Rightarrow> None
           | Some e \<Rightarrow>
               if be_has_cwd_change e \<and> list_ex (\<lambda>p. \<not> is_absolute p) (be_creation_paths e)
               then Some SensitivePath
               else first_opt (List.map_filter (target_protection E rq) (be_creation_paths e)))
      | _ \<Rightarrow> None)"

record request_facts =
  rf_eval :: "bash_evaluation option"
  rf_protected :: "protected_edit_reason option"
  rf_preflight :: gate_preflight

definition facts_of ::
    "'g manager_env \<Rightarrow> permission_request \<Rightarrow> request_io \<Rightarrow> manager \<Rightarrow> request_facts" where
  "facts_of E rq io m =
     (let ev = scanned_evaluation E rq io (pm_state m)
      in \<lparr>rf_eval = ev, rf_protected = protected_edit_of E rq ev,
          rf_preflight = preflight_evaluate (me_host E) (me_policy E) (rq_access rq) (request_cwd E rq)
                           (pm_auto m)\<rparr>)"

definition forced_before_classifier :: "permission_request \<Rightarrow> request_facts \<Rightarrow> bool" where
  "forced_before_classifier rq f \<longleftrightarrow>
     policy_forced_prompt (rf_preflight f) \<or> shell_forced_prompt (rf_preflight f) \<or> rq_hook_ask rq"

subsection \<open>Decisions taken before the auto mode\<close>

text \<open>A decision with whether it counts as auto-approved, and its reason.\<close>

type_synonym settled = "decision \<times> bool \<times> reason"

definition early_decision ::
    "'g manager_env \<Rightarrow> permission_request \<Rightarrow> request_facts \<Rightarrow> manager \<Rightarrow> settled option" where
  "early_decision E rq f m =
     (let p = rf_preflight f; ev = rf_eval f; access = rq_access rq;
          grant = session_grant_pre_decision (me_host E) (me_parse_url E) access ev (pm_state m)
                    (pm_allow_edits_for_session m) (me_static_domains E)
                    (\<not> (pm_auto m \<and> me_static_is_default E)) (me_yolo_pin E)
      in case policy_decision_of p of
           Some (DReject reason) \<Rightarrow> Some (DPolicyDeny reason, False, PolicyDenyReason)
         | _ \<Rightarrow>
             if pm_yolo m \<and> \<not> shell_forced_prompt p \<and> \<not> rq_hook_ask rq
             then Some (DAllow, True, YoloReason)
             else if \<not> forced_before_classifier rq f \<and> rf_protected f = None \<and> grant \<noteq> None
             then map_option (\<lambda>(d, r). (d, True, r)) grant
             else if pm_auto m \<and> \<not> forced_before_classifier rq f \<and> rf_protected f = None
                     \<and> policy_decision_of p = Some DAllow
                     \<and> (bash_assessment_is_clear ev
                        \<or> \<not> bash_request_floor_requires_prompt ev
                          \<and> (case me_policy E of
                               None \<Rightarrow> False | Some pol \<Rightarrow> narrow_allow_authorizes (me_host E) pol access))
             then Some (DAllow, True, PolicyAllowReason)
             else None)"

subsection \<open>The auto mode\<close>

definition AUTO_DENY_GUIDANCE :: string where
  "AUTO_DENY_GUIDANCE =
     ''Take a safer approach that stays within what the user asked for; do not retry this exact action or attempt to work around the denial. If no safer alternative exists, ask the user how to proceed.''"

definition auto_deny_text :: "string option \<Rightarrow> string" where
  "auto_deny_text reason =
     (case reason of
        Some r \<Rightarrow> ''Auto mode blocked this action ('' @ trim_end_char CHR ''.'' r @ ''). '' @ AUTO_DENY_GUIDANCE
      | None \<Rightarrow> ''Auto mode blocked this action. '' @ AUTO_DENY_GUIDANCE)"

datatype classify_route = RouteCompleted classifier_outcome | RouteNotWired | RouteAbandoned

definition classify_route_of ::
    "'g manager_env \<Rightarrow> permission_request \<Rightarrow> request_io \<Rightarrow> assessment \<Rightarrow> manager \<Rightarrow> classify_route" where
  "classify_route_of E rq io findings m =
     (case pm_classifier m of
        Some clf \<Rightarrow>
          if io_closed_in_classify io then RouteAbandoned
          else RouteCompleted
            (llm_classify clf (parse_shell (me_host E)) (tool_name_for_access (rq_access rq))
               (rq_access rq) (access_detail_of (me_show_json E) (rq_access rq))
               \<lparr>cc_turns = pm_classifier_turns m @ pm_recorded_decisions m,
                cc_project_instructions = pm_project_instructions m,
                cc_security_findings = findings\<rparr>)
      | None \<Rightarrow>
          (case rq_access rq of
             AgentMessageAccess _ \<Rightarrow> RouteCompleted (rules_outcome VBlock)
           | _ \<Rightarrow> RouteNotWired))"

text \<open>How the auto mode leaves a request: settled, abandoned, or on, perhaps with a forced prompt.\<close>

datatype auto_route =
    AutoSettled settled
  | AutoAbandoned
  | AutoContinues (auto_forced: bool) (auto_reason: "reason option")

record auto_result =
  ar_route :: auto_route
  ar_manager :: manager
  ar_classification :: request_classification

definition auto_verdict ::
    "'g manager_env \<Rightarrow> permission_request \<Rightarrow> manager \<Rightarrow> verdict \<Rightarrow> string option \<Rightarrow> bool
     \<Rightarrow> auto_route \<times> manager" where
  "auto_verdict E rq m v reason timed_out =
     (case v of
        VAllow \<Rightarrow>
          (if rq_hook_ask rq then AutoContinues False None
           else AutoSettled (DAllow, True, AutoClassifierAllow),
           m\<lparr>pm_consecutive_denials := 0\<rparr>)
      | VBlock \<Rightarrow>
          if me_can_present_prompt E then (AutoContinues True (Some AutoClassifierDeny), m)
          else if pm_consecutive_denials m < AUTO_DENY_CONSECUTIVE_LIMIT
                  \<and> pm_total_denials m < AUTO_DENY_TOTAL_LIMIT
          then (AutoSettled (DPolicyDeny (auto_deny_text reason), False, AutoClassifierDeny),
                m\<lparr>pm_consecutive_denials := pm_consecutive_denials m + 1,
                  pm_total_denials := pm_total_denials m + 1\<rparr>)
          else (AutoContinues True (Some AutoDenialLimit), m)
      | VUnavailable \<Rightarrow>
          (AutoContinues True (Some (if timed_out then AutoClassifierTimeout
                                     else AutoClassifierUnavailable)), m))"

definition auto_phase ::
    "'g manager_env \<Rightarrow> permission_request \<Rightarrow> request_io \<Rightarrow> request_facts \<Rightarrow> manager \<Rightarrow> auto_result" where
  "auto_phase E rq io f m =
     (let p = rf_preflight f;
          name = tool_name_for_access (rq_access rq);
          needs_user = (rf_protected f \<noteq> None \<or> access_requires_user_interaction name (rq_access rq))
      in if \<not> (pm_auto m \<and> admits_auto_classifier p)
         then \<lparr>ar_route = AutoContinues False None, ar_manager = m, ar_classification = NotClassified\<rparr>
         else (case auto_mode_fast_path (rq_access rq) name needs_user of
                 FastAllow \<Rightarrow>
                   if rq_hook_ask rq
                   then \<lparr>ar_route = AutoContinues False None, ar_manager = m, ar_classification = NotClassified\<rparr>
                   else \<lparr>ar_route = AutoSettled (DAllow, True, AutoFastPathReason), ar_manager = m,
                         ar_classification = FastPathTaken\<rparr>
               | FastPrompt \<Rightarrow>
                   \<lparr>ar_route = AutoContinues True (Some NeedsUser), ar_manager = m,
                    ar_classification = NotClassified\<rparr>
               | FastClassify \<Rightarrow>
                   (let findings = classifier_assessment (rf_eval f) (gp_defers_gate_ask p) in
                    case classify_route_of E rq io findings m of
                      RouteAbandoned \<Rightarrow>
                        \<lparr>ar_route = AutoAbandoned, ar_manager = m,
                         ar_classification = Classified findings None\<rparr>
                    | RouteNotWired \<Rightarrow>
                        (case auto_verdict E rq m VUnavailable None False of
                           (route, m') \<Rightarrow>
                             \<lparr>ar_route = route, ar_manager = m',
                              ar_classification = Classified findings (Some VUnavailable)\<rparr>)
                    | RouteCompleted out \<Rightarrow>
                        (case auto_verdict E rq m (co_verdict out) (co_reason out) (is_timeout out) of
                           (route, m') \<Rightarrow>
                             \<lparr>ar_route = route, ar_manager = m',
                              ar_classification = Classified findings (Some (co_verdict out))\<rparr>))))"

subsection \<open>Decisions taken after the auto mode\<close>

definition sandbox_decision ::
    "'g manager_env \<Rightarrow> permission_request \<Rightarrow> request_facts \<Rightarrow> bool \<Rightarrow> settled option" where
  "sandbox_decision E rq f forced =
     (if (case rq_access rq of BashAccess _ \<Rightarrow> True | _ \<Rightarrow> False)
         \<and> sandbox_may_auto_allow_bash (rf_eval f) (me_sandbox_auto_allow E)
         \<and> \<not> policy_forced_prompt (rf_preflight f) \<and> \<not> forced \<and> \<not> rq_hook_ask rq \<and> rf_protected f = None
      then Some (DAllow, True, SandboxAuto) else None)"

definition policy_allow_deferred ::
    "'g manager_env \<Rightarrow> permission_request \<Rightarrow> request_facts \<Rightarrow> bool \<Rightarrow> bool" where
  "policy_allow_deferred E rq f forced \<longleftrightarrow>
     rf_protected f \<noteq> None \<or> forced \<or> rq_hook_ask rq
     \<or> bash_request_floor_requires_prompt (rf_eval f)
       \<and> \<not> narrow_allow_clears_write_floor (me_host E) (rf_eval f) (me_policy E) (rq_access rq)"

definition policy_phase ::
    "'g manager_env \<Rightarrow> permission_request \<Rightarrow> request_facts \<Rightarrow> bool \<Rightarrow> settled option" where
  "policy_phase E rq f forced =
     (case policy_decision_of (rf_preflight f) of
        None \<Rightarrow> None
      | Some DAsk \<Rightarrow> None
      | Some DAllow \<Rightarrow>
          if policy_allow_deferred E rq f forced then None else Some (DAllow, True, PolicyAllowReason)
      | Some d \<Rightarrow> Some (d, True, PolicyAllowReason))"

definition web_fetch_pre_decision ::
    "'g manager_env \<Rightarrow> permission_state \<Rightarrow> string \<Rightarrow> (decision \<times> reason) option" where
  "web_fetch_pre_decision E s url =
     (case me_parse_url E url of
        None \<Rightarrow> None
      | Some u \<Rightarrow>
          (case web_fetch_deny_pre_decision (me_host E) u s of
             Some d \<Rightarrow> Some (d, SessionDeny)
           | None \<Rightarrow>
               if domain_check (me_host E) (me_static_domains E) u = None
               then Some (DAllow, StaticAllowlist)
               else (case pu_host u of
                       None \<Rightarrow> None
                     | Some h \<Rightarrow>
                         if normalize_domain (me_host E) h \<in> set (ps_web_domains s)
                         then Some (DAllow, PersistedGrant) else None)))"

definition bash_pre_decision ::
    "'g manager_env \<Rightarrow> request_facts \<Rightarrow> permission_state \<Rightarrow> string \<Rightarrow> bool \<Rightarrow> (decision \<times> reason) option" where
  "bash_pre_decision E f s cmd forced =
     (case rf_eval f of
        None \<Rightarrow> None
      | Some ev \<Rightarrow>
          if rf_protected f \<noteq> None \<or> bash_request_floor_requires_prompt (Some ev) then None
          else if policy_forced_prompt (rf_preflight f) then
            (if me_remember_tool_approvals E \<and> \<not> forced \<and> \<not> shell_file_forced_prompt (rf_preflight f)
             then bash_grant_pre_decision cmd ev s (me_yolo_pin E) ASK_FLOOR_REMEMBER else None)
          else bash_grant_pre_decision cmd ev s (me_yolo_pin E) (post_classify forced))"

definition edit_pre_decision :: "request_facts \<Rightarrow> manager \<Rightarrow> (decision \<times> reason) option" where
  "edit_pre_decision f m =
     (if pm_allow_edits_for_session m \<and> rf_protected f = None then Some (DAllow, PersistedGrant)
      else if ps_edit_policy (pm_state m) = EditReject
      then Some (DReject ''edits prohibited'', SessionDeny) else None)"

definition pre_decision ::
    "'g manager_env \<Rightarrow> permission_request \<Rightarrow> request_facts \<Rightarrow> bool \<Rightarrow> manager \<Rightarrow> (decision \<times> reason) option" where
  "pre_decision E rq f forced m =
     (case rq_access rq of
        ReadAccess _ \<Rightarrow>
          if policy_forced_prompt (rf_preflight f) then None else Some (DAllow, SafeCommand)
      | GrepAccess _ _ \<Rightarrow>
          if policy_forced_prompt (rf_preflight f) then None else Some (DAllow, SafeCommand)
      | WebSearchAccess _ \<Rightarrow> Some (DAllow, SafeCommand)
      | MCPToolAccess name _ \<Rightarrow>
          map_option (\<lambda>d. (d, deny_or PersistedGrant d))
            (mcp_pre_decision name (pm_state m) (policy_forced_prompt (rf_preflight f))
               (me_remember_tool_approvals E))
      | EditAccess _ \<Rightarrow> edit_pre_decision f m
      | BashAccess cmd \<Rightarrow> bash_pre_decision E f (pm_state m) cmd forced
      | AgentMessageAccess _ \<Rightarrow> None
      | WebFetchAccess url \<Rightarrow> web_fetch_pre_decision E (pm_state m) url)"

definition is_allow :: "(decision \<times> reason) option \<Rightarrow> bool" where
  "is_allow pd = (case pd of Some (DAllow, _) \<Rightarrow> True | _ \<Rightarrow> False)"

definition webfetch_static_fallback :: "access_kind \<Rightarrow> reason option \<Rightarrow> (decision \<times> reason) option \<Rightarrow> bool" where
  "webfetch_static_fallback access why pd \<longleftrightarrow>
     why \<in> {Some AutoClassifierTimeout, Some AutoClassifierUnavailable}
     \<and> (case access of WebFetchAccess _ \<Rightarrow> True | _ \<Rightarrow> False)
     \<and> pd \<in> {Some (DAllow, StaticAllowlist), Some (DAllow, PersistedGrant)}"

definition auto_prompt_blocks_allow :: "access_kind \<Rightarrow> bool" where
  "auto_prompt_blocks_allow access = (case access of BashAccess _ \<Rightarrow> False | _ \<Rightarrow> True)"

definition masked_pre_decision ::
    "permission_request \<Rightarrow> bool \<Rightarrow> reason option \<Rightarrow> (decision \<times> reason) option
     \<Rightarrow> (decision \<times> reason) option" where
  "masked_pre_decision rq forced why pd =
     (let pd1 = (if forced \<and> auto_prompt_blocks_allow (rq_access rq) \<and> is_allow pd
                    \<and> \<not> webfetch_static_fallback (rq_access rq) why pd
                 then None else pd)
      in if rq_hook_ask rq \<and> is_allow pd1 then None else pd1)"

definition prompt_policy_decision :: "prompt_policy \<Rightarrow> bool \<Rightarrow> settled option" where
  "prompt_policy_decision pp hook_forced =
     (case pp of
        PromptDeny \<Rightarrow>
          Some (DPolicyDeny ''denied by prompt policy (tool not pre-approved)'', False, PromptDenyReason)
      | PromptAllow \<Rightarrow> if hook_forced then None else Some (DAllow, True, PromptAllowReason)
      | _ \<Rightarrow> None)"

definition late_decision ::
    "'g manager_env \<Rightarrow> permission_request \<Rightarrow> request_facts \<Rightarrow> bool \<Rightarrow> reason option \<Rightarrow> manager \<Rightarrow> settled option" where
  "late_decision E rq f forced why m =
     (case sandbox_decision E rq f forced of
        Some d \<Rightarrow> Some d
      | None \<Rightarrow>
          (case policy_phase E rq f forced of
             Some d \<Rightarrow> Some d
           | None \<Rightarrow>
               (case masked_pre_decision rq forced why (pre_decision E rq f forced m) of
                  Some (d, r) \<Rightarrow> Some (d, True, r)
                | None \<Rightarrow> prompt_policy_decision (me_prompt_policy E) (rq_hook_ask rq))))"

subsection \<open>The prompt\<close>

definition prompt_trigger_of ::
    "permission_request \<Rightarrow> request_facts \<Rightarrow> reason option \<Rightarrow> reason" where
  "prompt_trigger_of rq f why =
     (case prompt_trigger (rf_preflight f) why of
        Some r \<Rightarrow> r
      | None \<Rightarrow>
          if rq_hook_ask rq then HookAsk
          else if (case rf_eval f of
                     None \<Rightarrow> False
                   | Some e \<Rightarrow> \<not> be_exact_grant e \<and> OpaqueShell \<in> be_assessment e)
          then OpaqueShellReason
          else if bash_request_floor_requires_prompt (rf_eval f) then BashRequestFloor
          else NeedsUser)"

text \<open>What an answer does: the decision, the kind reported, the new state, and what is persisted.\<close>

record prompt_answer =
  an_decision :: decision
  an_kind :: outcome_kind
  an_manager :: manager
  an_effects :: "manager_effect list"

definition answer :: "decision \<Rightarrow> outcome_kind \<Rightarrow> manager \<Rightarrow> prompt_answer" where
  "answer d k m = \<lparr>an_decision = d, an_kind = k, an_manager = m, an_effects = []\<rparr>"

definition with_state :: "(permission_state \<Rightarrow> permission_state) \<Rightarrow> manager \<Rightarrow> manager" where
  "with_state g m = m\<lparr>pm_state := g (pm_state m)\<rparr>"

definition answer_persisting ::
    "decision \<Rightarrow> outcome_kind \<Rightarrow> (permission_state \<Rightarrow> permission_state) \<Rightarrow> manager \<Rightarrow> prompt_answer" where
  "answer_persisting d k g m =
     \<lparr>an_decision = d, an_kind = k, an_manager = with_state g m,
      an_effects = [PersistMerging (g (pm_state m))]\<rparr>"

definition rejected :: decision where
  "rejected = DReject ''User rejected the execution''"

definition rejected_for_good :: "string \<Rightarrow> decision" where
  "rejected_for_good key =
     DReject (''User rejected the execution and excluded `'' @ key @ ''` from future runs in this project'')"

definition prompt_failed :: "string \<Rightarrow> decision" where
  "prompt_failed e = DReject (''Failed to request permission from user: '' @ e)"

definition grant_segments :: "shell_parser \<Rightarrow> string \<Rightarrow> permission_state \<Rightarrow> permission_state" where
  "grant_segments parse cmd s =
     s\<lparr>ps_allowed_bash := hs_extend (hs_insert cmd (ps_allowed_bash s)) (bash_grant_segments parse cmd)\<rparr>"

definition answer_bash :: "'g host \<Rightarrow> string \<Rightarrow> prompt_outcome \<Rightarrow> manager \<Rightarrow> prompt_answer run" where
  "answer_bash H cmd out m =
     (let k = outcome_kind_of out in
      case out of
        AllowOnce \<Rightarrow> Returned (answer DAllow k m)
      | AllowAlways \<Rightarrow>
          Returned (answer_persisting DAllow k (grant_segments (parse_shell H) cmd) m)
      | AllowAlwaysBashCommand label \<Rightarrow>
          (case persist_bash_always_allow (parse_shell H) (pm_state m) cmd label of
             Panicked \<Rightarrow> Panicked
           | Returned s' \<Rightarrow> Returned (answer_persisting DAllow k (\<lambda>_. s') m))
      | AllowAlwaysBashGlob pattern \<Rightarrow>
          Returned
            (if bash_glob_covers_script H cmd pattern
             then answer_persisting DAllow k (\<lambda>s. s\<lparr>ps_bash_globs := hs_insert pattern (ps_bash_globs s)\<rparr>) m
             else answer DAllow k m)
      | AllowAlwaysDomain _ \<Rightarrow> Returned (answer DAllow KAllowOnce m)
      | AllowAlwaysMcpTool _ \<Rightarrow> Returned (answer DAllow KAllowOnce m)
      | AllowAlwaysMcpServer _ \<Rightarrow> Returned (answer DAllow KAllowOnce m)
      | AllowEditsForSession \<Rightarrow> Returned (answer DAllow KAllowOnce m)
      | RejectOnce \<Rightarrow> Returned (answer rejected k m)
      | RejectAlwaysBashCommand label \<Rightarrow>
          Returned (answer_persisting (rejected_for_good label) k
            (\<lambda>s. s\<lparr>ps_disallowed_bash := hs_insert label (ps_disallowed_bash s)\<rparr>) m)
      | RejectAlwaysMcpTool _ \<Rightarrow> Returned (answer rejected KRejectOnce m)
      | RejectAlwaysDomain _ \<Rightarrow> Returned (answer rejected KRejectOnce m)
      | PromptCancelled \<Rightarrow> Returned (answer DCancelled k m)
      | PromptFollowup msg \<Rightarrow> Returned (answer (DFollowupMessage msg) k m)
      | PromptError e \<Rightarrow> Returned (answer (prompt_failed e) k m))"

text \<open>A message to an agent is answered once, never remembered.\<close>

fun once_only :: "prompt_outcome \<Rightarrow> prompt_outcome" where
  "once_only (PromptCancelled) = PromptCancelled"
| "once_only (PromptFollowup msg) = PromptFollowup msg"
| "once_only (PromptError e) = PromptError e"
| "once_only RejectOnce = RejectOnce"
| "once_only (RejectAlwaysBashCommand _) = RejectOnce"
| "once_only (RejectAlwaysMcpTool _) = RejectOnce"
| "once_only (RejectAlwaysDomain _) = RejectOnce"
| "once_only _ = AllowOnce"

definition allow_mcp_tool :: "string \<Rightarrow> permission_state \<Rightarrow> permission_state" where
  "allow_mcp_tool name s = s\<lparr>ps_mcp_tools := hs_insert name (ps_mcp_tools s)\<rparr>"

definition answer_other ::
    "'g manager_env \<Rightarrow> access_kind \<Rightarrow> prompt_outcome \<Rightarrow> manager \<Rightarrow> prompt_answer" where
  "answer_other E access out m =
     (let k = outcome_kind_of out in
      case out of
        AllowOnce \<Rightarrow> answer DAllow k m
      | AllowEditsForSession \<Rightarrow> answer DAllow k (m\<lparr>pm_allow_edits_for_session := True\<rparr>)
      | AllowAlways \<Rightarrow>
          answer_persisting DAllow k
            (case access of MCPToolAccess name _ \<Rightarrow> allow_mcp_tool name | _ \<Rightarrow> (\<lambda>s. s)) m
      | AllowAlwaysBashCommand _ \<Rightarrow> answer DAllow KAllowAlwaysBash m
      | AllowAlwaysBashGlob _ \<Rightarrow> answer DAllow KAllowAlwaysBash m
      | AllowAlwaysDomain _ \<Rightarrow>
          (case access of
             WebFetchAccess url \<Rightarrow>
               (case domain_from_url (me_host E) (me_parse_url E) url of
                  Some domain \<Rightarrow>
                    answer_persisting DAllow k
                      (\<lambda>s. s\<lparr>ps_web_domains := hs_insert domain (ps_web_domains s)\<rparr>) m
                | None \<Rightarrow> answer DAllow k m)
           | _ \<Rightarrow> answer DAllow k m)
      | AllowAlwaysMcpTool _ \<Rightarrow>
          (case access of
             MCPToolAccess name _ \<Rightarrow> answer_persisting DAllow k (allow_mcp_tool name) m
           | _ \<Rightarrow> answer DAllow k m)
      | AllowAlwaysMcpServer server_prefix \<Rightarrow>
          (case access of
             MCPToolAccess name _ \<Rightarrow>
               if map_option (\<lambda>(_, server, _). server) (parse_mcp_qualified_name name) = Some server_prefix
               then answer_persisting DAllow k
                      (\<lambda>s. s\<lparr>ps_mcp_servers := hs_insert server_prefix (ps_mcp_servers s)\<rparr>) m
               else answer_persisting DAllow k (allow_mcp_tool name) m
           | _ \<Rightarrow> answer DAllow k m)
      | RejectAlwaysBashCommand _ \<Rightarrow> answer rejected k m
      | RejectAlwaysMcpTool _ \<Rightarrow>
          (case access of
             MCPToolAccess name _ \<Rightarrow>
               answer_persisting (rejected_for_good name) k
                 (\<lambda>s. s\<lparr>ps_denied_mcp_tools := hs_insert name (ps_denied_mcp_tools s)\<rparr>) m
           | _ \<Rightarrow> answer rejected KRejectOnce m)
      | RejectAlwaysDomain _ \<Rightarrow>
          (case (case access of
                   WebFetchAccess url \<Rightarrow> web_fetch_deny_key_from_url (me_host E) (me_parse_url E) url
                 | _ \<Rightarrow> None) of
             Some domain \<Rightarrow>
               answer_persisting (rejected_for_good domain) k
                 (\<lambda>s. s\<lparr>ps_denied_web_domains := hs_insert domain (ps_denied_web_domains s)\<rparr>) m
           | None \<Rightarrow> answer rejected KRejectOnce m)
      | RejectOnce \<Rightarrow> answer rejected k m
      | PromptCancelled \<Rightarrow> answer DCancelled k m
      | PromptError e \<Rightarrow> answer (prompt_failed e) k m
      | PromptFollowup msg \<Rightarrow> answer (DFollowupMessage msg) k m)"

definition answer_prompt ::
    "'g manager_env \<Rightarrow> access_kind \<Rightarrow> prompt_outcome \<Rightarrow> manager \<Rightarrow> prompt_answer run" where
  "answer_prompt E access out m =
     (case access of
        BashAccess cmd \<Rightarrow> answer_bash (me_host E) cmd out m
      | AgentMessageAccess _ \<Rightarrow> Returned (answer_other E access (once_only out) m)
      | _ \<Rightarrow> Returned (answer_other E access out m))"

subsection \<open>Recorded decisions\<close>

definition prompted_decision_approved :: "decision \<Rightarrow> outcome_kind \<Rightarrow> bool option" where
  "prompted_decision_approved d k =
     (case d of
        DAllow \<Rightarrow> Some True
      | DReject _ \<Rightarrow> if k \<noteq> KError then Some False else None
      | _ \<Rightarrow> None)"

fun floor_boundary :: "string \<Rightarrow> nat \<Rightarrow> nat" where
  "floor_boundary s 0 = 0"
| "floor_boundary s (Suc n) = (if is_char_boundary s (Suc n) then Suc n else floor_boundary s n)"

definition TRUNCATION_MARKER :: string where
  "TRUNCATION_MARKER = [CHR 0xE2, CHR 0x80, CHR 0xA6]"

text \<open>The branch of a budget smaller than the marker is not taken for the one budget used.\<close>

definition truncate_str_with_marker :: "string \<Rightarrow> nat \<Rightarrow> string" where
  "truncate_str_with_marker s max_bytes =
     (if length s \<le> max_bytes then s
      else if max_bytes < length TRUNCATION_MARKER then take (floor_boundary s max_bytes) s
      else take (floor_boundary s (max_bytes - length TRUNCATION_MARKER)) s @ TRUNCATION_MARKER)"

definition CLASSIFIER_TURN_MAX_LEN :: nat where "CLASSIFIER_TURN_MAX_LEN = 400"

definition permission_decision_args :: "(json \<Rightarrow> string) \<Rightarrow> access_kind \<Rightarrow> string option \<Rightarrow> string" where
  "permission_decision_args show_json access detail =
     truncate_str_with_marker
       (case access of
          BashAccess cmd \<Rightarrow> show_json (JObj [(''command'', JStr cmd)])
        | _ \<Rightarrow> (case detail of Some d \<Rightarrow> d | None \<Rightarrow> ''(none)''))
       CLASSIFIER_TURN_MAX_LEN"

definition record_decision ::
    "(json \<Rightarrow> string) \<Rightarrow> access_kind \<Rightarrow> decision \<Rightarrow> outcome_kind \<Rightarrow> manager \<Rightarrow> manager" where
  "record_decision show_json access d k m =
     (case prompted_decision_approved d k of
        None \<Rightarrow> m
      | Some approved \<Rightarrow>
          (let rs = pm_recorded_decisions m @
                      [PermissionDecision (tool_name_for_access access)
                         (permission_decision_args show_json access (access_detail_of show_json access))
                         approved]
           in m\<lparr>pm_recorded_decisions := drop (length rs - MAX_RECORDED_PERMISSION_DECISIONS) rs\<rparr>))"

subsection \<open>One request\<close>

definition event_of ::
    "manager \<Rightarrow> decision \<Rightarrow> bool \<Rightarrow> bool \<Rightarrow> outcome_kind option \<Rightarrow> reason \<Rightarrow> request_classification
     \<Rightarrow> permission_event" where
  "event_of m d auto_approved prompted k r cl =
     \<lparr>pe_decision = d, pe_auto_approved = auto_approved, pe_user_prompted = prompted, pe_outcome = k,
      pe_reason = Some r, pe_yolo = pm_yolo m, pe_classification = cl,
      pe_denials = (if pm_auto m then Some (pm_consecutive_denials m, pm_total_denials m) else None)\<rparr>"

definition settle :: "manager \<Rightarrow> settled \<Rightarrow> request_classification \<Rightarrow> manager_result" where
  "settle m sd cl =
     (case sd of
        (d, auto_approved, r) \<Rightarrow>
          \<lparr>rr_manager = m, rr_event = event_of m d auto_approved False None r cl,
           rr_resolution = Some d, rr_effects = []\<rparr>)"

definition requester_gone :: "manager \<Rightarrow> request_classification \<Rightarrow> manager_result" where
  "requester_gone m cl =
     \<lparr>rr_manager = m, rr_event = event_of m DCancelled False False None RequesterGone cl,
      rr_resolution = None, rr_effects = []\<rparr>"

text \<open>The counters of the event are those of the moment the prompt was opened.\<close>

definition prompt_phase ::
    "'g manager_env \<Rightarrow> permission_request \<Rightarrow> request_io \<Rightarrow> reason \<Rightarrow> request_classification \<Rightarrow> manager
     \<Rightarrow> manager_result run" where
  "prompt_phase E rq io trigger cl m =
     (if io_closed_before_prompt io then Returned (requester_gone m cl)
      else (case answer_prompt E (rq_access rq)
                   (if io_closed_in_prompt io then PromptCancelled else io_prompt io) m of
              Panicked \<Rightarrow> Panicked
            | Returned a \<Rightarrow>
                (let d = an_decision a; k = an_kind a;
                     m1 = record_decision (me_show_json E) (rq_access rq) d k (an_manager a);
                     gone = (d = DCancelled \<and> io_closed_at_end io);
                     m2 = (if k \<noteq> KError \<and> \<not> gone
                           then m1\<lparr>pm_consecutive_denials := 0, pm_total_denials := 0\<rparr> else m1)
                 in Returned
                      \<lparr>rr_manager = m2,
                       rr_event = event_of m d False True (Some k) (if gone then RequesterGone else trigger) cl,
                       rr_resolution = Some d,
                       rr_effects = NotifyPrompt # an_effects a\<rparr>)))"

definition handle_request ::
    "'g manager_env \<Rightarrow> permission_request \<Rightarrow> request_io \<Rightarrow> manager \<Rightarrow> manager_result run" where
  "handle_request E rq io m0 =
     (if io_closed_at_dequeue io then Returned (requester_gone m0 NotClassified)
      else
        (let m = refresh rq io m0 in
         if scan_ran E rq (pm_state m) \<and> io_closed_after_scan io
         then Returned (requester_gone m NotClassified)
         else
           (let f = facts_of E rq io m in
            case early_decision E rq f m of
              Some sd \<Rightarrow> Returned (settle m sd NotClassified)
            | None \<Rightarrow>
                (let ar = auto_phase E rq io f m; m' = ar_manager ar; cl = ar_classification ar in
                 case ar_route ar of
                   AutoSettled sd \<Rightarrow> Returned (settle m' sd cl)
                 | AutoAbandoned \<Rightarrow> Returned (requester_gone m' cl)
                 | AutoContinues forced why \<Rightarrow>
                     (case late_decision E rq f forced why m' of
                        Some sd \<Rightarrow> Returned (settle m' sd cl)
                      | None \<Rightarrow> prompt_phase E rq io (prompt_trigger_of rq f why) cl m')))))"

end
