(* ===== verification/ManagerProofs.thy ===== *)
theory ManagerProofs
  imports PermissionManager
begin

text \<open>
  What the permission manager guarantees about a single request, over the definitions of
  PermissionManager: when the user cannot be bypassed (a hook that asks, a policy denial, a command or
  an edit target that needs authority).  The demonstration manager of the last section instantiates the
  code outside the sources for the witnesses here and in ManagerRuns.
\<close>

subsection \<open>How a request is settled without the user\<close>

text \<open>
  What the code reads of one request: the refreshed actor, the facts, and the route of the auto mode.
\<close>

definition settled_without_user ::
    "'g manager_env \<Rightarrow> permission_request \<Rightarrow> request_io \<Rightarrow> manager \<Rightarrow> settled \<Rightarrow> bool" where
  "settled_without_user E rq io m0 sd \<longleftrightarrow>
     (let m = refresh rq io m0; f = facts_of E rq io m; ar = auto_phase E rq io f m in
      early_decision E rq f m = Some sd
      \<or> early_decision E rq f m = None \<and> ar_route ar = AutoSettled sd
      \<or> early_decision E rq f m = None
         \<and> (\<exists>forced why. ar_route ar = AutoContinues forced why
              \<and> late_decision E rq f forced why (ar_manager ar) = Some sd))"

lemma handle_request_silent:
  assumes "handle_request E rq io m0 = Returned R"
    and "rr_resolution R = Some d" and "\<not> pe_user_prompted (rr_event R)"
  shows "\<exists>a r. settled_without_user E rq io m0 (d, a, r)
           \<and> pe_reason (rr_event R) = Some r \<and> rr_effects R = []"
proof -
  let ?m = "refresh rq io m0"
  let ?f = "facts_of E rq io ?m"
  let ?ar = "auto_phase E rq io ?f ?m"
  have gone: "requester_gone m cl \<noteq> R" for m cl
    using assms(2) by (auto simp: requester_gone_def)
  have go1: "\<not> io_closed_at_dequeue io"
    using assms(1) gone by (auto simp: handle_request_def)
  have go2: "\<not> (scan_ran E rq (pm_state ?m) \<and> io_closed_after_scan io)"
  proof
    assume "scan_ran E rq (pm_state ?m) \<and> io_closed_after_scan io"
    then show False using assms(1) go1 gone [of ?m NotClassified] by (simp add: handle_request_def Let_def)
  qed
  note go = go1 go2
  have settle: "settle m (d', a, r) cl = R \<Longrightarrow> d' = d \<and> pe_reason (rr_event R) = Some r \<and> rr_effects R = []"
    for m d' a r cl
    using assms(2) by (auto simp: settle_def event_of_def)
  show ?thesis
  proof (cases "early_decision E rq ?f ?m")
    case (Some sd)
    then have "settle ?m sd NotClassified = R" using assms(1) go by (simp add: handle_request_def Let_def)
    then show ?thesis using Some settle by (cases sd) (auto simp: settled_without_user_def Let_def)
  next
    case None
    show ?thesis
    proof (cases "ar_route ?ar")
      case (AutoSettled sd)
      then have "settle (ar_manager ?ar) sd (ar_classification ?ar) = R"
        using assms(1) go None by (simp add: handle_request_def Let_def)
      then show ?thesis using AutoSettled None settle by (cases sd) (auto simp: settled_without_user_def Let_def)
    next
      case AutoAbandoned
      then show ?thesis using assms(1) go None gone by (simp add: handle_request_def Let_def)
    next
      case (AutoContinues forced why)
      show ?thesis
      proof (cases "late_decision E rq ?f forced why (ar_manager ?ar)")
        case (Some sd)
        then have "settle (ar_manager ?ar) sd (ar_classification ?ar) = R"
          using assms(1) go None AutoContinues by (simp add: handle_request_def Let_def)
        then show ?thesis using AutoContinues None Some settle
          by (cases sd) (auto simp: settled_without_user_def Let_def)
      next
        case no: None
        then have "prompt_phase E rq io (prompt_trigger_of rq ?f why) (ar_classification ?ar) (ar_manager ?ar)
                   = Returned R"
          using assms(1) go None AutoContinues by (simp add: handle_request_def Let_def)
        then show ?thesis
          using assms(3) gone
          by (auto simp: prompt_phase_def event_of_def Let_def split: if_splits run.splits)
      qed
    qed
  qed
qed

text \<open>The stages one by one: what each needs to allow.\<close>

lemma early_allows:
  assumes "early_decision E rq f m = Some (DAllow, a, r)"
  shows "\<not> rq_hook_ask rq
    \<and> (\<nexists>t. policy_decision_of (rf_preflight f) = Some (DReject t))
    \<and> (pm_yolo m \<and> \<not> shell_forced_prompt (rf_preflight f) \<and> r = YoloReason
       \<or> \<not> forced_before_classifier rq f \<and> rf_protected f = None
         \<and> (session_grant_pre_decision (me_host E) (me_parse_url E) (rq_access rq) (rf_eval f) (pm_state m)
               (pm_allow_edits_for_session m) (me_static_domains E)
               (\<not> (pm_auto m \<and> me_static_is_default E)) (me_yolo_pin E) = Some (DAllow, r)
            \<or> pm_auto m \<and> policy_decision_of (rf_preflight f) = Some DAllow \<and> r = PolicyAllowReason
              \<and> (bash_assessment_is_clear (rf_eval f) \<or> \<not> bash_request_floor_requires_prompt (rf_eval f))))"
  using assms
  by (auto simp: early_decision_def Let_def forced_before_classifier_def
      split: option.splits decision.splits if_splits)

lemma auto_allows:
  assumes "ar_route (auto_phase E rq io f m) = AutoSettled (DAllow, a, r)"
  shows "\<not> rq_hook_ask rq \<and> pm_auto m \<and> rf_protected f = None \<and> admits_auto_classifier (rf_preflight f)
    \<and> (r = AutoFastPathReason
         \<and> auto_mode_fast_path (rq_access rq) (tool_name_for_access (rq_access rq)) False = FastAllow
       \<or> r = AutoClassifierAllow
         \<and> (\<exists>out. classify_route_of E rq io
                    (classifier_assessment (rf_eval f) (gp_defers_gate_ask (rf_preflight f))) m
                  = RouteCompleted out \<and> co_verdict out = VAllow))"
  using assms
  by (auto simp: auto_phase_def auto_verdict_def Let_def auto_mode_fast_path_def
      split: if_splits auto_fast_path.splits classify_route.splits verdict.splits)

lemma is_allow_None [simp]: "\<not> is_allow None" and is_allow_Some [simp]: "is_allow (Some (DAllow, r))"
  by (simp_all add: is_allow_def)

lemma late_allows:
  assumes "late_decision E rq f forced why m = Some (DAllow, a, r)"
  shows "\<not> rq_hook_ask rq
    \<and> (rf_protected f = None \<and> \<not> forced
         \<and> sandbox_may_auto_allow_bash (rf_eval f) (me_sandbox_auto_allow E) \<and> r = SandboxAuto
       \<or> policy_decision_of (rf_preflight f) = Some DAllow \<and> \<not> policy_allow_deferred E rq f forced
         \<and> r = PolicyAllowReason
       \<or> pre_decision E rq f forced m = Some (DAllow, r)
       \<or> me_prompt_policy E = PromptAllow \<and> r = PromptAllowReason)"
  using assms
  by (auto simp: late_decision_def sandbox_decision_def policy_phase_def masked_pre_decision_def
      prompt_policy_decision_def policy_allow_deferred_def Let_def
      split: option.splits if_splits decision.splits prompt_policy.splits)


lemma silent_allow_cases:
  assumes "handle_request E rq io m0 = Returned R"
    and "rr_resolution R = Some DAllow" and "\<not> pe_user_prompted (rr_event R)"
  shows "\<exists>a r. pe_reason (rr_event R) = Some r
    \<and> (let m = refresh rq io m0; f = facts_of E rq io m; ar = auto_phase E rq io f m in
         early_decision E rq f m = Some (DAllow, a, r)
         \<or> ar_route ar = AutoSettled (DAllow, a, r)
         \<or> (\<exists>forced why. ar_route ar = AutoContinues forced why
              \<and> late_decision E rq f forced why (ar_manager ar) = Some (DAllow, a, r)))"
  using handle_request_silent [OF assms] unfolding settled_without_user_def Let_def by blast


text \<open>
  C1. A deny of the managed policy is final.  If the direct rules or one of the shell gates reject
  a request whose requester is still there, it is refused with that reason under every mode, grant
  and hook, without a prompt, and the actor keeps its state.
\<close>

theorem policy_deny_is_final:
  assumes "policy_decision_of (rf_preflight (facts_of E rq io (refresh rq io m))) = Some (DReject t)"
    and "\<not> io_closed_at_dequeue io" and "\<not> io_closed_after_scan io"
  shows "\<exists>R. handle_request E rq io m = Returned R
    \<and> rr_resolution R = Some (DPolicyDeny t) \<and> rr_manager R = refresh rq io m \<and> rr_effects R = []
    \<and> pe_reason (rr_event R) = Some PolicyDenyReason"
proof -
  have "early_decision E rq (facts_of E rq io (refresh rq io m)) (refresh rq io m)
        = Some (DPolicyDeny t, False, PolicyDenyReason)"
    using assms(1) by (simp add: early_decision_def Let_def)
  then show ?thesis using assms(2,3) by (simp add: handle_request_def Let_def settle_def event_of_def)
qed

lemma grant_respects_floor:
  "bash_grant_pre_decision cmd ev s pin opts = Some (DAllow, r) \<Longrightarrow> \<not> bash_request_floor_requires_prompt (Some ev)"
  by (auto simp: bash_grant_pre_decision_def split: segment_evaluation.splits if_splits)

lemma clear_has_no_floor: "bash_assessment_is_clear ev \<Longrightarrow> \<not> bash_request_floor_requires_prompt ev"
  by (auto simp: bash_assessment_is_clear_def bash_request_floor_requires_prompt_def
      constrains_broad_grant_iff split: option.splits)

lemma floor_is_bash: "bash_request_floor_requires_prompt (rf_eval (facts_of E rq io m)) \<Longrightarrow> \<exists>cmd. rq_access rq = BashAccess cmd"
  by (auto simp: facts_of_def scanned_evaluation_def Let_def bash_request_floor_requires_prompt_def
      split: access_kind.splits)

lemma protected_access:
  "rf_protected (facts_of E rq io m) \<noteq> None \<Longrightarrow> (\<exists>p. rq_access rq = EditAccess p) \<or> (\<exists>c. rq_access rq = BashAccess c)"
  by (auto simp: facts_of_def protected_edit_of_def Let_def split: access_kind.splits)

text \<open>
  C3. Who may wave a risky command through.  If a Bash request whose assessment carries a finding
  that no broad grant can vouch for (and that was not granted as a whole) is allowed without a
  prompt, then always-approve is on and no gate asked, or the auto mode's fast path or its
  classifier allowed it with the findings in front of it, or a narrow allow rule covers a plain
  file write, or the prompt policy is to allow.  No session grant, no stored grant and no sandbox
  does.
\<close>

theorem risky_command_needs_authority:
  assumes "handle_request E rq io m0 = Returned R"
    and "rr_resolution R = Some DAllow" and "\<not> pe_user_prompted (rr_event R)"
    and "bash_request_floor_requires_prompt (rf_eval (facts_of E rq io (refresh rq io m0)))"
  shows "let m = refresh rq io m0; f = facts_of E rq io m; why = pe_reason (rr_event R) in
      why = Some YoloReason \<and> pm_yolo m \<and> \<not> shell_forced_prompt (rf_preflight f)
    \<or> why = Some AutoFastPathReason \<and> pm_auto m
        \<and> (\<exists>cmd. rq_access rq = BashAccess cmd \<and> trim cmd \<in> {''true'', '':'', ''false''})
    \<or> why = Some AutoClassifierAllow \<and> pm_auto m
        \<and> (\<exists>out. classify_route_of E rq io
                   (classifier_assessment (rf_eval f) (gp_defers_gate_ask (rf_preflight f))) m
                 = RouteCompleted out \<and> co_verdict out = VAllow)
    \<or> why = Some PolicyAllowReason
        \<and> narrow_allow_clears_write_floor (me_host E) (rf_eval f) (me_policy E) (rq_access rq)
    \<or> why = Some PromptAllowReason \<and> me_prompt_policy E = PromptAllow"
proof -
  let ?m = "refresh rq io m0"
  let ?f = "facts_of E rq io ?m"
  obtain cmd where cmd: "rq_access rq = BashAccess cmd" using floor_is_bash [OF assms(4)] by blast
  obtain ev where ev: "rf_eval ?f = Some ev"
    using assms(4) by (cases "rf_eval ?f") (simp_all add: bash_request_floor_requires_prompt_def)
  note no_floor = grant_respects_floor clear_has_no_floor
  have grants: "session_grant_pre_decision H pu (rq_access rq) (rf_eval ?f) s b st h pin \<noteq> Some (DAllow, r)"
    for H :: "'a host" and pu s b st h pin r
    using no_floor(1) assms(4) cmd ev by (auto simp: session_grant_pre_decision_def)
  have pre: "pre_decision E rq ?f forced m \<noteq> Some (DAllow, r)" for forced m r
    using assms(4) cmd ev by (simp add: pre_decision_def bash_pre_decision_def)
  obtain a r where r: "pe_reason (rr_event R) = Some r" and
    c: "early_decision E rq ?f ?m = Some (DAllow, a, r)
         \<or> ar_route (auto_phase E rq io ?f ?m) = AutoSettled (DAllow, a, r)
         \<or> (\<exists>forced why. late_decision E rq ?f forced why (ar_manager (auto_phase E rq io ?f ?m)) = Some (DAllow, a, r))"
    using silent_allow_cases [OF assms(1-3)] unfolding Let_def by blast
  from c show ?thesis
  proof (elim disjE exE)
    assume "early_decision E rq ?f ?m = Some (DAllow, a, r)"
    from early_allows [OF this] show ?thesis
      using grants assms(4) no_floor(2) r unfolding Let_def by blast
  next
    assume "ar_route (auto_phase E rq io ?f ?m) = AutoSettled (DAllow, a, r)"
    from auto_allows [OF this] show ?thesis
      using r cmd
      by (auto simp: auto_mode_fast_path_def is_auto_mode_allowlisted_access_def
          is_auto_mode_allowlisted_tool_name_def auto_mode_tool_names_def Let_def split: if_splits)
  next
    fix forced why
    assume "late_decision E rq ?f forced why (ar_manager (auto_phase E rq io ?f ?m)) = Some (DAllow, a, r)"
    from late_allows [OF this] show ?thesis
      using r assms(4) pre unfolding Let_def sandbox_may_auto_allow_bash_def policy_allow_deferred_def by blast
  qed
qed

text \<open>
  C4. A protected target is never written silently: an edit of it, or a command that creates it, is
  allowed without a prompt only under always-approve or under a prompt policy of allow.
\<close>

theorem protected_target_needs_user:
  assumes "handle_request E rq io m0 = Returned R"
    and "rr_resolution R = Some DAllow" and "\<not> pe_user_prompted (rr_event R)"
    and "rf_protected (facts_of E rq io (refresh rq io m0)) \<noteq> None"
  shows "pe_reason (rr_event R) = Some YoloReason \<and> pm_yolo (refresh rq io m0)
    \<or> pe_reason (rr_event R) = Some PromptAllowReason \<and> me_prompt_policy E = PromptAllow"
proof -
  let ?m = "refresh rq io m0"
  let ?f = "facts_of E rq io ?m"
  have pre: "pre_decision E rq ?f forced m \<noteq> Some (DAllow, r)" for forced m r
    using protected_access [OF assms(4)] assms(4)
    by (auto simp: pre_decision_def bash_pre_decision_def edit_pre_decision_def split: option.splits if_splits)
  obtain a r where r: "pe_reason (rr_event R) = Some r" and
    c: "early_decision E rq ?f ?m = Some (DAllow, a, r)
         \<or> ar_route (auto_phase E rq io ?f ?m) = AutoSettled (DAllow, a, r)
         \<or> (\<exists>forced why. late_decision E rq ?f forced why (ar_manager (auto_phase E rq io ?f ?m)) = Some (DAllow, a, r))"
    using silent_allow_cases [OF assms(1-3)] unfolding Let_def by blast
  from c show ?thesis
  proof (elim disjE exE)
    assume "early_decision E rq ?f ?m = Some (DAllow, a, r)"
    from early_allows [OF this] show ?thesis using assms(4) r by auto
  next
    assume "ar_route (auto_phase E rq io ?f ?m) = AutoSettled (DAllow, a, r)"
    from auto_allows [OF this] show ?thesis using assms(4) by auto
  next
    fix forced why
    assume "late_decision E rq ?f forced why (ar_manager (auto_phase E rq io ?f ?m)) = Some (DAllow, a, r)"
    from late_allows [OF this] show ?thesis
      using assms(4) pre r unfolding policy_allow_deferred_def by auto
  qed
qed

subsection \<open>Concrete requests\<close>

definition demo_classifier :: llm_classifier where
  "demo_classifier =
     \<lparr>lc_text = None, lc_channel = None, lc_prompt_type = FullPrompt, lc_system_prompt = [],
      lc_show_json = (\<lambda>_. ''{}''), lc_parse_json = (\<lambda>_. None)\<rparr>"

definition demo_manager_env :: "permission_rule list \<Rightarrow> prompt_policy \<Rightarrow> string manager_env" where
  "demo_manager_env rules pp =
     \<lparr>me_host = demo_host, me_git = demo_git_host, me_home = None, me_tilde = (\<lambda>s. s),
      me_parse_url = (\<lambda>_. None), me_show_json = (\<lambda>_. ''{}''), me_cwd = ''/w'', me_yolo_pin = None,
      me_prompt_policy = pp, me_policy = Some (compile_policy demo_host (permission_config_new rules)),
      me_static_domains = [], me_static_is_default = False, me_remember_tool_approvals = False,
      me_can_present_prompt = False, me_sandbox_auto_allow = False\<rparr>"

definition demo_manager :: "permission_state \<Rightarrow> bool \<Rightarrow> manager" where
  "demo_manager s yolo =
     (fst (spawn_manager (demo_manager_env [] PromptAsk) yolo None s demo_classifier))"

definition demo_io :: "prompt_outcome \<Rightarrow> request_io" where
  "demo_io out =
     \<lparr>io_closed_at_dequeue = False, io_reload = None, io_scan_joined = True, io_closed_after_scan = False,
      io_closed_in_classify = False, io_closed_before_prompt = False, io_prompt = out,
      io_closed_in_prompt = False, io_closed_at_end = False\<rparr>"

definition demo_request :: "access_kind \<Rightarrow> bool \<Rightarrow> permission_request" where
  "demo_request access hook = \<lparr>rq_access = access, rq_path_context = None, rq_hook_ask = hook\<rparr>"

fun the_run :: "'a run \<Rightarrow> 'a" where
  "the_run (Returned x) = x"
| "the_run Panicked = undefined"

fun returns :: "'a run \<Rightarrow> bool" where
  "returns (Returned x) = True"
| "returns Panicked = False"

lemma returns_run: "returns h \<Longrightarrow> h = Returned (the_run h)"
  by (cases h) simp_all


lemma policy_deny_is_final_witness:
  "\<exists>R. handle_request (demo_manager_env [demo_rule DenyRule BashTool (Some ''git push'')] PromptAllow)
         (demo_request (BashAccess ''git push'') False) (demo_io AllowOnce)
         (demo_manager permission_state_default True) = Returned R
       \<and> (\<exists>t. rr_resolution R = Some (DPolicyDeny t))"
proof -
  let ?E = "demo_manager_env [demo_rule DenyRule BashTool (Some ''git push'')] PromptAllow"
  let ?rq = "demo_request (BashAccess ''git push'') False"
  let ?m = "demo_manager permission_state_default True"
  have io: "\<not> io_closed_at_dequeue (demo_io AllowOnce)" "\<not> io_closed_after_scan (demo_io AllowOnce)"
    by (simp_all add: demo_io_def)
  have "(case policy_decision_of (rf_preflight (facts_of ?E ?rq (demo_io AllowOnce) (refresh ?rq (demo_io AllowOnce) ?m))) of
           Some (DReject t) \<Rightarrow> True | _ \<Rightarrow> False)"
    by code_simp
  then obtain t where "policy_decision_of (rf_preflight (facts_of ?E ?rq (demo_io AllowOnce) (refresh ?rq (demo_io AllowOnce) ?m)))
      = Some (DReject t)"
    by (auto split: option.splits decision.splits)
  from policy_deny_is_final [OF this io] show ?thesis by blast
qed

lemma risky_command_needs_authority_witness:
  "\<exists>R. handle_request (demo_manager_env [] PromptAsk) (demo_request (BashAccess ''tee out'') False)
         (demo_io RejectOnce) (demo_manager permission_state_default True) = Returned R
       \<and> pe_reason (rr_event R) = Some YoloReason"
proof -
  let ?E = "demo_manager_env [] PromptAsk"
  let ?rq = "demo_request (BashAccess ''tee out'') False"
  let ?m = "demo_manager permission_state_default True"
  let ?h = "handle_request ?E ?rq (demo_io RejectOnce) ?m"
  have "returns ?h" by code_simp
  then have h: "?h = Returned (the_run ?h)" by (rule returns_run)
  have a: "rr_resolution (the_run ?h) = Some DAllow" by code_simp
  have p: "\<not> pe_user_prompted (rr_event (the_run ?h))" by code_simp
  have f: "bash_request_floor_requires_prompt
             (rf_eval (facts_of ?E ?rq (demo_io RejectOnce) (refresh ?rq (demo_io RejectOnce) ?m)))"
    by code_simp
  have n: "\<not> pm_auto (refresh ?rq (demo_io RejectOnce) ?m)" by code_simp
  have g: "me_prompt_policy ?E \<noteq> PromptAllow" by (simp add: demo_manager_env_def)
  have w: "\<not> narrow_allow_clears_write_floor (me_host ?E)
      (rf_eval (facts_of ?E ?rq (demo_io RejectOnce) (refresh ?rq (demo_io RejectOnce) ?m))) (me_policy ?E) (rq_access ?rq)"
    by code_simp
  show ?thesis using risky_command_needs_authority [OF h a p f] n g w h unfolding Let_def by blast
qed

lemma protected_target_needs_user_witness:
  "\<exists>R. handle_request (demo_manager_env [] PromptAsk) (demo_request (EditAccess ''/etc/hosts'') False)
         (demo_io RejectOnce) (demo_manager permission_state_default True) = Returned R
       \<and> pe_reason (rr_event R) = Some YoloReason"
proof -
  let ?E = "demo_manager_env [] PromptAsk"
  let ?rq = "demo_request (EditAccess ''/etc/hosts'') False"
  let ?m = "demo_manager permission_state_default True"
  let ?h = "handle_request ?E ?rq (demo_io RejectOnce) ?m"
  have "returns ?h" by code_simp
  then have h: "?h = Returned (the_run ?h)" by (rule returns_run)
  have a: "rr_resolution (the_run ?h) = Some DAllow" by code_simp
  have p: "\<not> pe_user_prompted (rr_event (the_run ?h))" by code_simp
  have f: "rf_protected (facts_of ?E ?rq (demo_io RejectOnce) (refresh ?rq (demo_io RejectOnce) ?m)) \<noteq> None"
    by code_simp
  have g: "me_prompt_policy ?E \<noteq> PromptAllow" by (simp add: demo_manager_env_def)
  show ?thesis using protected_target_needs_user [OF h a p f] g h by blast
qed

end
