(* ===== verification/ManagerRuns.thy ===== *)
theory ManagerRuns
  imports ManagerProofs
begin

text \<open>
  Runs of the permission manager: its commands as a step function, the reachable states, the invariant
  every command keeps, and the bound on consecutive automatic denials, for any sequence of commands.
\<close>

subsection \<open>The actor's commands\<close>

datatype manager_command =
    SetYoloMode bool
  | SetAutoMode bool
  | SetClassifier "llm_classifier option"
  | SetClassifierTranscript "classifier_turn list"
  | SetProjectInstructions "string option"
  | ResetState
  | Request permission_request request_io

definition silent_step :: "manager \<Rightarrow> manager \<times> permission_event option \<times> manager_effect list" where
  "silent_step m = (m, None, [])"

definition manager_step ::
    "'g manager_env \<Rightarrow> llm_classifier \<Rightarrow> manager_command \<Rightarrow> manager
     \<Rightarrow> (manager \<times> permission_event option \<times> manager_effect list) run" where
  "manager_step E dc c m =
     (case c of
        SetYoloMode b \<Rightarrow> Returned (silent_step (set_yolo_mode E b m))
      | SetAutoMode b \<Rightarrow> Returned (silent_step (set_auto_mode dc b m))
      | SetClassifier cl \<Rightarrow> Returned (silent_step (m\<lparr>pm_classifier := cl\<rparr>))
      | SetClassifierTranscript ts \<Rightarrow> Returned (silent_step (m\<lparr>pm_classifier_turns := ts\<rparr>))
      | SetProjectInstructions p \<Rightarrow> Returned (silent_step (m\<lparr>pm_project_instructions := p\<rparr>))
      | ResetState \<Rightarrow> Returned (case reset_state m of (m', es) \<Rightarrow> (m', None, es))
      | Request rq io \<Rightarrow>
          (case handle_request E rq io m of
             Panicked \<Rightarrow> Panicked
           | Returned R \<Rightarrow> Returned (rr_manager R, Some (rr_event R), rr_effects R)))"

text \<open>A run of the actor: the commands it took, with the events of its requests.\<close>

inductive manager_run ::
    "'g manager_env \<Rightarrow> llm_classifier \<Rightarrow> manager \<Rightarrow> permission_event list \<Rightarrow> manager \<Rightarrow> bool"
  for E dc m0 where
  start: "manager_run E dc m0 [] m0"
| step: "\<lbrakk>manager_run E dc m0 evs m; manager_step E dc c m = Returned (m', ev, es)\<rbrakk>
         \<Longrightarrow> manager_run E dc m0 (evs @ (case ev of None \<Rightarrow> [] | Some e \<Rightarrow> [e])) m'"

definition auto_denial :: "permission_event \<Rightarrow> bool" where
  "auto_denial e \<longleftrightarrow> pe_reason e = Some AutoClassifierDeny \<and> \<not> pe_user_prompted e"

definition manager_ok :: "'g manager_env \<Rightarrow> manager \<Rightarrow> bool" where
  "manager_ok E m \<longleftrightarrow>
     \<not> (pm_yolo m \<and> pm_auto m)
     \<and> (me_yolo_pin E \<noteq> None \<longrightarrow> \<not> pm_yolo m)
     \<and> pm_yolo_flag m = pm_yolo m \<and> pm_auto_flag m = pm_auto m
     \<and> pm_consecutive_denials m \<le> AUTO_DENY_CONSECUTIVE_LIMIT
     \<and> pm_total_denials m \<le> AUTO_DENY_TOTAL_LIMIT
     \<and> length (pm_recorded_decisions m) \<le> MAX_RECORDED_PERMISSION_DECISIONS"

subsection \<open>What a request changes of the actor\<close>

text \<open>The part of the state a request leaves alone.\<close>

definition modes :: "manager \<Rightarrow> bool \<times> bool \<times> bool \<times> bool" where
  "modes m = (pm_yolo m, pm_auto m, pm_yolo_flag m, pm_auto_flag m)"

definition denials :: "manager \<Rightarrow> nat \<times> nat" where
  "denials m = (pm_consecutive_denials m, pm_total_denials m)"

lemma refresh_same [simp]:
  "modes (refresh rq io m) = modes m" "denials (refresh rq io m) = denials m"
  "pm_recorded_decisions (refresh rq io m) = pm_recorded_decisions m"
  by (auto simp: refresh_def modes_def denials_def split: option.splits)

text \<open>The counters after one event: what it says of the auto mode's denials.\<close>

definition denials_after :: "permission_event \<Rightarrow> nat \<times> nat \<Rightarrow> nat \<times> nat \<Rightarrow> bool" where
  "denials_after e before after \<longleftrightarrow>
     (if auto_denial e
      then fst before < AUTO_DENY_CONSECUTIVE_LIMIT \<and> snd before < AUTO_DENY_TOTAL_LIMIT
           \<and> after = (Suc (fst before), Suc (snd before))
      else after = before \<or> after = (0, snd before) \<or> pe_user_prompted e \<and> after = (0, 0))"

definition route_counts :: "manager \<Rightarrow> auto_route \<Rightarrow> manager \<Rightarrow> bool" where
  "route_counts m route m' \<longleftrightarrow>
     modes m' = modes m \<and> pm_recorded_decisions m' = pm_recorded_decisions m
     \<and> (if \<exists>d a. route = AutoSettled (d, a, AutoClassifierDeny)
        then fst (denials m) < AUTO_DENY_CONSECUTIVE_LIMIT \<and> snd (denials m) < AUTO_DENY_TOTAL_LIMIT
             \<and> denials m' = (Suc (fst (denials m)), Suc (snd (denials m)))
        else denials m' = denials m \<or> denials m' = (0, snd (denials m)))"

lemma auto_verdict_counts:
  "auto_verdict E rq m v reason timed_out = (route, m') \<Longrightarrow> route_counts m route m'"
  by (auto simp: auto_verdict_def route_counts_def modes_def denials_def split: verdict.splits if_splits)

lemma auto_phase_counts:
  "route_counts m (ar_route (auto_phase E rq io f m)) (ar_manager (auto_phase E rq io f m))"
proof -
  have same: "route_counts m (AutoContinues b r) m" "route_counts m AutoAbandoned m"
    "route_counts m (AutoSettled (DAllow, True, AutoFastPathReason)) m" for b r
    by (simp_all add: route_counts_def)
  show ?thesis
    unfolding auto_phase_def Let_def
    by (auto simp: same auto_verdict_counts split: auto_fast_path.splits classify_route.splits prod.splits)
qed

lemma early_reason: "early_decision E rq f m = Some (d, a, r) \<Longrightarrow> r \<noteq> AutoClassifierDeny"
proof
  assume e: "early_decision E rq f m = Some (d, a, r)" and r: "r = AutoClassifierDeny"
  have "session_grant_pre_decision H pu acc ev s b st h pin \<noteq> Some (d, AutoClassifierDeny)" for H :: "'a host" and pu acc ev s b st h pin
    by (auto simp: session_grant_pre_decision_def bash_grant_pre_decision_def deny_or_def Let_def
        split: access_kind.splits option.splits segment_evaluation.splits if_splits decision.splits)
  then show False using e r
    by (auto simp: early_decision_def Let_def split: option.splits decision.splits if_splits)
qed

lemma late_reason: "late_decision E rq f forced why m = Some (d, a, r) \<Longrightarrow> r \<noteq> AutoClassifierDeny"
proof
  assume e: "late_decision E rq f forced why m = Some (d, a, r)" and r: "r = AutoClassifierDeny"
  have b: "bash_pre_decision E f s cmd forced \<noteq> Some (d, AutoClassifierDeny)" for s cmd
    by (auto simp: bash_pre_decision_def bash_grant_pre_decision_def
        split: option.splits segment_evaluation.splits if_splits)
  have "pre_decision E rq f forced m \<noteq> Some (d, AutoClassifierDeny)"
    using b by (auto simp: pre_decision_def edit_pre_decision_def web_fetch_pre_decision_def deny_or_def Let_def
        split: access_kind.splits option.splits if_splits decision.splits)
  then show False using e r
    by (auto simp: late_decision_def sandbox_decision_def policy_phase_def masked_pre_decision_def
        prompt_policy_decision_def Let_def
        split: option.splits if_splits decision.splits prompt_policy.splits)
qed

lemma answer_bash_same:
  "answer_bash H cmd out m = Returned an \<Longrightarrow>
     modes (an_manager an) = modes m \<and> denials (an_manager an) = denials m
     \<and> pm_recorded_decisions (an_manager an) = pm_recorded_decisions m"
  by (auto simp: answer_bash_def answer_def answer_persisting_def with_state_def modes_def denials_def Let_def
      split: prompt_outcome.splits run.splits if_splits)

lemma answer_other_same:
  "modes (an_manager (answer_other E access out m)) = modes m"
  "denials (an_manager (answer_other E access out m)) = denials m"
  "pm_recorded_decisions (an_manager (answer_other E access out m)) = pm_recorded_decisions m"
  by (simp_all add: answer_other_def answer_def answer_persisting_def with_state_def modes_def denials_def Let_def
      split: prompt_outcome.split access_kind.split option.split)

lemma answer_prompt_same:
  "answer_prompt E access out m = Returned an \<Longrightarrow>
     modes (an_manager an) = modes m \<and> denials (an_manager an) = denials m
     \<and> pm_recorded_decisions (an_manager an) = pm_recorded_decisions m"
  by (auto simp: answer_prompt_def answer_other_same dest: answer_bash_same split: access_kind.splits)

lemma record_decision_same [simp]:
  "modes (record_decision sj access d k m) = modes m" "denials (record_decision sj access d k m) = denials m"
  by (auto simp: record_decision_def modes_def denials_def Let_def split: option.splits)

lemma record_decision_bound:
  "length (pm_recorded_decisions m) \<le> MAX_RECORDED_PERMISSION_DECISIONS \<Longrightarrow>
     length (pm_recorded_decisions (record_decision sj access d k m)) \<le> MAX_RECORDED_PERMISSION_DECISIONS"
  by (auto simp: record_decision_def Let_def split: option.splits)

text \<open>What holds of the actor and the event after any request.\<close>

definition request_keeps :: "manager \<Rightarrow> manager_result \<Rightarrow> bool" where
  "request_keeps m R \<longleftrightarrow>
     modes (rr_manager R) = modes m
     \<and> (length (pm_recorded_decisions m) \<le> MAX_RECORDED_PERMISSION_DECISIONS \<longrightarrow>
        length (pm_recorded_decisions (rr_manager R)) \<le> MAX_RECORDED_PERMISSION_DECISIONS)
     \<and> denials_after (rr_event R) (denials m) (denials (rr_manager R))"

lemma gone_keeps:
  assumes "modes m' = modes m" "pm_recorded_decisions m' = pm_recorded_decisions m"
    and "denials m' = denials m \<or> denials m' = (0, snd (denials m))"
  shows "request_keeps m (requester_gone m' cl)"
  using assms by (auto simp: request_keeps_def requester_gone_def event_of_def denials_after_def auto_denial_def)

lemma settle_keeps:
  assumes "modes m' = modes m" "pm_recorded_decisions m' = pm_recorded_decisions m"
    and "if r = AutoClassifierDeny
         then fst (denials m) < AUTO_DENY_CONSECUTIVE_LIMIT \<and> snd (denials m) < AUTO_DENY_TOTAL_LIMIT
              \<and> denials m' = (Suc (fst (denials m)), Suc (snd (denials m)))
         else denials m' = denials m \<or> denials m' = (0, snd (denials m))"
  shows "request_keeps m (settle m' (d, a, r) cl)"
  using assms by (auto simp: request_keeps_def settle_def event_of_def denials_after_def auto_denial_def)

lemma prompt_phase_keeps:
  assumes "prompt_phase E rq io trigger cl m' = Returned R"
    and "modes m' = modes m" "pm_recorded_decisions m' = pm_recorded_decisions m"
    and "denials m' = denials m \<or> denials m' = (0, snd (denials m))"
  shows "request_keeps m R"
proof (cases "io_closed_before_prompt io")
  case True
  then have "R = requester_gone m' cl" using assms(1) by (simp add: prompt_phase_def)
  then show ?thesis
    using assms(2-4) by (auto simp: request_keeps_def requester_gone_def event_of_def denials_after_def auto_denial_def)
next
  case False
  define out where "out = (if io_closed_in_prompt io then PromptCancelled else io_prompt io)"
  obtain an where an: "answer_prompt E (rq_access rq) out m' = Returned an"
    using assms(1) False by (cases "answer_prompt E (rq_access rq) out m'") (simp_all add: prompt_phase_def out_def)
  define k where "k = an_kind an"
  define m1 where "m1 = record_decision (me_show_json E) (rq_access rq) (an_decision an) k (an_manager an)"
  have m1: "modes m1 = modes m" "denials m1 = denials m'"
    "length (pm_recorded_decisions m) \<le> MAX_RECORDED_PERMISSION_DECISIONS \<longrightarrow>
     length (pm_recorded_decisions m1) \<le> MAX_RECORDED_PERMISSION_DECISIONS"
    using answer_prompt_same [OF an] assms(2,3) by (simp_all add: m1_def record_decision_bound)
  define gone where "gone = (an_decision an = DCancelled \<and> io_closed_at_end io)"
  have R: "R = \<lparr>rr_manager = (if k \<noteq> KError \<and> \<not> gone
                    then m1\<lparr>pm_consecutive_denials := 0, pm_total_denials := 0\<rparr> else m1),
      rr_event = event_of m' (an_decision an) False True (Some k) (if gone then RequesterGone else trigger) cl,
      rr_resolution = Some (an_decision an), rr_effects = NotifyPrompt # an_effects an\<rparr>"
    using assms(1) unfolding prompt_phase_def out_def [symmetric] an run.case Let_def k_def [symmetric]
      m1_def [symmetric] gone_def [symmetric] if_not_P [OF False] run.inject by (rule sym)
  let ?m0 = "m1\<lparr>pm_consecutive_denials := 0, pm_total_denials := 0\<rparr>"
  have m0: "modes ?m0 = modes m1" "denials ?m0 = (0, 0)"
    "pm_recorded_decisions ?m0 = pm_recorded_decisions m1"
    by (simp_all add: modes_def denials_def)
  have p: "pe_user_prompted (rr_event R)" by (simp add: R event_of_def)
  have d: "denials m1 = denials m \<or> denials m1 = (0, snd (denials m))" using m1(2) assms(4) by simp
  have "rr_manager R = m1 \<or> rr_manager R = ?m0" by (simp add: R)
  then show ?thesis
  proof
    assume "rr_manager R = m1"
    then show ?thesis using m1(1,3) p d by (auto simp: request_keeps_def denials_after_def auto_denial_def)
  next
    assume "rr_manager R = ?m0"
    then show ?thesis using m1(1,3) m0 p
      by (simp add: request_keeps_def denials_after_def auto_denial_def del: manager.simps)
  qed
qed

lemma handle_request_keeps:
  assumes "handle_request E rq io m0 = Returned R"
  shows "request_keeps m0 R"
proof -
  let ?m = "refresh rq io m0"
  let ?f = "facts_of E rq io ?m"
  let ?ar = "auto_phase E rq io ?f ?m"
  have cnt: "route_counts ?m (ar_route ?ar) (ar_manager ?ar)" by (rule auto_phase_counts)
  show ?thesis
  proof (cases "io_closed_at_dequeue io \<or> scan_ran E rq (pm_state ?m) \<and> io_closed_after_scan io")
    case True
    then have "R = requester_gone m0 NotClassified \<or> R = requester_gone ?m NotClassified"
      using assms by (auto simp: handle_request_def Let_def split: if_splits)
    then show ?thesis by (auto intro: gone_keeps)
  next
    case go: False
    show ?thesis
    proof (cases "early_decision E rq ?f ?m")
      case (Some sd)
      then have "R = settle ?m sd NotClassified" using assms go by (auto simp: handle_request_def Let_def)
      then show ?thesis using Some
        by (cases sd) (auto intro!: settle_keeps dest: early_reason)
    next
      case None
      show ?thesis
      proof (cases "ar_route ?ar")
        case (AutoSettled sd)
        then have "R = settle (ar_manager ?ar) sd (ar_classification ?ar)"
          using assms go None by (auto simp: handle_request_def Let_def)
        then show ?thesis using AutoSettled cnt
          by (cases sd) (auto intro!: settle_keeps simp: route_counts_def)
      next
        case AutoAbandoned
        then have "R = requester_gone (ar_manager ?ar) (ar_classification ?ar)"
          using assms go None by (auto simp: handle_request_def Let_def)
        then show ?thesis using AutoAbandoned cnt by (auto intro!: gone_keeps simp: route_counts_def)
      next
        case (AutoContinues forced why)
        then have cnt': "modes (ar_manager ?ar) = modes m0"
          "pm_recorded_decisions (ar_manager ?ar) = pm_recorded_decisions m0"
          "denials (ar_manager ?ar) = denials m0 \<or> denials (ar_manager ?ar) = (0, snd (denials m0))"
          using cnt by (auto simp: route_counts_def)
        show ?thesis
        proof (cases "late_decision E rq ?f forced why (ar_manager ?ar)")
          case (Some sd)
          then have "R = settle (ar_manager ?ar) sd (ar_classification ?ar)"
            using assms go None AutoContinues by (auto simp: handle_request_def Let_def)
          then show ?thesis using Some cnt'
            by (cases sd) (auto intro!: settle_keeps dest: late_reason)
        next
          case no: None
          then have "prompt_phase E rq io (prompt_trigger_of rq ?f why) (ar_classification ?ar) (ar_manager ?ar)
                     = Returned R"
            using assms go None AutoContinues by (auto simp: handle_request_def Let_def)
          then show ?thesis using cnt' by (rule prompt_phase_keeps)
        qed
      qed
    qed
  qed
qed

lemma mode_commands_ok:
  assumes "manager_ok E m"
  shows "manager_ok E (set_yolo_mode E b m)" "manager_ok E (set_auto_mode dc b m)"
    "manager_ok E (fst (reset_state m))" "manager_ok E (m\<lparr>pm_classifier := cl\<rparr>)"
    "manager_ok E (m\<lparr>pm_classifier_turns := ts\<rparr>)" "manager_ok E (m\<lparr>pm_project_instructions := pj\<rparr>)"
  using assms
  by (auto simp add: manager_ok_def set_yolo_mode_def set_auto_mode_def clamp_yolo_def reset_state_def Let_def)

lemma mode_commands_denials:
  "denials (set_yolo_mode E b m) = denials m" "denials (set_auto_mode dc b m) = denials m"
  "denials (fst (reset_state m)) = denials m" "denials (m\<lparr>pm_classifier := cl\<rparr>) = denials m"
  "denials (m\<lparr>pm_classifier_turns := ts\<rparr>) = denials m" "denials (m\<lparr>pm_project_instructions := pj\<rparr>) = denials m"
  by (simp_all add: denials_def set_yolo_mode_def set_auto_mode_def reset_state_def Let_def)

text \<open>A command other than a request reports nothing and is one of the six operations.\<close>

lemma manager_step_silent:
  assumes "manager_step E dc c m = Returned (m', ev, es)" and "\<nexists>rq io. c = Request rq io"
  shows "ev = None \<and> (\<exists>b cl ts pj. m' \<in> {set_yolo_mode E b m, set_auto_mode dc b m, fst (reset_state m),
     m\<lparr>pm_classifier := cl\<rparr>, m\<lparr>pm_classifier_turns := ts\<rparr>, m\<lparr>pm_project_instructions := pj\<rparr>})"
  using assms by (cases c) (auto simp: manager_step_def silent_step_def reset_state_def)

lemma manager_step_ok:
  assumes "manager_step E dc c m = Returned (m', ev, es)" and "manager_ok E m"
  shows "manager_ok E m'"
proof (cases "\<exists>rq io. c = Request rq io")
  case True
  then obtain rq io R where R: "handle_request E rq io m = Returned R" "m' = rr_manager R"
    using assms(1) by (auto simp: manager_step_def split: run.splits)
  have k: "request_keeps m R" using handle_request_keeps [OF R(1)] .
  have "fst (denials m') \<le> AUTO_DENY_CONSECUTIVE_LIMIT \<and> snd (denials m') \<le> AUTO_DENY_TOTAL_LIMIT"
    using k assms(2) R(2)
    by (auto simp: request_keeps_def denials_after_def denials_def manager_ok_def split: if_splits)
  then show ?thesis
    using k assms(2) R(2) by (simp add: request_keeps_def manager_ok_def modes_def denials_def)
next
  case False
  then show ?thesis using manager_step_silent [OF assms(1)] mode_commands_ok [OF assms(2)] by auto
qed

lemma spawn_ok: "manager_ok E (fst (spawn_manager E y cfg st dc))"
  by (auto simp: spawn_manager_def manager_ok_def clamp_yolo_def Let_def)

lemma manager_run_ok: "manager_run E dc m0 evs m \<Longrightarrow> manager_ok E m0 \<Longrightarrow> manager_ok E m"
  by (induction rule: manager_run.induct) (auto dest: manager_step_ok)

lemma manager_step_denials:
  assumes "manager_step E dc c m = Returned (m', ev, es)"
  shows "case ev of None \<Rightarrow> denials m' = denials m | Some e \<Rightarrow> denials_after e (denials m) (denials m')"
proof (cases "\<exists>rq io. c = Request rq io")
  case True
  then obtain rq io R where R: "handle_request E rq io m = Returned R" "m' = rr_manager R" "ev = Some (rr_event R)"
    using assms by (auto simp: manager_step_def split: run.splits)
  then show ?thesis using handle_request_keeps [OF R(1)] by (simp add: request_keeps_def)
next
  case False
  then show ?thesis using manager_step_silent [OF assms] mode_commands_denials by fastforce
qed


lemma denials_bound:
  assumes "manager_run E dc m0 evs m"
  shows "length (takeWhile auto_denial (rev evs)) \<le> fst (denials m)
    \<and> ((\<forall>e \<in> set evs. \<not> pe_user_prompted e) \<longrightarrow> length (filter auto_denial evs) \<le> snd (denials m))"
  using assms
proof (induction rule: manager_run.induct)
  case start
  then show ?case by simp
next
  case (step evs m c m' ev es)
  show ?case
    using step.IH manager_step_denials [OF step.hyps(2)]
    by (cases ev) (auto simp: denials_after_def split: if_splits)
qed


text \<open>
  An ask rule on web searches asks nobody.  When the managed policy asks for a web search, no
  hook asks and always-approve is off, the request is allowed as a safe command without a prompt,
  whatever the prompt policy and the mode.
\<close>

theorem ask_rule_on_search_is_ignored:
  assumes "rq_access rq = WebSearchAccess q" and "\<not> rq_hook_ask rq" and "\<not> pm_yolo m"
    and "\<not> io_closed_at_dequeue io"
    and "policy_forced_prompt (rf_preflight (facts_of E rq io m))"
  shows "\<exists>R. handle_request E rq io m = Returned R \<and> rr_resolution R = Some DAllow
    \<and> pe_reason (rr_event R) = Some SafeCommand \<and> \<not> pe_user_prompted (rr_event R)"
proof -
  let ?f = "facts_of E rq io m"
  have m: "refresh rq io m = m" using assms(1) by (simp add: refresh_def reloads_store_def)
  have pd: "policy_decision_of (rf_preflight ?f) = Some DAsk"
    using assms(5) by (simp add: policy_forced_prompt_def)
  have p: "rf_protected ?f = None" "rf_eval ?f = None" "\<not> gp_defers_gate_ask (rf_preflight ?f)"
    using assms(1)
    by (auto simp: facts_of_def scanned_evaluation_def protected_edit_of_def preflight_evaluate_def Let_def
        split: option.splits prod.splits)
  have e: "early_decision E rq ?f m = None"
    using assms(3,5) pd by (simp add: early_decision_def Let_def forced_before_classifier_def)
  have a: "auto_phase E rq io ?f m
      = \<lparr>ar_route = AutoContinues False None, ar_manager = m, ar_classification = NotClassified\<rparr>"
    using assms(5) p(3) by (simp add: auto_phase_def admits_auto_classifier_def Let_def)
  have l: "late_decision E rq ?f False None m = Some (DAllow, True, SafeCommand)"
    using assms(1,2) pd
    by (simp add: late_decision_def sandbox_decision_def policy_phase_def pre_decision_def
        masked_pre_decision_def Let_def)
  show ?thesis
    using assms(1,4) by (simp add: handle_request_def m e a l scan_ran_def settle_def event_of_def Let_def)
qed

definition never_push :: permission_state where
  "never_push = permission_state_default\<lparr>ps_disallowed_bash := [''git push'']\<rparr>"

definition push_under :: "permission_rule list \<Rightarrow> manager_result" where
  "push_under rules =
     the_run (handle_request (demo_manager_env rules PromptAllow)
       (demo_request (BashAccess ''git push origin'') False) (demo_io RejectOnce) (demo_manager never_push False))"

text \<open>
  A remembered denial of a command does not survive an ask rule.  With a rule that asks for Bash
  commands and a prompt policy of allow, \<open>git push origin\<close> is allowed without a prompt although the
  user answered never to run \<open>git push\<close>; without the rule it is refused.
\<close>

theorem denial_lost_under_ask_rule:
  "rr_resolution (push_under [demo_rule AskRule BashTool None]) = Some DAllow
   \<and> \<not> pe_user_prompted (rr_event (push_under [demo_rule AskRule BashTool None]))
   \<and> rr_resolution (push_under []) = Some (DReject (rejection_text ''git push''))"
proof -
  have "rr_resolution (push_under []) = Some (DReject (rejection_text ''git push''))" by code_simp
  moreover have "\<not> pe_user_prompted (rr_event (push_under [demo_rule AskRule BashTool None]))" by code_simp
  moreover have "rr_resolution (push_under [demo_rule AskRule BashTool None]) = Some DAllow" by code_simp
  ultimately show ?thesis by blast
qed

definition demo_run_end :: manager where
  "demo_run_end = set_auto_mode demo_classifier True (demo_manager permission_state_default True)"

lemma demo_run:
  "manager_run (demo_manager_env [] PromptAsk) demo_classifier (demo_manager permission_state_default True)
     [] demo_run_end"
proof -
  have "manager_step (demo_manager_env [] PromptAsk) demo_classifier (SetAutoMode True)
          (demo_manager permission_state_default True) = Returned (demo_run_end, None, [])"
    by (simp add: manager_step_def silent_step_def demo_run_end_def)
  from manager_run.step [OF manager_run.start this] show ?thesis by simp
qed



lemma ask_rule_on_search_is_ignored_witness:
  "\<exists>R. handle_request (demo_manager_env [demo_rule AskRule WebSearchTool None] PromptDeny)
         (demo_request (WebSearchAccess ''x'') False) (demo_io RejectOnce)
         (demo_manager permission_state_default False) = Returned R
       \<and> rr_resolution R = Some DAllow \<and> \<not> pe_user_prompted (rr_event R)"
proof -
  let ?E = "demo_manager_env [demo_rule AskRule WebSearchTool None] PromptDeny"
  let ?rq = "demo_request (WebSearchAccess ''x'') False"
  let ?m = "demo_manager permission_state_default False"
  have 1: "rq_access ?rq = WebSearchAccess ''x''" "\<not> rq_hook_ask ?rq" "\<not> io_closed_at_dequeue (demo_io RejectOnce)"
    by (simp_all add: demo_request_def demo_io_def)
  have y: "\<not> pm_yolo ?m" by code_simp
  have p: "policy_forced_prompt (rf_preflight (facts_of ?E ?rq (demo_io RejectOnce) ?m))" by code_simp
  show ?thesis using ask_rule_on_search_is_ignored [OF 1(1,2) y 1(3) p] by blast
qed

end
