(* ===== verification/PermissionStore.thy ===== *)
theory PermissionStore
  imports BashGrants
begin

section \<open>The permission store\<close>

text \<open>
  The grants on disk: where they live (\<open>xai-grok-config/src/paths.rs\<close>, \<open>xai-grok-agent/src/repo.rs\<close>)
  and how sessions load, watch, merge, replace and clean them up
  (\<open>xai-grok-workspace/src/permission/state.rs\<close>).

  The disk is explicit: the text and the modification time of each file, a clock, and the paths that
  cannot be read, looked at or written.  Percent encoding, the hash, TOML, git discovery and
  canonicalisation are parameters.  Between two accesses of one operation other processes may run;
  what they do to the disk is an argument of the operation.
\<close>

subsection \<open>The disk\<close>

record stored_file =
  fl_text :: string
  fl_mtime :: nat

record disk =
  dk_files :: "string \<Rightarrow> stored_file option"
  dk_clock :: nat
  dk_read_fails :: "string \<Rightarrow> bool"
  dk_stat_fails :: "string \<Rightarrow> bool"
  dk_write_fails :: "string \<Rightarrow> bool"

datatype read_result = ReadText string | ReadMissing | ReadFailed

definition read_to_string :: "disk \<Rightarrow> string \<Rightarrow> read_result" where
  "read_to_string d p =
     (if dk_read_fails d p then ReadFailed
      else (case dk_files d p of Some f \<Rightarrow> ReadText (fl_text f) | None \<Rightarrow> ReadMissing))"

definition try_exists :: "disk \<Rightarrow> string \<Rightarrow> bool option" where
  "try_exists d p = (if dk_stat_fails d p then None else Some (dk_files d p \<noteq> None))"

text \<open>\<open>fs_atomic::write_atomically\<close>: the rename is the write, and a failure leaves the file as it was.\<close>

definition write_atomically :: "string \<Rightarrow> string \<Rightarrow> disk \<Rightarrow> bool \<times> disk" where
  "write_atomically p text d =
     (if dk_write_fails d p then (False, d)
      else (True, d\<lparr>dk_files := (dk_files d)(p \<mapsto> \<lparr>fl_text = text, fl_mtime = dk_clock d\<rparr>)\<rparr>))"

subsection \<open>Where the store of a directory is\<close>

record store_env =
  se_home :: string
  se_url_encode :: "string \<Rightarrow> string"
  se_url_decode :: "string \<Rightarrow> string option"
  se_hash_hex :: "string \<Rightarrow> string"
  se_lower :: "string \<Rightarrow> string"
  se_git_workdir :: "string \<Rightarrow> string option"
  se_user_home :: "string option"
  se_canonicalize :: "string \<Rightarrow> string option"
  se_parse :: "string \<Rightarrow> permission_state option"
  se_render :: "permission_state \<Rightarrow> string option"
  se_worker_dies :: bool

definition MAX_DIRNAME_BYTES :: nat where "MAX_DIRNAME_BYTES = 255"

fun slug_chars :: "bool \<Rightarrow> string \<Rightarrow> string" where
  "slug_chars prev_dash [] = []"
| "slug_chars prev_dash (c # cs) =
     (if is_ascii_alphanumeric c then c # slug_chars False cs
      else if \<not> prev_dash then CHR ''-'' # slug_chars True cs
      else slug_chars True cs)"

definition is_dash :: "char \<Rightarrow> bool" where "is_dash c \<longleftrightarrow> c = CHR ''-''"

definition slugify :: "(string \<Rightarrow> string) \<Rightarrow> string \<Rightarrow> nat \<Rightarrow> string" where
  "slugify lower input max_len =
     take max_len (rev (dropWhile is_dash (rev (dropWhile is_dash (slug_chars False (lower input))))))"

definition encode_cwd_dirname :: "store_env \<Rightarrow> string \<Rightarrow> string" where
  "encode_cwd_dirname E cwd =
     (let url = se_url_encode E cwd in
      if length url \<le> MAX_DIRNAME_BYTES then url
      else (let leaf = (case file_name cwd of Some n \<Rightarrow> n | None \<Rightarrow> ''workspace'');
                slug = slugify (se_lower E) leaf 40
            in (if slug = [] then ''workspace'' else slug) @ ''-'' @ take 16 (se_hash_hex E cwd)))"

definition sessions_cwd_dir :: "store_env \<Rightarrow> string \<Rightarrow> string" where
  "sessions_cwd_dir E cwd = path_join (path_join (se_home E) ''sessions'') (encode_cwd_dirname E cwd)"

definition ensure_sessions_cwd_dir :: "store_env \<Rightarrow> string \<Rightarrow> disk \<Rightarrow> string option \<times> disk" where
  "ensure_sessions_cwd_dir E cwd d =
     (let dir = sessions_cwd_dir E cwd; marker = path_join dir ''.cwd'' in
      if dk_write_fails d dir then (None, d)
      else if encode_cwd_dirname E cwd = se_url_encode E cwd then (Some dir, d)
      else if dk_files d marker \<noteq> None then (Some dir, d)
      else (case write_atomically marker cwd d of
              (True, d') \<Rightarrow> (Some dir, d')
            | (False, d') \<Rightarrow> (None, d')))"

definition cwd_marker :: "disk \<Rightarrow> string \<Rightarrow> string option" where
  "cwd_marker d dir =
     (case read_to_string d (path_join dir ''.cwd'') of ReadText s \<Rightarrow> Some (trim s) | _ \<Rightarrow> None)"

definition decode_cwd_from_dirname :: "store_env \<Rightarrow> disk \<Rightarrow> string \<Rightarrow> string option" where
  "decode_cwd_from_dirname E d dir =
     (case file_name dir of
        None \<Rightarrow> None
      | Some name \<Rightarrow>
          (case se_url_decode E name of
             Some s \<Rightarrow> if starts_with s ''/'' then Some s else cwd_marker d dir
           | None \<Rightarrow> cwd_marker d dir))"

definition canonical_or_self :: "store_env \<Rightarrow> string \<Rightarrow> string" where
  "canonical_or_self E p = (case se_canonicalize E p of Some q \<Rightarrow> q | None \<Rightarrow> p)"

definition is_home_dir :: "store_env \<Rightarrow> string \<Rightarrow> bool" where
  "is_home_dir E p =
     (case se_user_home E of
        None \<Rightarrow> False
      | Some home \<Rightarrow> canonical_or_self E p = canonical_or_self E home)"

definition git_root :: "store_env \<Rightarrow> string \<Rightarrow> string option" where
  "git_root E cwd =
     (case se_git_workdir E cwd of
        Some root \<Rightarrow> if is_home_dir E root then None else Some root
      | None \<Rightarrow> None)"

definition permission_scope_root :: "store_env \<Rightarrow> string \<Rightarrow> string" where
  "permission_scope_root E cwd =
     (case git_root E cwd of Some root \<Rightarrow> collect_path (components root) | None \<Rightarrow> cwd)"

definition legacy_state_dir :: "store_env \<Rightarrow> string \<Rightarrow> string \<Rightarrow> string option" where
  "legacy_state_dir E cwd dir =
     (let legacy = sessions_cwd_dir E cwd in if legacy \<noteq> dir then Some legacy else None)"

record store_dirs =
  sd_dir :: string
  sd_legacy :: "string option"

definition resolve_store_dirs :: "store_env \<Rightarrow> string \<Rightarrow> bool \<Rightarrow> disk \<Rightarrow> store_dirs \<times> disk" where
  "resolve_store_dirs E cwd ensure d =
     (if se_worker_dies E then (\<lparr>sd_dir = sessions_cwd_dir E cwd, sd_legacy = None\<rparr>, d)
      else (let root = permission_scope_root E cwd;
                made = (if ensure then ensure_sessions_cwd_dir E root d else (None, d));
                dir = (case fst made of Some x \<Rightarrow> x | None \<Rightarrow> sessions_cwd_dir E root)
            in (\<lparr>sd_dir = dir, sd_legacy = legacy_state_dir E cwd dir\<rparr>, snd made)))"

text \<open>A character of the identifier that is not plain ASCII becomes one underscore, however many bytes it has.\<close>

definition client_id_char :: "char \<Rightarrow> bool" where
  "client_id_char c \<longleftrightarrow> is_ascii_alphanumeric c \<or> c = CHR ''-'' \<or> c = CHR ''_''"

definition sanitize_client_id :: "string \<Rightarrow> string" where
  "sanitize_client_id i =
     map (\<lambda>c. if client_id_char c then c else CHR ''_'') (filter (\<lambda>c. \<not> is_continuation c) i)"

definition state_file_path :: "string \<Rightarrow> string option \<Rightarrow> string" where
  "state_file_path dir client =
     (case client of
        Some i \<Rightarrow> path_join dir (''permission_'' @ sanitize_client_id i @ ''.toml'')
      | None \<Rightarrow> path_join dir ''permission.toml'')"

subsection \<open>Writing\<close>

text \<open>\<open>persist_state_to_path_with_writer\<close> and \<open>persist_state_to_dir\<close>; a failure is only logged.\<close>

definition persist_state_to_path :: "store_env \<Rightarrow> string \<Rightarrow> permission_state \<Rightarrow> disk \<Rightarrow> disk" where
  "persist_state_to_path E p s d =
     (case se_render E s of None \<Rightarrow> d | Some text \<Rightarrow> snd (write_atomically p text d))"

definition persist_state_to_dir ::
    "store_env \<Rightarrow> string \<Rightarrow> permission_state \<Rightarrow> string option \<Rightarrow> disk \<Rightarrow> disk" where
  "persist_state_to_dir E dir s client d =
     (if dk_write_fails d dir then d else persist_state_to_path E (state_file_path dir client) s d)"

subsection \<open>Reading\<close>

definition invalidate_server_grants :: "permission_state \<Rightarrow> permission_state" where
  "invalidate_server_grants s =
     s\<lparr>ps_mcp_servers := [], ps_mcp_grants_version := VALIDATED_MCP_SERVER_GRANTS_VERSION\<rparr>"

definition try_load_state :: "store_env \<Rightarrow> string \<Rightarrow> disk \<Rightarrow> permission_state option \<times> disk" where
  "try_load_state E p d =
     (case read_to_string d p of
        ReadText text \<Rightarrow>
          (let s = (case se_parse E text of Some s \<Rightarrow> s | None \<Rightarrow> permission_state_default) in
           if ps_mcp_grants_version s < VALIDATED_MCP_SERVER_GRANTS_VERSION
           then (Some (invalidate_server_grants s),
                 persist_state_to_path E p (invalidate_server_grants s) d)
           else (Some s, d))
      | _ \<Rightarrow> (None, d))"

definition load_shared_state :: "store_env \<Rightarrow> string \<Rightarrow> disk \<Rightarrow> permission_state \<times> disk" where
  "load_shared_state E dir d =
     (case try_load_state E (state_file_path dir None) d of
        (Some s, d') \<Rightarrow> (s, d')
      | (None, d') \<Rightarrow> (permission_state_default, d'))"

definition load_state_from_dir ::
    "store_env \<Rightarrow> string \<Rightarrow> string option \<Rightarrow> disk \<Rightarrow> permission_state \<times> disk" where
  "load_state_from_dir E dir client d =
     (case client of
        None \<Rightarrow> load_shared_state E dir d
      | Some i \<Rightarrow>
          (case try_load_state E (state_file_path dir (Some i)) d of
             (Some s, d') \<Rightarrow> (s, d')
           | (None, d') \<Rightarrow> load_shared_state E dir d'))"

text \<open>An error counts as present.\<close>

definition store_present :: "disk \<Rightarrow> string \<Rightarrow> bool" where
  "store_present d p \<longleftrightarrow> try_exists d p \<noteq> Some False"

definition state_dir_has_store :: "string \<Rightarrow> string option \<Rightarrow> disk \<Rightarrow> bool" where
  "state_dir_has_store dir client d \<longleftrightarrow>
     client \<noteq> None \<and> store_present d (state_file_path dir client)
     \<or> store_present d (state_file_path dir None)"

definition load_state_with_fallback ::
    "store_env \<Rightarrow> string \<Rightarrow> string option \<Rightarrow> string option \<Rightarrow> disk \<Rightarrow> permission_state \<times> disk" where
  "load_state_with_fallback E dir legacy client d =
     (case legacy of
        Some l \<Rightarrow>
          if \<not> state_dir_has_store dir client d then load_state_from_dir E l client d
          else load_state_from_dir E dir client d
      | None \<Rightarrow> load_state_from_dir E dir client d)"

definition load_state_from_disk ::
    "store_env \<Rightarrow> string \<Rightarrow> string option \<Rightarrow> disk \<Rightarrow> permission_state \<times> disk" where
  "load_state_from_disk E cwd client d =
     (let (dirs, d1) = resolve_store_dirs E cwd False d
      in load_state_with_fallback E (sd_dir dirs) (sd_legacy dirs) client d1)"

subsection \<open>Merging and replacing\<close>

definition persist_state_merging_to_dir ::
    "store_env \<Rightarrow> (disk \<Rightarrow> disk) \<Rightarrow> string \<Rightarrow> permission_state \<Rightarrow> string option \<Rightarrow> disk \<Rightarrow> disk" where
  "persist_state_merging_to_dir E others dir s client d =
     (case try_load_state E (state_file_path dir client) d of
        (Some on_disk, d1) \<Rightarrow> persist_state_to_dir E dir (merge_grants_from s on_disk) client (others d1)
      | (None, d1) \<Rightarrow> persist_state_to_dir E dir s client (others d1))"

definition persist_state ::
    "store_env \<Rightarrow> (disk \<Rightarrow> disk) \<Rightarrow> string \<Rightarrow> permission_state \<Rightarrow> string option \<Rightarrow> disk \<Rightarrow> disk" where
  "persist_state E others cwd s client d =
     (let (dirs, d1) = resolve_store_dirs E cwd True d
      in persist_state_merging_to_dir E others (sd_dir dirs) s client d1)"

definition replace_state_on_disk ::
    "store_env \<Rightarrow> string \<Rightarrow> permission_state \<Rightarrow> string option \<Rightarrow> disk \<Rightarrow> disk" where
  "replace_state_on_disk E cwd s client d =
     (let (dirs, d1) = resolve_store_dirs E cwd True d
      in persist_state_to_dir E (sd_dir dirs) s client d1)"

subsection \<open>Watching the store\<close>

record cached_store =
  ks_dir :: string
  ks_legacy :: "string option"
  ks_client :: "string option"
  ks_last_sig :: "(nat \<times> nat) option"

definition current_sig :: "cached_store \<Rightarrow> disk \<Rightarrow> (nat \<times> nat) option" where
  "current_sig k d =
     (let p = state_file_path (ks_dir k) (ks_client k) in
      if dk_stat_fails d p then None
      else map_option (\<lambda>f. (fl_mtime f, length (fl_text f))) (dk_files d p))"

definition cached_read :: "store_env \<Rightarrow> cached_store \<Rightarrow> disk \<Rightarrow> permission_state \<times> disk" where
  "cached_read E k d = load_state_with_fallback E (ks_dir k) (ks_legacy k) (ks_client k) d"

definition resolve_and_load ::
    "store_env \<Rightarrow> (disk \<Rightarrow> disk) \<Rightarrow> string \<Rightarrow> string option \<Rightarrow> disk
     \<Rightarrow> (cached_store \<times> permission_state) \<times> disk" where
  "resolve_and_load E others cwd client d =
     (let (dirs, d1) = resolve_store_dirs E cwd False d;
          k0 = \<lparr>ks_dir = sd_dir dirs, ks_legacy = sd_legacy dirs, ks_client = client, ks_last_sig = None\<rparr>;
          k = k0\<lparr>ks_last_sig := current_sig k0 d1\<rparr>;
          (s, d2) = cached_read E k (others d1)
      in ((k, s), d2))"

definition reload_if_changed ::
    "store_env \<Rightarrow> (disk \<Rightarrow> disk) \<Rightarrow> cached_store \<Rightarrow> disk
     \<Rightarrow> permission_state option \<times> cached_store \<times> disk" where
  "reload_if_changed E others k d =
     (let sig = current_sig k d in
      if sig = ks_last_sig k then (None, k, d)
      else (let k' = k\<lparr>ks_last_sig := sig\<rparr>; (s, d') = cached_read E k' (others d) in (Some s, k', d')))"

text \<open>
  \<open>cleanup_stale_permission_state\<close>: a file two levels below the sessions directory whose name starts
  and ends like a store's goes when it is older than \<open>max_age\<close>; a file from the future stays.
\<close>

definition is_store_name :: "string \<Rightarrow> bool" where
  "is_store_name n \<longleftrightarrow> starts_with n ''permission'' \<and> ends_with n ''.toml''"

definition stale_store :: "store_env \<Rightarrow> nat \<Rightarrow> disk \<Rightarrow> string \<Rightarrow> bool" where
  "stale_store E max_age d p \<longleftrightarrow>
     Option.bind (parent p) parent = Some (path_join (se_home E) ''sessions'')
     \<and> (case file_name p of Some n \<Rightarrow> is_store_name n | None \<Rightarrow> False)
     \<and> \<not> dk_stat_fails d p
     \<and> (case dk_files d p of
          Some f \<Rightarrow> fl_mtime f \<le> dk_clock d \<and> max_age < dk_clock d - fl_mtime f
        | None \<Rightarrow> False)"

definition cleanup_stale_permission_state :: "store_env \<Rightarrow> nat \<Rightarrow> disk \<Rightarrow> disk" where
  "cleanup_stale_permission_state E max_age d =
     d\<lparr>dk_files :=
         (\<lambda>p. if stale_store E max_age d p \<and> \<not> dk_write_fails d p then None else dk_files d p)\<rparr>"

subsection \<open>What a state holds\<close>

text \<open>The entries of a state that sessions share; the edit policy is not merged.\<close>

datatype grant =
    BlanketBash
  | BashCommand string
  | BashDenial string
  | BashGlob string
  | WebDomain string
  | McpTool string
  | McpServer string
  | McpDenial string
  | WebDenial string

fun holds :: "permission_state \<Rightarrow> grant \<Rightarrow> bool" where
  "holds s BlanketBash = ps_allow_bash_execute s"
| "holds s (BashCommand x) = (x \<in> set (ps_allowed_bash s))"
| "holds s (BashDenial x) = (x \<in> set (ps_disallowed_bash s))"
| "holds s (BashGlob x) = (x \<in> set (ps_bash_globs s))"
| "holds s (WebDomain x) = (x \<in> set (ps_web_domains s))"
| "holds s (McpTool x) = (x \<in> set (ps_mcp_tools s))"
| "holds s (McpServer x) = (x \<in> set (ps_mcp_servers s))"
| "holds s (McpDenial x) = (x \<in> set (ps_denied_mcp_tools s))"
| "holds s (WebDenial x) = (x \<in> set (ps_denied_web_domains s))"

lemma holds_merge: "holds (merge_grants_from a b) g \<longleftrightarrow> holds a g \<or> holds b g"
  by (cases g) (auto simp: merge_grants_from_def)

lemma holds_default [simp]: "\<not> holds permission_state_default g"
  by (cases g) (simp_all add: permission_state_default_def)

definition validated :: "permission_state \<Rightarrow> bool" where
  "validated s \<longleftrightarrow> VALIDATED_MCP_SERVER_GRANTS_VERSION \<le> ps_mcp_grants_version s"

lemma validated_merge [simp]: "validated (merge_grants_from a b) = validated a"
  by (simp add: validated_def merge_grants_from_def)

lemma validated_default [simp]: "validated permission_state_default"
  by (simp add: validated_def permission_state_default_def)

lemma validated_invalidate [simp]: "validated (invalidate_server_grants s)"
  by (simp add: validated_def invalidate_server_grants_def)

subsection \<open>Stores that merge on write\<close>

locale grant_merge =
  fixes holding :: "'s \<Rightarrow> 'g \<Rightarrow> bool"
    and join :: "'s \<Rightarrow> 's \<Rightarrow> 's"
  assumes holding_join: "holding (join a b) g \<longleftrightarrow> holding a g \<or> holding b g"
begin

lemma holding_fold: "holding (foldl join a bs) g \<longleftrightarrow> holding a g \<or> (\<exists>b \<in> set bs. holding b g)"
  by (induction bs arbitrary: a) (auto simp: holding_join)

end

locale merging_store = grant_merge holding join
  for holding :: "'s \<Rightarrow> 'g \<Rightarrow> bool" and join :: "'s \<Rightarrow> 's \<Rightarrow> 's" +
  fixes usable :: "'d \<Rightarrow> bool"
    and good :: "'s \<Rightarrow> bool"
    and view :: "'d \<Rightarrow> 's option"
    and put :: "'s \<Rightarrow> 'd \<Rightarrow> 'd"
  assumes usable_put: "usable d \<Longrightarrow> good s \<Longrightarrow> usable (put s d)"
    and view_put: "usable d \<Longrightarrow> good s
      \<Longrightarrow> view (put s d) = Some (case view d of Some t \<Rightarrow> join s t | None \<Rightarrow> s)"
begin

definition held :: "'d \<Rightarrow> 'g \<Rightarrow> bool" where
  "held d g \<longleftrightarrow> (case view d of Some s \<Rightarrow> holding s g | None \<Rightarrow> False)"

lemma held_put: "usable d \<Longrightarrow> good s \<Longrightarrow> held (put s d) g \<longleftrightarrow> held d g \<or> holding s g"
  by (auto simp: held_def view_put holding_join split: option.split)

lemma held_puts:
  assumes "usable d" and "\<And>s. s \<in> set ss \<Longrightarrow> good s"
  shows "usable (foldl (\<lambda>d s. put s d) d ss)
    \<and> (held (foldl (\<lambda>d s. put s d) d ss) g \<longleftrightarrow> held d g \<or> (\<exists>s \<in> set ss. holding s g))"
  using assms by (induction ss arbitrary: d) (auto simp: usable_put held_put)

end

text \<open>What this client's file says, once read.\<close>

definition stored_state :: "store_env \<Rightarrow> string \<Rightarrow> disk \<Rightarrow> permission_state option" where
  "stored_state E p d = fst (try_load_state E p d)"

definition renders :: "store_env \<Rightarrow> bool" where
  "renders E \<longleftrightarrow> (\<forall>s. Option.bind (se_render E s) (se_parse E) = Some s)"

definition store_usable :: "store_env \<Rightarrow> string \<Rightarrow> string option \<Rightarrow> disk \<Rightarrow> bool" where
  "store_usable E dir client d \<longleftrightarrow>
     renders E \<and> \<not> dk_write_fails d dir \<and> \<not> dk_write_fails d (state_file_path dir client)
     \<and> \<not> dk_read_fails d (state_file_path dir client)"

lemma rendersD: "renders E \<Longrightarrow> \<exists>t. se_render E s = Some t \<and> se_parse E t = Some s"
  unfolding renders_def by (metis bind_eq_Some_conv)

text \<open>Writes change the files and nothing else.\<close>

definition same_faults :: "disk \<Rightarrow> disk \<Rightarrow> bool" where
  "same_faults d d' \<longleftrightarrow>
     dk_clock d' = dk_clock d \<and> dk_read_fails d' = dk_read_fails d
     \<and> dk_stat_fails d' = dk_stat_fails d \<and> dk_write_fails d' = dk_write_fails d"

lemma same_faults_trans [trans]: "same_faults a b \<Longrightarrow> same_faults b c \<Longrightarrow> same_faults a c"
  by (simp add: same_faults_def)

lemma same_faults_persist_path [simp]: "same_faults d (persist_state_to_path E p s d)"
  by (simp add: same_faults_def persist_state_to_path_def write_atomically_def split: option.split)

lemma same_faults_persist_dir [simp]: "same_faults d (persist_state_to_dir E dir s client d)"
  by (simp add: persist_state_to_dir_def) (simp add: same_faults_def)

lemma same_faults_try_load [simp]: "same_faults d (snd (try_load_state E p d))"
  by (simp add: try_load_state_def Let_def split: read_result.split) (simp add: same_faults_def)

lemma store_usable_faults: "same_faults d d' \<Longrightarrow> store_usable E dir client d' = store_usable E dir client d"
  by (simp add: store_usable_def same_faults_def)

lemma try_load_validated: "try_load_state E p d = (Some s, d') \<Longrightarrow> validated s"
  by (auto simp: try_load_state_def Let_def validated_def invalidate_server_grants_def
      split: read_result.splits option.splits if_splits)

lemma persist_path_files:
  "dk_files (persist_state_to_path E p s d) q =
     (case se_render E s of
        None \<Rightarrow> dk_files d q
      | Some t \<Rightarrow> if q = p \<and> \<not> dk_write_fails d p then Some \<lparr>fl_text = t, fl_mtime = dk_clock d\<rparr>
                  else dk_files d q)"
  by (auto simp: persist_state_to_path_def write_atomically_def split: option.split)

lemma stored_after_persist:
  assumes "store_usable E dir client d" and "validated s"
  shows "try_load_state E (state_file_path dir client) (persist_state_to_dir E dir s client d)
    = (Some s, persist_state_to_dir E dir s client d)"
proof -
  let ?p = "state_file_path dir client"
  from assms rendersD obtain t where t: "se_render E s = Some t" "se_parse E t = Some s"
    unfolding store_usable_def by blast
  have "read_to_string (persist_state_to_path E ?p s d) ?p = ReadText t"
    using assms t same_faults_persist_path [of d E ?p s]
    by (simp add: read_to_string_def persist_path_files store_usable_def same_faults_def)
  with assms t show ?thesis
    by (simp add: try_load_state_def persist_state_to_dir_def store_usable_def validated_def)
qed

lemma merging_persist:
  assumes "store_usable E dir client d" and "same_faults d (others (snd (try_load_state E (state_file_path dir client) d)))"
  shows "persist_state_merging_to_dir E others dir s client d =
    persist_state_to_dir E dir
      (case stored_state E (state_file_path dir client) d of
         Some t \<Rightarrow> merge_grants_from s t | None \<Rightarrow> s) client
      (others (snd (try_load_state E (state_file_path dir client) d)))"
  by (cases "try_load_state E (state_file_path dir client) d")
    (simp add: persist_state_merging_to_dir_def stored_state_def split: option.split)

lemma stored_after_merging_persist:
  assumes u: "store_usable E dir client d" and v: "validated s"
    and o: "same_faults d (others (snd (try_load_state E (state_file_path dir client) d)))"
  shows "stored_state E (state_file_path dir client) (persist_state_merging_to_dir E others dir s client d)
      = Some (case stored_state E (state_file_path dir client) d of
                Some t \<Rightarrow> merge_grants_from s t | None \<Rightarrow> s)"
    and "same_faults d (persist_state_merging_to_dir E others dir s client d)"
proof -
  let ?o = "others (snd (try_load_state E (state_file_path dir client) d))"
  let ?m = "case stored_state E (state_file_path dir client) d of
              Some t \<Rightarrow> merge_grants_from s t | None \<Rightarrow> s"
  have "store_usable E dir client ?o" using store_usable_faults [OF o] u by simp
  moreover have "validated ?m" using v by (simp split: option.split)
  ultimately have "try_load_state E (state_file_path dir client) (persist_state_to_dir E dir ?m client ?o)
      = (Some ?m, persist_state_to_dir E dir ?m client ?o)"
    by (rule stored_after_persist)
  then show "stored_state E (state_file_path dir client) (persist_state_merging_to_dir E others dir s client d)
      = Some ?m"
    by (simp add: merging_persist [of E dir client d others s, OF u o] stored_state_def)
  show "same_faults d (persist_state_merging_to_dir E others dir s client d)"
    by (simp add: merging_persist [of E dir client d others s, OF u o]) (metis o same_faults_trans same_faults_persist_dir)
qed

interpretation grants: merging_store holds merge_grants_from "store_usable E dir client" validated
    "stored_state E (state_file_path dir client)"
    "\<lambda>s. persist_state_merging_to_dir E id dir s client" for E dir client
proof (standard, goal_cases)
  case (1 a b g) show ?case by (rule holds_merge)
next
  case (2 d s)
  then show ?case
    using stored_after_merging_persist(2) [of E dir client d s id] store_usable_faults by simp
next
  case (3 d s)
  then show ?case using stored_after_merging_persist(1) [of E dir client d s id] by simp
qed

subsection \<open>Names of directories and files\<close>

lemma file_name_join:
  assumes "plain_name n"
  shows "file_name (path_join base n) = Some n"
proof -
  have n: "piece_comp n = Some (Normal n)" "CHR ''/'' \<notin> set n" "n \<noteq> []" "n \<noteq> ''.''"
    using assms by (auto simp: plain_name_def piece_comp_def)
  then have abs: "\<not> is_absolute n"
    by (cases n) (auto simp: is_absolute_def starts_with_def)
  have body: "body_comps (ps @ [n]) = body_comps ps @ [Normal n]" for ps
    by (simp add: body_comps_def List.map_filter_def n)
  have split: "split_char CHR ''/'' (x @ CHR ''/'' # n) = split_char CHR ''/'' x @ [n]" for x
    by (simp add: split_char_append_at split_char_piece n)
  have deep: "\<exists>cs. components (x @ CHR ''/'' # n) = cs @ [Normal n]" for x
  proof (cases "is_absolute (x @ CHR ''/'' # n)")
    case True
    then show ?thesis by (simp add: components_def split body)
  next
    case False
    obtain p ps where "split_char CHR ''/'' x = p # ps"
      using split_char_not_Nil [of "CHR ''/''" x] by (cases "split_char CHR ''/'' x") auto
    with False show ?thesis using body [of "p # ps"] by (simp add: components_def split)
  qed
  have flat: "components n = [Normal n]"
    using abs n body [of "[]"] by (simp add: components_def split_char_piece body_comps_def)
  show ?thesis
  proof (cases base rule: rev_cases)
    case Nil
    then show ?thesis using abs flat by (simp add: path_join_def file_name_def last_comp_def)
  next
    case (snoc b c)
    have "\<exists>x. path_join base n = x @ CHR ''/'' # n"
      by (rule exI [of _ "if c = CHR ''/'' then b else base"]) (simp add: path_join_def abs snoc)
    then obtain x cs where "path_join base n = x @ CHR ''/'' # n" "components (x @ CHR ''/'' # n) = cs @ [Normal n]"
      using deep by blast
    then show ?thesis by (simp add: file_name_def last_comp_def)
  qed
qed

lemma slug_chars_set: "c \<in> set (slug_chars b s) \<Longrightarrow> is_ascii_alphanumeric c \<or> c = CHR ''-''"
  by (induction b s rule: slug_chars.induct) (auto split: if_splits)

lemma slugify_set:
  assumes "c \<in> set (slugify lower s n)"
  shows "is_ascii_alphanumeric c \<or> c = CHR ''-''"
proof -
  have "c \<in> set (slug_chars False (lower s))"
    using assms unfolding slugify_def
    by (meson in_set_takeD set_dropWhileD set_rev [THEN equalityD1, THEN subsetD])
  then show ?thesis by (rule slug_chars_set)
qed

text \<open>A name of the hashed form: letters, digits and hyphens.\<close>

definition hashed_name :: "string \<Rightarrow> bool" where
  "hashed_name n \<longleftrightarrow> n \<noteq> [] \<and> list_all (\<lambda>c. is_ascii_alphanumeric c \<or> c = CHR ''-'') n"

lemma hashed_name_plain: "hashed_name n \<Longrightarrow> plain_name n \<and> CHR ''%'' \<notin> set n \<and> \<not> starts_with n ''/''"
proof -
  assume h: "hashed_name n"
  have "c \<notin> set n" if "c \<in> {CHR ''/'', CHR ''.'', CHR ''%''}" for c
    using h that by (auto simp: hashed_name_def list_all_iff is_ascii_alphanumeric_def is_ascii_alphabetic_def
        is_ascii_digit_def is_ascii_upper_def is_ascii_lower_def byte_val_def)
  then show ?thesis using h by (cases n) (auto simp: plain_name_def hashed_name_def starts_with_def)
qed

lemma encode_long:
  assumes "encode_cwd_dirname E cwd \<noteq> se_url_encode E cwd"
    and "list_all is_ascii_alphanumeric (se_hash_hex E cwd)"
  shows "hashed_name (encode_cwd_dirname E cwd)"
proof -
  obtain leaf slug where "encode_cwd_dirname E cwd
      = (if slug = [] then ''workspace'' else slug) @ ''-'' @ take 16 (se_hash_hex E cwd)"
    and slug: "slug = slugify (se_lower E) leaf 40"
    using assms(1) by (auto simp: encode_cwd_dirname_def Let_def split: if_splits)
  moreover have "list_all (\<lambda>c. is_ascii_alphanumeric c \<or> c = CHR ''-'') slug"
    using slugify_set by (auto simp: slug list_all_iff)
  moreover have "list_all (\<lambda>c. is_ascii_alphanumeric c \<or> c = CHR ''-'') ''workspace''"
    by code_simp
  ultimately show ?thesis
    using assms(2) by (auto simp: hashed_name_def list_all_iff dest: in_set_takeD)
qed


subsection \<open>What a reload sees\<close>

text \<open>The disk some writes later, each at a later tick of the clock than the one before.\<close>

inductive later :: "disk \<Rightarrow> disk \<Rightarrow> bool" where
  unwritten: "later d d"
| wrote: "later d d' \<Longrightarrow> dk_clock d' < c \<Longrightarrow> later d (snd (write_atomically p text (d'\<lparr>dk_clock := c\<rparr>)))"

definition times_sane :: "disk \<Rightarrow> bool" where
  "times_sane d \<longleftrightarrow> (\<forall>p f. dk_files d p = Some f \<longrightarrow> fl_mtime f \<le> dk_clock d)"

lemma later_keeps:
  "later d d' \<Longrightarrow> dk_clock d \<le> dk_clock d' \<and> dk_stat_fails d' = dk_stat_fails d
     \<and> (times_sane d \<longrightarrow> times_sane d')"
  by (induction rule: later.induct) (auto simp: write_atomically_def times_sane_def intro: less_imp_le order_trans [OF _ less_imp_le])

lemma later_file:
  "later d d' \<Longrightarrow> dk_files d' p = dk_files d p
     \<or> (\<exists>f. dk_files d' p = Some f \<and> dk_clock d < fl_mtime f)"
proof (induction rule: later.induct)
  case (wrote d d' c q t)
  then show ?case using later_keeps [OF wrote(1)] by (auto simp: write_atomically_def)
qed simp

lemma unchanged_file:
  assumes "later d0 d1" and "later d1 d2" and "times_sane d0"
    and sig: "map_option (\<lambda>f. (fl_mtime f, length (fl_text f))) (dk_files d2 p)
            = map_option (\<lambda>f. (fl_mtime f, length (fl_text f))) (dk_files d0 p)"
  shows "dk_files d1 p = dk_files d0 p \<and> dk_files d2 p = dk_files d0 p"
proof -
  have old: "fl_mtime f \<le> dk_clock d0" if "dk_files d0 p = Some f" for f
    using assms(3) that by (simp add: times_sane_def)
  have fresh: False if "dk_files d2 p = Some f" "dk_clock d0 < fl_mtime f" for f
    using sig that old by (cases "dk_files d0 p") auto
  have "dk_files d1 p = dk_files d0 p"
  proof (rule ccontr)
    assume ne: "\<not> ?thesis"
    then obtain f where f: "dk_files d1 p = Some f" "dk_clock d0 < fl_mtime f"
      using later_file [OF assms(1)] by blast
    from later_file [OF assms(2), of p] f fresh later_keeps [OF assms(1)] show False
      by (metis le_less_trans)
  qed
  moreover from this have "dk_files d2 p = dk_files d0 p"
    using later_file [OF assms(2), of p] fresh later_keeps [OF assms(1)] by (metis le_less_trans)
  ultimately show ?thesis ..
qed

text \<open>
  C34. No write of another session is missed.  If a session decides not to reload, its file has not
  changed since it last read it, even when that read came after the signature was taken and other
  sessions wrote in between, provided writes come at different ticks of the clock.
\<close>

theorem reload_sees_every_change:
  assumes "ks_last_sig k = current_sig k d0" and "later d0 d1" and "later d1 d2" and "times_sane d0"
    and "\<not> dk_stat_fails d0 (state_file_path (ks_dir k) (ks_client k))"
    and "fst (reload_if_changed E others k d2) = None"
  shows "dk_files d2 (state_file_path (ks_dir k) (ks_client k))
    = dk_files d1 (state_file_path (ks_dir k) (ks_client k))"
proof -
  have "current_sig k d2 = current_sig k d0"
    using assms(1,6) by (auto simp: reload_if_changed_def Let_def split: if_splits prod.splits)
  moreover have "dk_stat_fails d2 = dk_stat_fails d0"
    using later_keeps [OF assms(2)] later_keeps [OF assms(3)] by simp
  ultimately show ?thesis
    using unchanged_file [OF assms(2-4)] assms(5) by (simp add: current_sig_def Let_def)
qed

subsection \<open>A concrete format\<close>

text \<open>
  A text format that reads back, standing for TOML in the witnesses: a list of strings is its
  characters behind dots, each string closed by a bar and the list by a dollar sign.
\<close>

definition put_strings :: "string list \<Rightarrow> string" where
  "put_strings xs = concat (map (\<lambda>x. concat (map (\<lambda>c. [CHR ''.'', c]) x) @ ''|'') xs) @ ''$''"

fun get_strings :: "string \<Rightarrow> string \<Rightarrow> (string list \<times> string) option" where
  "get_strings cur [] = None"
| "get_strings cur (t # cs) =
     (if t = CHR ''$'' then Some ([], cs)
      else if t = CHR ''|'' then map_option (\<lambda>(xs, r). (cur # xs, r)) (get_strings [] cs)
      else (case cs of [] \<Rightarrow> None | c # cs' \<Rightarrow> get_strings (cur @ [c]) cs'))"

lemma get_chars: "get_strings cur (concat (map (\<lambda>c. [CHR ''.'', c]) x) @ r) = get_strings (cur @ x) r"
  by (induction x arbitrary: cur) auto

lemma get_put_strings [simp]: "get_strings [] (put_strings xs @ r) = Some (xs, r)"
  by (induction xs) (simp_all add: put_strings_def get_chars)

definition state_fields :: "permission_state \<Rightarrow> string list list" where
  "state_fields s =
     [case ps_edit_policy s of EditAsk \<Rightarrow> [] | EditAllow \<Rightarrow> [''''] | EditReject \<Rightarrow> ['''', ''''],
      if ps_allow_bash_execute s then [''''] else [],
      ps_allowed_bash s, ps_disallowed_bash s, ps_bash_globs s, ps_web_domains s, ps_mcp_tools s,
      ps_mcp_servers s, ps_denied_mcp_tools s, ps_denied_web_domains s,
      replicate (nat \<bar>ps_mcp_grants_version s\<bar>) '''' @ (if ps_mcp_grants_version s < 0 then [''-''] else [])]"

definition demo_render :: "permission_state \<Rightarrow> string option" where
  "demo_render s = Some (concat (map put_strings (state_fields s)))"

primrec get_fields :: "nat \<Rightarrow> string \<Rightarrow> string list list option" where
  "get_fields 0 r = Some []"
| "get_fields (Suc n) r =
     Option.bind (get_strings [] r) (\<lambda>(f, r'). map_option ((#) f) (get_fields n r'))"

lemma get_fields_put: "get_fields (length fs) (concat (map put_strings fs)) = Some fs"
  by (induction fs) simp_all

definition state_of_fields :: "string list list \<Rightarrow> permission_state" where
  "state_of_fields fs =
     \<lparr>ps_edit_policy = (if length (fs ! 0) = 0 then EditAsk else if length (fs ! 0) = 1 then EditAllow else EditReject),
      ps_allow_bash_execute = (fs ! 1 \<noteq> []), ps_allowed_bash = fs ! 2, ps_disallowed_bash = fs ! 3,
      ps_bash_globs = fs ! 4, ps_web_domains = fs ! 5, ps_mcp_tools = fs ! 6, ps_mcp_servers = fs ! 7,
      ps_denied_mcp_tools = fs ! 8, ps_denied_web_domains = fs ! 9,
      ps_mcp_grants_version =
        (if ''-'' \<in> set (fs ! 10) then 1 - int (length (fs ! 10)) else int (length (fs ! 10)))\<rparr>"

definition demo_parse_state :: "string \<Rightarrow> permission_state option" where
  "demo_parse_state t = map_option state_of_fields (get_fields 11 t)"

lemma state_of_fields: "state_of_fields (state_fields s) = s"
  by (cases s) (simp add: state_of_fields_def state_fields_def split: edit_policy.split)

lemma demo_reads_back: "demo_parse_state (concat (map put_strings (state_fields s))) = Some s"
proof -
  have "length (state_fields s) = 11" by (simp add: state_fields_def)
  then show ?thesis
    using get_fields_put [of "state_fields s"] by (simp add: demo_parse_state_def state_of_fields)
qed

definition demo_encode :: "string \<Rightarrow> string" where
  "demo_encode s = concat (map (\<lambda>c. if c = CHR ''/'' then ''%2F'' else [c]) s)"

fun demo_decode :: "string \<Rightarrow> string option" where
  "demo_decode [] = Some []"
| "demo_decode (c # cs) =
     (if c = CHR ''%'' then
        (case cs of
           a # b # r \<Rightarrow> if a = CHR ''2'' \<and> b = CHR ''F'' then map_option ((#) CHR ''/'') (demo_decode r) else None
         | _ \<Rightarrow> None)
      else map_option ((#) c) (demo_decode cs))"

lemma demo_decode_plain: "CHR ''%'' \<notin> set n \<Longrightarrow> demo_decode n = Some n"
  by (induction n) auto

definition demo_store_env :: store_env where
  "demo_store_env =
     \<lparr>se_home = ''/home/u/.grok'', se_url_encode = demo_encode, se_url_decode = demo_decode,
      se_hash_hex = (\<lambda>_. ''0123456789abcdef''), se_lower = to_ascii_lowercase,
      se_git_workdir = (\<lambda>p. if starts_with p ''/repo'' then Some ''/repo/'' else None),
      se_user_home = Some ''/home/u'', se_canonicalize = Some, se_parse = demo_parse_state,
      se_render = demo_render, se_worker_dies = False\<rparr>"

definition empty_disk :: disk where
  "empty_disk =
     \<lparr>dk_files = (\<lambda>_. None), dk_clock = 0, dk_read_fails = (\<lambda>_. False), dk_stat_fails = (\<lambda>_. False),
      dk_write_fails = (\<lambda>_. False)\<rparr>"

lemma demo_renders: "renders demo_store_env"
  by (simp add: renders_def demo_store_env_def demo_render_def demo_reads_back)

lemma empty_disk_usable: "store_usable demo_store_env dir client empty_disk"
  by (simp add: store_usable_def demo_renders empty_disk_def)

subsection \<open>Properties of the store\<close>

definition stored_grant :: "store_env \<Rightarrow> string \<Rightarrow> disk \<Rightarrow> grant \<Rightarrow> bool" where
  "stored_grant E p d g \<longleftrightarrow> (case stored_state E p d of Some s \<Rightarrow> holds s g | None \<Rightarrow> False)"

text \<open>
  Merge on write, exactly.  After a session persists its state, the file holds the session's grants
  and those the file held when the session read it, and nothing else: what other sessions wrote to it
  between the read and the write is gone.
\<close>

theorem merge_on_write_exact:
  assumes "store_usable E dir client d" and "validated s"
    and "same_faults d (others (snd (try_load_state E (state_file_path dir client) d)))"
  shows "stored_grant E (state_file_path dir client) (persist_state_merging_to_dir E others dir s client d) g
    \<longleftrightarrow> holds s g \<or> stored_grant E (state_file_path dir client) d g"
  by (auto simp: stored_grant_def stored_after_merging_persist(1) [where others = others, OF assms] holds_merge split: option.split)

lemma merge_on_write_exact_witness:
  "stored_grant demo_store_env (state_file_path ''/s'' None)
     (persist_state_merging_to_dir demo_store_env
        (persist_state_merging_to_dir demo_store_env id ''/s''
           (permission_state_default\<lparr>ps_denied_mcp_tools := [''b'']\<rparr>) None)
        ''/s'' (permission_state_default\<lparr>ps_denied_mcp_tools := [''a'']\<rparr>) None empty_disk) g
   \<longleftrightarrow> g = McpDenial ''a''"
proof -
  let ?a = "permission_state_default\<lparr>ps_denied_mcp_tools := [''a'']\<rparr>"
  let ?b = "permission_state_default\<lparr>ps_denied_mcp_tools := [''b'']\<rparr>"
  let ?o = "persist_state_merging_to_dir demo_store_env id ''/s'' ?b None"
  have v: "validated ?a" "validated ?b" by (simp_all add: validated_def permission_state_default_def)
  have e: "try_load_state demo_store_env (state_file_path ''/s'' None) empty_disk = (None, empty_disk)"
    by (simp add: try_load_state_def read_to_string_def empty_disk_def)
  have "same_faults empty_disk (?o empty_disk)"
    using stored_after_merging_persist(2) [where others = id, OF empty_disk_usable v(2), of "''/s''" None] e
    by (simp add: same_faults_def)
  then show ?thesis
    using merge_on_write_exact [where others = ?o, OF empty_disk_usable v(1), of "''/s''" None g] e
    by (cases g) (auto simp: stored_grant_def stored_state_def permission_state_default_def)
qed

text \<open>Whatever is loaded carries server grants of the validated kind only.\<close>

lemma load_from_dir_validated: "load_state_from_dir E dir client d = (s, d') \<Longrightarrow> validated s"
  by (auto simp: load_state_from_dir_def load_shared_state_def dest: try_load_validated
      split: option.splits prod.splits)

lemma load_with_fallback_validated: "load_state_with_fallback E dir legacy client d = (s, d') \<Longrightarrow> validated s"
  by (auto simp: load_state_with_fallback_def dest: load_from_dir_validated split: option.splits if_splits)

lemma load_with_fallback_hit:
  assumes "try_load_state E (state_file_path dir client) d = (Some s, d)"
    and "store_present d (state_file_path dir client)"
  shows "load_state_with_fallback E dir legacy client d = (s, d)"
  using assms
  by (auto simp: load_state_with_fallback_def load_state_from_dir_def load_shared_state_def
      state_dir_has_store_def split: option.split)

lemma load_after_persist:
  assumes "store_usable E dir client d" and "validated s"
  shows "load_state_with_fallback E dir legacy client (persist_state_to_dir E dir s client d)
    = (s, persist_state_to_dir E dir s client d)"
proof (rule load_with_fallback_hit)
  show "try_load_state E (state_file_path dir client) (persist_state_to_dir E dir s client d)
      = (Some s, persist_state_to_dir E dir s client d)"
    using assms by (rule stored_after_persist)
  obtain t where "se_render E s = Some t" using assms(1) rendersD by (auto simp: store_usable_def)
  then show "store_present (persist_state_to_dir E dir s client d) (state_file_path dir client)"
    using assms(1) by (simp add: store_present_def try_exists_def persist_state_to_dir_def store_usable_def
        persist_path_files)
qed

lemma ensure_dir:
  "ensure_sessions_cwd_dir E cwd d = (r, d')
     \<Longrightarrow> (r = None \<or> r = Some (sessions_cwd_dir E cwd)) \<and> same_faults d d'"
  by (auto simp: ensure_sessions_cwd_dir_def write_atomically_def same_faults_def Let_def split: if_splits)

lemma resolved_dirs:
  assumes "\<not> se_worker_dies E"
  shows "sd_dir (fst (resolve_store_dirs E cwd ensure d)) = sessions_cwd_dir E (permission_scope_root E cwd)
    \<and> same_faults d (snd (resolve_store_dirs E cwd ensure d))"
proof (cases "ensure_sessions_cwd_dir E (permission_scope_root E cwd) d")
  case (Pair r d')
  with ensure_dir [OF this] assms show ?thesis
    by (auto simp: resolve_store_dirs_def Let_def same_faults_def split: option.split)
qed

lemma resolve_without_ensure: "snd (resolve_store_dirs E cwd False d) = d"
  by (simp add: resolve_store_dirs_def Let_def)

text \<open>
  A replaced store is what every session of the repository loads.  After a successful replacement
  by a session anywhere in a repository, a session of the same client anywhere in it loads exactly
  that state, whatever store its own directory had from before the stores were kept per repository.
\<close>

theorem replacement_reaches_repository:
  assumes "permission_scope_root E cwd' = permission_scope_root E cwd" and "\<not> se_worker_dies E"
    and "store_usable E (sessions_cwd_dir E (permission_scope_root E cwd)) client d" and "validated s"
  shows "load_state_from_disk E cwd' client (replace_state_on_disk E cwd s client d)
    = (s, replace_state_on_disk E cwd s client d)"
proof -
  let ?dir = "sessions_cwd_dir E (permission_scope_root E cwd)"
  let ?d1 = "snd (resolve_store_dirs E cwd True d)"
  note r = resolved_dirs [OF assms(2), of cwd True d]
  have u: "store_usable E ?dir client ?d1" using store_usable_faults r assms(3) by blast
  have "replace_state_on_disk E cwd s client d = persist_state_to_dir E ?dir s client ?d1"
    using r by (simp add: replace_state_on_disk_def split_def)
  moreover have "sd_dir (fst (resolve_store_dirs E cwd' False x)) = ?dir" for x
    using resolved_dirs [OF assms(2)] assms(1) by simp
  ultimately show ?thesis
    using load_after_persist [OF u assms(4)]
    by (simp add: load_state_from_disk_def split_def resolve_without_ensure)
qed

lemma replacement_reaches_repository_witness:
  "load_state_from_disk demo_store_env ''/repo/sub'' None
     (replace_state_on_disk demo_store_env ''/repo'' permission_state_default None empty_disk)
   = (permission_state_default,
      replace_state_on_disk demo_store_env ''/repo'' permission_state_default None empty_disk)"
proof -
  have "permission_scope_root demo_store_env ''/repo/sub'' = permission_scope_root demo_store_env ''/repo''"
    by code_simp
  moreover have "\<not> se_worker_dies demo_store_env" by (simp add: demo_store_env_def)
  ultimately show ?thesis
    using replacement_reaches_repository empty_disk_usable validated_default by blast
qed

text \<open>
  A reset does not outlast the other sessions.  The reset empties the file; the next time another
  session that still has an entry in memory persists anything, the entry is in the file again.
\<close>

theorem reset_is_undone:
  assumes "store_usable E dir client d" and "validated s" and "holds s g"
  shows "\<not> stored_grant E (state_file_path dir client) (persist_state_to_dir E dir permission_state_default client d) g
    \<and> stored_grant E (state_file_path dir client)
        (persist_state_merging_to_dir E id dir s client
           (persist_state_to_dir E dir permission_state_default client d)) g"
proof -
  let ?d = "persist_state_to_dir E dir permission_state_default client d"
  have "stored_state E (state_file_path dir client) ?d = Some permission_state_default"
    using stored_after_persist [OF assms(1) validated_default] by (simp add: stored_state_def)
  moreover have "store_usable E dir client ?d"
    using store_usable_faults [OF same_faults_persist_dir] assms(1) by blast
  moreover have "same_faults ?d (id (snd (try_load_state E (state_file_path dir client) ?d)))"
    by simp
  ultimately show ?thesis
    using merge_on_write_exact [where others = id, of E dir client ?d s g] assms(2,3)
    by (simp add: stored_grant_def)
qed

text \<open>
  A store that cannot be read is overwritten: the merge takes the failure for an absent file, so
  the denials in it are lost.
\<close>

lemma unreadable_store_is_overwritten:
  assumes "dk_read_fails d (state_file_path dir client)" and "se_render E s = Some t"
    and "\<not> dk_write_fails d dir" and "\<not> dk_write_fails d (state_file_path dir client)"
  shows "map_option fl_text (dk_files (persist_state_merging_to_dir E id dir s client d) (state_file_path dir client))
    = Some t"
  using assms
  by (simp add: persist_state_merging_to_dir_def try_load_state_def read_to_string_def persist_state_to_dir_def
      persist_path_files)

text \<open>The file of a client is a file of the store's directory that the cleanup knows.\<close>

lemma client_file_name:
  "\<exists>n. file_name (state_file_path dir client) = Some n \<and> is_store_name n"
proof -
  have "CHR ''/'' \<notin> set (sanitize_client_id i)" for i
    by (auto simp: sanitize_client_id_def client_id_char_def is_ascii_alphanumeric_def is_ascii_alphabetic_def
        is_ascii_digit_def is_ascii_upper_def is_ascii_lower_def byte_val_def)
  then have "file_name (path_join dir (''permission_'' @ sanitize_client_id i @ ''.toml''))
      = Some (''permission_'' @ sanitize_client_id i @ ''.toml'')" for i
    by (intro file_name_join) (simp add: plain_name_def)
  moreover have "is_store_name (''permission_'' @ x @ ''.toml'')" for x
    by (simp add: is_store_name_def starts_with_def ends_with_def)
  moreover have "plain_name ''permission.toml''" and "is_store_name ''permission.toml''"
    by code_simp+
  ultimately show ?thesis
    using file_name_join [of "''permission.toml''" dir] unfolding state_file_path_def
    by (cases client) (simp_all del: append_Cons append.simps)
qed

subsection \<open>Witnesses\<close>


lemma reload_sees_every_change_witness:
  "dk_files (snd (write_atomically ''/x'' ''t'' (empty_disk\<lparr>dk_clock := 1\<rparr>))) ''/s/permission.toml'' = None"
proof -
  let ?k = "\<lparr>ks_dir = ''/s'', ks_legacy = None, ks_client = None, ks_last_sig = None\<rparr>"
  let ?d = "snd (write_atomically ''/x'' ''t'' (empty_disk\<lparr>dk_clock := 1\<rparr>))"
  have p: "state_file_path (ks_dir ?k) (ks_client ?k) = ''/s/permission.toml''" by code_simp
  have l: "later empty_disk ?d" by (rule wrote [OF unwritten]) (simp add: empty_disk_def)
  have s: "ks_last_sig ?k = current_sig ?k empty_disk" "times_sane empty_disk"
    "\<not> dk_stat_fails empty_disk (state_file_path (ks_dir ?k) (ks_client ?k))"
    by (simp_all add: current_sig_def empty_disk_def times_sane_def)
  have "dk_files ?d ''/s/permission.toml'' = None" "dk_stat_fails ?d = (\<lambda>_. False)"
    by (simp_all add: write_atomically_def empty_disk_def)
  then have r: "fst (reload_if_changed demo_store_env id ?k ?d) = None"
    using p by (simp add: reload_if_changed_def current_sig_def)
  show ?thesis
    using reload_sees_every_change [OF s(1) unwritten l s(2,3) r] p by (simp add: empty_disk_def)
qed

lemma reset_is_undone_witness:
  "stored_grant demo_store_env (state_file_path ''/s'' None)
     (persist_state_merging_to_dir demo_store_env id ''/s''
        (permission_state_default\<lparr>ps_allowed_bash := [''cargo test'']\<rparr>) None
        (persist_state_to_dir demo_store_env ''/s'' permission_state_default None empty_disk))
     (BashCommand ''cargo test'')"
proof -
  have "validated (permission_state_default\<lparr>ps_allowed_bash := [''cargo test'']\<rparr>)"
    by (simp add: validated_def permission_state_default_def)
  then show ?thesis using reset_is_undone [OF empty_disk_usable] by simp
qed

end
