(* ===== verification/SessionRuns.thy ===== *)
theory SessionRuns
  imports ManagerRuns PermissionStore
begin

section \<open>Sessions that share a store\<close>

text \<open>
  Several permission managers over one store on disk: what the actor of \<open>permission/manager/mod.rs\<close>
  reads from and writes to the store of \<open>permission/state.rs\<close> on each command, and what becomes of the
  grants when the commands of many sessions interleave.  A command is atomic with respect to the disk;
  \<open>PermissionStore\<close> says what is lost when a write falls between a session's read and its write.
\<close>

subsection \<open>A session's commands on the disk\<close>

record session =
  sn_manager :: manager
  sn_store :: cached_store

definition apply_effect :: "store_env \<Rightarrow> string \<Rightarrow> string option \<Rightarrow> disk \<Rightarrow> manager_effect \<Rightarrow> disk" where
  "apply_effect SE cwd client d e =
     (case e of
        PersistMerging s \<Rightarrow> persist_state SE id cwd s client d
      | ReplaceOnDisk s \<Rightarrow> replace_state_on_disk SE cwd s client d
      | NotifyPrompt \<Rightarrow> d)"

definition spawn_session ::
    "store_env \<Rightarrow> 'g manager_env \<Rightarrow> bool \<Rightarrow> permission_config option \<Rightarrow> llm_classifier \<Rightarrow> string option
     \<Rightarrow> disk \<Rightarrow> session \<times> disk" where
  "spawn_session SE E yolo config dc client d =
     (let ((k, loaded), d1) = resolve_and_load SE id (me_cwd E) client d;
          (m, es) = spawn_manager E yolo config loaded dc
      in (\<lparr>sn_manager = m, sn_store = k\<rparr>, foldl (apply_effect SE (me_cwd E) client) d1 es))"

definition fresh_state ::
    "store_env \<Rightarrow> permission_request \<Rightarrow> request_io \<Rightarrow> cached_store \<Rightarrow> disk
     \<Rightarrow> permission_state option \<times> cached_store \<times> disk" where
  "fresh_state SE rq io k d =
     (if io_closed_at_dequeue io \<or> \<not> reloads_store (rq_access rq) then (None, k, d)
      else reload_if_changed SE id k d)"

definition session_step ::
    "store_env \<Rightarrow> 'g manager_env \<Rightarrow> llm_classifier \<Rightarrow> string option \<Rightarrow> manager_command \<Rightarrow> session \<times> disk
     \<Rightarrow> ((session \<times> disk) \<times> permission_event option) run" where
  "session_step SE E dc client c sd =
     (let (sn, d) = sd;
          (c', k, d1) =
            (case c of
               Request rq io \<Rightarrow>
                 (let (fresh, k, d1) = fresh_state SE rq io (sn_store sn) d
                  in (Request rq (io\<lparr>io_reload := fresh\<rparr>), k, d1))
             | _ \<Rightarrow> (c, sn_store sn, d))
      in case manager_step E dc c' (sn_manager sn) of
           Panicked \<Rightarrow> Panicked
         | Returned (m', ev, es) \<Rightarrow>
             Returned ((\<lparr>sn_manager = m', sn_store = k\<rparr>, foldl (apply_effect SE (me_cwd E) client) d1 es), ev))"

text \<open>Any number of sessions of one client; each command belongs to one of them and runs at a later tick.\<close>

inductive sessions_run ::
    "store_env \<Rightarrow> (nat \<Rightarrow> 'g manager_env) \<Rightarrow> llm_classifier \<Rightarrow> string option \<Rightarrow> (nat \<Rightarrow> session) \<Rightarrow> disk
     \<Rightarrow> (nat \<times> manager_command) list \<Rightarrow> (nat \<Rightarrow> session) \<Rightarrow> disk \<Rightarrow> bool"
  for SE E dc client S0 d0 where
  start: "sessions_run SE E dc client S0 d0 [] S0 d0"
| command: "\<lbrakk>sessions_run SE E dc client S0 d0 cs S d; dk_clock d < t;
       session_step SE (E i) dc client c (S i, d\<lparr>dk_clock := t\<rparr>) = Returned ((sn, d'), ev)\<rbrakk>
     \<Longrightarrow> sessions_run SE E dc client S0 d0 (cs @ [(i, c)]) (S(i := sn)) d'"

subsection \<open>What a request does to the grants\<close>

definition grows :: "permission_state \<Rightarrow> permission_state \<Rightarrow> bool" where
  "grows s s' \<longleftrightarrow> (\<forall>g. holds s g \<longrightarrow> holds s' g) \<and> (validated s \<longrightarrow> validated s')"

lemma grows_refl [simp]: "grows s s"
  by (simp add: grows_def)

lemma grows_fields:
  assumes "ps_allow_bash_execute s \<Longrightarrow> ps_allow_bash_execute s'"
    and "set (ps_allowed_bash s) \<subseteq> set (ps_allowed_bash s')"
    and "set (ps_disallowed_bash s) \<subseteq> set (ps_disallowed_bash s')"
    and "set (ps_bash_globs s) \<subseteq> set (ps_bash_globs s')"
    and "set (ps_web_domains s) \<subseteq> set (ps_web_domains s')"
    and "set (ps_mcp_tools s) \<subseteq> set (ps_mcp_tools s')"
    and "set (ps_mcp_servers s) \<subseteq> set (ps_mcp_servers s')"
    and "set (ps_denied_mcp_tools s) \<subseteq> set (ps_denied_mcp_tools s')"
    and "set (ps_denied_web_domains s) \<subseteq> set (ps_denied_web_domains s')"
    and "ps_mcp_grants_version s' = ps_mcp_grants_version s"
  shows "grows s s'"
proof -
  have "holds s g \<Longrightarrow> holds s' g" for g using assms by (cases g) auto
  then show ?thesis using assms(10) by (simp add: grows_def validated_def)
qed

lemma grows_insert [simp]:
  "grows s (s\<lparr>ps_allowed_bash := hs_insert x (ps_allowed_bash s)\<rparr>)"
  "grows s (s\<lparr>ps_disallowed_bash := hs_insert x (ps_disallowed_bash s)\<rparr>)"
  "grows s (s\<lparr>ps_bash_globs := hs_insert x (ps_bash_globs s)\<rparr>)"
  "grows s (s\<lparr>ps_web_domains := hs_insert x (ps_web_domains s)\<rparr>)"
  "grows s (s\<lparr>ps_mcp_tools := hs_insert x (ps_mcp_tools s)\<rparr>)"
  "grows s (s\<lparr>ps_mcp_servers := hs_insert x (ps_mcp_servers s)\<rparr>)"
  "grows s (s\<lparr>ps_denied_mcp_tools := hs_insert x (ps_denied_mcp_tools s)\<rparr>)"
  "grows s (s\<lparr>ps_denied_web_domains := hs_insert x (ps_denied_web_domains s)\<rparr>)"
  by (rule grows_fields; auto)+

lemma grows_segments [simp]: "grows s (grant_segments parse cmd s)"
  by (rule grows_fields) (auto simp: grant_segments_def)

lemma grows_bash [simp]: "grows s (grant_bash x s)"
  by (simp add: grant_bash_def)

lemma grows_mcp_tool [simp]: "grows s (allow_mcp_tool x s)"
  by (simp add: allow_mcp_tool_def)

lemma grows_merge [simp]: "grows s (merge_grants_from s t)"
  by (simp add: grows_def holds_merge)

lemma grows_always_allow: "persist_bash_always_allow parse s cmd label = Returned s' \<Longrightarrow> grows s s'"
  by (auto simp: persist_bash_always_allow_def split: run.splits option.splits)

text \<open>A change of the state is persisted, and it only adds.\<close>

definition persisted :: "permission_state \<Rightarrow> manager \<Rightarrow> manager_effect list \<Rightarrow> bool" where
  "persisted s m' es \<longleftrightarrow>
     pm_state m' = s \<and> filter (\<lambda>e. e \<noteq> NotifyPrompt) es = []
     \<or> grows s (pm_state m') \<and> filter (\<lambda>e. e \<noteq> NotifyPrompt) es = [PersistMerging (pm_state m')]"

lemma answer_persisted [simp]: "persisted (pm_state m) (an_manager (answer d k m)) (an_effects (answer d k m))"
  by (simp add: persisted_def answer_def)

lemma answer_persisting_persisted:
  "grows (pm_state m) (g (pm_state m)) \<Longrightarrow>
     persisted (pm_state m) (an_manager (answer_persisting d k g m)) (an_effects (answer_persisting d k g m))"
  by (simp add: persisted_def answer_persisting_def with_state_def)

lemma answer_edits_persisted [simp]:
  "persisted (pm_state m) (an_manager (answer d k (m\<lparr>pm_allow_edits_for_session := b\<rparr>)))
     (an_effects (answer d k (m\<lparr>pm_allow_edits_for_session := b\<rparr>)))"
  by (simp add: persisted_def answer_def)

lemma answer_bash_persisted:
  "answer_bash H cmd out m = Returned an \<Longrightarrow> persisted (pm_state m) (an_manager an) (an_effects an)"
  by (auto simp: answer_bash_def Let_def answer_persisting_persisted dest: grows_always_allow
      split: prompt_outcome.splits run.splits if_splits)

lemma answer_other_persisted:
  "persisted (pm_state m) (an_manager (answer_other E access out m)) (an_effects (answer_other E access out m))"
  by (auto simp: answer_other_def Let_def answer_persisting_persisted
      split: prompt_outcome.split access_kind.split option.split)

lemma answer_prompt_persisted:
  "answer_prompt E access out m = Returned an \<Longrightarrow> persisted (pm_state m) (an_manager an) (an_effects an)"
  by (auto simp: answer_prompt_def answer_other_persisted dest: answer_bash_persisted split: access_kind.splits)

lemma record_decision_state [simp]: "pm_state (record_decision sj access d k m) = pm_state m"
  by (simp add: record_decision_def Let_def split: option.split)

lemma auto_phase_state: "pm_state (ar_manager (auto_phase E rq io f m)) = pm_state m"
proof -
  have v: "auto_verdict E rq m v reason timed_out = (route, m') \<Longrightarrow> pm_state m' = pm_state m" for v reason timed_out route m'
    by (auto simp: auto_verdict_def split: verdict.splits if_splits)
  show ?thesis
    unfolding auto_phase_def Let_def
    by (auto dest: v split: auto_fast_path.splits classify_route.splits prod.splits)
qed

lemma settle_persisted [simp]:
  "persisted (pm_state m) (rr_manager (settle m sd cl)) (rr_effects (settle m sd cl))"
  "persisted (pm_state m) (rr_manager (requester_gone m cl)) (rr_effects (requester_gone m cl))"
  by (simp_all add: settle_def requester_gone_def persisted_def split: prod.split)

lemma persisted_notify:
  "persisted s m es \<Longrightarrow> pm_state m' = pm_state m \<Longrightarrow> persisted s m' (NotifyPrompt # es)"
  by (simp add: persisted_def)

lemma prompt_phase_persisted:
  assumes "prompt_phase E rq io trigger cl m = Returned R"
  shows "persisted (pm_state m) (rr_manager R) (rr_effects R)"
proof (cases "io_closed_before_prompt io")
  case True
  then show ?thesis using assms by (auto simp: prompt_phase_def)
next
  case False
  then obtain an where an: "answer_prompt E (rq_access rq)
      (if io_closed_in_prompt io then PromptCancelled else io_prompt io) m = Returned an"
    using assms by (auto simp: prompt_phase_def split: run.splits)
  have "rr_effects R = NotifyPrompt # an_effects an" and "pm_state (rr_manager R) = pm_state (an_manager an)"
    using assms False by (auto simp: prompt_phase_def an Let_def)
  then show ?thesis using persisted_notify [OF answer_prompt_persisted [OF an]] by simp
qed

lemma handle_request_persisted:
  assumes "handle_request E rq io m0 = Returned R"
  shows "persisted (pm_state (if io_closed_at_dequeue io then m0 else refresh rq io m0)) (rr_manager R) (rr_effects R)"
proof (cases "io_closed_at_dequeue io")
  case True
  then show ?thesis using assms by (auto simp: handle_request_def)
next
  case False
  define m where "m = refresh rq io m0"
  define f where "f = facts_of E rq io m"
  define ar where "ar = auto_phase E rq io f m"
  have st: "pm_state (ar_manager ar) = pm_state m" by (simp add: ar_def auto_phase_state)
  have settled: "persisted (pm_state m) (rr_manager (settle m' sd cl)) (rr_effects (settle m' sd cl))"
    "persisted (pm_state m) (rr_manager (requester_gone m' cl)) (rr_effects (requester_gone m' cl))"
    if "pm_state m' = pm_state m" for m' sd cl
    using that settle_persisted [of m'] by simp_all
  have "persisted (pm_state m) (rr_manager R) (rr_effects R)"
    using assms False st prompt_phase_persisted [of E rq io _ _ "ar_manager ar" R]
    unfolding handle_request_def m_def [symmetric] Let_def f_def [symmetric] ar_def [symmetric]
    by (auto simp: settled split: if_splits option.splits auto_route.splits)
  then show ?thesis using False by (simp add: m_def)
qed

subsection \<open>What a command does to the disk\<close>

text \<open>Files are left alone or written at this tick.\<close>

definition overwrites :: "disk \<Rightarrow> disk \<Rightarrow> bool" where
  "overwrites d d' \<longleftrightarrow> same_faults d d'
     \<and> (\<forall>q. dk_files d' q = dk_files d q \<or> (\<exists>f. dk_files d' q = Some f \<and> fl_mtime f = dk_clock d))"

lemma overwrites_refl [simp]: "overwrites d d"
  by (simp add: overwrites_def same_faults_def)

lemma overwrites_trans [trans]: "overwrites a b \<Longrightarrow> overwrites b c \<Longrightarrow> overwrites a c"
  unfolding overwrites_def same_faults_def by metis

lemma overwrites_persist_path [simp]: "overwrites d (persist_state_to_path E p s d)"
  by (auto simp: overwrites_def persist_path_files split: option.split)

lemma overwrites_persist_dir [simp]: "overwrites d (persist_state_to_dir E dir s client d)"
  by (simp add: persist_state_to_dir_def)

lemma overwrites_try_load [simp]: "overwrites d (snd (try_load_state E p d))"
  by (simp add: try_load_state_def Let_def split: read_result.split)

lemma overwrites_ensure: "overwrites d (snd (ensure_sessions_cwd_dir E cwd d))"
  by (auto simp: overwrites_def ensure_sessions_cwd_dir_def write_atomically_def same_faults_def Let_def)

lemma overwrites_resolve [simp]: "overwrites d (snd (resolve_store_dirs E cwd ensure d))"
  by (simp add: resolve_store_dirs_def Let_def overwrites_ensure)

text \<open>Reading a store never changes what any store says.\<close>

definition reads_same :: "store_env \<Rightarrow> string \<Rightarrow> disk \<Rightarrow> disk \<Rightarrow> bool" where
  "reads_same E p d d' \<longleftrightarrow> overwrites d d' \<and> stored_state E p d' = stored_state E p d"

lemma reads_same_refl [simp]: "reads_same E p d d"
  by (simp add: reads_same_def)

lemma reads_same_trans [trans]: "reads_same E p a b \<Longrightarrow> reads_same E p b c \<Longrightarrow> reads_same E p a c"
  unfolding reads_same_def by (metis overwrites_trans)

lemma stored_state_cong:
  "dk_files d' p = dk_files d p \<Longrightarrow> dk_read_fails d' p = dk_read_fails d p \<Longrightarrow> stored_state E p d' = stored_state E p d"
  by (simp add: stored_state_def try_load_state_def read_to_string_def Let_def split: option.split)

lemma try_load_same:
  assumes "renders E"
  shows "reads_same E p d (snd (try_load_state E q d))"
proof (cases "\<exists>s. snd (try_load_state E q d) = persist_state_to_path E q (invalidate_server_grants s) d
    \<and> q = p \<and> stored_state E p d = Some (invalidate_server_grants s) \<and> \<not> dk_write_fails d q \<and> \<not> dk_read_fails d p")
  case True
  then obtain s where s: "snd (try_load_state E q d) = persist_state_to_path E p (invalidate_server_grants s) d"
    "q = p" "stored_state E p d = Some (invalidate_server_grants s)" "\<not> dk_write_fails d p" "\<not> dk_read_fails d p"
    by blast
  obtain t where t: "se_render E (invalidate_server_grants s) = Some t"
    "se_parse E t = Some (invalidate_server_grants s)"
    using assms rendersD by blast
  have "\<not> dk_read_fails (persist_state_to_path E p (invalidate_server_grants s) d) p"
    using s(5) same_faults_persist_path [of d E p "invalidate_server_grants s"] by (simp add: same_faults_def)
  then have "stored_state E p (persist_state_to_path E p (invalidate_server_grants s) d) = Some (invalidate_server_grants s)"
    using t s(4) validated_invalidate [of s]
    by (simp add: stored_state_def try_load_state_def read_to_string_def persist_path_files validated_def Let_def)
  then show ?thesis using s by (simp add: reads_same_def)
next
  case False
  have "dk_files (snd (try_load_state E q d)) p = dk_files d p"
    using False by (auto simp: try_load_state_def Let_def read_to_string_def persist_path_files stored_state_def
        split: option.splits read_result.splits if_splits)
  then show ?thesis
    using stored_state_cong [of "snd (try_load_state E q d)" p d E] same_faults_try_load [of d E q]
    by (simp add: reads_same_def same_faults_def)
qed

lemma load_from_dir_same: "renders E \<Longrightarrow> reads_same E p d (snd (load_state_from_dir E dir client d))"
proof -
  assume r: "renders E"
  have shared: "reads_same E p x (snd (load_shared_state E dir x))" for x
    using try_load_same [OF r, of p x "state_file_path dir None"]
    by (auto simp: load_shared_state_def split: prod.split option.split)
  show ?thesis
  proof (cases client)
    case None
    then show ?thesis using shared by (simp add: load_state_from_dir_def)
  next
    case (Some i)
    have "reads_same E p d (snd (try_load_state E (state_file_path dir (Some i)) d))" using r by (rule try_load_same)
    then show ?thesis
      using shared reads_same_trans by (auto simp: load_state_from_dir_def Some split: prod.split option.split)
  qed
qed

lemma load_with_fallback_same: "renders E \<Longrightarrow> reads_same E p d (snd (load_state_with_fallback E dir legacy client d))"
  by (auto simp: load_state_with_fallback_def load_from_dir_same split: option.split)

lemma cached_load_present:
  assumes "stored_state E (state_file_path dir client) d = Some s"
    and "dk_files d (state_file_path dir client) \<noteq> None"
  shows "fst (load_state_with_fallback E dir legacy client d) = s"
proof -
  have "store_present d (state_file_path dir client)"
    using assms(2) by (auto simp: store_present_def try_exists_def)
  then show ?thesis using assms(1)
    by (cases "try_load_state E (state_file_path dir client) d")
      (auto simp: stored_state_def load_state_with_fallback_def load_state_from_dir_def load_shared_state_def
        state_dir_has_store_def split: option.split prod.split)
qed

subsection \<open>The shared store and its sessions\<close>

text \<open>
  All sessions resolve to one directory, whose file for their client can be read, looked at and
  written, and was not written in the future.
\<close>

definition shared_store ::
    "store_env \<Rightarrow> (nat \<Rightarrow> 'g manager_env) \<Rightarrow> string option \<Rightarrow> string \<Rightarrow> disk \<Rightarrow> bool" where
  "shared_store SE E client dir d \<longleftrightarrow>
     \<not> se_worker_dies SE
     \<and> (\<forall>i. sessions_cwd_dir SE (permission_scope_root SE (me_cwd (E i))) = dir)
     \<and> store_usable SE dir client d \<and> \<not> dk_stat_fails d (state_file_path dir client)
     \<and> (\<forall>f. dk_files d (state_file_path dir client) = Some f \<longrightarrow> fl_mtime f \<le> dk_clock d)"

text \<open>A session that would not reload knows everything the store says.\<close>

definition in_sync :: "store_env \<Rightarrow> string \<Rightarrow> string option \<Rightarrow> disk \<Rightarrow> session \<Rightarrow> bool" where
  "in_sync SE dir client d sn \<longleftrightarrow>
     ks_dir (sn_store sn) = dir \<and> ks_client (sn_store sn) = client \<and> validated (pm_state (sn_manager sn))
     \<and> (\<forall>u n. ks_last_sig (sn_store sn) = Some (u, n) \<longrightarrow> u \<le> dk_clock d)
     \<and> (ks_last_sig (sn_store sn) = current_sig (sn_store sn) d \<longrightarrow>
          (\<forall>g. stored_grant SE (state_file_path dir client) d g \<longrightarrow> holds (pm_state (sn_manager sn)) g))"

lemma shared_renders: "shared_store SE E client dir d \<Longrightarrow> renders SE"
  by (simp add: shared_store_def store_usable_def)

lemma shared_overwrites:
  assumes o: "overwrites d d'" and sh: "shared_store SE E client dir d"
  shows "shared_store SE E client dir d'"
proof -
  let ?p = "state_file_path dir client"
  have f: "same_faults d d'" and q: "dk_files d' ?p = dk_files d ?p \<or> (\<exists>f. dk_files d' ?p = Some f \<and> fl_mtime f = dk_clock d)"
    using o unfolding overwrites_def by blast+
  have "store_usable SE dir client d'" using store_usable_faults [OF f] sh by (simp add: shared_store_def)
  moreover have "fl_mtime x \<le> dk_clock d'" if "dk_files d' ?p = Some x" for x
    using q that f sh unfolding shared_store_def same_faults_def by (metis option.inject order_refl)
  moreover have "dk_stat_fails d' ?p = dk_stat_fails d ?p" using f by (simp add: same_faults_def)
  ultimately show ?thesis using sh unfolding shared_store_def by blast
qed

lemma stored_grant_cong:
  "stored_state E p d' = stored_state E p d \<Longrightarrow> stored_grant E p d' g = stored_grant E p d g"
  by (simp add: stored_grant_def)

lemma stored_tick [simp]: "stored_state E p (d\<lparr>dk_clock := t\<rparr>) = stored_state E p d"
  by (rule stored_state_cong) simp_all

lemma stored_grant_tick [simp]: "stored_grant E p (d\<lparr>dk_clock := t\<rparr>) g = stored_grant E p d g"
  by (simp add: stored_grant_def)

lemma current_sig_tick [simp]: "current_sig k (d\<lparr>dk_clock := t\<rparr>) = current_sig k d"
  by (simp add: current_sig_def Let_def)

lemma shared_tick: "shared_store SE E client dir d \<Longrightarrow> dk_clock d < t \<Longrightarrow> shared_store SE E client dir (d\<lparr>dk_clock := t\<rparr>)"
  by (auto simp: shared_store_def store_usable_def intro: order_trans)

lemma marker_is_no_store: "path_join dir ''.cwd'' \<noteq> state_file_path dir' client"
proof
  assume "path_join dir ''.cwd'' = state_file_path dir' client"
  moreover have "plain_name ''.cwd''" "\<not> is_store_name ''.cwd''" by code_simp+
  ultimately show False using file_name_join [of "''.cwd''" dir] client_file_name [of dir' client] by auto
qed

lemma resolve_same:
  "dk_files (snd (resolve_store_dirs SE cwd ensure d)) (state_file_path dir client) = dk_files d (state_file_path dir client)"
  by (auto simp: resolve_store_dirs_def ensure_sessions_cwd_dir_def write_atomically_def Let_def
      marker_is_no_store [symmetric])

text \<open>What the two writing effects do to the store of the repository.\<close>

lemma written_now:
  assumes "store_usable E dir client d"
  shows "\<exists>f. dk_files (persist_state_to_dir E dir s client d) (state_file_path dir client) = Some f \<and> fl_mtime f = dk_clock d"
  using assms rendersD [of E s]
  by (auto simp: persist_state_to_dir_def store_usable_def persist_path_files)

lemma persist_effect:
  assumes sh: "shared_store SE E client dir d" and v: "validated s"
    and d': "d' = apply_effect SE (me_cwd (E i)) client d (PersistMerging s)"
  shows "overwrites d d'"
    and "stored_grant SE (state_file_path dir client) d' g \<longleftrightarrow> holds s g \<or> stored_grant SE (state_file_path dir client) d g"
    and "\<exists>f. dk_files d' (state_file_path dir client) = Some f \<and> fl_mtime f = dk_clock d"
proof -
  let ?p = "state_file_path dir client"
  let ?r = "resolve_store_dirs SE (me_cwd (E i)) True d"
  let ?d2 = "snd (try_load_state SE ?p (snd ?r))"
  let ?m = "case stored_state SE ?p (snd ?r) of Some t \<Rightarrow> merge_grants_from s t | None \<Rightarrow> s"
  have r: "sd_dir (fst ?r) = dir" "same_faults d (snd ?r)"
    using resolved_dirs [of SE "me_cwd (E i)" True d] sh by (simp_all add: shared_store_def)
  have u: "store_usable SE dir client (snd ?r)"
    using store_usable_faults [OF r(2)] sh by (simp add: shared_store_def)
  have e: "d' = persist_state_merging_to_dir SE id dir s client (snd ?r)"
    using d' r(1) by (simp add: apply_effect_def persist_state_def split_def)
  have e2: "d' = persist_state_to_dir SE dir ?m client ?d2"
    using merging_persist [where others = id, of SE dir client "snd ?r" s] u e by simp
  show "overwrites d d'"
    unfolding e2 by (meson overwrites_persist_dir overwrites_resolve overwrites_trans overwrites_try_load)
  have "stored_state SE ?p (snd ?r) = stored_state SE ?p d"
    using r(2) resolve_same by (intro stored_state_cong) (auto simp: same_faults_def)
  then show "stored_grant SE ?p d' g \<longleftrightarrow> holds s g \<or> stored_grant SE ?p d g"
    using merge_on_write_exact [where others = id, OF u v] e by (simp add: stored_grant_def)
  have "store_usable SE dir client ?d2"
    using u store_usable_faults [OF same_faults_try_load] by blast
  moreover have "dk_clock ?d2 = dk_clock d"
    using same_faults_trans [OF r(2) same_faults_try_load] by (simp add: same_faults_def)
  ultimately show "\<exists>f. dk_files d' ?p = Some f \<and> fl_mtime f = dk_clock d"
    using written_now unfolding e2 by metis
qed

lemma replace_effect:
  assumes sh: "shared_store SE E client dir d" and v: "validated s"
    and d': "d' = apply_effect SE (me_cwd (E i)) client d (ReplaceOnDisk s)"
  shows "overwrites d d'"
    and "stored_grant SE (state_file_path dir client) d' g \<longleftrightarrow> holds s g"
    and "\<exists>f. dk_files d' (state_file_path dir client) = Some f \<and> fl_mtime f = dk_clock d"
proof -
  let ?r = "resolve_store_dirs SE (me_cwd (E i)) True d"
  have r: "sd_dir (fst ?r) = dir" "same_faults d (snd ?r)"
    using resolved_dirs [of SE "me_cwd (E i)" True d] sh by (simp_all add: shared_store_def)
  have u: "store_usable SE dir client (snd ?r)"
    using store_usable_faults [OF r(2)] sh by (simp add: shared_store_def)
  have e: "d' = persist_state_to_dir SE dir s client (snd ?r)"
    using d' r(1) by (simp add: apply_effect_def replace_state_on_disk_def split_def)
  show "overwrites d d'" unfolding e by (meson overwrites_persist_dir overwrites_resolve overwrites_trans)
  show "stored_grant SE (state_file_path dir client) d' g \<longleftrightarrow> holds s g"
    using stored_after_persist [OF u v] e by (simp add: stored_grant_def stored_state_def)
  have "dk_clock (snd ?r) = dk_clock d" using r(2) by (simp add: same_faults_def)
  then show "\<exists>f. dk_files d' (state_file_path dir client) = Some f \<and> fl_mtime f = dk_clock d"
    using written_now [OF u, of s] e by auto
qed

lemma effects_without_notify:
  "foldl (apply_effect SE cwd client) d es = foldl (apply_effect SE cwd client) d (filter (\<lambda>e. e \<noteq> NotifyPrompt) es)"
  by (induction es arbitrary: d) (auto simp: apply_effect_def)

lemma stored_present:
  "dk_files d p = Some f \<Longrightarrow> \<not> dk_read_fails d p \<Longrightarrow> \<exists>s. stored_state E p d = Some s"
  by (simp add: stored_state_def try_load_state_def read_to_string_def Let_def)

lemma stored_absent: "dk_files d p = None \<Longrightarrow> \<not> stored_grant E p d g"
  by (simp add: stored_grant_def stored_state_def try_load_state_def read_to_string_def)

subsection \<open>One command\<close>

lemma sig_bound:
  assumes "shared_store SE E client dir d" and "ks_dir k = dir" and "ks_client k = client"
    and "current_sig k d = Some (u, n)"
  shows "u \<le> dk_clock d"
  using assms by (auto simp: shared_store_def current_sig_def Let_def split: if_splits)

text \<open>The reload before a request, on a disk whose clock has moved on.\<close>

lemma fresh_state_cases:
  assumes sh: "shared_store SE E client dir d" and ok: "in_sync SE dir client d sn" and t: "dk_clock d < t"
    and fr: "fresh_state SE rq io (sn_store sn) (d\<lparr>dk_clock := t\<rparr>) = (fresh, k, d1)"
  shows "reads_same SE (state_file_path dir client) (d\<lparr>dk_clock := t\<rparr>) d1"
    and "ks_dir k = dir \<and> ks_client k = client"
    and "ks_last_sig k = Some (u, n) \<Longrightarrow> u \<le> dk_clock d"
    and "fresh = None \<Longrightarrow> k = sn_store sn"
    and "fresh = Some s \<Longrightarrow> \<not> io_closed_at_dequeue io \<and> reloads_store (rq_access rq) \<and> validated s
           \<and> (stored_grant SE (state_file_path dir client) d g \<longrightarrow> holds s g)"
    and "fresh = None \<Longrightarrow> \<not> io_closed_at_dequeue io \<Longrightarrow> reloads_store (rq_access rq)
           \<Longrightarrow> ks_last_sig (sn_store sn) = current_sig (sn_store sn) d"
    and "fresh = Some s \<Longrightarrow> dk_files d (state_file_path dir client) \<noteq> None
           \<Longrightarrow> stored_state SE (state_file_path dir client) d = Some s"
proof -
  let ?p = "state_file_path dir client" and ?k = "sn_store sn" and ?d = "d\<lparr>dk_clock := t\<rparr>"
  have k: "ks_dir ?k = dir" "ks_client ?k = client"
    and old: "\<And>u n. ks_last_sig ?k = Some (u, n) \<Longrightarrow> u \<le> dk_clock d"
    using ok by (auto simp: in_sync_def)
  have same: "reads_same SE ?p ?d (snd (cached_read SE k' ?d))" for k'
    using load_with_fallback_same [OF shared_renders [OF sh]] by (simp add: cached_read_def)
  have val: "validated (fst (cached_read SE k' x))" for k' x
    using load_with_fallback_validated by (metis cached_read_def prod.collapse)
  have hit: "stored_grant SE ?p d g \<Longrightarrow> holds (fst (cached_read SE (?k\<lparr>ks_last_sig := sig\<rparr>) ?d)) g" for sig g
  proof -
    assume g: "stored_grant SE ?p d g"
    then have "dk_files ?d ?p \<noteq> None" using stored_absent by fastforce
    moreover obtain s where "stored_state SE ?p d = Some s" "holds s g"
      using g by (auto simp: stored_grant_def split: option.splits)
    ultimately show ?thesis using cached_load_present [of SE dir client ?d s] k by (simp add: cached_read_def)
  qed
  consider (no) "fresh = None" "k = ?k" "d1 = ?d"
      "io_closed_at_dequeue io \<or> \<not> reloads_store (rq_access rq) \<or> ks_last_sig ?k = current_sig ?k d"
    | (yes) k' s where "fresh = Some s" "k = k'" "k' = ?k\<lparr>ks_last_sig := current_sig ?k d\<rparr>"
      "(s, d1) = cached_read SE k' ?d" "\<not> io_closed_at_dequeue io" "reloads_store (rq_access rq)"
    using fr by (auto simp: fresh_state_def reload_if_changed_def Let_def split: if_splits prod.splits)
  note c = this
  show "reads_same SE ?p ?d d1" using c
  proof cases
    case yes
    then show ?thesis using same [of k'] by (metis snd_conv)
  qed simp
  show "ks_dir k = dir \<and> ks_client k = client" using c k by cases auto
  show "u \<le> dk_clock d" if "ks_last_sig k = Some (u, n)"
    using c
  proof cases
    case yes
    then show ?thesis using that sig_bound [OF sh k] by simp
  qed (use old that in simp)
  show "k = sn_store sn" if "fresh = None" using c that by cases auto
  show "\<not> io_closed_at_dequeue io \<and> reloads_store (rq_access rq) \<and> validated s
      \<and> (stored_grant SE ?p d g \<longrightarrow> holds s g)" if "fresh = Some s"
    using c
  proof cases
    case (yes k' s')
    then show ?thesis using that val [of k' ?d] hit by (metis fst_conv option.inject)
  qed (use that in simp)
  show "ks_last_sig (sn_store sn) = current_sig (sn_store sn) d"
    if "fresh = None" "\<not> io_closed_at_dequeue io" "reloads_store (rq_access rq)"
    using c that by cases auto
  show "stored_state SE ?p d = Some s" if some: "fresh = Some s" and present: "dk_files d ?p \<noteq> None"
  proof -
    obtain f where "dk_files d ?p = Some f" using present by auto
    moreover have "\<not> dk_read_fails d ?p" using sh by (simp add: shared_store_def store_usable_def)
    ultimately obtain s0 where s0: "stored_state SE ?p d = Some s0" using stored_present by blast
    then have load: "fst (cached_read SE k' ?d) = s0" if "ks_dir k' = dir" "ks_client k' = client" for k'
      using cached_load_present [of SE dir client ?d s0] present that by (simp add: cached_read_def)
    from c show ?thesis
    proof cases
      case (yes k' s')
      then have "s' = s0" using load [of k'] k by (metis cached_store.select_convs cached_store.update_convs(4) cached_store.surjective fst_conv)
      then show ?thesis using yes(1) some s0 by simp
    qed (use some in simp)
  qed
qed

text \<open>Every session that is in sync decides on a state that holds all the store says.\<close>

lemma decides_on_the_store:
  assumes sh: "shared_store SE E client dir d" and ok: "in_sync SE dir client d sn" and t: "dk_clock d < t"
    and fr: "fresh_state SE rq io (sn_store sn) (d\<lparr>dk_clock := t\<rparr>) = (fresh, k, d1)"
    and "\<not> io_closed_at_dequeue io" and "reloads_store (rq_access rq)"
    and g: "stored_grant SE (state_file_path dir client) d g"
  shows "holds (pm_state (refresh rq (io\<lparr>io_reload := fresh\<rparr>) (sn_manager sn))) g"
proof (cases fresh)
  case None
  then have "ks_last_sig (sn_store sn) = current_sig (sn_store sn) d"
    using fresh_state_cases(6) [OF sh ok t fr] assms(5,6) by simp
  then show ?thesis using ok g None by (simp add: in_sync_def refresh_def)
next
  case (Some s)
  then show ?thesis
    using fresh_state_cases(5) [OF sh ok t fr Some] g by (simp add: refresh_def holds_merge)
qed


text \<open>A command that may change the store: it reads, and then changes nothing, merges, or replaces.\<close>

inductive touches_store ::
    "store_env \<Rightarrow> string \<Rightarrow> string option \<Rightarrow> manager_command \<Rightarrow> disk \<Rightarrow> permission_state \<Rightarrow> disk
     \<Rightarrow> permission_state \<Rightarrow> bool"
  for SE cwd client c d1 mem where
  untouched: "touches_store SE cwd client c d1 mem d1 mem"
| merged: "grows mem mem' \<Longrightarrow>
     touches_store SE cwd client c d1 mem (apply_effect SE cwd client d1 (PersistMerging mem')) mem'"
| replaced: "c = ResetState \<Longrightarrow>
     touches_store SE cwd client c d1 mem
       (apply_effect SE cwd client d1 (ReplaceOnDisk permission_state_default)) permission_state_default"

lemma session_step_shape:
  assumes sh: "shared_store SE E client dir d" and ok: "in_sync SE dir client d sn" and t: "dk_clock d < t"
    and step: "session_step SE (E i) dc client c (sn, d\<lparr>dk_clock := t\<rparr>) = Returned ((sn', d'), ev)"
  obtains d1 mem where
    "reads_same SE (state_file_path dir client) (d\<lparr>dk_clock := t\<rparr>) d1"
    and "touches_store SE (me_cwd (E i)) client c d1 mem d' (pm_state (sn_manager sn'))"
    and "validated mem" and "ks_dir (sn_store sn') = dir \<and> ks_client (sn_store sn') = client"
    and "\<And>u n. ks_last_sig (sn_store sn') = Some (u, n) \<Longrightarrow> u \<le> dk_clock d"
    and "\<And>g. ks_last_sig (sn_store sn') = current_sig (sn_store sn') d
           \<Longrightarrow> stored_grant SE (state_file_path dir client) d g \<Longrightarrow> holds mem g"
    and "\<And>g. holds (pm_state (sn_manager sn)) g \<Longrightarrow> holds mem g"
    and "\<And>g. holds mem g \<Longrightarrow> dk_files d (state_file_path dir client) \<noteq> None
           \<Longrightarrow> holds (pm_state (sn_manager sn)) g \<or> stored_grant SE (state_file_path dir client) d g"
proof (cases c)
  case (Request rq io)
  obtain fresh k d1 where fr: "fresh_state SE rq io (sn_store sn) (d\<lparr>dk_clock := t\<rparr>) = (fresh, k, d1)"
    by (metis prod_cases3)
  note fc = fresh_state_cases [OF sh ok t fr]
  let ?io = "io\<lparr>io_reload := fresh\<rparr>"
  let ?m = "sn_manager sn"
  let ?mem = "pm_state (if io_closed_at_dequeue io then ?m else refresh rq ?io ?m)"
  obtain R where R: "handle_request (E i) rq ?io ?m = Returned R"
    and sn': "sn' = \<lparr>sn_manager = rr_manager R, sn_store = k\<rparr>"
    and d': "d' = foldl (apply_effect SE (me_cwd (E i)) client) d1 (rr_effects R)"
    using step by (auto simp: session_step_def Request fr manager_step_def split: run.splits)
  have mem: "?mem = (case fresh of None \<Rightarrow> pm_state ?m | Some s \<Rightarrow> merge_grants_from (pm_state ?m) s)"
    using fc(5) by (cases fresh) (auto simp: refresh_def)
  have p: "persisted ?mem (rr_manager R) (rr_effects R)"
    using handle_request_persisted [OF R] by simp
  show thesis
  proof (rule that [of d1 ?mem])
    show "touches_store SE (me_cwd (E i)) client c d1 ?mem d' (pm_state (sn_manager sn'))"
      using p unfolding d' effects_without_notify [of SE _ client d1 "rr_effects R"] persisted_def sn'
      by (auto intro: touches_store.intros)
    show "validated ?mem" using ok unfolding mem by (simp add: in_sync_def split: option.split)
    show "reads_same SE (state_file_path dir client) (d\<lparr>dk_clock := t\<rparr>) d1" by (rule fc(1))
    show "ks_dir (sn_store sn') = dir \<and> ks_client (sn_store sn') = client" using fc(2) by (simp add: sn')
    show "ks_last_sig (sn_store sn') = Some (u, n) \<Longrightarrow> u \<le> dk_clock d" for u n using fc(3) by (simp add: sn')
    show "ks_last_sig (sn_store sn') = current_sig (sn_store sn') d
        \<Longrightarrow> stored_grant SE (state_file_path dir client) d g \<Longrightarrow> holds ?mem g" for g
      using fc(4,5) ok unfolding mem by (cases fresh) (auto simp: sn' in_sync_def holds_merge)
    show "holds (pm_state ?m) g \<Longrightarrow> holds ?mem g" for g
      unfolding mem by (simp add: holds_merge split: option.split)
    show "holds ?mem g \<Longrightarrow> dk_files d (state_file_path dir client) \<noteq> None
        \<Longrightarrow> holds (pm_state ?m) g \<or> stored_grant SE (state_file_path dir client) d g" for g
      using fc(7) unfolding mem by (cases fresh) (auto simp: holds_merge stored_grant_def)
  qed
next
  case ResetState
  have "validated (pm_state (sn_manager sn))" using ok by (simp add: in_sync_def)
  moreover have "d' = apply_effect SE (me_cwd (E i)) client (d\<lparr>dk_clock := t\<rparr>) (ReplaceOnDisk permission_state_default)"
    and "pm_state (sn_manager sn') = permission_state_default" and "sn_store sn' = sn_store sn"
    using step by (auto simp: session_step_def ResetState manager_step_def reset_state_def)
  ultimately show thesis
    using that [of "d\<lparr>dk_clock := t\<rparr>" "pm_state (sn_manager sn)"] ok replaced [OF ResetState]
    by (simp add: in_sync_def)
qed (rule that [of "d\<lparr>dk_clock := t\<rparr>" "pm_state (sn_manager sn)"];
     use step ok in \<open>auto simp: session_step_def manager_step_def silent_step_def set_yolo_mode_def
       set_auto_mode_def in_sync_def Let_def intro: untouched\<close>)+

lemma touched_disk:
  assumes "touches_store SE (me_cwd (E i)) client c d1 mem d' mem'"
    and sh: "shared_store SE E client dir d1" and v: "validated mem"
  shows "overwrites d1 d' \<and> validated mem'
    \<and> (d' = d1 \<and> mem' = mem
       \<or> (\<exists>f. dk_files d' (state_file_path dir client) = Some f \<and> fl_mtime f = dk_clock d1))"
  using assms(1)
proof cases
  case untouched
  then show ?thesis using v by simp
next
  case merged
  then have "validated mem'" using v by (simp add: grows_def)
  then show ?thesis using persist_effect(1,3) [OF sh _ merged(1)] by blast
next
  case replaced
  then show ?thesis using replace_effect(1,3) [OF sh validated_default replaced(1)] by simp
qed

lemma touched_grants:
  assumes "touches_store SE (me_cwd (E i)) client c d1 mem d' mem'" and "c \<noteq> ResetState"
    and sh: "shared_store SE E client dir d1" and v: "validated mem"
  shows "(stored_grant SE (state_file_path dir client) d1 g \<longrightarrow> stored_grant SE (state_file_path dir client) d' g)
    \<and> (holds mem' g \<longrightarrow> holds mem g \<or> stored_grant SE (state_file_path dir client) d' g)"
  using assms(1)
proof cases
  case merged
  then have "validated mem'" using v by (simp add: grows_def)
  then show ?thesis using persist_effect(2) [OF sh _ merged(1)] by simp
qed (use assms(2) in auto)

lemma written_at:
  assumes "overwrites (d\<lparr>dk_clock := t\<rparr>) d'"
  shows "dk_files d' q = dk_files d q \<or> (\<exists>f. dk_files d' q = Some f \<and> fl_mtime f = t)"
    and "dk_clock d' = t"
  using assms by (auto simp: overwrites_def same_faults_def)

text \<open>A signature from before a write does not match the file after it.\<close>

lemma stale_sig:
  assumes sh: "shared_store SE E client dir d'" and k: "ks_dir k = dir" "ks_client k = client"
    and "dk_files d' (state_file_path dir client) = Some f" and "fl_mtime f = t" and "c < t"
    and "\<And>u n. ks_last_sig k = Some (u, n) \<Longrightarrow> u \<le> c"
  shows "ks_last_sig k \<noteq> current_sig k d'"
proof -
  have "current_sig k d' = Some (t, length (fl_text f))"
    using assms by (simp add: current_sig_def Let_def shared_store_def)
  then show ?thesis using assms(6,7) by fastforce
qed

lemma same_sig:
  assumes "same_faults (d\<lparr>dk_clock := t\<rparr>) d'" and "ks_dir k = dir" and "ks_client k = client"
    and "dk_files d' (state_file_path dir client) = dk_files d (state_file_path dir client)"
  shows "current_sig k d' = current_sig k d"
  using assms by (simp add: current_sig_def Let_def same_faults_def)

text \<open>After any command the acting session and every other one are in sync.\<close>

lemma step_in_sync:
  assumes sh: "shared_store SE E client dir d" and ok: "in_sync SE dir client d sn" and t: "dk_clock d < t"
    and step: "session_step SE (E i) dc client c (sn, d\<lparr>dk_clock := t\<rparr>) = Returned ((sn', d'), ev)"
  shows "shared_store SE E client dir d'" and "in_sync SE dir client d' sn'"
    and "in_sync SE dir client d other \<Longrightarrow> in_sync SE dir client d' other"
proof -
  let ?p = "state_file_path dir client" and ?d = "d\<lparr>dk_clock := t\<rparr>"
  from session_step_shape [OF sh ok t step] obtain d1 mem where
    rs: "reads_same SE ?p ?d d1"
    and ts: "touches_store SE (me_cwd (E i)) client c d1 mem d' (pm_state (sn_manager sn'))"
    and v: "validated mem" and k: "ks_dir (sn_store sn') = dir" "ks_client (sn_store sn') = client"
    and old: "\<And>u n. ks_last_sig (sn_store sn') = Some (u, n) \<Longrightarrow> u \<le> dk_clock d"
    and knows: "\<And>g. ks_last_sig (sn_store sn') = current_sig (sn_store sn') d \<Longrightarrow> stored_grant SE ?p d g \<Longrightarrow> holds mem g"
    by (metis (no_types, lifting))
  have sh1: "shared_store SE E client dir d1"
    using shared_overwrites [OF _ shared_tick [OF sh t]] rs by (simp add: reads_same_def)
  note td = touched_disk [OF ts sh1 v]
  have o: "overwrites ?d d'" using td rs overwrites_trans by (auto simp: reads_same_def)
  show sh': "shared_store SE E client dir d'" using shared_overwrites [OF o shared_tick [OF sh t]] .
  note w = written_at [OF o]
  have faults: "same_faults ?d d'" using o by (simp add: overwrites_def)
  have keep: "stored_grant SE ?p d' g = stored_grant SE ?p d g \<and> current_sig k d' = current_sig k d"
    if "dk_files d' ?p = dk_files d ?p" "ks_dir k = dir" "ks_client k = client" for k g
    using that same_sig [OF faults] faults stored_state_cong [of d' ?p d SE]
    by (simp add: stored_grant_def same_faults_def)
  show "in_sync SE dir client d' other" if oth: "in_sync SE dir client d other"
  proof -
    have ko: "ks_dir (sn_store other) = dir" "ks_client (sn_store other) = client"
      and oo: "\<And>u n. ks_last_sig (sn_store other) = Some (u, n) \<Longrightarrow> u \<le> dk_clock d"
      using oth by (auto simp: in_sync_def)
    from w(1) [of ?p] show ?thesis
    proof
      assume "dk_files d' ?p = dk_files d ?p"
      then show ?thesis using oth keep [OF _ ko] w(2) t by (auto simp: in_sync_def intro: order_trans)
    next
      assume "\<exists>f. dk_files d' ?p = Some f \<and> fl_mtime f = t"
      then obtain f where f: "dk_files d' ?p = Some f" "fl_mtime f = t" by blast
      have "ks_last_sig (sn_store other) \<noteq> current_sig (sn_store other) d'"
        by (rule stale_sig [OF sh' ko f t]) (rule oo)
      then show ?thesis using oth w(2) t by (auto simp: in_sync_def intro: order_trans)
    qed
  qed
  have base: "validated (pm_state (sn_manager sn'))" "\<And>u n. ks_last_sig (sn_store sn') = Some (u, n) \<Longrightarrow> u \<le> dk_clock d'"
    using td old w(2) t by (auto intro: order_trans)
  show "in_sync SE dir client d' sn'"
  proof (cases "\<exists>f. dk_files d' ?p = Some f \<and> fl_mtime f = t")
    case True
    then obtain f where f: "dk_files d' ?p = Some f" "fl_mtime f = t" by blast
    have "ks_last_sig (sn_store sn') \<noteq> current_sig (sn_store sn') d'"
      by (rule stale_sig [OF sh' k f t]) (rule old)
    then show ?thesis using base k by (simp add: in_sync_def)
  next
    case False
    have "dk_clock d1 = t" using rs by (simp add: reads_same_def overwrites_def same_faults_def)
    then have "d' = d1 \<and> pm_state (sn_manager sn') = mem" using td False by auto
    moreover have "dk_files d' ?p = dk_files d ?p" using w(1) False by blast
    ultimately show ?thesis using base k knows keep [OF _ k] by (auto simp: in_sync_def)
  qed
qed

lemma run_in_sync:
  assumes "sessions_run SE E dc client S0 d0 cs S d"
    and "shared_store SE E client dir d0" and "\<And>j. in_sync SE dir client d0 (S0 j)"
  shows "shared_store SE E client dir d \<and> (\<forall>j. in_sync SE dir client d (S j))"
  using assms(1)
proof (induction rule: sessions_run.induct)
  case start
  then show ?case using assms(2,3) by blast
next
  case (command cs S d t i c sn d' ev)
  have sh: "shared_store SE E client dir d" and ok: "in_sync SE dir client d (S j)" for j
    using command.IH by blast+
  note st = step_in_sync [where E = E and i = i, OF sh ok command.hyps(2,3)]
  show ?case using st(1,2) st(3) [OF ok] by simp
qed

text \<open>A session that was just spawned is in sync.\<close>

lemma spawn_in_sync:
  assumes sh: "shared_store SE E client dir d"
    and sp: "spawn_session SE (E i) yolo config dc client d = (sn, d')"
  shows "shared_store SE E client dir d'" and "in_sync SE dir client d' sn"
proof -
  let ?p = "state_file_path dir client"
  let ?k = "\<lparr>ks_dir = dir, ks_legacy = sd_legacy (fst (resolve_store_dirs SE (me_cwd (E i)) False d)),
      ks_client = client, ks_last_sig = None\<rparr>"
  define k where "k = ?k\<lparr>ks_last_sig := current_sig ?k d\<rparr>"
  define loaded where "loaded = fst (cached_read SE k d)"
  define d2 where "d2 = snd (cached_read SE k d)"
  define m where "m = fst (spawn_manager (E i) yolo config loaded dc)"
  define es where "es = snd (spawn_manager (E i) yolo config loaded dc)"
  have dir: "sd_dir (fst (resolve_store_dirs SE (me_cwd (E i)) False d)) = dir"
    using resolved_dirs [of SE "me_cwd (E i)" False d] sh by (simp add: shared_store_def)
  have sn: "sn = \<lparr>sn_manager = m, sn_store = k\<rparr>" and d': "d' = foldl (apply_effect SE (me_cwd (E i)) client) d2 es"
    using sp dir resolve_without_ensure [of SE "me_cwd (E i)" d]
    by (auto simp: spawn_session_def resolve_and_load_def Let_def split_def k_def loaded_def d2_def m_def es_def)
  have rs: "reads_same SE ?p d d2"
    using load_with_fallback_same [OF shared_renders [OF sh]] by (simp add: d2_def cached_read_def)
  then have sh2: "shared_store SE E client dir d2" using shared_overwrites sh by (auto simp: reads_same_def)
  have v: "validated loaded"
    using load_with_fallback_validated by (metis loaded_def cached_read_def prod.collapse)
  have all: "holds loaded g" if g: "stored_grant SE ?p d g" for g
  proof -
    have "dk_files d ?p \<noteq> None" using g stored_absent by fastforce
    moreover obtain s where "stored_state SE ?p d = Some s" "holds s g"
      using g by (auto simp: stored_grant_def split: option.splits)
    ultimately show ?thesis
      using cached_load_present [of SE dir client d s] by (simp add: loaded_def cached_read_def k_def)
  qed
  have st: "(\<forall>g. holds (pm_state m) g = holds loaded g) \<and> validated (pm_state m)
      \<and> (es = [] \<or> es = [PersistMerging (pm_state m)])"
  proof -
    have "holds (loaded\<lparr>ps_edit_policy := e\<rparr>) g = holds loaded g" for e g by (cases g) simp_all
    then show ?thesis using v by (simp add: m_def es_def spawn_manager_def validated_def Let_def)
  qed
  have fin: "shared_store SE E client dir d' \<and> (\<forall>g. stored_grant SE ?p d' g \<longrightarrow> holds (pm_state m) g) \<and> dk_clock d' = dk_clock d"
  proof (cases "es = []")
    case True
    then show ?thesis using sh2 rs st all
      by (auto simp: d' reads_same_def overwrites_def same_faults_def stored_grant_def)
  next
    case False
    then have d'': "d' = apply_effect SE (me_cwd (E i)) client d2 (PersistMerging (pm_state m))" using st by (simp add: d')
    note pe = persist_effect [OF sh2 _ d''] 
    have "stored_grant SE ?p d2 g = stored_grant SE ?p d g" for g using rs by (simp add: reads_same_def stored_grant_def)
    then show ?thesis
      using pe(1,2) st all shared_overwrites [OF _ sh2, of d'] rs
      by (auto simp: reads_same_def overwrites_def same_faults_def)
  qed
  then show "shared_store SE E client dir d'" by blast
  have "u \<le> dk_clock d" if "current_sig ?k d = Some (u, n)" for u n
    using sig_bound [OF sh _ _ that] by simp
  then show "in_sync SE dir client d' sn"
    using fin st by (auto simp: in_sync_def sn k_def)
qed

subsection \<open>A refused tool\<close>

lemma mcp_facts:
  assumes "rq_access rq = MCPToolAccess name input"
  shows "rf_eval (facts_of E rq io m) = None" and "rf_protected (facts_of E rq io m) = None"
    and "\<not> gp_defers_gate_ask (rf_preflight (facts_of E rq io m))"
    and "\<not> shell_forced_prompt (rf_preflight (facts_of E rq io m))"
  using assms
  by (auto simp: facts_of_def scanned_evaluation_def protected_edit_of_def preflight_evaluate_def Let_def
      shell_forced_prompt_def shell_file_forced_prompt_def gate_asks_def evaluate_with_cwd_details_def
      native_file_path_def split: option.splits prod.splits)

lemma denied_mcp_late:
  assumes "rq_access rq = MCPToolAccess name input" and "holds (pm_state m) (McpDenial name)"
    and f: "f = facts_of E rq io m0" and "policy_forced_prompt (rf_preflight f) \<or> rq_hook_ask rq"
  shows "late_decision E rq f forced why m = Some (d, a, r) \<Longrightarrow> d \<noteq> DAllow"
    and "late_decision E rq f forced why m \<noteq> None"
proof -
  have pre: "pre_decision E rq f forced m = Some (DReject (rejection_text name), deny_or PersistedGrant (DReject (rejection_text name)))"
    using assms(1,2) by (simp add: pre_decision_def mcp_pre_decision_def)
  then have masked: "masked_pre_decision rq forced why (pre_decision E rq f forced m)
      = Some (DReject (rejection_text name), deny_or PersistedGrant (DReject (rejection_text name)))"
    by (simp add: masked_pre_decision_def is_allow_def)
  have "policy_phase E rq f forced \<noteq> Some (DAllow, x)" for x
    using assms(4) by (auto simp: policy_phase_def policy_allow_deferred_def policy_forced_prompt_def
        split: option.splits decision.splits if_splits)
  moreover have "sandbox_decision E rq f forced = None"
    by (simp add: sandbox_decision_def assms(1))
  ultimately show "late_decision E rq f forced why m = Some (d, a, r) \<Longrightarrow> d \<noteq> DAllow"
    and "late_decision E rq f forced why m \<noteq> None"
    using masked by (auto simp: late_decision_def split: option.splits)
qed

lemma denied_mcp_not_allowed:
  assumes acc: "rq_access rq = MCPToolAccess name input" and "\<not> io_closed_at_dequeue io"
    and den: "holds (pm_state (refresh rq io m0)) (McpDenial name)" and y: "\<not> pm_yolo m0"
    and h: "handle_request E rq io m0 = Returned R"
  shows "pe_decision (rr_event R) \<noteq> DAllow"
proof -
  define m where "m = refresh rq io m0"
  define f where "f = facts_of E rq io m"
  define ar where "ar = auto_phase E rq io f m"
  have ym: "\<not> pm_yolo m" using y refresh_same(1) [of rq io m0] by (simp add: modes_def m_def)
  have ns: "\<not> scan_ran E rq (pm_state m)" by (simp add: scan_ran_def acc)
  note mf = mcp_facts [OF acc, of E io m, folded f_def]
  have den': "holds (pm_state m') (McpDenial name)" if "pm_state m' = pm_state m" for m'
    using den that by (simp add: m_def)
  have grant: "session_grant_pre_decision (me_host E) (me_parse_url E) (rq_access rq) (rf_eval f) (pm_state m)
      (pm_allow_edits_for_session m) (me_static_domains E) (\<not> (pm_auto m \<and> me_static_is_default E)) (me_yolo_pin E)
      = Some (DReject (rejection_text name), deny_or SessionGrant (DReject (rejection_text name)))"
    using den by (simp add: acc session_grant_pre_decision_def mcp_pre_decision_def m_def)
  show ?thesis
  proof (cases "early_decision E rq f m")
    case (Some sd)
    then have "R = settle m sd NotClassified"
      using h assms(2) ns by (simp add: handle_request_def m_def [symmetric] f_def [symmetric] Let_def)
    moreover have "fst sd \<noteq> DAllow"
      using Some ym grant mf(2) by (auto simp: early_decision_def Let_def forced_before_classifier_def
          split: option.splits decision.splits if_splits)
    ultimately show ?thesis by (auto simp: settle_def event_of_def split: prod.split)
  next
    case None
    have forced: "policy_forced_prompt (rf_preflight f) \<or> rq_hook_ask rq"
      using None grant mf(2,4) by (auto simp: early_decision_def Let_def forced_before_classifier_def
          split: option.splits decision.splits if_splits)
    have late: "late_decision E rq f fp why (ar_manager ar) = Some (d, a, r) \<Longrightarrow> d \<noteq> DAllow"
      "late_decision E rq f fp why (ar_manager ar) \<noteq> None" for fp why d a r
      using denied_mcp_late [OF acc den' f_def forced, of "ar_manager ar"]
      by (auto simp: ar_def auto_phase_state)
    have auto: "ar_route ar \<noteq> AutoSettled (DAllow, a, r)" for a r
      using auto_allows [of E rq io f m a r] forced mf(3) by (auto simp: ar_def admits_auto_classifier_def)
    have sd: "R = settle (ar_manager ar) sd (ar_classification ar) \<Longrightarrow> fst sd \<noteq> DAllow
        \<Longrightarrow> pe_decision (rr_event R) \<noteq> DAllow" for sd
      by (simp add: settle_def event_of_def split: prod.splits)
    note unfolded = h [unfolded handle_request_def m_def [symmetric] Let_def f_def [symmetric] ar_def [symmetric]]
    show ?thesis
    proof (cases "ar_route ar")
      case (AutoSettled sd')
      have "fst sd' \<noteq> DAllow" using auto AutoSettled by (cases sd') auto
      then show ?thesis using unfolded assms(2) ns None AutoSettled by (intro sd) simp_all
    next
      case AutoAbandoned
      then have "R = requester_gone (ar_manager ar) (ar_classification ar)"
        using unfolded assms(2) ns None by simp
      then show ?thesis by (simp add: requester_gone_def event_of_def)
    next
      case (AutoContinues fp why)
      obtain sd' where sd': "late_decision E rq f fp why (ar_manager ar) = Some sd'" using late(2) by blast
      then have "fst sd' \<noteq> DAllow" using late(1) by (cases sd') auto
      then show ?thesis using unfolded assms(2) ns None AutoContinues sd' by (intro sd) simp_all
    qed
  qed
qed

subsection \<open>Properties of sessions that share a store\<close>



subsection \<open>Witnesses\<close>

definition demo_dir :: string where "demo_dir = sessions_cwd_dir demo_store_env ''/w''"

definition demo_disk :: disk where
  "demo_disk = persist_state_to_dir demo_store_env demo_dir
     (permission_state_default\<lparr>ps_denied_mcp_tools := [''srv__rm'']\<rparr>) None empty_disk"

definition demo_sessions :: "nat \<Rightarrow> session" where
  "demo_sessions _ =
     \<lparr>sn_manager = demo_manager permission_state_default False,
      sn_store = \<lparr>ks_dir = demo_dir, ks_legacy = None, ks_client = None, ks_last_sig = None\<rparr>\<rparr>"

definition demo_envs :: "nat \<Rightarrow> string manager_env" where
  "demo_envs _ = demo_manager_env [] PromptAsk"

lemma demo_denied_stored: "stored_state demo_store_env (state_file_path demo_dir None) demo_disk
    = Some (permission_state_default\<lparr>ps_denied_mcp_tools := [''srv__rm'']\<rparr>)"
  using stored_after_persist [OF empty_disk_usable,
      of "permission_state_default\<lparr>ps_denied_mcp_tools := [''srv__rm'']\<rparr>" demo_dir None]
  by (simp add: stored_state_def demo_disk_def validated_def permission_state_default_def)

lemma demo_shared: "shared_store demo_store_env demo_envs None demo_dir demo_disk"
proof -
  have "overwrites empty_disk demo_disk" by (simp add: demo_disk_def)
  moreover have "permission_scope_root demo_store_env ''/w'' = ''/w''" by code_simp
  then have "shared_store demo_store_env demo_envs None demo_dir empty_disk"
    using empty_disk_usable [of demo_dir None]
    by (simp add: shared_store_def demo_envs_def demo_manager_env_def demo_dir_def)
      (simp add: demo_store_env_def empty_disk_def)
  ultimately show ?thesis by (rule shared_overwrites)
qed

lemma demo_in_sync: "in_sync demo_store_env demo_dir None demo_disk (demo_sessions j)"
proof -
  obtain f where "dk_files demo_disk (state_file_path demo_dir None) = Some f"
    using written_now [OF empty_disk_usable, of demo_dir] unfolding demo_disk_def by blast
  moreover have "\<not> dk_stat_fails demo_disk p" for p
    using same_faults_persist_dir [of empty_disk demo_store_env demo_dir]
    by (simp add: demo_disk_def same_faults_def) (simp add: empty_disk_def)
  moreover have "pm_state (demo_manager permission_state_default False) = permission_state_default"
    by (simp add: demo_manager_def spawn_manager_def permission_state_default_def Let_def)
  ultimately show ?thesis by (simp add: in_sync_def demo_sessions_def current_sig_def)
qed



end
