(* ===== verification/ManagerHandle.thy ===== *)
theory ManagerHandle
  imports ManagerRuns
begin

text \<open>
  The permission handle and the actor as two sides of a channel: the methods of
  \<open>PermissionHandle\<close> as the atomic operations they perform on the shared flags, the in-flight counter
  and the command channel, the actor as the task that takes one command at a time and stores the
  flags one by one, and every interleaving of any number of such calls with it.  A call is known by
  the number it got when it started, which also stands for the oneshot channel of a request.
\<close>

subsection \<open>The atomic operations of the handle's methods\<close>

datatype mode_flag = YoloFlag | AutoFlag

datatype micro =
    StoreFlag mode_flag bool
  | StoreWired bool
  | Send manager_command
  | CountUp
  | SendRequest permission_request

definition handle_set_yolo_mode :: "string option \<Rightarrow> bool \<Rightarrow> micro list" where
  "handle_set_yolo_mode pin enabled =
     (let clamped = clamp_yolo enabled pin
      in [StoreFlag YoloFlag clamped]
         @ (if clamped then [StoreFlag AutoFlag False] else [])
         @ [Send (SetYoloMode enabled)])"

definition handle_set_auto_mode :: "bool \<Rightarrow> micro list" where
  "handle_set_auto_mode enabled =
     [StoreFlag AutoFlag enabled]
     @ (if enabled then [StoreFlag YoloFlag False] else [])
     @ [Send (SetAutoMode enabled)]"

definition handle_set_classifier :: "llm_classifier option \<Rightarrow> micro list" where
  "handle_set_classifier c = [StoreWired False, Send (SetClassifier c)]"

definition handle_set_classifier_with_side_query :: "llm_classifier \<Rightarrow> bool \<Rightarrow> micro list" where
  "handle_set_classifier_with_side_query c wired = [StoreWired wired, Send (SetClassifier (Some c))]"

definition handle_set_llm_side_query_wired :: "bool \<Rightarrow> micro list" where
  "handle_set_llm_side_query_wired wired = [StoreWired wired]"

definition handle_set_classifier_transcript :: "classifier_turn list \<Rightarrow> micro list" where
  "handle_set_classifier_transcript turns = [Send (SetClassifierTranscript turns)]"

definition handle_set_project_instructions :: "string option \<Rightarrow> micro list" where
  "handle_set_project_instructions p = [Send (SetProjectInstructions p)]"

definition handle_reset_state :: "micro list" where
  "handle_reset_state = [Send ResetState]"

definition handle_request_call :: "permission_request \<Rightarrow> micro list" where
  "handle_request_call rq = [CountUp, SendRequest rq]"

datatype handle_call =
    CallSetYolo bool
  | CallSetAuto bool
  | CallSetClassifier "llm_classifier option"
  | CallSetClassifierWithSideQuery llm_classifier bool
  | CallSetWired bool
  | CallSetTranscript "classifier_turn list"
  | CallSetInstructions "string option"
  | CallReset
  | CallRequest permission_request

fun call_body :: "string option \<Rightarrow> handle_call \<Rightarrow> micro list" where
  "call_body pin (CallSetYolo b) = handle_set_yolo_mode pin b"
| "call_body pin (CallSetAuto b) = handle_set_auto_mode b"
| "call_body pin (CallSetClassifier c) = handle_set_classifier c"
| "call_body pin (CallSetClassifierWithSideQuery c w) = handle_set_classifier_with_side_query c w"
| "call_body pin (CallSetWired w) = handle_set_llm_side_query_wired w"
| "call_body pin (CallSetTranscript ts) = handle_set_classifier_transcript ts"
| "call_body pin (CallSetInstructions p) = handle_set_project_instructions p"
| "call_body pin CallReset = handle_reset_state"
| "call_body pin (CallRequest rq) = handle_request_call rq"

text \<open>The handle that allows everything has no actor behind it.\<close>

datatype permission_handle = ActorHandle | AllowAllHandle

definition allow_all_request :: "permission_request \<Rightarrow> decision" where
  "allow_all_request rq = DAllow"

text \<open>
  The slot for the listener that hears of prompts: the first sender stays until its receiver is gone.
\<close>

definition set_user_prompt_notify :: "('t \<Rightarrow> bool) \<Rightarrow> 't \<Rightarrow> 't option \<Rightarrow> 't option" where
  "set_user_prompt_notify is_closed tx slot =
     (case slot of
        Some existing \<Rightarrow> if \<not> is_closed existing then slot else Some tx
      | None \<Rightarrow> Some tx)"

lemma first_listener_stays:
  "slot \<noteq> None \<Longrightarrow> \<not> is_closed (the slot) \<Longrightarrow> foldl (\<lambda>sl tx. set_user_prompt_notify is_closed tx sl) slot txs = slot"
  by (induction txs) (auto simp: set_user_prompt_notify_def)

subsection \<open>The two sides of the channel\<close>

datatype message =
    Command manager_command
  | Ask nat permission_request
  | Shutdown

datatype call_state =
    Idle
  | Calling "micro list"
  | Awaiting permission_request
  | Answered permission_request decision

record system =
  sy_manager :: "manager option"
  sy_stores :: "(mode_flag \<times> bool) list"
  sy_queue :: "message list"
  sy_flag :: "mode_flag \<Rightarrow> bool"
  sy_wired :: bool
  sy_in_flight :: "64 word"
  sy_calls :: "nat \<Rightarrow> call_state"
  sy_next :: nat
  sy_events :: "(permission_event \<times> 32 word) list"

definition is_yolo_mode :: "permission_handle \<Rightarrow> system \<Rightarrow> bool" where
  "is_yolo_mode h s = (case h of AllowAllHandle \<Rightarrow> True | ActorHandle \<Rightarrow> sy_flag s YoloFlag)"

definition is_auto_mode :: "permission_handle \<Rightarrow> system \<Rightarrow> bool" where
  "is_auto_mode h s = (case h of AllowAllHandle \<Rightarrow> False | ActorHandle \<Rightarrow> sy_flag s AutoFlag)"

definition has_llm_side_query :: "permission_handle \<Rightarrow> system \<Rightarrow> bool" where
  "has_llm_side_query h s = (case h of AllowAllHandle \<Rightarrow> False | ActorHandle \<Rightarrow> sy_wired s)"

definition mode_of :: "manager \<Rightarrow> mode_flag \<Rightarrow> bool" where
  "mode_of m f = (case f of YoloFlag \<Rightarrow> pm_yolo m | AutoFlag \<Rightarrow> pm_auto m)"

definition system_start :: "manager \<Rightarrow> system" where
  "system_start m =
     \<lparr>sy_manager = Some m, sy_stores = [], sy_queue = [],
      sy_flag = (\<lambda>f. case f of YoloFlag \<Rightarrow> pm_yolo_flag m | AutoFlag \<Rightarrow> pm_auto_flag m),
      sy_wired = False, sy_in_flight = 0, sy_calls = (\<lambda>_. Idle), sy_next = 0, sy_events = []\<rparr>"

text \<open>The stores a mode command makes the actor do, in their order.\<close>

definition actor_stores :: "string option \<Rightarrow> manager_command \<Rightarrow> (mode_flag \<times> bool) list" where
  "actor_stores pin c =
     (case c of
        SetYoloMode enabled \<Rightarrow>
          (let clamped = clamp_yolo enabled pin
           in (YoloFlag, clamped) # (if clamped then [(AutoFlag, False)] else []))
      | SetAutoMode enabled \<Rightarrow> (AutoFlag, enabled) # (if enabled then [(YoloFlag, False)] else [])
      | _ \<Rightarrow> [])"

definition manager_unavailable :: decision where
  "manager_unavailable = DReject ''permission manager unavailable''"

definition answer_lost :: decision where
  "answer_lost = DReject ''failed to receive permission decision''"

text \<open>
  A send to an actor that has ended fails; a request is then refused at once.  When the actor ends,
  the commands still queued are dropped, and with them the senders the pending requests wait for.
\<close>

definition run_micro :: "nat \<Rightarrow> micro \<Rightarrow> micro list \<Rightarrow> system \<Rightarrow> system" where
  "run_micro i mo rest s =
     (let s1 = s\<lparr>sy_calls := (sy_calls s)(i := Calling rest)\<rparr>
      in case mo of
           StoreFlag f b \<Rightarrow> s1\<lparr>sy_flag := (sy_flag s)(f := b)\<rparr>
         | StoreWired b \<Rightarrow> s1\<lparr>sy_wired := b\<rparr>
         | Send c \<Rightarrow>
             (if sy_manager s = None then s1 else s1\<lparr>sy_queue := sy_queue s @ [Command c]\<rparr>)
         | CountUp \<Rightarrow> s1\<lparr>sy_in_flight := sy_in_flight s + 1\<rparr>
         | SendRequest rq \<Rightarrow>
             (if sy_manager s = None
              then s\<lparr>sy_calls := (sy_calls s)(i := Answered rq manager_unavailable)\<rparr>
              else s\<lparr>sy_calls := (sy_calls s)(i := Awaiting rq), sy_queue := sy_queue s @ [Ask i rq]\<rparr>))"

definition lost :: "call_state \<Rightarrow> call_state" where
  "lost c = (case c of Awaiting rq \<Rightarrow> Answered rq answer_lost | _ \<Rightarrow> c)"

definition stop_actor :: "system \<Rightarrow> system" where
  "stop_actor s =
     s\<lparr>sy_manager := None, sy_stores := [], sy_queue := [], sy_calls := (\<lambda>i. lost (sy_calls s i))\<rparr>"

definition reply :: "nat \<Rightarrow> decision option \<Rightarrow> system \<Rightarrow> system" where
  "reply i res s =
     (case sy_calls s i of
        Awaiting rq \<Rightarrow>
          s\<lparr>sy_calls := (sy_calls s)(i := Answered rq (case res of Some d \<Rightarrow> d | None \<Rightarrow> answer_lost))\<rparr>
      | _ \<Rightarrow> s)"

definition take_message ::
    "'g manager_env \<Rightarrow> llm_classifier \<Rightarrow> request_io \<Rightarrow> manager \<Rightarrow> message \<Rightarrow> system \<Rightarrow> system" where
  "take_message E dc io m msg s =
     (case msg of
        Shutdown \<Rightarrow> stop_actor s
      | Command c \<Rightarrow>
          (case manager_step E dc c m of
             Panicked \<Rightarrow> stop_actor s
           | Returned (m', ev, es) \<Rightarrow>
               s\<lparr>sy_manager := Some m', sy_stores := actor_stores (me_yolo_pin E) c\<rparr>)
      | Ask i rq \<Rightarrow>
          (case handle_request E rq io m of
             Panicked \<Rightarrow> stop_actor s
           | Returned R \<Rightarrow>
               reply i (rr_resolution R)
                 (s\<lparr>sy_manager := Some (rr_manager R),
                    sy_events := sy_events s @ [(rr_event R, ucast (sy_in_flight s))]\<rparr>)))"

text \<open>
  What can happen next: a call of the handle starts, a started call does its next operation, the
  actor takes a command (the requester of a request may be gone), stores a flag, a request returns
  or is dropped by its task, the actor's task ends.
\<close>

datatype action =
    StartCall handle_call
  | DoMicro nat
  | TakeMessage request_io
  | DoStore
  | EndRequest nat
  | EndActor

definition closed_agrees :: "system \<Rightarrow> message \<Rightarrow> request_io \<Rightarrow> bool" where
  "closed_agrees s msg io =
     (case msg of
        Ask i rq \<Rightarrow> io_closed_at_dequeue io = (case sy_calls s i of Awaiting _ \<Rightarrow> False | _ \<Rightarrow> True)
      | _ \<Rightarrow> True)"

definition end_request :: "nat \<Rightarrow> system \<Rightarrow> system" where
  "end_request i s = s\<lparr>sy_calls := (sy_calls s)(i := Idle), sy_in_flight := sy_in_flight s - 1\<rparr>"

definition start_call :: "string option \<Rightarrow> handle_call \<Rightarrow> system \<Rightarrow> system" where
  "start_call pin c s =
     s\<lparr>sy_next := Suc (sy_next s), sy_calls := (sy_calls s)(sy_next s := Calling (call_body pin c))\<rparr>"

definition act ::
    "'g manager_env \<Rightarrow> llm_classifier \<Rightarrow> action \<Rightarrow> system \<Rightarrow> system option" where
  "act E dc a s =
     (case a of
        StartCall c \<Rightarrow> Some (start_call (me_yolo_pin E) c s)
      | DoMicro i \<Rightarrow> (case sy_calls s i of Calling (mo # rest) \<Rightarrow> Some (run_micro i mo rest s) | _ \<Rightarrow> None)
      | TakeMessage io \<Rightarrow>
          (case (sy_manager s, sy_stores s, sy_queue s) of
             (Some m, [], msg # q) \<Rightarrow>
               (if closed_agrees s msg io then Some (take_message E dc io m msg (s\<lparr>sy_queue := q\<rparr>)) else None)
           | _ \<Rightarrow> None)
      | DoStore \<Rightarrow>
          (case sy_stores s of
             (f, b) # r \<Rightarrow> Some (s\<lparr>sy_flag := (sy_flag s)(f := b), sy_stores := r\<rparr>)
           | _ \<Rightarrow> None)
      | EndRequest i \<Rightarrow>
          (case sy_calls s i of
             Awaiting _ \<Rightarrow> Some (end_request i s)
           | Answered _ _ \<Rightarrow> Some (end_request i s)
           | _ \<Rightarrow> None)
      | EndActor \<Rightarrow> Some (stop_actor s))"

fun acts :: "'g manager_env \<Rightarrow> llm_classifier \<Rightarrow> action list \<Rightarrow> system \<Rightarrow> system option" where
  "acts E dc [] s = Some s"
| "acts E dc (a # as) s = (case act E dc a s of Some s' \<Rightarrow> acts E dc as s' | None \<Rightarrow> None)"

inductive system_run :: "'g manager_env \<Rightarrow> llm_classifier \<Rightarrow> system \<Rightarrow> system \<Rightarrow> bool"
  for E dc s0 where
  none: "system_run E dc s0 s0"
| more: "\<lbrakk>system_run E dc s0 s; act E dc a s = Some s'\<rbrakk> \<Longrightarrow> system_run E dc s0 s'"

lemma run_trans: "system_run E dc s1 s2 \<Longrightarrow> system_run E dc s0 s1 \<Longrightarrow> system_run E dc s0 s2"
  by (induction rule: system_run.induct) (auto intro: system_run.more)

lemma acts_run: "acts E dc as s = Some s' \<Longrightarrow> system_run E dc s s'"
proof (induction as arbitrary: s)
  case (Cons a as)
  then obtain s1 where s1: "act E dc a s = Some s1" "system_run E dc s1 s'"
    by (auto split: option.splits)
  show ?case by (rule run_trans [OF s1(2) system_run.more [OF system_run.none s1(1)]])
qed (simp add: system_run.none)

text \<open>One action, by what it does.\<close>

lemma act_elim [consumes 1, case_names start store_flag store_wired send send_dead count ask ask_dead
    command request stop actor_store finish]:
  assumes "act E dc a s = Some s'"
    and "\<And>c. s' = start_call (me_yolo_pin E) c s \<Longrightarrow> P"
    and "\<And>i f b rest. sy_calls s i = Calling (StoreFlag f b # rest) \<Longrightarrow>
      s' = s\<lparr>sy_calls := (sy_calls s)(i := Calling rest), sy_flag := (sy_flag s)(f := b)\<rparr> \<Longrightarrow> P"
    and "\<And>i b rest. sy_calls s i = Calling (StoreWired b # rest) \<Longrightarrow>
      s' = s\<lparr>sy_calls := (sy_calls s)(i := Calling rest), sy_wired := b\<rparr> \<Longrightarrow> P"
    and "\<And>i c rest m. sy_calls s i = Calling (Send c # rest) \<Longrightarrow> sy_manager s = Some m \<Longrightarrow>
      s' = s\<lparr>sy_calls := (sy_calls s)(i := Calling rest), sy_queue := sy_queue s @ [Command c]\<rparr> \<Longrightarrow> P"
    and "\<And>i c rest. sy_calls s i = Calling (Send c # rest) \<Longrightarrow> sy_manager s = None \<Longrightarrow>
      s' = s\<lparr>sy_calls := (sy_calls s)(i := Calling rest)\<rparr> \<Longrightarrow> P"
    and "\<And>i rest. sy_calls s i = Calling (CountUp # rest) \<Longrightarrow>
      s' = s\<lparr>sy_calls := (sy_calls s)(i := Calling rest), sy_in_flight := sy_in_flight s + 1\<rparr> \<Longrightarrow> P"
    and "\<And>i rq rest m. sy_calls s i = Calling (SendRequest rq # rest) \<Longrightarrow> sy_manager s = Some m \<Longrightarrow>
      s' = s\<lparr>sy_calls := (sy_calls s)(i := Awaiting rq), sy_queue := sy_queue s @ [Ask i rq]\<rparr> \<Longrightarrow> P"
    and "\<And>i rq rest. sy_calls s i = Calling (SendRequest rq # rest) \<Longrightarrow> sy_manager s = None \<Longrightarrow>
      s' = s\<lparr>sy_calls := (sy_calls s)(i := Answered rq manager_unavailable)\<rparr> \<Longrightarrow> P"
    and "\<And>m c q m' ev es. sy_manager s = Some m \<Longrightarrow> sy_stores s = [] \<Longrightarrow> sy_queue s = Command c # q \<Longrightarrow>
      manager_step E dc c m = Returned (m', ev, es) \<Longrightarrow>
      s' = s\<lparr>sy_queue := q, sy_manager := Some m', sy_stores := actor_stores (me_yolo_pin E) c\<rparr> \<Longrightarrow> P"
    and "\<And>m i rq io q R. sy_manager s = Some m \<Longrightarrow> sy_stores s = [] \<Longrightarrow> sy_queue s = Ask i rq # q \<Longrightarrow>
      handle_request E rq io m = Returned R \<Longrightarrow>
      io_closed_at_dequeue io = (case sy_calls s i of Awaiting _ \<Rightarrow> False | _ \<Rightarrow> True) \<Longrightarrow>
      s' = reply i (rr_resolution R)
             (s\<lparr>sy_queue := q, sy_manager := Some (rr_manager R),
                sy_events := sy_events s @ [(rr_event R, ucast (sy_in_flight s))]\<rparr>) \<Longrightarrow> P"
    and "s' = stop_actor s \<Longrightarrow> P"
    and "\<And>f b r. sy_stores s = (f, b) # r \<Longrightarrow>
      s' = s\<lparr>sy_flag := (sy_flag s)(f := b), sy_stores := r\<rparr> \<Longrightarrow> P"
    and "\<And>i rq. sy_calls s i = Awaiting rq \<or> (\<exists>d. sy_calls s i = Answered rq d) \<Longrightarrow>
      s' = end_request i s \<Longrightarrow> P"
  shows P
proof (cases a)
  case (DoMicro i)
  then obtain mo rest where m: "sy_calls s i = Calling (mo # rest)" "s' = run_micro i mo rest s"
    using assms(1) by (auto simp: act_def split: call_state.splits list.splits)
  show P
  proof (cases mo)
    case (StoreFlag f b)
    show P by (rule assms(3) [of i f b rest]) (use m StoreFlag in \<open>simp_all add: run_micro_def\<close>)
  next
    case (StoreWired b)
    show P by (rule assms(4) [of i b rest]) (use m StoreWired in \<open>simp_all add: run_micro_def\<close>)
  next
    case (Send c)
    show P
    proof (cases "sy_manager s")
      case None
      show P by (rule assms(6) [of i c rest]) (use m Send None in \<open>simp_all add: run_micro_def\<close>)
    next
      case (Some mn)
      show P by (rule assms(5) [of i c rest mn]) (use m Send Some in \<open>simp_all add: run_micro_def\<close>)
    qed
  next
    case CountUp
    show P by (rule assms(7) [of i rest]) (use m CountUp in \<open>simp_all add: run_micro_def\<close>)
  next
    case (SendRequest rq)
    show P
    proof (cases "sy_manager s")
      case None
      show P by (rule assms(9) [of i rq rest]) (use m SendRequest None in \<open>simp_all add: run_micro_def\<close>)
    next
      case (Some mn)
      show P by (rule assms(8) [of i rq rest mn]) (use m SendRequest Some in \<open>simp_all add: run_micro_def\<close>)
    qed
  qed
next
  case (TakeMessage io)
  then obtain m msg q where t: "sy_manager s = Some m" "sy_stores s = []" "sy_queue s = msg # q"
    "closed_agrees s msg io" "s' = take_message E dc io m msg (s\<lparr>sy_queue := q\<rparr>)"
    using assms(1) by (auto simp: act_def split: option.splits list.splits if_splits)
  have stop: "stop_actor (s\<lparr>sy_queue := q\<rparr>) = stop_actor s" by (simp add: stop_actor_def)
  show P
  proof (cases msg)
    case (Command c)
    show P
    proof (cases "manager_step E dc c m")
      case (Returned x)
      obtain m' ev es where x: "x = (m', ev, es)" by (cases x)
      show P by (rule assms(10) [of m c q m' ev es])
          (use t Command Returned x in \<open>simp_all add: take_message_def\<close>)
    next
      case Panicked
      show P by (rule assms(12)) (use t Command Panicked stop in \<open>simp add: take_message_def\<close>)
    qed
  next
    case (Ask i rq)
    show P
    proof (cases "handle_request E rq io m")
      case (Returned R)
      show P by (rule assms(11) [of m i rq q io R])
          (use t Ask Returned in \<open>simp_all add: take_message_def closed_agrees_def\<close>)
    next
      case Panicked
      show P by (rule assms(12)) (use t Ask Panicked stop in \<open>simp add: take_message_def\<close>)
    qed
  next
    case Shutdown
    show P by (rule assms(12)) (use t Shutdown stop in \<open>simp add: take_message_def\<close>)
  qed
next
  case (StartCall c)
  show P by (rule assms(2) [of c]) (use assms(1) StartCall in \<open>simp add: act_def\<close>)
next
  case DoStore
  then obtain f b r where "sy_stores s = (f, b) # r" "s' = s\<lparr>sy_flag := (sy_flag s)(f := b), sy_stores := r\<rparr>"
    using assms(1) by (auto simp: act_def split: list.splits)
  then show P by (rule assms(13))
next
  case (EndRequest i)
  then obtain rq where "sy_calls s i = Awaiting rq \<or> (\<exists>d. sy_calls s i = Answered rq d)" "s' = end_request i s"
    using assms(1) by (auto simp: act_def split: call_state.splits)
  then show P by (rule assms(14))
next
  case EndActor
  show P by (rule assms(12)) (use assms(1) EndActor in \<open>simp add: act_def\<close>)
qed

subsection \<open>Requests and their channels\<close>

text \<open>The requests waiting in the command channel, the calls that have yet to send theirs.\<close>

definition asked :: "message list \<Rightarrow> nat list" where
  "asked q = concat (map (\<lambda>msg. case msg of Ask i rq \<Rightarrow> [i] | _ \<Rightarrow> []) q)"

definition sends :: "call_state \<Rightarrow> permission_request set" where
  "sends c = (case c of Calling ms \<Rightarrow> {rq. SendRequest rq \<in> set ms} | _ \<Rightarrow> {})"

lemma asked_simps [simp]:
  "asked [] = []" "asked (Ask i rq # q) = i # asked q" "asked (Command c # q) = asked q"
  "asked (q @ q') = asked q @ asked q'"
  by (simp_all add: asked_def)

lemma asked_mem: "Ask i rq \<in> set q \<Longrightarrow> i \<in> set (asked q)"
  by (force simp: asked_def)

lemma sends_simps [simp]:
  "sends Idle = {}" "sends (Awaiting rq) = {}" "sends (Answered rq d) = {}"
  "sends (Calling []) = {}" "sends (Calling (SendRequest rq # ms)) = insert rq (sends (Calling ms))"
  "sends (Calling (StoreFlag f b # ms)) = sends (Calling ms)" "sends (Calling (StoreWired b # ms)) = sends (Calling ms)"
  "sends (Calling (Send c # ms)) = sends (Calling ms)" "sends (Calling (CountUp # ms)) = sends (Calling ms)"
  "sends (lost st) = sends st"
  by (auto simp: sends_def lost_def split: call_state.splits)

lemma reply_simps [simp]:
  "sy_manager (reply i r s) = sy_manager s" "sy_stores (reply i r s) = sy_stores s"
  "sy_queue (reply i r s) = sy_queue s" "sy_flag (reply i r s) = sy_flag s"
  "sy_in_flight (reply i r s) = sy_in_flight s" "sy_next (reply i r s) = sy_next s"
  "sy_events (reply i r s) = sy_events s" "sends (sy_calls (reply i r s) j) = sends (sy_calls s j)"
  "j \<noteq> i \<Longrightarrow> sy_calls (reply i r s) j = sy_calls s j"
  by (auto simp: reply_def split: call_state.splits)

lemma reply_awaiting [simp]:
  "sy_calls (reply i r s) j = Awaiting rq \<longleftrightarrow> j \<noteq> i \<and> sy_calls s j = Awaiting rq"
  by (auto simp: reply_def split: call_state.splits)

text \<open>
  A call number that is spent will send no request: it has been given out and the call has sent its
  request, or has none.  The queue holds each of its requests once, under a spent number, and a call
  that waits for an answer has its own request there.
\<close>

definition spent :: "system \<Rightarrow> nat \<Rightarrow> bool" where
  "spent s i \<longleftrightarrow> i < sy_next s \<and> sends (sy_calls s i) = {}"

definition channel_ok :: "system \<Rightarrow> bool" where
  "channel_ok s \<longleftrightarrow>
     distinct (asked (sy_queue s))
     \<and> (\<forall>i \<in> set (asked (sy_queue s)). spent s i)
     \<and> (\<forall>i rq rq'. Ask i rq \<in> set (sy_queue s) \<longrightarrow> sy_calls s i = Awaiting rq' \<longrightarrow> rq' = rq)
     \<and> (\<forall>i rq. sy_calls s i = Awaiting rq \<longrightarrow> Ask i rq \<in> set (sy_queue s))"

lemma spent_kept: "act E dc a s = Some s' \<Longrightarrow> spent s i \<Longrightarrow> spent s' i"
  by (erule act_elim) (auto simp: spent_def start_call_def end_request_def stop_actor_def)

lemma channel_ok_start: "channel_ok (system_start m)"
  by (simp add: channel_ok_def system_start_def)

lemma channel_ok_kept:
  assumes "act E dc a s = Some s'" and "channel_ok s" and f: "\<forall>i \<ge> sy_next s. sy_calls s i = Idle"
  shows "channel_ok s'"
proof -
  have sp: "\<forall>i \<in> set (asked (sy_queue s)). spent s' i"
    using assms(2) spent_kept [OF assms(1)] by (auto simp: channel_ok_def)
  show ?thesis using assms(1)
  proof (cases rule: act_elim)
    case (start c)
    then show ?thesis using assms(2) sp f by (auto simp: channel_ok_def start_call_def spent_def dest: asked_mem)
  next
    case (ask i rq rest m)
    have "\<not> spent s i" using ask(1) by (simp add: spent_def)
    then have n: "i \<notin> set (asked (sy_queue s))" using assms(2) by (auto simp: channel_ok_def)
    have "i < sy_next s" using f ask(1) by (metis call_state.distinct(1) not_less)
    then show ?thesis using ask assms(2) sp n
      by (auto simp: channel_ok_def spent_def dest: asked_mem)
  next
    case (request m i rq io q R)
    then show ?thesis using assms(2) sp
      by (auto simp: channel_ok_def dest: asked_mem)
  qed (use assms(2) sp in \<open>auto simp: channel_ok_def end_request_def stop_actor_def lost_def split: call_state.splits\<close>)
qed

subsection \<open>The calls in progress\<close>

definition writes_flag :: "string option \<Rightarrow> manager_command \<Rightarrow> mode_flag \<Rightarrow> bool" where
  "writes_flag pin c f \<longleftrightarrow> f \<in> fst ` set (actor_stores pin c)"

definition plain :: "manager_command \<Rightarrow> bool" where
  "plain c \<longleftrightarrow> (case c of Request _ _ \<Rightarrow> False | _ \<Rightarrow> True)"

text \<open>
  What is left of a call: a flag is stored before the command that makes the actor store it too is
  sent, always-approve is not stored under a pin, and a request is counted, sent and nothing else.
\<close>

fun body_ok :: "string option \<Rightarrow> micro list \<Rightarrow> bool" where
  "body_ok pin [] \<longleftrightarrow> True"
| "body_ok pin (StoreFlag f b # rest) \<longleftrightarrow>
     body_ok pin rest \<and> (\<exists>c. Send c \<in> set rest \<and> writes_flag pin c f) \<and> (pin \<noteq> None \<longrightarrow> f = YoloFlag \<longrightarrow> \<not> b)"
| "body_ok pin (StoreWired b # rest) \<longleftrightarrow> body_ok pin rest \<and> (rest = [] \<or> (\<exists>c. rest = [Send c]))"
| "body_ok pin (Send c # rest) \<longleftrightarrow> rest = [] \<and> plain c"
| "body_ok pin (CountUp # rest) \<longleftrightarrow> (\<exists>rq. rest = [SendRequest rq])"
| "body_ok pin (SendRequest rq # rest) \<longleftrightarrow> rest = []"

lemma call_body_ok: "body_ok pin (call_body pin c)"
  by (cases c) (auto simp: handle_set_yolo_mode_def handle_set_auto_mode_def handle_set_classifier_def
      handle_set_classifier_with_side_query_def handle_set_llm_side_query_wired_def
      handle_set_classifier_transcript_def handle_set_project_instructions_def handle_reset_state_def
      handle_request_call_def writes_flag_def actor_stores_def plain_def clamp_yolo_def Let_def)

text \<open>A request between the increment and the decrement of the counter.\<close>

definition live :: "call_state \<Rightarrow> bool" where
  "live st \<longleftrightarrow> (case st of
     Idle \<Rightarrow> False | Calling ms \<Rightarrow> (\<exists>rq. ms = [SendRequest rq]) | Awaiting _ \<Rightarrow> True | Answered _ _ \<Rightarrow> True)"

lemma live_simps [simp]:
  "\<not> live Idle" "live (Awaiting rq)" "live (Answered rq d)" "live (Calling [SendRequest rq])"
  "\<not> live (Calling [])" "\<not> live (Calling (CountUp # ms))" "\<not> live (Calling (StoreFlag f b # ms))"
  "\<not> live (Calling (StoreWired b # ms))" "\<not> live (Calling (Send c # ms))" "live (lost st) = live st"
  by (auto simp: live_def lost_def split: call_state.splits)

lemma live_reply [simp]: "live (sy_calls (reply i r s) j) = live (sy_calls s j)"
  by (auto simp: reply_def split: call_state.splits)

lemma live_body: "\<not> live (Calling (call_body pin c))"
  by (cases c) (auto simp: live_def handle_set_yolo_mode_def handle_set_auto_mode_def handle_set_classifier_def
      handle_set_classifier_with_side_query_def handle_set_llm_side_query_wired_def
      handle_set_classifier_transcript_def handle_set_project_instructions_def handle_reset_state_def
      handle_request_call_def Let_def)

lemma live_rest:
  "body_ok pin (StoreFlag f b # rest) \<Longrightarrow> \<not> live (Calling rest)"
  "body_ok pin (StoreWired b # rest) \<Longrightarrow> \<not> live (Calling rest)"
  by (auto simp: live_def)

definition live_calls :: "system \<Rightarrow> nat set" where
  "live_calls s = {i. live (sy_calls s i)}"

definition calls_ok :: "string option \<Rightarrow> system \<Rightarrow> bool" where
  "calls_ok pin s \<longleftrightarrow>
     (\<forall>i \<ge> sy_next s. sy_calls s i = Idle)
     \<and> (\<forall>i ms. sy_calls s i = Calling ms \<longrightarrow> body_ok pin ms)
     \<and> (\<forall>c. Command c \<in> set (sy_queue s) \<longrightarrow> plain c)
     \<and> sy_in_flight s = of_nat (card (live_calls s))"

lemma calls_ok_body: "calls_ok pin s \<Longrightarrow> sy_calls s i = Calling ms \<Longrightarrow> body_ok pin ms"
  by (simp add: calls_ok_def)

lemma calls_ok_finite: "calls_ok pin s \<Longrightarrow> finite (live_calls s)"
  by (rule finite_subset [of _ "{..< sy_next s}"]) (auto simp: calls_ok_def live_calls_def not_le [symmetric])

lemma live_set_update:
  "{j. live ((c(i := st)) j)} = (if live st then insert i {j. live (c j)} else {j. live (c j)} - {i})"
  by auto

lemma in_flight_same:
  "(\<And>j. live (sy_calls s' j) = live (sy_calls s j)) \<Longrightarrow> card (live_calls s') = card (live_calls s)"
  by (simp add: live_calls_def)

lemma calls_ok_start: "calls_ok pin (system_start m)"
  by (simp add: calls_ok_def system_start_def live_calls_def)

lemma calls_ok_kept:
  assumes "act E dc a s = Some s'" and ok: "calls_ok (me_yolo_pin E) s"
  shows "calls_ok (me_yolo_pin E) s'"
  using assms(1)
proof (cases rule: act_elim)
  case (start c)
  have "\<not> live (sy_calls s (sy_next s))" using ok by (simp add: calls_ok_def)
  then have "live_calls s' = live_calls s"
    using start live_body [of "me_yolo_pin E" c] by (auto simp: live_calls_def start_call_def)
  then show ?thesis using ok start by (auto simp: calls_ok_def start_call_def call_body_ok)
next
  case (store_flag i f b rest)
  have b: "body_ok (me_yolo_pin E) (StoreFlag f b # rest)" using calls_ok_body [OF ok store_flag(1)] by simp
  have "card (live_calls s') = card (live_calls s)"
    by (rule in_flight_same) (use live_rest(1) [OF b] store_flag in auto)
  then show ?thesis using ok store_flag b by (auto simp: calls_ok_def)
next
  case (store_wired i b rest)
  have b: "body_ok (me_yolo_pin E) (StoreWired b # rest)" using calls_ok_body [OF ok store_wired(1)] by simp
  have "card (live_calls s') = card (live_calls s)"
    by (rule in_flight_same) (use live_rest(2) [OF b] store_wired in auto)
  then show ?thesis using ok store_wired b by (auto simp: calls_ok_def)
next
  case (send i c rest m)
  have b: "body_ok (me_yolo_pin E) (Send c # rest)" using calls_ok_body [OF ok send(1)] by simp
  have "card (live_calls s') = card (live_calls s)"
    by (rule in_flight_same) (use b send in auto)
  then show ?thesis using ok send b by (auto simp: calls_ok_def)
next
  case (send_dead i c rest)
  have b: "body_ok (me_yolo_pin E) (Send c # rest)" using calls_ok_body [OF ok send_dead(1)] by simp
  have "card (live_calls s') = card (live_calls s)"
    by (rule in_flight_same) (use b send_dead in auto)
  then show ?thesis using ok send_dead b by (auto simp: calls_ok_def)
next
  case (count i rest)
  have b: "body_ok (me_yolo_pin E) (CountUp # rest)" using calls_ok_body [OF ok count(1)] by simp
  then have "live_calls s' = insert i (live_calls s)" using count by (auto simp: live_calls_def)
  moreover have "i \<notin> live_calls s" using count(1) by (simp add: live_calls_def)
  ultimately have "card (live_calls s') = Suc (card (live_calls s))" using calls_ok_finite [OF ok] by simp
  then show ?thesis using ok count b by (auto simp: calls_ok_def)
next
  case (ask i rq rest m)
  have b: "rest = []" using calls_ok_body [OF ok ask(1)] by simp
  have "card (live_calls s') = card (live_calls s)"
    by (rule in_flight_same) (use b ask in auto)
  then show ?thesis using ok ask b by (auto simp: calls_ok_def)
next
  case (ask_dead i rq rest)
  have b: "rest = []" using calls_ok_body [OF ok ask_dead(1)] by simp
  have "card (live_calls s') = card (live_calls s)"
    by (rule in_flight_same) (use b ask_dead in auto)
  then show ?thesis using ok ask_dead b by (auto simp: calls_ok_def)
next
  case (finish i rq)
  have "i \<in> live_calls s" using finish(1) by (auto simp: live_calls_def)
  moreover have "live_calls s' = live_calls s - {i}" using finish by (auto simp: live_calls_def end_request_def)
  ultimately have "card (live_calls s) = Suc (card (live_calls s'))"
    using calls_ok_finite [OF ok] by (metis card.remove)
  moreover have "sy_in_flight s = of_nat (card (live_calls s))" using ok by (simp add: calls_ok_def)
  ultimately have "sy_in_flight s - 1 = of_nat (card (live_calls s'))" by simp
  moreover have "sy_in_flight s' = sy_in_flight s - 1" using finish(2) by (simp add: end_request_def)
  ultimately have n: "sy_in_flight s' = of_nat (card (live_calls s'))" by simp
  show ?thesis using ok n finish(2) unfolding calls_ok_def by (auto simp: end_request_def)
next
  case (command m c q m' ev es)
  have "card (live_calls s') = card (live_calls s)" by (rule in_flight_same) (use command in auto)
  then show ?thesis using ok command by (auto simp: calls_ok_def)
next
  case (request m i rq io q R)
  have "card (live_calls s') = card (live_calls s)" by (rule in_flight_same) (use request in auto)
  moreover have "sy_calls s' j = Idle" if "sy_calls s j = Idle" for j
    using that request by (auto simp: reply_def split: call_state.splits)
  moreover have "sy_calls s j = Calling ms" if "sy_calls s' j = Calling ms" for j ms
    using that request by (auto simp: reply_def split: call_state.splits if_splits)
  moreover have "sy_in_flight s' = sy_in_flight s" "sy_next s' = sy_next s" "sy_queue s = Ask i rq # sy_queue s'"
    using request by simp_all
  ultimately show ?thesis using ok unfolding calls_ok_def by (metis list.set_intros(2))
next
  case stop
  have "card (live_calls s') = card (live_calls s)" by (rule in_flight_same) (use stop in \<open>simp add: stop_actor_def\<close>)
  then show ?thesis using ok stop
    by (auto simp: calls_ok_def stop_actor_def lost_def split: call_state.splits)
next
  case (actor_store f b r)
  have "card (live_calls s') = card (live_calls s)" by (rule in_flight_same) (use actor_store in auto)
  then show ?thesis using ok actor_store by (auto simp: calls_ok_def)
qed

subsection \<open>The flags follow the actor\<close>

text \<open>
  What an actor that stores its modes into flags promises: the stores a command asks for carry the
  modes the actor has after it, and a mode without a store has not changed.
\<close>

locale mode_actor =
  fixes step :: "'m \<Rightarrow> 'c \<Rightarrow> 'm \<Rightarrow> bool"
    and modes_of :: "'m \<Rightarrow> mode_flag \<Rightarrow> bool"
    and stores :: "'c \<Rightarrow> (mode_flag \<times> bool) list"
  assumes stores_are_modes: "step m c m' \<Longrightarrow> (f, b) \<in> set (stores c) \<Longrightarrow> b = modes_of m' f"
    and mode_kept: "step m c m' \<Longrightarrow> f \<notin> fst ` set (stores c) \<Longrightarrow> modes_of m' f = modes_of m f"
begin

lemma mode_after: "step m c m' \<Longrightarrow> modes_of m' f = (case map_of (stores c) f of Some b \<Rightarrow> b | None \<Rightarrow> modes_of m f)"
  by (auto split: option.split dest: stores_are_modes mode_kept map_of_SomeD simp: map_of_eq_None_iff)

end

definition command_step ::
    "'g manager_env \<Rightarrow> llm_classifier \<Rightarrow> manager \<Rightarrow> manager_command \<Rightarrow> manager \<Rightarrow> bool" where
  "command_step E dc m c m' \<longleftrightarrow> (\<exists>ev es. manager_step E dc c m = Returned (m', ev, es))"

lemma request_keeps_modes: "handle_request E rq io m = Returned R \<Longrightarrow> mode_of (rr_manager R) f = mode_of m f"
  by (drule handle_request_keeps) (auto simp: request_keeps_def modes_def mode_of_def split: mode_flag.split)

interpretation permission_actor: mode_actor "command_step E dc" mode_of "actor_stores (me_yolo_pin E)"
proof
  fix m c m' f b
  assume "command_step E dc m c m'" and "(f, b) \<in> set (actor_stores (me_yolo_pin E) c)"
  then show "b = mode_of m' f"
    by (auto simp: command_step_def manager_step_def silent_step_def actor_stores_def mode_of_def
        set_yolo_mode_def set_auto_mode_def Let_def split: manager_command.splits if_splits)
next
  fix m c m' f
  assume st: "command_step E dc m c m'" and n: "f \<notin> fst ` set (actor_stores (me_yolo_pin E) c)"
  show "mode_of m' f = mode_of m f"
    using st n
    by (cases c) (auto simp: command_step_def manager_step_def silent_step_def actor_stores_def mode_of_def
        set_yolo_mode_def set_auto_mode_def reset_state_def Let_def
        split: mode_flag.splits if_splits run.splits dest: request_keeps_modes [where f = f])
qed

text \<open>A flag is about to be stored: by a call in progress, by a queued command, by the actor.\<close>

definition about_to_store :: "string option \<Rightarrow> system \<Rightarrow> mode_flag \<Rightarrow> bool" where
  "about_to_store pin s f \<longleftrightarrow>
     (\<exists>i ms c. sy_calls s i = Calling ms \<and> Send c \<in> set ms \<and> writes_flag pin c f)
     \<or> (\<exists>c. Command c \<in> set (sy_queue s) \<and> writes_flag pin c f)
     \<or> f \<in> fst ` set (sy_stores s)"

definition flags_ok :: "'g manager_env \<Rightarrow> system \<Rightarrow> bool" where
  "flags_ok E s \<longleftrightarrow>
     (\<forall>m. sy_manager s = Some m \<longrightarrow>
        manager_ok E m
        \<and> (\<forall>f. sy_flag s f = mode_of m f \<or> about_to_store (me_yolo_pin E) s f)
        \<and> (\<forall>(f, b) \<in> set (sy_stores s). b = mode_of m f))
     \<and> (sy_manager s = None \<longrightarrow> sy_stores s = [])
     \<and> (me_yolo_pin E \<noteq> None \<longrightarrow> \<not> sy_flag s YoloFlag)"

lemma about_by_call:
  "sy_calls s i = Calling ms \<Longrightarrow> Send c \<in> set ms \<Longrightarrow> writes_flag pin c f \<Longrightarrow> about_to_store pin s f"
  by (auto simp: about_to_store_def)

text \<open>Replacing what is left of one call keeps what is announced, if no announcement of it is lost.\<close>

lemma about_kept:
  assumes "about_to_store pin s f"
    and "\<And>j ms c. sy_calls s j = Calling ms \<Longrightarrow> Send c \<in> set ms \<Longrightarrow> writes_flag pin c f \<Longrightarrow>
      (\<exists>ms'. sy_calls s' j = Calling ms' \<and> Send c \<in> set ms') \<or> Command c \<in> set (sy_queue s')"
    and "\<And>c. Command c \<in> set (sy_queue s) \<Longrightarrow> writes_flag pin c f \<Longrightarrow> Command c \<in> set (sy_queue s')"
    and "f \<in> fst ` set (sy_stores s) \<Longrightarrow> f \<in> fst ` set (sy_stores s')"
  shows "about_to_store pin s' f"
  using assms unfolding about_to_store_def by blast

lemma flags_ok_start:
  assumes "manager_ok E m"
  shows "flags_ok E (system_start m)"
proof -
  have "sy_flag (system_start m) f = mode_of m f" for f
    using assms by (cases f) (simp_all add: system_start_def mode_of_def manager_ok_def)
  moreover have "mode_of m YoloFlag = pm_yolo m" by (simp add: mode_of_def)
  ultimately show ?thesis using assms by (auto simp: flags_ok_def system_start_def manager_ok_def)
qed

lemma flags_ok_alive:
  assumes "flags_ok E s" and "sy_manager s = Some m" and "sy_manager s' = Some m" and "sy_stores s' = sy_stores s"
    and "me_yolo_pin E \<noteq> None \<Longrightarrow> \<not> sy_flag s' YoloFlag"
    and "\<And>f. sy_flag s' f = sy_flag s f \<or> about_to_store (me_yolo_pin E) s' f"
    and "\<And>f. about_to_store (me_yolo_pin E) s f \<Longrightarrow> about_to_store (me_yolo_pin E) s' f"
  shows "flags_ok E s'"
  using assms unfolding flags_ok_def by (metis option.distinct(1) option.inject)

text \<open>What a step of a call does, to the flags and to what is announced.\<close>

lemma flags_ok_call_step:
  assumes ok: "flags_ok E s" and calls: "calls_ok (me_yolo_pin E) s"
    and i: "sy_calls s i = Calling (mo # rest)"
    and s': "sy_manager s' = sy_manager s" "sy_stores s' = sy_stores s" "sy_calls s' = (sy_calls s)(i := st)"
    and st: "st = Calling rest \<or> (\<forall>ms. st \<noteq> Calling ms) \<and> rest = []"
    and q: "set (sy_queue s) \<subseteq> set (sy_queue s')" "\<And>c m. mo = Send c \<Longrightarrow> sy_manager s = Some m \<Longrightarrow> Command c \<in> set (sy_queue s')"
    and fl: "case mo of StoreFlag f b \<Rightarrow> sy_flag s' = (sy_flag s)(f := b) | _ \<Rightarrow> sy_flag s' = sy_flag s"
  shows "flags_ok E s'"
proof -
  have b: "body_ok (me_yolo_pin E) (mo # rest)" using calls_ok_body [OF calls i] .
  have pin: "\<not> sy_flag s' YoloFlag" if "me_yolo_pin E \<noteq> None"
    using ok b fl that by (cases mo) (auto simp: flags_ok_def split: if_splits)
  show ?thesis
  proof (cases "sy_manager s")
    case None
    then show ?thesis using ok pin s'(1,2) by (auto simp: flags_ok_def)
  next
    case (Some m)
    have kept: "about_to_store (me_yolo_pin E) s' f" if "about_to_store (me_yolo_pin E) s f" for f
      using that
    proof (rule about_kept)
      fix j ms c
      assume j: "sy_calls s j = Calling ms" "Send c \<in> set ms"
      show "(\<exists>ms'. sy_calls s' j = Calling ms' \<and> Send c \<in> set ms') \<or> Command c \<in> set (sy_queue s')"
        using j i s'(3) st q(2) Some by (cases "j = i") auto
    qed (use q(1) s'(2) in auto)
    have "sy_flag s' f = sy_flag s f \<or> about_to_store (me_yolo_pin E) s' f" for f
    proof (cases mo)
      case (StoreFlag g v)
      then obtain c where c: "Send c \<in> set rest" "writes_flag (me_yolo_pin E) c g" using b by auto
      then have "st = Calling rest" using st by auto
      then have "about_to_store (me_yolo_pin E) s' g" using about_by_call [of s' i rest c] c s'(3) by simp
      then show ?thesis using fl StoreFlag by auto
    qed (use fl in auto)
    then show ?thesis using flags_ok_alive [OF ok Some _ s'(2) pin] kept s'(1) Some by simp
  qed
qed

lemma flags_ok_kept:
  assumes "act E dc a s = Some s'" and ok: "flags_ok E s" and calls: "calls_ok (me_yolo_pin E) s"
  shows "flags_ok E s'"
  using assms(1)
proof (cases rule: act_elim)
  case (start c)
  have i: "sy_calls s (sy_next s) = Idle" using calls by (simp add: calls_ok_def)
  show ?thesis
  proof (cases "sy_manager s")
    case None
    then show ?thesis using ok start by (auto simp: flags_ok_def start_call_def)
  next
    case (Some m)
    have "about_to_store (me_yolo_pin E) s' f" if "about_to_store (me_yolo_pin E) s f" for f
      using that by (rule about_kept) (use start i in \<open>auto simp: start_call_def\<close>)
    then show ?thesis
      using flags_ok_alive [OF ok Some] Some start ok by (auto simp: start_call_def flags_ok_def)
  qed
next
  case (store_flag i f b rest)
  then show ?thesis using flags_ok_call_step [OF ok calls store_flag(1)] by simp
next
  case (store_wired i b rest)
  then show ?thesis using flags_ok_call_step [OF ok calls store_wired(1)] by simp
next
  case (send i c rest m)
  show ?thesis by (rule flags_ok_call_step [OF ok calls send(1)]) (use send in auto)
next
  case (send_dead i c rest)
  show ?thesis by (rule flags_ok_call_step [OF ok calls send_dead(1)]) (use send_dead in auto)
next
  case (count i rest)
  then show ?thesis using flags_ok_call_step [OF ok calls count(1)] by simp
next
  case (ask i rq rest m)
  have "rest = []" using calls_ok_body [OF calls ask(1)] by simp
  then show ?thesis using flags_ok_call_step [OF ok calls ask(1), of s' "Awaiting rq"] ask by auto
next
  case (ask_dead i rq rest)
  have "rest = []" using calls_ok_body [OF calls ask_dead(1)] by simp
  then show ?thesis
    using flags_ok_call_step [OF ok calls ask_dead(1), of s' "Answered rq manager_unavailable"] ask_dead by auto
next
  case (command m c q m' ev es)
  have m: "manager_ok E m" using ok command(1) by (simp add: flags_ok_def)
  have st: "command_step E dc m c m'" using command(4) by (auto simp: command_step_def)
  have "sy_flag s' f = mode_of m' f \<or> about_to_store (me_yolo_pin E) s' f" for f
  proof (cases "writes_flag (me_yolo_pin E) c f")
    case True
    then show ?thesis using command(5) by (simp add: about_to_store_def writes_flag_def)
  next
    case False
    then have "mode_of m' f = mode_of m f" using permission_actor.mode_kept [OF st] by (simp add: writes_flag_def)
    moreover have "about_to_store (me_yolo_pin E) s' f" if "about_to_store (me_yolo_pin E) s f"
      using that by (auto simp: about_to_store_def command False)
    ultimately show ?thesis using ok command(1,5) by (auto simp: flags_ok_def)
  qed
  moreover have "\<forall>(f, b) \<in> set (sy_stores s'). b = mode_of m' f"
    using permission_actor.stores_are_modes [OF st] command(5) by auto
  ultimately show ?thesis
    using ok command(5) manager_step_ok [OF command(4) m] by (auto simp: flags_ok_def)
next
  case (request m i rq io q R)
  have m: "manager_ok E m" using ok request(1) by (simp add: flags_ok_def)
  have "manager_step E dc (Request rq io) m = Returned (rr_manager R, Some (rr_event R), rr_effects R)"
    using request(4) by (simp add: manager_step_def)
  then have m': "manager_ok E (rr_manager R)" using manager_step_ok [OF _ m] by blast
  have "about_to_store (me_yolo_pin E) s' f" if "about_to_store (me_yolo_pin E) s f" for f
    using that
  proof (rule about_kept)
    fix j ms c
    assume "sy_calls s j = Calling ms" "Send c \<in> set ms"
    then show "(\<exists>ms'. sy_calls s' j = Calling ms' \<and> Send c \<in> set ms') \<or> Command c \<in> set (sy_queue s')"
      using request by (cases "j = i") (auto simp: reply_def split: call_state.splits)
  qed (use request in auto)
  moreover have "sy_manager s' = Some (rr_manager R)" "sy_stores s' = []" "sy_flag s' = sy_flag s"
    using request by simp_all
  ultimately show ?thesis
    using ok request(1,2) m' request_keeps_modes [OF request(4)] by (auto simp: flags_ok_def)
next
  case stop
  then show ?thesis using ok by (auto simp: flags_ok_def stop_actor_def)
next
  case (actor_store f b r)
  show ?thesis
  proof (cases "sy_manager s")
    case None
    then show ?thesis using ok actor_store by (auto simp: flags_ok_def)
  next
    case (Some m)
    have b: "b = mode_of m f" "manager_ok E m" using ok Some actor_store(1) by (auto simp: flags_ok_def)
    have "about_to_store (me_yolo_pin E) s' g" if "about_to_store (me_yolo_pin E) s g" and "g \<noteq> f" for g
      using that by (auto simp: about_to_store_def actor_store)
    then show ?thesis
      using ok Some actor_store b by (auto simp: flags_ok_def manager_ok_def mode_of_def)
  qed
next
  case (finish i rq)
  show ?thesis
  proof (cases "sy_manager s")
    case None
    then show ?thesis using ok finish by (auto simp: flags_ok_def end_request_def)
  next
    case (Some m)
    have "about_to_store (me_yolo_pin E) s' f" if "about_to_store (me_yolo_pin E) s f" for f
      using that by (rule about_kept) (use finish in \<open>auto simp: end_request_def\<close>)
    then show ?thesis
      using flags_ok_alive [OF ok Some] Some finish(2) ok by (auto simp: end_request_def flags_ok_def)
  qed
qed

text \<open>What every reachable state has, from the state the manager is spawned in.\<close>

lemma reachable_ok:
  assumes "system_run E dc (system_start m) s" and "manager_ok E m"
  shows "calls_ok (me_yolo_pin E) s \<and> channel_ok s \<and> flags_ok E s"
  using assms
proof (induction rule: system_run.induct)
  case none
  then show ?case using calls_ok_start channel_ok_start flags_ok_start by blast
next
  case (more s a s')
  then show ?case
    using calls_ok_kept channel_ok_kept [OF more.hyps(2)] flags_ok_kept by (metis calls_ok_def)
qed

subsection \<open>The order of commands and answers\<close>

definition serial :: "'g manager_env \<Rightarrow> llm_classifier \<Rightarrow> manager \<Rightarrow> system \<Rightarrow> bool" where
  "serial E dc m0 s \<longleftrightarrow>
     (\<exists>m. manager_run E dc m0 (map fst (sy_events s)) m \<and> sy_manager s \<in> {None, Some m})"

lemma serial_kept:
  assumes "act E dc a s = Some s'" and ok: "serial E dc m0 s" and calls: "calls_ok (me_yolo_pin E) s"
  shows "serial E dc m0 s'"
  using assms(1)
proof (cases rule: act_elim)
  case (command m c q m' ev es)
  have "plain c" using calls command(3) by (simp add: calls_ok_def)
  then have "\<nexists>rq io. c = Request rq io" by (auto simp: plain_def)
  from manager_step_silent [OF command(4) this] have ev: "ev = None" by blast
  have "manager_run E dc m0 (map fst (sy_events s)) m" using ok command(1) by (auto simp: serial_def)
  from manager_run.step [OF this command(4)] show ?thesis using command(5) ev by (simp add: serial_def)
next
  case (request m i rq io q R)
  have "manager_step E dc (Request rq io) m = Returned (rr_manager R, Some (rr_event R), rr_effects R)"
    using request(4) by (simp add: manager_step_def)
  moreover have "manager_run E dc m0 (map fst (sy_events s)) m" using ok request(1) by (auto simp: serial_def)
  ultimately have "manager_run E dc m0 (map fst (sy_events s) @ [rr_event R]) (rr_manager R)"
    by (auto dest: manager_run.step)
  then show ?thesis using request by (simp add: serial_def)
qed (use ok in \<open>auto simp: serial_def start_call_def stop_actor_def end_request_def\<close>)

text \<open>
  An answer is a decision of the actor on that very request, made in a state of its serial run while
  the requester was waiting, or one of the two refusals of the handle.
\<close>

definition actors_answer ::
    "'g manager_env \<Rightarrow> llm_classifier \<Rightarrow> manager \<Rightarrow> permission_request \<Rightarrow> decision \<Rightarrow> bool" where
  "actors_answer E dc m0 rq d \<longleftrightarrow>
     (\<exists>evs m io R. manager_run E dc m0 evs m \<and> handle_request E rq io m = Returned R
        \<and> rr_resolution R = Some d \<and> \<not> io_closed_at_dequeue io)"

definition answers_ok :: "'g manager_env \<Rightarrow> llm_classifier \<Rightarrow> manager \<Rightarrow> system \<Rightarrow> bool" where
  "answers_ok E dc m0 s \<longleftrightarrow>
     (\<forall>i rq d. sy_calls s i = Answered rq d \<longrightarrow>
        d \<in> {manager_unavailable, answer_lost} \<or> actors_answer E dc m0 rq d)
     \<and> (sy_manager s = None \<longrightarrow> sy_queue s = [])"

lemma answers_ok_kept:
  assumes "act E dc a s = Some s'" and ok: "answers_ok E dc m0 s" and serial: "serial E dc m0 s"
    and channel: "channel_ok s"
  shows "answers_ok E dc m0 s'"
  using assms(1)
proof (cases rule: act_elim)
  case (request m i rq io q R)
  have answer: "d \<in> {manager_unavailable, answer_lost} \<or> actors_answer E dc m0 rq' d"
    if "sy_calls s' j = Answered rq' d" for j rq' d
  proof (cases "j = i \<and> (\<exists>rq. sy_calls s i = Awaiting rq)")
    case True
    then have i: "sy_calls s i = Awaiting rq" using channel request(3) by (auto simp: channel_ok_def)
    then have "rq' = rq" "d = (case rr_resolution R of Some d \<Rightarrow> d | None \<Rightarrow> answer_lost)"
      using that True request(6) by (auto simp: reply_def)
    moreover have "actors_answer E dc m0 rq d'" if "rr_resolution R = Some d'" for d'
      using that i request serial by (auto simp: actors_answer_def serial_def)
    ultimately show ?thesis by (cases "rr_resolution R") auto
  next
    case False
    then have "sy_calls s' j = sy_calls s j"
      using request(6) by (auto simp: reply_def split: call_state.splits)
    then show ?thesis using that ok by (auto simp: answers_ok_def)
  qed
  moreover have "sy_manager s' \<noteq> None" using request(6) by simp
  ultimately show ?thesis unfolding answers_ok_def by blast
qed (use ok in \<open>auto simp: answers_ok_def start_call_def stop_actor_def end_request_def lost_def
       split: call_state.splits\<close>)

lemma reachable_serial:
  assumes "system_run E dc (system_start m) s" and "manager_ok E m"
  shows "serial E dc m s \<and> answers_ok E dc m s"
  using assms
proof (induction rule: system_run.induct)
  case none
  then show ?case by (auto simp: serial_def answers_ok_def system_start_def intro: manager_run.start)
next
  case (more s a s')
  then show ?case
    using serial_kept [OF more.hyps(2)] answers_ok_kept [OF more.hyps(2)] reachable_ok [OF more.hyps(1)] by blast
qed

text \<open>The mode the actor will have when it has taken the messages of a queue.\<close>

fun mode_when_reached :: "string option \<Rightarrow> message list \<Rightarrow> mode_flag \<Rightarrow> bool \<Rightarrow> bool" where
  "mode_when_reached pin [] f b = b"
| "mode_when_reached pin (Command c # q) f b =
     mode_when_reached pin q f (case map_of (actor_stores pin c) f of Some v \<Rightarrow> v | None \<Rightarrow> b)"
| "mode_when_reached pin (msg # q) f b = mode_when_reached pin q f b"

definition tracked ::
    "string option \<Rightarrow> nat \<Rightarrow> permission_request \<Rightarrow> mode_flag \<Rightarrow> bool \<Rightarrow> system \<Rightarrow> bool" where
  "tracked pin i rq f b s \<longleftrightarrow>
     sy_manager s = None
     \<or> i \<notin> set (asked (sy_queue s)) \<and> spent s i
     \<or> (\<exists>m pre post. sy_manager s = Some m \<and> sy_queue s = pre @ Ask i rq # post
          \<and> mode_when_reached pin pre f (mode_of m f) = b)"

lemma tracked_kept:
  assumes "act E dc a s = Some s'" and tr: "tracked (me_yolo_pin E) i rq f b s" and channel: "channel_ok s"
  shows "tracked (me_yolo_pin E) i rq f b s'"
proof (cases "sy_manager s")
  case None
  from assms(1) have "sy_manager s' = None"
    by (cases rule: act_elim) (use None in \<open>auto simp: start_call_def stop_actor_def end_request_def\<close>)
  then show ?thesis by (simp add: tracked_def)
next
  case (Some m)
  note alive = this
  show ?thesis
  proof (cases "i \<in> set (asked (sy_queue s))")
    case False
    then have sp: "spent s i" using tr Some by (auto simp: tracked_def)
    have "i \<notin> set (asked (sy_queue s'))" using assms(1)
      by (cases rule: act_elim)
        (use False sp in \<open>auto simp: spent_def start_call_def stop_actor_def end_request_def\<close>)
    then show ?thesis using spent_kept [OF assms(1) sp] by (simp add: tracked_def)
  next
    case True
    then obtain pre post where q: "sy_queue s = pre @ Ask i rq # post"
      and b: "mode_when_reached (me_yolo_pin E) pre f (mode_of m f) = b"
      using tr Some by (auto simp: tracked_def)
    show ?thesis using assms(1)
    proof (cases rule: act_elim)
      case (command m1 c q1 m' ev es)
      then obtain pre' where pre: "pre = Command c # pre'" using q by (cases pre) auto
      have st: "command_step E dc m c m'" using command(1,4) alive by (auto simp: command_step_def)
      have "mode_when_reached (me_yolo_pin E) pre' f (mode_of m' f) = b"
        using b by (simp add: pre permission_actor.mode_after [OF st])
      then show ?thesis using command q pre by (auto simp: tracked_def)
    next
      case (request m1 j rq' io q1 R)
      show ?thesis
      proof (cases pre)
        case Nil
        then have "i \<notin> set (asked (sy_queue s'))" using q request channel by (auto simp: channel_ok_def)
        moreover have "spent s i" using channel True by (simp add: channel_ok_def)
        ultimately show ?thesis using spent_kept [OF assms(1)] by (simp add: tracked_def)
      next
        case (Cons msg pre')
        then have "pre = Ask j rq' # pre'" using q request(3) by simp
        then show ?thesis using q b request alive request_keeps_modes [OF request(4), of f]
          by (auto simp: tracked_def)
      qed
    next
      case stop
      then show ?thesis by (simp add: tracked_def stop_actor_def)
    qed (use alive q b in \<open>auto simp: tracked_def start_call_def end_request_def\<close>)
  qed
qed

text \<open>The actor's own actions, which need nothing from the handle's side.\<close>

definition of_actor :: "action \<Rightarrow> bool" where
  "of_actor a \<longleftrightarrow> (case a of DoStore \<Rightarrow> True | TakeMessage _ \<Rightarrow> True | _ \<Rightarrow> False)"

lemma acts_append: "acts E dc (xs @ ys) s = (case acts E dc xs s of Some s' \<Rightarrow> acts E dc ys s' | None \<Rightarrow> None)"
  by (induction xs arbitrary: s) (auto split: option.splits)

lemma stores_done:
  "\<exists>as g. (\<forall>a \<in> set as. of_actor a) \<and> acts E dc as s = Some (s\<lparr>sy_flag := g, sy_stores := []\<rparr>)"
proof (induction "sy_stores s" arbitrary: s)
  case Nil
  have "acts E dc [] s = Some (s\<lparr>sy_flag := sy_flag s, sy_stores := []\<rparr>)" using Nil by simp
  then show ?case by (metis empty_iff list.set(1))
next
  case (Cons x xs)
  obtain f b where x: "x = (f, b)" by (cases x)
  let ?s = "s\<lparr>sy_flag := (sy_flag s)(f := b), sy_stores := xs\<rparr>"
  obtain as g where as: "\<forall>a \<in> set as. of_actor a" "acts E dc as ?s = Some (?s\<lparr>sy_flag := g, sy_stores := []\<rparr>)"
    using Cons.hyps(1) [of ?s] by auto
  have "act E dc DoStore s = Some ?s" using Cons.hyps(2) x by (simp add: act_def flip: Cons.hyps(2))
  then have "acts E dc (DoStore # as) s = Some (s\<lparr>sy_flag := g, sy_stores := []\<rparr>)" using as(2) by simp
  moreover have "\<forall>a \<in> set (DoStore # as). of_actor a" using as(1) by (simp add: of_actor_def)
  ultimately show ?case by blast
qed

lemma waiting_answered:
  assumes "sy_calls s i = Awaiting rq" and "channel_ok s" and "calls_ok (me_yolo_pin E) s"
    and "answers_ok E dc m0 s" and "serial E dc m0 s"
  shows "\<exists>as s' d. (\<forall>a \<in> set as. of_actor a) \<and> acts E dc as s = Some s' \<and> sy_calls s' i = Answered rq d"
  using assms
proof (induction "length (sy_queue s)" arbitrary: s rule: less_induct)
  case less
  note channel = less.prems(2) and calls = less.prems(3)
  have ask: "Ask i rq \<in> set (sy_queue s)" using less.prems(1) channel by (simp add: channel_ok_def)
  then obtain msg q where q: "sy_queue s = msg # q" by (cases "sy_queue s") auto
  obtain m where m: "sy_manager s = Some m" using less.prems(4) q by (auto simp: answers_ok_def)
  obtain as g where as: "\<forall>a \<in> set as. of_actor a" "acts E dc as s = Some (s\<lparr>sy_flag := g, sy_stores := []\<rparr>)"
    using stores_done by blast
  let ?s = "s\<lparr>sy_flag := g, sy_stores := []\<rparr>"
  define io :: request_io where
    "io = undefined\<lparr>io_closed_at_dequeue := (case msg of Ask j _ \<Rightarrow> (case sy_calls s j of Awaiting _ \<Rightarrow> False | _ \<Rightarrow> True)
                                             | _ \<Rightarrow> True)\<rparr>"
  let ?t = "take_message E dc io m msg (?s\<lparr>sy_queue := q\<rparr>)"
  have "closed_agrees ?s msg io" by (auto simp: closed_agrees_def io_def split: message.splits)
  then have act: "act E dc (TakeMessage io) ?s = Some ?t" using m q by (simp add: act_def)
  then have acts: "acts E dc (as @ [TakeMessage io]) s = Some ?t" using as(2) by (simp add: acts_append)
  have own: "\<forall>a \<in> set (as @ [TakeMessage io]). of_actor a" using as(1) by (simp add: of_actor_def)
  have ok: "channel_ok ?t \<and> calls_ok (me_yolo_pin E) ?t \<and> answers_ok E dc m0 ?t \<and> serial E dc m0 ?t"
  proof -
    have s: "channel_ok ?s" "calls_ok (me_yolo_pin E) ?s" "answers_ok E dc m0 ?s" "serial E dc m0 ?s"
      using less.prems(2-5)
      by (simp_all add: channel_ok_def calls_ok_def answers_ok_def serial_def spent_def live_calls_def)
    then show ?thesis
      using channel_ok_kept [OF act] calls_ok_kept [OF act] answers_ok_kept [OF act] serial_kept [OF act]
      by (simp add: calls_ok_def)
  qed
  show ?case
  proof (cases "\<exists>d. sy_calls ?t i = Answered rq d")
    case True
    then show ?thesis using acts own by blast
  next
    case False
    have t: "sy_calls ?t i = Awaiting rq \<and> sy_queue ?t = q"
      using False less.prems(1) channel q ask
      by (cases msg) (auto simp: take_message_def stop_actor_def lost_def reply_def channel_ok_def
          split: run.splits call_state.splits prod.splits)
    then obtain bs s' d where "\<forall>a \<in> set bs. of_actor a" "acts E dc bs ?t = Some s'" "sy_calls s' i = Answered rq d"
      using less.hyps [of ?t] ok q by auto
    then show ?thesis using acts own
      by (intro exI [of _ "(as @ [TakeMessage io]) @ bs"] exI [of _ s'] exI [of _ d])
        (auto simp: acts_append simp del: append_assoc)
  qed
qed

subsection \<open>What every interleaving has\<close>

text \<open>
  C10. Calls of the handle from any number of tasks do not disturb the actor: in every state that the
  interleaved operations reach, the events so far are those of a serial run of the actor, the actor
  is in the state that run ends in (or has ended), and the in-flight counter is the number of
  requests between their two updates of it.
\<close>

theorem concurrent_runs_are_serial:
  assumes "system_run E dc (system_start (fst (spawn_manager E y cfg st dc))) s"
  shows "(\<exists>m. manager_run E dc (fst (spawn_manager E y cfg st dc)) (map fst (sy_events s)) m
             \<and> sy_manager s \<in> {None, Some m})
    \<and> sy_in_flight s = of_nat (card {i. live (sy_calls s i)})"
  using reachable_serial [OF assms spawn_ok] reachable_ok [OF assms spawn_ok]
  by (simp add: serial_def calls_ok_def live_calls_def)

text \<open>
  C11. The flags that other tasks read follow the actor.  In every interleaving, a flag that differs from
  the mode of the actor is about to be stored again, by a call in progress, a queued command or the
  actor itself; so when nothing is under way both flags are the modes and are not both on.  Under a
  policy pin no state shows always-approve.
\<close>

theorem flags_follow_the_actor:
  assumes "system_run E dc (system_start (fst (spawn_manager E y cfg st dc))) s"
  shows "(sy_manager s = Some m \<longrightarrow> sy_flag s f \<noteq> mode_of m f \<longrightarrow> about_to_store (me_yolo_pin E) s f)
    \<and> (sy_manager s = Some m \<longrightarrow> (\<forall>f. \<not> about_to_store (me_yolo_pin E) s f) \<longrightarrow>
         \<not> (is_yolo_mode ActorHandle s \<and> is_auto_mode ActorHandle s))
    \<and> (me_yolo_pin E \<noteq> None \<longrightarrow> \<not> is_yolo_mode ActorHandle s)"
proof -
  have ok: "flags_ok E s" using reachable_ok [OF assms spawn_ok] by simp
  have "mode_of m YoloFlag = pm_yolo m" "mode_of m AutoFlag = pm_auto m" by (simp_all add: mode_of_def)
  then show ?thesis using ok by (auto simp: flags_ok_def is_yolo_mode_def is_auto_mode_def manager_ok_def)
qed


text \<open>
  C12. A request is decided under the switches sent before it.  When the actor comes to a request, its
  modes are those it had at any earlier moment with the request in the queue, updated by the mode
  commands that were queued before the request, and by nothing sent after it.
\<close>

theorem earlier_switches_decide:
  assumes "system_run E dc (system_start (fst (spawn_manager E y cfg st dc))) s" and "system_run E dc s s'"
    and "sy_manager s = Some m" and "sy_queue s = before @ Ask i rq # later"
    and "sy_manager s' = Some m'" and "sy_queue s' = Ask i rq # rest"
  shows "mode_of m' f = mode_when_reached (me_yolo_pin E) before f (mode_of m f)"
proof -
  let ?b = "mode_when_reached (me_yolo_pin E) before f (mode_of m f)"
  have "channel_ok s' \<and> tracked (me_yolo_pin E) i rq f ?b s'" using assms(2,1)
  proof (induction rule: system_run.induct)
    case none
    then show ?case using reachable_ok [OF none spawn_ok] assms(3,4) by (auto simp: tracked_def)
  next
    case (more s1 a s2)
    have "system_run E dc (system_start (fst (spawn_manager E y cfg st dc))) s2"
      using run_trans [OF system_run.more [OF more.hyps] more.prems] .
    then show ?case using reachable_ok [OF _ spawn_ok] tracked_kept [OF more.hyps(2)] more.IH [OF more.prems] by blast
  qed
  then show ?thesis using assms(5,6)
    by (auto simp: tracked_def channel_ok_def Cons_eq_append_conv)
qed


subsection \<open>Runs of a demonstration session\<close>

abbreviation handle_env :: "string manager_env" where
  "handle_env \<equiv> demo_manager_env [] PromptAsk"

abbreviation handle_start :: system where
  "handle_start \<equiv> system_start (demo_manager permission_state_default True)"

definition demo_state :: "action list \<Rightarrow> system" where
  "demo_state as = (case acts handle_env demo_classifier as handle_start of Some s \<Rightarrow> s | None \<Rightarrow> handle_start)"

lemma demo_run_to: "system_run handle_env demo_classifier handle_start (demo_state as)"
  by (auto simp: demo_state_def intro: system_run.none dest: acts_run split: option.split)

lemmas demo_spawned = demo_run_to [unfolded demo_manager_def]

lemmas demo_acts =
  demo_state_def act_def run_micro_def start_call_def take_message_def closed_agrees_def system_start_def
  manager_step_def silent_step_def set_yolo_mode_def set_auto_mode_def actor_stores_def
  handle_set_yolo_mode_def handle_set_auto_mode_def handle_request_call_def clamp_yolo_def
  demo_manager_def demo_manager_env_def spawn_manager_def permission_state_default_def Let_def

definition search_request :: permission_request where
  "search_request = demo_request (WebSearchAccess ''x'') False"

text \<open>
  Switching to always-approve and then to the auto mode: both calls have returned, the actor takes
  the first command and stores its first flag.
\<close>

definition overtaken_schedule :: "action list" where
  "overtaken_schedule =
     [StartCall (CallSetYolo True), DoMicro 0, DoMicro 0, DoMicro 0,
      StartCall (CallSetAuto True), DoMicro 1, DoMicro 1, DoMicro 1,
      TakeMessage (demo_io AllowOnce), DoStore]"

text \<open>
  An earlier switch comes back.  After both calls have returned, the last of which turned
  always-approve off, the flags show always-approve and the auto mode together.
\<close>

theorem switch_comes_back:
  "is_yolo_mode ActorHandle (demo_state overtaken_schedule)
   \<and> is_auto_mode ActorHandle (demo_state overtaken_schedule)
   \<and> (\<forall>i < 2. sy_calls (demo_state overtaken_schedule) i = Calling [])
   \<and> \<not> is_yolo_mode ActorHandle (demo_state (butlast (butlast overtaken_schedule)))"
  by (simp add: overtaken_schedule_def demo_acts is_yolo_mode_def is_auto_mode_def numeral_2_eq_2 less_Suc_eq
      demo_io_def)

definition asking :: "action list" where
  "asking = [StartCall (CallSetAuto True), DoMicro 0, DoMicro 0, DoMicro 0,
             StartCall (CallRequest search_request), DoMicro 1, DoMicro 1]"

lemma concurrent_runs_are_serial_witness:
  "sy_in_flight (demo_state asking) = of_nat (card {i. live (sy_calls (demo_state asking) i)})
   \<and> sy_in_flight (demo_state asking) = 1"
  using concurrent_runs_are_serial [OF demo_spawned [of asking]]
  by (simp add: asking_def demo_acts)

definition switched :: "action list" where
  "switched = asking @ [TakeMessage (demo_io AllowOnce), DoStore, DoStore]"

lemma flags_follow_the_actor_witness:
  "sy_flag (demo_state switched) AutoFlag \<and> pm_auto (the (sy_manager (demo_state switched)))"
proof -
  obtain m where m: "sy_manager (demo_state switched) = Some m" "pm_auto m"
    by (simp add: switched_def asking_def demo_acts demo_io_def)
  have "\<not> about_to_store (me_yolo_pin handle_env) (demo_state switched) AutoFlag"
    by (auto simp: about_to_store_def switched_def asking_def demo_acts demo_io_def split: if_splits)
  then show ?thesis
    using flags_follow_the_actor [OF demo_spawned [of switched], of m AutoFlag] m by (simp add: mode_of_def)
qed

lemma earlier_switches_decide_witness:
  "pm_auto (the (sy_manager (demo_state switched)))"
proof -
  obtain m where m: "sy_manager (demo_state switched) = Some m"
    by (simp add: switched_def asking_def demo_acts demo_io_def)
  obtain m0 where m0: "sy_manager (demo_state asking) = Some m0" "\<not> pm_auto m0"
    by (simp add: asking_def demo_acts)
  have q: "sy_queue (demo_state asking) = [Command (SetAutoMode True)] @ Ask 1 search_request # []"
    "sy_queue (demo_state switched) = Ask 1 search_request # []"
    by (simp_all add: switched_def asking_def demo_acts demo_io_def)
  have "acts handle_env demo_classifier [TakeMessage (demo_io AllowOnce), DoStore, DoStore] (demo_state asking)
        = Some (demo_state switched)"
    by (simp add: switched_def asking_def demo_acts demo_io_def)
  note earlier_switches_decide [OF demo_spawned acts_run [OF this] m0(1) q(1) m q(2), of AutoFlag]
  then show ?thesis using m by (simp add: mode_of_def actor_stores_def)
qed


definition yolo_search :: "action list" where
  "yolo_search = [StartCall (CallRequest search_request), DoMicro 0, DoMicro 0, TakeMessage (demo_io RejectOnce)]"

definition is_allowed :: "call_state \<Rightarrow> bool" where
  "is_allowed c = (case c of Answered _ DAllow \<Rightarrow> True | _ \<Rightarrow> False)"


end
