(* ===== verification/HunkDiff.thy ===== *)
theory HunkDiff
  imports Prelude
begin

section \<open>Hunks of a file\<close>

text \<open>
  \<open>codegen/xai-hunk-tracker\<close>, the parts without state: the types of \<open>types.rs\<close>, the hunks of a
  line diff, the patching of a text and the matching of hunks (\<open>diff.rs\<close>), the classification of a
  file's content (\<open>actor/file_utils.rs\<close>, \<open>actor/state.rs\<close>).  The line diff itself (the crate
  \<open>similar\<close>), its timing and the generation of identifiers are the record \<open>diff_env\<close>.
\<close>

subsection \<open>Types\<close>

record line_info =
  li_old_start :: nat
  li_old_count :: nat
  li_new_start :: nat
  li_new_count :: nat

datatype hunk_source = AgentEdit nat | ExternalEditOnAgentFile | External

definition is_agent_edit :: "hunk_source \<Rightarrow> bool" where
  "is_agent_edit s \<longleftrightarrow> (case s of AgentEdit _ \<Rightarrow> True | _ \<Rightarrow> False)"

definition is_agent_tracked :: "hunk_source \<Rightarrow> bool" where
  "is_agent_tracked s \<longleftrightarrow> (case s of AgentEdit _ \<Rightarrow> True | ExternalEditOnAgentFile \<Rightarrow> True | External \<Rightarrow> False)"

definition is_external :: "hunk_source \<Rightarrow> bool" where
  "is_external s \<longleftrightarrow> (case s of External \<Rightarrow> True | ExternalEditOnAgentFile \<Rightarrow> True | AgentEdit _ \<Rightarrow> False)"

definition prompt_index :: "hunk_source \<Rightarrow> nat option" where
  "prompt_index s = (case s of AgentEdit i \<Rightarrow> Some i | _ \<Rightarrow> None)"

text \<open>A hunk, without its creation time and the selection of the interface.\<close>

record hunk =
  hk_id :: string
  hk_path :: string
  hk_line :: line_info
  hk_source :: hunk_source
  hk_old_text :: "string option"
  hk_new_text :: string
  hk_patch :: "string option"

text \<open>Paths are kept as texts with no redundant separator, so that equal paths are equal texts.\<close>

datatype change_tag = TagEqual | TagDelete | TagInsert

record diff_env =
  de_lines :: "string \<Rightarrow> string \<Rightarrow> (change_tag \<times> string) list"
  de_timed_out :: "string \<Rightarrow> string \<Rightarrow> bool"
  de_new_id :: "nat \<Rightarrow> string"
  de_utf8 :: "string \<Rightarrow> bool"

definition line_count :: "string \<Rightarrow> nat" where
  "line_count text = length (str_lines text)"

definition file_created :: "string \<Rightarrow> string \<Rightarrow> string \<Rightarrow> hunk_source \<Rightarrow> hunk" where
  "file_created i path content source =
     \<lparr>hk_id = i, hk_path = path,
      hk_line = \<lparr>li_old_start = 0, li_old_count = 0, li_new_start = 1, li_new_count = max 1 (line_count content)\<rparr>,
      hk_source = source, hk_old_text = None, hk_new_text = content, hk_patch = None\<rparr>"

definition file_deleted :: "string \<Rightarrow> string \<Rightarrow> string \<Rightarrow> hunk_source \<Rightarrow> hunk" where
  "file_deleted i path content source =
     \<lparr>hk_id = i, hk_path = path,
      hk_line = \<lparr>li_old_start = 1, li_old_count = max 1 (line_count content), li_new_start = 0, li_new_count = 0\<rparr>,
      hk_source = source, hk_old_text = Some content, hk_new_text = [], hk_patch = None\<rparr>"

definition hunk_summary :: "hunk \<Rightarrow> string" where
  "hunk_summary h =
     ''+'' @ show_nat (line_count (hk_new_text h)) @ ''/-''
     @ show_nat (case hk_old_text h of Some t \<Rightarrow> line_count t | None \<Rightarrow> 0)"

subsection \<open>The content of a file\<close>

definition MAX_TRACKED_TEXT_BYTES :: nat where "MAX_TRACKED_TEXT_BYTES = 1024 * 1024"
definition MAX_DIFF_FILE_SIZE :: nat where "MAX_DIFF_FILE_SIZE = 1024 * 1024"

datatype file_content =
    MissingFile
  | Binary "nat option"
  | TooLarge nat
  | LfsPointer nat
  | Symlink
  | Full string

definition content_as_str :: "file_content \<Rightarrow> string option" where
  "content_as_str c = (case c of Full s \<Rightarrow> Some s | _ \<Rightarrow> None)"

definition is_diffable :: "file_content \<Rightarrow> bool" where
  "is_diffable c \<longleftrightarrow> (case c of Full _ \<Rightarrow> True | _ \<Rightarrow> False)"

definition content_byte_len :: "file_content \<Rightarrow> nat option" where
  "content_byte_len c =
     (case c of MissingFile \<Rightarrow> Some 0 | Binary n \<Rightarrow> n | TooLarge n \<Rightarrow> Some n | LfsPointer n \<Rightarrow> Some n
      | Symlink \<Rightarrow> None | Full s \<Rightarrow> Some (length s))"

definition LFS_POINTER_PREFIX :: string where
  "LFS_POINTER_PREFIX = ''version https://git-lfs.github.com/spec/v1'' @ [CHR 0x0A]"

definition is_lfs_pointer :: "string \<Rightarrow> bool" where
  "is_lfs_pointer bytes \<longleftrightarrow> length bytes < 1024 \<and> starts_with bytes LFS_POINTER_PREFIX"

definition is_binary :: "string \<Rightarrow> bool" where
  "is_binary content \<longleftrightarrow> CHR 0x00 \<in> set (take 8000 content)"

text \<open>\<open>String::from_utf8\<close> is the parameter \<open>utf8\<close>: which byte sequences are texts.\<close>

definition classify_bytes :: "(string \<Rightarrow> bool) \<Rightarrow> string \<Rightarrow> file_content" where
  "classify_bytes utf8 bytes =
     (if length bytes > MAX_TRACKED_TEXT_BYTES then TooLarge (length bytes)
      else if is_lfs_pointer bytes then LfsPointer (length bytes)
      else if is_binary bytes then Binary (Some (length bytes))
      else if utf8 bytes then Full bytes
      else Binary (Some (length bytes)))"

definition classify_string :: "string \<Rightarrow> file_content" where
  "classify_string s =
     (if length s > MAX_TRACKED_TEXT_BYTES then TooLarge (length s)
      else if is_lfs_pointer s then LfsPointer (length s)
      else if is_binary s then Binary (Some (length s))
      else Full s)"

text \<open>What the system calls of a bounded read answer, in their order.\<close>

record file_read =
  fr_symlink :: "bool option"
  fr_len :: nat
  fr_opened :: bool
  fr_first :: "string option"
  fr_rest :: "string option"

definition read_file_bounded :: "(string \<Rightarrow> bool) \<Rightarrow> file_read \<Rightarrow> file_content" where
  "read_file_bounded utf8 r =
     (case fr_symlink r of
        None \<Rightarrow> MissingFile
      | Some True \<Rightarrow> Symlink
      | Some False \<Rightarrow>
          (if fr_len r > MAX_TRACKED_TEXT_BYTES then TooLarge (fr_len r)
           else if \<not> fr_opened r then MissingFile
           else
             (case fr_first r of
                None \<Rightarrow> MissingFile
              | Some first \<Rightarrow>
                  (if is_lfs_pointer first then LfsPointer (fr_len r)
                   else if is_binary first then Binary (Some (fr_len r))
                   else
                     (case (if fr_len r > min 8000 (fr_len r) then map_option ((@) first) (fr_rest r)
                            else Some first) of
                        None \<Rightarrow> MissingFile
                      | Some bytes \<Rightarrow> if utf8 bytes then Full bytes else Binary (Some (fr_len r)))))))"

subsection \<open>The hunks of a diff\<close>

record hunk_builder =
  hb_old_start :: nat
  hb_new_start :: nat
  hb_old_lines :: "string list"
  hb_new_lines :: "string list"

definition builder_new :: "nat \<Rightarrow> nat \<Rightarrow> hunk_builder" where
  "builder_new old new = \<lparr>hb_old_start = old, hb_new_start = new, hb_old_lines = [], hb_new_lines = []\<rparr>"

definition add_old_line :: "string \<Rightarrow> hunk_builder \<Rightarrow> hunk_builder" where
  "add_old_line l b = b\<lparr>hb_old_lines := hb_old_lines b @ [l]\<rparr>"

definition add_new_line :: "string \<Rightarrow> hunk_builder \<Rightarrow> hunk_builder" where
  "add_new_line l b = b\<lparr>hb_new_lines := hb_new_lines b @ [l]\<rparr>"

definition builder_build :: "string \<Rightarrow> string \<Rightarrow> hunk_source \<Rightarrow> hunk_builder \<Rightarrow> hunk" where
  "builder_build i path source b =
     \<lparr>hk_id = i, hk_path = path,
      hk_line = \<lparr>li_old_start = hb_old_start b, li_old_count = length (hb_old_lines b),
                 li_new_start = hb_new_start b, li_new_count = length (hb_new_lines b)\<rparr>,
      hk_source = source,
      hk_old_text = (if hb_old_lines b = [] then None else Some (concat (hb_old_lines b))),
      hk_new_text = concat (hb_new_lines b), hk_patch = None\<rparr>"

text \<open>The loop over the changes; \<open>dw_next\<close> counts the identifiers drawn.\<close>

record diff_walk =
  dw_old :: nat
  dw_new :: nat
  dw_cur :: "hunk_builder option"
  dw_hunks :: "hunk list"
  dw_next :: nat

definition finish_hunk :: "diff_env \<Rightarrow> string \<Rightarrow> hunk_source \<Rightarrow> diff_walk \<Rightarrow> diff_walk" where
  "finish_hunk D path source w =
     (case dw_cur w of
        None \<Rightarrow> w
      | Some b \<Rightarrow>
          w\<lparr>dw_cur := None, dw_hunks := dw_hunks w @ [builder_build (de_new_id D (dw_next w)) path source b],
            dw_next := Suc (dw_next w)\<rparr>)"

definition cur_builder :: "diff_walk \<Rightarrow> hunk_builder" where
  "cur_builder w = (case dw_cur w of Some b \<Rightarrow> b | None \<Rightarrow> builder_new (dw_old w) (dw_new w))"

definition walk_change ::
    "diff_env \<Rightarrow> string \<Rightarrow> hunk_source \<Rightarrow> diff_walk \<Rightarrow> change_tag \<times> string \<Rightarrow> diff_walk" where
  "walk_change D path source w c =
     (case fst c of
        TagEqual \<Rightarrow>
          (let w1 = finish_hunk D path source w
           in w1\<lparr>dw_old := Suc (dw_old w), dw_new := Suc (dw_new w)\<rparr>)
      | TagDelete \<Rightarrow>
          w\<lparr>dw_cur := Some (add_old_line (snd c) (cur_builder w)), dw_old := Suc (dw_old w)\<rparr>
      | TagInsert \<Rightarrow>
          w\<lparr>dw_cur := Some (add_new_line (snd c) (cur_builder w)), dw_new := Suc (dw_new w)\<rparr>)"

definition compute_hunks ::
    "diff_env \<Rightarrow> nat \<Rightarrow> string \<Rightarrow> string \<Rightarrow> string \<Rightarrow> hunk_source \<Rightarrow> hunk list \<times> nat" where
  "compute_hunks D n path baseline current source =
     (if baseline = current then ([], n)
      else if length baseline > MAX_DIFF_FILE_SIZE \<or> length current > MAX_DIFF_FILE_SIZE then ([], n)
      else if de_timed_out D baseline current then ([], n)
      else
        (let w = foldl (walk_change D path source)
                   \<lparr>dw_old = 1, dw_new = 1, dw_cur = None, dw_hunks = [], dw_next = n\<rparr>
                   (de_lines D baseline current);
             w' = finish_hunk D path source w
         in (dw_hunks w', dw_next w')))"

subsection \<open>Patching\<close>

definition ends_with_newline :: "string \<Rightarrow> bool" where
  "ends_with_newline s \<longleftrightarrow> ends_with s [CHR 0x0A]"

definition patch_lines :: "string \<Rightarrow> nat \<Rightarrow> nat \<Rightarrow> string \<Rightarrow> string" where
  "patch_lines content start_line remove_count insert_text =
     (let lines = str_lines content;
          start_idx = start_line - 1;
          result = take (min start_idx (length lines)) lines
                   @ (if insert_text = [] then [] else str_lines insert_text)
                   @ drop (min (start_idx + remove_count) (length lines)) lines;
          out = join_str [CHR 0x0A] result
      in if ends_with_newline content \<and> out \<noteq> [] then out @ [CHR 0x0A] else out)"

text \<open>
  Accepting hunks patches the baseline with their new text, rejecting them patches the current text
  with their old text; several hunks are taken from the end of the file to its beginning.
\<close>

definition accept_patch :: "string \<Rightarrow> hunk \<Rightarrow> string" where
  "accept_patch baseline h =
     patch_lines baseline (li_old_start (hk_line h)) (li_old_count (hk_line h)) (hk_new_text h)"

definition reject_patch :: "string \<Rightarrow> hunk \<Rightarrow> string" where
  "reject_patch current h =
     patch_lines current (li_new_start (hk_line h)) (li_new_count (hk_line h))
       (case hk_old_text h of Some t \<Rightarrow> t | None \<Rightarrow> [])"

definition accept_patches :: "hunk list \<Rightarrow> string \<Rightarrow> string" where
  "accept_patches hs baseline =
     foldl accept_patch baseline (sort_key (\<lambda>h. - int (li_old_start (hk_line h))) hs)"

definition reject_patches :: "hunk list \<Rightarrow> string \<Rightarrow> string" where
  "reject_patches hs current =
     foldl reject_patch current (sort_key (\<lambda>h. - int (li_new_start (hk_line h))) hs)"

definition CONTEXT_LINES :: nat where "CONTEXT_LINES = 3"

definition hunk_header :: "nat \<Rightarrow> nat \<Rightarrow> nat \<Rightarrow> nat \<Rightarrow> string" where
  "hunk_header a b c d =
     ''@@ -'' @ show_nat a @ '','' @ show_nat b @ '' +'' @ show_nat c @ '','' @ show_nat d @ '' @@''"

definition prefixed :: "string \<Rightarrow> string list \<Rightarrow> string" where
  "prefixed p ls = concat (map (\<lambda>l. p @ l @ [CHR 0x0A]) ls)"

text \<open>
  The fragment of one hunk with its context; a slice is written \<open>take\<close> and \<open>drop\<close> since an index out
  of range is skipped.  The subtraction of the context after the change underflows if the hunk lies
  beyond the end of the text; that is a panic of a debug build.
\<close>

definition generate_hunk_patch :: "string \<Rightarrow> string \<Rightarrow> hunk \<Rightarrow> string" where
  "generate_hunk_patch baseline current h =
     (let olds = str_lines baseline; news = str_lines current; li = hk_line h;
          old_start = li_old_start li - 1; new_start = li_new_start li - 1;
          before_start = old_start - CONTEXT_LINES;
          end_new = new_start + li_new_count li; after_end = min (end_new + CONTEXT_LINES) (length news);
          end_old = old_start + li_old_count li; after_end_old = min (end_old + CONTEXT_LINES) (length olds);
          total_old = (old_start - before_start) + li_old_count li + (after_end_old - end_old);
          total_new = (old_start - before_start) + li_new_count li + (after_end - end_new)
      in hunk_header (before_start + 1) total_old (before_start + 1) total_new @ [CHR 0x0A]
         @ prefixed '' '' (drop before_start (take old_start olds))
         @ (case hk_old_text h of Some t \<Rightarrow> prefixed ''-'' (str_lines t) | None \<Rightarrow> [])
         @ prefixed ''+'' (str_lines (hk_new_text h))
         @ prefixed '' '' (drop end_new (take after_end news)))"

definition format_unified_diff :: "hunk \<Rightarrow> string" where
  "format_unified_diff h =
     ''--- a/'' @ hk_path h @ [CHR 0x0A] @ ''+++ b/'' @ hk_path h @ [CHR 0x0A]
     @ (let li = hk_line h in hunk_header (li_old_start li) (li_old_count li) (li_new_start li) (li_new_count li))
     @ [CHR 0x0A]
     @ (case hk_old_text h of Some t \<Rightarrow> prefixed ''-'' (str_lines t) | None \<Rightarrow> [])
     @ prefixed ''+'' (str_lines (hk_new_text h))"

subsection \<open>Matching hunks\<close>

definition hunks_match_content :: "hunk \<Rightarrow> hunk \<Rightarrow> bool" where
  "hunks_match_content a b \<longleftrightarrow>
     hk_path a = hk_path b \<and> hk_old_text a = hk_old_text b \<and> hk_new_text a = hk_new_text b"

definition hunk_moved :: "hunk \<Rightarrow> hunk \<Rightarrow> bool" where
  "hunk_moved old new \<longleftrightarrow> hunks_match_content old new \<and> hk_line old \<noteq> hk_line new"

definition hunks_overlap :: "hunk \<Rightarrow> hunk \<Rightarrow> bool" where
  "hunks_overlap a b \<longleftrightarrow>
     hk_path a = hk_path b
     \<and> (let a_start = li_old_start (hk_line a); a_count = li_old_count (hk_line a); a_end = a_start + a_count;
            b_start = li_old_start (hk_line b); b_count = li_old_count (hk_line b); b_end = b_start + b_count
        in if a_count = 0 \<and> b_count = 0 then a_start = b_start
           else if a_count = 0 then b_start \<le> a_start \<and> a_start \<le> b_end
           else if b_count = 0 then a_start \<le> b_start \<and> b_start \<le> a_end
           else \<not> (a_end < b_start \<or> b_end < a_start))"

definition calculate_overlap_size :: "line_info \<Rightarrow> line_info \<Rightarrow> nat" where
  "calculate_overlap_size a b =
     min (li_old_start a + li_old_count a) (li_old_start b + li_old_count b)
     - max (li_old_start a) (li_old_start b)"

text \<open>\<open>Iterator::min_by_key\<close> returns the first minimum, \<open>max_by_key\<close> the last maximum.\<close>

fun min_by_key :: "('a \<Rightarrow> nat) \<Rightarrow> 'a list \<Rightarrow> 'a option" where
  "min_by_key f [] = None"
| "min_by_key f (x # xs) =
     (case min_by_key f xs of None \<Rightarrow> Some x | Some y \<Rightarrow> if f x \<le> f y then Some x else Some y)"

fun max_by_key :: "('a \<Rightarrow> nat) \<Rightarrow> 'a list \<Rightarrow> 'a option" where
  "max_by_key f [] = None"
| "max_by_key f (x # xs) =
     (case max_by_key f xs of None \<Rightarrow> Some x | Some y \<Rightarrow> if f y < f x then Some x else Some y)"

definition abs_diff :: "nat \<Rightarrow> nat \<Rightarrow> nat" where
  "abs_diff a b = (if a < b then b - a else a - b)"

definition find_matching_old_hunk :: "hunk \<Rightarrow> hunk list \<Rightarrow> hunk option" where
  "find_matching_old_hunk new olds =
     (let content_matches = filter (\<lambda>old. hunks_match_content old new) olds
      in if content_matches \<noteq> []
         then min_by_key (\<lambda>old. abs_diff (li_new_start (hk_line old)) (li_new_start (hk_line new))) content_matches
         else max_by_key (\<lambda>old. calculate_overlap_size (hk_line old) (hk_line new))
                (filter (\<lambda>old. hunks_overlap old new) olds))"

definition find_overlapping_hunks :: "hunk \<Rightarrow> hunk list \<Rightarrow> hunk list" where
  "find_overlapping_hunks new olds = filter (\<lambda>old. hunks_overlap old new) olds"

lemma min_by_key_mem: "min_by_key f xs = Some x \<Longrightarrow> x \<in> set xs"
  by (induction xs arbitrary: x) (auto split: option.splits if_splits)

lemma max_by_key_mem: "max_by_key f xs = Some x \<Longrightarrow> x \<in> set xs"
  by (induction xs arbitrary: x) (auto split: option.splits if_splits)

lemma matching_old_mem: "find_matching_old_hunk new olds = Some h \<Longrightarrow> h \<in> set olds"
  by (auto simp: find_matching_old_hunk_def Let_def dest!: min_by_key_mem max_by_key_mem split: if_splits)

end
