(* ===== verification/HunkPatch.thy ===== *)
theory HunkPatch
  imports HunkDiff
begin

section \<open>Patching by hunks is exact\<close>

text \<open>
  What accepting and rejecting hunks does to a text.  A line diff is read as a list of unchanged lines
  and changed blocks; for texts of lines that end in a newline, without carriage returns before it,
  rejecting some hunks of the current text gives what accepting the others on the baseline gives.
\<close>

subsection \<open>Texts as lists of lines\<close>

definition newline :: char where "newline = CHR 0x0A"

definition plain_line :: "string \<Rightarrow> bool" where
  "plain_line l \<longleftrightarrow> newline \<notin> set l \<and> (l = [] \<or> last l \<noteq> CHR 0x0D)"

definition unlines :: "string list \<Rightarrow> string" where
  "unlines ls = concat (map (\<lambda>l. l @ [newline]) ls)"

lemma unlines_simps [simp]:
  "unlines [] = []" "unlines (l # ls) = l @ newline # unlines ls" "unlines (xs @ ys) = unlines xs @ unlines ys"
  by (simp_all add: unlines_def)

lemma unlines_Nil [simp]: "unlines ls = [] \<longleftrightarrow> ls = []"
  by (cases ls) auto

lemma str_lines_unlines: "\<forall>l \<in> set ls. plain_line l \<Longrightarrow> str_lines (unlines ls) = ls"
proof (induction ls)
  case Nil
  then show ?case by (simp add: str_lines_def)
next
  case (Cons l ls)
  then have l: "newline \<notin> set l" "drop_cr l = l" by (auto simp: plain_line_def drop_cr_def)
  then show ?case
    using Cons by (auto simp: str_lines_def Let_def newline_def split_char_append_sep split: if_splits)
qed

lemma ends_unlines: "ls \<noteq> [] \<Longrightarrow> ends_with_newline (unlines ls)"
  by (cases ls rule: rev_cases) (auto simp: ends_with_newline_def ends_with_def starts_with_def newline_def)

lemma join_unlines: "ls \<noteq> [] \<Longrightarrow> join_str [newline] ls @ [newline] = unlines ls"
  by (induction "[newline]" ls rule: join_str.induct) auto

lemma join_not_Nil: "l \<in> set ls \<Longrightarrow> l \<noteq> [] \<Longrightarrow> join_str sep ls \<noteq> []"
  by (induction sep ls rule: join_str.induct) auto

lemma patch_unlines:
  assumes plain: "\<forall>l \<in> set (pre @ mid @ post @ ins). plain_line l"
    and keep: "\<exists>l \<in> set (pre @ post). l \<noteq> []"
  shows "patch_lines (unlines (pre @ mid @ post)) (Suc (length pre)) (length mid) (unlines ins)
         = unlines (pre @ ins @ post)"
proof -
  have "str_lines (unlines (pre @ mid @ post)) = pre @ mid @ post" "str_lines (unlines ins) = ins"
    using plain str_lines_unlines [of "pre @ mid @ post"] str_lines_unlines [of ins] by (auto simp del: unlines_simps(3))
  moreover have "ends_with_newline (unlines (pre @ mid @ post))" using keep by (intro ends_unlines) auto
  moreover obtain l where "l \<in> set (pre @ ins @ post)" "l \<noteq> []" using keep by auto
  then have "join_str [newline] (pre @ ins @ post) \<noteq> []" by (rule join_not_Nil)
  moreover have ne: "pre @ ins @ post \<noteq> []" using keep by auto
  moreover have "join_str [newline] (pre @ ins @ post) @ [newline] = unlines (pre @ ins @ post)"
    using ne by (rule join_unlines)
  ultimately show ?thesis
    by (auto simp: patch_lines_def Let_def newline_def [symmetric] simp del: unlines_simps(3))
qed


subsection \<open>A diff as unchanged lines and changed blocks\<close>

text \<open>
  A block has the lines it removes when patched and the lines it puts there; which side is which
  depends on whether hunks are rejected or accepted.
\<close>

datatype piece = Same string | Block "string list" "string list"

fun old_side :: "piece list \<Rightarrow> string list" where
  "old_side [] = []"
| "old_side (Same l # ps) = l # old_side ps"
| "old_side (Block o' n # ps) = o' @ old_side ps"

fun new_side :: "piece list \<Rightarrow> string list" where
  "new_side [] = []"
| "new_side (Same l # ps) = l # new_side ps"
| "new_side (Block o' n # ps) = n @ new_side ps"

fun turned :: "piece list \<Rightarrow> piece list" where
  "turned [] = []"
| "turned (Same l # ps) = Same l # turned ps"
| "turned (Block o' n # ps) = Block n o' # turned ps"

text \<open>The lines with the blocks of \<open>A\<close> (by their position) on the old side and the others on the new.\<close>

fun mixed :: "nat set \<Rightarrow> piece list \<Rightarrow> string list" where
  "mixed A [] = []"
| "mixed A (Same l # ps) = l # mixed A ps"
| "mixed A (Block o' n # ps) = (if 0 \<in> A then o' else n) @ mixed {k. Suc k \<in> A} ps"

text \<open>Where the blocks are among the new lines, how many lines each has there, and its old text.\<close>

fun spots :: "nat \<Rightarrow> piece list \<Rightarrow> (nat \<times> nat \<times> string) list" where
  "spots i [] = []"
| "spots i (Same l # ps) = spots (Suc i) ps"
| "spots i (Block o' n # ps) = (i, length n, unlines o') # spots (i + length n) ps"

fun put_back :: "nat \<times> nat \<times> string \<Rightarrow> string \<Rightarrow> string" where
  "put_back (start, count, t) content = patch_lines content start count t"

definition lines_plain :: "piece list \<Rightarrow> bool" where
  "lines_plain ps \<longleftrightarrow> (\<forall>l \<in> set (old_side ps @ new_side ps). plain_line l)"

fun solid :: "piece list \<Rightarrow> bool" where
  "solid [] \<longleftrightarrow> False"
| "solid (Same l # ps) \<longleftrightarrow> l \<noteq> [] \<or> solid ps"
| "solid (Block o' n # ps) \<longleftrightarrow> solid ps"

lemma solid_mixed: "solid ps \<Longrightarrow> \<exists>l \<in> set (mixed A ps). l \<noteq> []"
  by (induction A ps rule: mixed.induct) auto

lemma mixed_plain: "lines_plain ps \<Longrightarrow> l \<in> set (mixed A ps) \<Longrightarrow> plain_line l"
  by (induction A ps rule: mixed.induct) (auto simp: lines_plain_def split: if_splits)

lemma mixed_turned: "mixed A (turned ps) = mixed (- A) ps"
proof (induction ps arbitrary: A rule: turned.induct)
  case (3 a b ps)
  have "- {k. Suc k \<in> A} = {k. Suc k \<in> - A}" by auto
  then show ?case using 3 by simp
qed simp_all

lemma put_back_spots:
  assumes "lines_plain ps" and "\<forall>l \<in> set pre. plain_line l" and "solid ps \<or> (\<exists>l \<in> set pre. l \<noteq> [])"
  shows "foldr put_back (nths (spots (Suc (length pre)) ps) A) (unlines (pre @ new_side ps))
         = unlines (pre @ mixed A ps)"
  using assms
proof (induction A ps arbitrary: pre rule: mixed.induct)
  case (1 A)
  then show ?case by simp
next
  case (2 A l ps)
  have "foldr put_back (nths (spots (Suc (length (pre @ [l]))) ps) A) (unlines ((pre @ [l]) @ new_side ps))
        = unlines ((pre @ [l]) @ mixed A ps)"
    by (rule "2.IH") (use "2.prems" in \<open>auto simp: lines_plain_def\<close>)
  then show ?case by simp
next
  case (3 A a b ps)
  let ?B = "{k. Suc k \<in> A}"
  have rest: "foldr put_back (nths (spots (Suc (length (pre @ b))) ps) ?B) (unlines ((pre @ b) @ new_side ps))
        = unlines ((pre @ b) @ mixed ?B ps)"
    by (rule "3.IH") (use "3.prems" in \<open>auto simp: lines_plain_def\<close>)
  have plain: "lines_plain ps" using "3.prems"(1) by (auto simp: lines_plain_def)
  have "\<forall>l \<in> set (pre @ b @ mixed ?B ps @ a). plain_line l"
    using "3.prems"(1,2) mixed_plain [OF plain] by (auto simp: lines_plain_def)
  moreover have "\<exists>l \<in> set (pre @ mixed ?B ps). l \<noteq> []"
    using "3.prems"(3) solid_mixed [of ps ?B] by auto
  ultimately have "patch_lines (unlines (pre @ b @ mixed ?B ps)) (Suc (length pre)) (length b) (unlines a)
      = unlines (pre @ a @ mixed ?B ps)"
    by (rule patch_unlines)
  then show ?case using rest by (simp add: nths_Cons)
qed


subsection \<open>The hunks of a diff are its blocks\<close>

definition body :: "string \<Rightarrow> string" where "body v = butlast v"

text \<open>The blocks of a diff, with the lines of the block in progress.\<close>

fun pieces_from :: "(string list \<times> string list) option \<Rightarrow> (change_tag \<times> string) list \<Rightarrow> piece list" where
  "pieces_from None [] = []"
| "pieces_from (Some (a, b)) [] = [Block a b]"
| "pieces_from None ((TagEqual, v) # cs) = Same (body v) # pieces_from None cs"
| "pieces_from (Some (a, b)) ((TagEqual, v) # cs) = Block a b # Same (body v) # pieces_from None cs"
| "pieces_from None ((TagDelete, v) # cs) = pieces_from (Some ([body v], [])) cs"
| "pieces_from (Some (a, b)) ((TagDelete, v) # cs) = pieces_from (Some (a @ [body v], b)) cs"
| "pieces_from None ((TagInsert, v) # cs) = pieces_from (Some ([], [body v])) cs"
| "pieces_from (Some (a, b)) ((TagInsert, v) # cs) = pieces_from (Some (a, b @ [body v])) cs"

definition pieces :: "(change_tag \<times> string) list \<Rightarrow> piece list" where
  "pieces cs = pieces_from None cs"

definition old_changes :: "(change_tag \<times> string) list \<Rightarrow> string list" where
  "old_changes cs = map snd (filter (\<lambda>c. fst c \<noteq> TagInsert) cs)"

definition new_changes :: "(change_tag \<times> string) list \<Rightarrow> string list" where
  "new_changes cs = map snd (filter (\<lambda>c. fst c \<noteq> TagDelete) cs)"

fun fst_of :: "(string list \<times> string list) option \<Rightarrow> string list" where
  "fst_of None = []" | "fst_of (Some (a, b)) = a"

fun snd_of :: "(string list \<times> string list) option \<Rightarrow> string list" where
  "snd_of None = []" | "snd_of (Some (a, b)) = b"

lemma pieces_sides:
  "old_side (pieces_from c cs) = fst_of c @ map body (old_changes cs)"
  "new_side (pieces_from c cs) = snd_of c @ map body (new_changes cs)"
  by (induction c cs rule: pieces_from.induct) (simp_all add: old_changes_def new_changes_def)

text \<open>The documented result of a line diff of two texts whose lines all end in a plain newline.\<close>

definition full_line :: "string \<Rightarrow> bool" where
  "full_line v \<longleftrightarrow> v \<noteq> [] \<and> last v = newline \<and> plain_line (body v)"

definition splits_lines :: "(change_tag \<times> string) list \<Rightarrow> string \<Rightarrow> string \<Rightarrow> bool" where
  "splits_lines cs a b \<longleftrightarrow>
     concat (old_changes cs) = a \<and> concat (new_changes cs) = b \<and> list_all full_line (map snd cs)"

lemma full_line_body: "full_line v \<Longrightarrow> body v @ [newline] = v"
  by (metis append_butlast_last_id body_def full_line_def)

lemma unlines_body: "\<forall>v \<in> set vs. full_line v \<Longrightarrow> unlines (map body vs) = concat vs"
proof (induction vs)
  case (Cons v vs)
  then show ?case using full_line_body [of v] by (metis append_assoc append_Cons append_Nil concat.simps(2)
      list.set_intros(1) list.set_intros(2) list.simps(9) unlines_simps(2))
qed simp

lemma pieces_text:
  assumes "splits_lines cs a b"
  shows "unlines (old_side (pieces cs)) = a" "unlines (new_side (pieces cs)) = b" "lines_plain (pieces cs)"
proof -
  have f: "\<forall>v \<in> set (old_changes cs) \<union> set (new_changes cs). full_line v"
    using assms by (auto simp: splits_lines_def list_all_iff old_changes_def new_changes_def)
  then show "unlines (old_side (pieces cs)) = a" "unlines (new_side (pieces cs)) = b"
    using assms by (simp_all add: pieces_def pieces_sides unlines_body splits_lines_def)
  show "lines_plain (pieces cs)"
    using f by (auto simp: lines_plain_def pieces_def pieces_sides full_line_def)
qed

text \<open>The position, the size and the text of a hunk on either side.\<close>

definition reject_spot :: "hunk \<Rightarrow> nat \<times> nat \<times> string" where
  "reject_spot h =
     (li_new_start (hk_line h), li_new_count (hk_line h), case hk_old_text h of Some t \<Rightarrow> t | None \<Rightarrow> [])"

definition accept_spot :: "hunk \<Rightarrow> nat \<times> nat \<times> string" where
  "accept_spot h = (li_old_start (hk_line h), li_old_count (hk_line h), hk_new_text h)"

definition builder_of :: "hunk_builder option \<Rightarrow> (string list \<times> string list) option" where
  "builder_of c = map_option (\<lambda>b. (map body (hb_old_lines b), map body (hb_new_lines b))) c"

definition walk_ok :: "diff_walk \<Rightarrow> bool" where
  "walk_ok w \<longleftrightarrow>
     (\<forall>b. dw_cur w = Some b \<longrightarrow>
        list_all full_line (hb_old_lines b) \<and> list_all full_line (hb_new_lines b)
        \<and> dw_old w = hb_old_start b + length (hb_old_lines b) \<and> dw_new w = hb_new_start b + length (hb_new_lines b))"

definition walk_start :: "(diff_walk \<Rightarrow> nat) \<Rightarrow> (hunk_builder \<Rightarrow> nat) \<Rightarrow> diff_walk \<Rightarrow> nat" where
  "walk_start f g w = (case dw_cur w of Some b \<Rightarrow> g b | None \<Rightarrow> f w)"

definition walked ::
    "diff_env \<Rightarrow> string \<Rightarrow> hunk_source \<Rightarrow> diff_walk \<Rightarrow> (change_tag \<times> string) list \<Rightarrow> hunk list" where
  "walked D path source w cs = dw_hunks (finish_hunk D path source (foldl (walk_change D path source) w cs))"

lemma walked_Cons: "walked D path source w (c # cs) = walked D path source (walk_change D path source w c) cs"
  by (simp add: walked_def)

lemmas walk_defs =
  walk_change_def finish_hunk_def cur_builder_def add_old_line_def add_new_line_def builder_new_def
  walk_start_def builder_of_def builder_build_def

lemma walk_ok_change: "walk_ok w \<Longrightarrow> full_line v \<Longrightarrow> walk_ok (walk_change D path source w (tag, v))"
  by (cases tag; cases "dw_cur w") (auto simp: walk_ok_def walk_defs Let_def)

lemma walk_spots:
  assumes "walk_ok w" and "list_all full_line (map snd cs)"
  shows "map reject_spot (walked D path source w cs) = map reject_spot (dw_hunks w)
           @ spots (walk_start dw_new hb_new_start w) (pieces_from (builder_of (dw_cur w)) cs)
    \<and> map accept_spot (walked D path source w cs) = map accept_spot (dw_hunks w)
           @ spots (walk_start dw_old hb_old_start w) (turned (pieces_from (builder_of (dw_cur w)) cs))"
  using assms
proof (induction cs arbitrary: w)
  case Nil
  then show ?case
    by (cases "dw_cur w")
      (auto simp: walked_def walk_defs reject_spot_def accept_spot_def walk_ok_def unlines_body list_all_iff)
next
  case (Cons c cs)
  obtain tag v where c: "c = (tag, v)" by (cases c)
  then have v: "full_line v" and cs: "list_all full_line (map snd cs)" using Cons.prems by auto
  note IH = Cons.IH [OF walk_ok_change [OF Cons.prems(1) v, of D path source tag] cs]
  show ?case
    using IH Cons.prems(1) v
    by (cases tag; cases "dw_cur w")
      (auto simp: c walked_Cons walk_defs Let_def walk_ok_def reject_spot_def accept_spot_def unlines_body list_all_iff)
qed


subsection \<open>Several hunks at once\<close>

lemma insort_at_end: "\<forall>y \<in> set ys. f y < f x \<Longrightarrow> insort_key f x ys = ys @ [x]"
  by (induction ys) auto

lemma sort_descending:
  "sorted_wrt (\<lambda>a b. f a < f b) xs \<Longrightarrow> sort_key (\<lambda>x. - int (f x)) xs = rev xs"
  by (induction xs) (auto simp: insort_at_end)

fun block_first :: "piece list \<Rightarrow> bool" where
  "block_first (Block a b # ps) \<longleftrightarrow> True"
| "block_first (Same l # ps) \<longleftrightarrow> False"
| "block_first [] \<longleftrightarrow> False"

fun parted :: "piece list \<Rightarrow> bool" where
  "parted [] \<longleftrightarrow> True"
| "parted (Same l # ps) \<longleftrightarrow> parted ps"
| "parted (Block a b # ps) \<longleftrightarrow> \<not> block_first ps \<and> parted ps"

lemma spots_after: "s \<in> set (spots i ps) \<Longrightarrow> i \<le> fst s"
  by (induction i ps rule: spots.induct) fastforce+

lemma spots_beyond: "\<not> block_first ps \<Longrightarrow> s \<in> set (spots i ps) \<Longrightarrow> i < fst s"
  by (cases ps rule: block_first.cases) (auto dest: spots_after)

lemma spots_sorted: "parted ps \<Longrightarrow> sorted_wrt (\<lambda>a b. fst a < fst b) (spots i ps)"
proof (induction ps arbitrary: i rule: parted.induct)
  case (3 a b ps)
  then show ?case using spots_beyond [of ps _ "i + length b"] by fastforce
qed simp_all

lemma parted_turned: "parted (turned ps) = parted ps"
proof (induction ps rule: parted.induct)
  case (3 a b ps)
  have "block_first (turned ps) = block_first ps" by (cases ps rule: block_first.cases) simp_all
  then show ?case using 3 by simp
qed simp_all

lemma parted_pieces: "parted (pieces_from c cs)"
proof (induction c cs rule: pieces_from.induct)
  case (4 a b v cs)
  then show ?case by simp
qed auto

lemma foldr_spots:
  "foldr (\<lambda>h c. reject_patch c h) hs c = foldr put_back (map reject_spot hs) c"
  "foldr (\<lambda>h c. accept_patch c h) hs c = foldr put_back (map accept_spot hs) c"
  by (induction hs) (simp_all add: reject_patch_def reject_spot_def accept_patch_def accept_spot_def)

lemma patches_spots:
  "sorted_wrt (\<lambda>a b. fst a < fst b) (map reject_spot hs) \<Longrightarrow>
     reject_patches hs c = foldr put_back (map reject_spot hs) c"
  "sorted_wrt (\<lambda>a b. fst a < fst b) (map accept_spot hs) \<Longrightarrow>
     accept_patches hs c = foldr put_back (map accept_spot hs) c"
  using sort_descending [of "\<lambda>h. li_new_start (hk_line h)" hs]
    sort_descending [of "\<lambda>h. li_old_start (hk_line h)" hs]
  by (simp_all add: reject_patches_def accept_patches_def foldl_conv_foldr foldr_spots sorted_wrt_map
      reject_spot_def accept_spot_def)

lemma sorted_wrt_nths: "sorted_wrt P xs \<Longrightarrow> sorted_wrt P (nths xs A)"
  by (induction xs arbitrary: A) (auto simp: nths_Cons dest: in_set_nthsD)

lemma solid_pieces: "(TagEqual, l @ [newline]) \<in> set cs \<Longrightarrow> l \<noteq> [] \<Longrightarrow> solid (pieces_from c cs)"
  by (induction c cs rule: pieces_from.induct) (auto simp: body_def)

lemma side_turned: "new_side (turned ps) = old_side ps" "old_side (turned ps) = new_side ps" "solid (turned ps) = solid ps"
  by (induction ps rule: turned.induct) simp_all

lemma plain_turned: "lines_plain (turned ps) = lines_plain ps"
  by (auto simp: lines_plain_def side_turned)

lemma nths_UNIV_compl [simp]: "nths xs UNIV = xs" "nths xs (- UNIV) = []"
  by (simp_all add: nths_all nths_def)

text \<open>The hunks of a diff, seen from both sides.\<close>

lemma compute_spots:
  assumes "splits_lines (de_lines D a b) a b" and "a \<noteq> b"
    and "length a \<le> MAX_DIFF_FILE_SIZE" "length b \<le> MAX_DIFF_FILE_SIZE" "\<not> de_timed_out D a b"
  shows "map reject_spot (fst (compute_hunks D n path a b source)) = spots 1 (pieces (de_lines D a b))"
    and "map accept_spot (fst (compute_hunks D n path a b source)) = spots 1 (turned (pieces (de_lines D a b)))"
proof -
  let ?w = "\<lparr>dw_old = 1, dw_new = 1, dw_cur = None, dw_hunks = [], dw_next = n\<rparr>"
  have c: "fst (compute_hunks D n path a b source) = walked D path source ?w (de_lines D a b)"
    using assms(2-5) by (simp add: compute_hunks_def walked_def Let_def)
  have "walk_ok ?w" by (simp add: walk_ok_def)
  moreover have "list_all full_line (map snd (de_lines D a b))" using assms(1) by (simp add: splits_lines_def)
  ultimately show "map reject_spot (fst (compute_hunks D n path a b source)) = spots 1 (pieces (de_lines D a b))"
    "map accept_spot (fst (compute_hunks D n path a b source)) = spots 1 (turned (pieces (de_lines D a b)))"
    using walk_spots [of ?w "de_lines D a b" D path source]
    by (simp_all add: c walk_start_def builder_of_def pieces_def)
qed

lemma hunks_both_sides:
  assumes diff: "splits_lines (de_lines D a b) a b" "a \<noteq> b"
      "length a \<le> MAX_DIFF_FILE_SIZE" "length b \<le> MAX_DIFF_FILE_SIZE" "\<not> de_timed_out D a b"
    and same: "(TagEqual, l @ [newline]) \<in> set (de_lines D a b)" "l \<noteq> []"
  shows "reject_patches (nths (fst (compute_hunks D n path a b source)) A) b
           = unlines (mixed A (pieces (de_lines D a b)))"
    and "accept_patches (nths (fst (compute_hunks D n path a b source)) A) a
           = unlines (mixed (- A) (pieces (de_lines D a b)))"
proof -
  let ?ps = "pieces (de_lines D a b)"
  let ?hs = "nths (fst (compute_hunks D n path a b source)) A"
  have solid: "solid ?ps" using solid_pieces [OF same] by (simp add: pieces_def)
  have parted: "parted ?ps" by (simp add: pieces_def parted_pieces)
  note sides = pieces_text [OF diff(1)]
  have r: "map reject_spot ?hs = nths (spots 1 ?ps) A" and c: "map accept_spot ?hs = nths (spots 1 (turned ?ps)) A"
    using compute_spots [OF diff, of n path source] by (metis nths_map)+
  have "reject_patches ?hs b = foldr put_back (nths (spots 1 ?ps) A) b"
    using patches_spots(1) [of ?hs b] r sorted_wrt_nths [OF spots_sorted [OF parted]] by simp
  then show "reject_patches ?hs b = unlines (mixed A ?ps)"
    using put_back_spots [of ?ps "[]" A] solid sides by simp
  have "accept_patches ?hs a = foldr put_back (nths (spots 1 (turned ?ps)) A) a"
    using patches_spots(2) [of ?hs a] c parted sorted_wrt_nths [OF spots_sorted [of "turned ?ps"]]
    by (simp add: parted_turned)
  then show "accept_patches ?hs a = unlines (mixed (- A) ?ps)"
    using put_back_spots [of "turned ?ps" "[]" A] solid sides by (simp add: side_turned plain_turned mixed_turned)
qed

text \<open>
  C18. Accepting and rejecting hunks are two views of one edit.  For two texts whose lines all end in a
  plain newline and whose diff keeps some line that is not blank, rejecting any of the hunks in the
  current text gives exactly what accepting the other hunks makes of the baseline; rejecting all of
  them restores the baseline, accepting all of them gives the current text.
\<close>

theorem rejecting_is_accepting_the_rest:
  assumes "splits_lines (de_lines D baseline current) baseline current"
    and "(TagEqual, l @ [newline]) \<in> set (de_lines D baseline current)" and "l \<noteq> []"
    and "length baseline \<le> MAX_DIFF_FILE_SIZE" and "length current \<le> MAX_DIFF_FILE_SIZE"
    and "\<not> de_timed_out D baseline current"
  shows "reject_patches (nths (fst (compute_hunks D n path baseline current source)) A) current
      = accept_patches (nths (fst (compute_hunks D n path baseline current source)) (- A)) baseline
    \<and> reject_patches (fst (compute_hunks D n path baseline current source)) current = baseline
    \<and> accept_patches (fst (compute_hunks D n path baseline current source)) baseline = current"
proof (cases "baseline = current")
  case True
  then show ?thesis by (simp add: compute_hunks_def reject_patches_def accept_patches_def)
next
  case False
  note both = hunks_both_sides [OF assms(1) False assms(4-6) assms(2,3)]
  have old: "mixed UNIV ps = old_side ps" and new: "mixed {} ps = new_side ps" for ps
    by (induction ps rule: old_side.induct) simp_all
  show ?thesis
    using both(1) [of n path source A] both(2) [of n path source "- A"]
      both(1) [of n path source UNIV] both(2) [of n path source UNIV] pieces_text [OF assms(1)]
    by (simp add: old new Compl_UNIV_eq)
qed

definition demo_diff :: diff_env where
  "demo_diff =
     \<lparr>de_lines = (\<lambda>a b. if a = b then [] else
        [(TagEqual, ''k'' @ [newline]), (TagDelete, ''a'' @ [newline]), (TagInsert, ''b'' @ [newline]),
         (TagEqual, ''m'' @ [newline]), (TagInsert, ''z'' @ [newline])]),
      de_timed_out = (\<lambda>_ _. False), de_new_id = (\<lambda>n. ''h'' @ show_nat n), de_utf8 = (\<lambda>_. True)\<rparr>"

lemma rejecting_is_accepting_the_rest_witness:
  "reject_patches (nths (fst (compute_hunks demo_diff 0 ''f'' (unlines [''k'', ''a'', ''m'']) (unlines [''k'', ''b'', ''m'', ''z'']) External)) {0})
     (unlines [''k'', ''b'', ''m'', ''z''])
   = accept_patches (nths (fst (compute_hunks demo_diff 0 ''f'' (unlines [''k'', ''a'', ''m'']) (unlines [''k'', ''b'', ''m'', ''z'']) External)) (- {0}))
     (unlines [''k'', ''a'', ''m''])"
proof -
  have s: "splits_lines (de_lines demo_diff (unlines [''k'', ''a'', ''m'']) (unlines [''k'', ''b'', ''m'', ''z'']))
      (unlines [''k'', ''a'', ''m'']) (unlines [''k'', ''b'', ''m'', ''z''])"
    by (simp add: demo_diff_def splits_lines_def old_changes_def new_changes_def full_line_def plain_line_def
        body_def newline_def)
  have e: "(TagEqual, ''k'' @ [newline]) \<in> set (de_lines demo_diff (unlines [''k'', ''a'', ''m'']) (unlines [''k'', ''b'', ''m'', ''z'']))"
    "''k'' \<noteq> []"
    by (simp_all add: demo_diff_def newline_def)
  have l: "length (unlines [''k'', ''a'', ''m'']) \<le> MAX_DIFF_FILE_SIZE"
    "length (unlines [''k'', ''b'', ''m'', ''z'']) \<le> MAX_DIFF_FILE_SIZE"
    "\<not> de_timed_out demo_diff (unlines [''k'', ''a'', ''m'']) (unlines [''k'', ''b'', ''m'', ''z''])"
    by (simp_all add: MAX_DIFF_FILE_SIZE_def demo_diff_def)
  show ?thesis using rejecting_is_accepting_the_rest [OF s e l] by blast
qed

text \<open>
  Where patching is not exact: it drops the carriage returns of lines no hunk touches, gives a text
  without a final newline one, loses the final newline of a text it starts from nothing, and loses a
  text that is one blank line.
\<close>

theorem patching_gaps:
  "patch_lines (''a'' @ [CHR 0x0D, CHR 0x0A] @ ''B'' @ [CHR 0x0D, CHR 0x0A]) 2 1 (''b'' @ [CHR 0x0D, CHR 0x0A])
     = ''a'' @ [CHR 0x0A] @ ''b'' @ [CHR 0x0A]
   \<and> patch_lines (''a'' @ [CHR 0x0A]) 1 1 ''a'' = ''a'' @ [CHR 0x0A]
   \<and> patch_lines [] 1 0 (''a'' @ [CHR 0x0A]) = ''a''
   \<and> patch_lines (''x'' @ [CHR 0x0A]) 1 1 [CHR 0x0A] = []"
  by (simp add: patch_lines_def str_lines_def drop_cr_def ends_with_newline_def ends_with_def starts_with_def)

end
