(* ===== verification/HunkTracker.thy ===== *)
theory HunkTracker
  imports HunkDiff Paths "HOL-Library.AList"
begin

section \<open>The hunk tracker\<close>

text \<open>
  The actor of \<open>codegen/xai-hunk-tracker/src/actor\<close>: its state, the recomputation of hunks, the
  actions on hunks, the handling of writes, file notifications and Git changes, the batching of
  commands, snapshots and queries.  What the outside answers while one command is handled (the disk,
  Git, the blocking pool) is the record \<open>tracker_io\<close>; it does not change during a command.  A
  \<open>HashMap\<close> is an association list whose order stands for the order of its iteration.  The events
  sent and the writes to the disk are appended to the state.
\<close>

subsection \<open>State\<close>

datatype removal_reason = Accepted | Rejected | Superseded

datatype hunk_event =
    HunkAdded string hunk
  | HunkRemoved string string removal_reason
  | HunkMoved string string line_info
  | HunkContentChanged string hunk hunk_source nat nat
  | FileAdded string bool
  | FileRemoved string
  | BaselineUpdated string

datatype disk_write = WriteFile string string | RemoveFile string

datatype hunk_action = Accept | Reject

datatype hunk_action_error = HunkNotFound string | WriteError string | DeleteError string | ReadError string

datatype tracking_mode = AgentOnly | AllDirty

datatype repo_state = GitUnknown | NotARepo | Discovered

record repo_sync =
  rs_head :: "string option"
  rs_index :: "nat option"

record file_state =
  fs_baseline :: file_content
  fs_current :: file_content
  fs_hunks :: "hunk list"
  fs_agent :: bool
  fs_accepted :: bool

record session_stats =
  ss_accepted :: u64
  ss_rejected :: u64
  ss_accepted_added :: u64
  ss_accepted_removed :: u64
  ss_rejected_added :: u64
  ss_rejected_removed :: u64

definition session_stats_default :: session_stats where
  "session_stats_default =
     \<lparr>ss_accepted = 0, ss_rejected = 0, ss_accepted_added = 0, ss_accepted_removed = 0,
      ss_rejected_added = 0, ss_rejected_removed = 0\<rparr>"

record tracker =
  tr_dir :: string
  tr_files :: "(string \<times> file_state) list"
  tr_turns :: "nat \<Rightarrow> string set option"
  tr_dirty :: "string list"
  tr_staged :: "string list"
  tr_repo :: repo_state
  tr_sync :: repo_sync
  tr_mode :: tracking_mode
  tr_stats :: session_stats
  tr_next :: nat
  tr_events :: "hunk_event list"
  tr_writes :: "disk_write list"

record tracker_io =
  ti_disk :: "string \<Rightarrow> file_read"
  ti_exists :: "string \<Rightarrow> bool"
  ti_is_dir :: "string \<Rightarrow> bool"
  ti_write_ok :: "string \<Rightarrow> bool"
  ti_remove_ok :: "string \<Rightarrow> bool"
  ti_joined :: bool
  ti_in_repo :: bool
  ti_head :: "string \<Rightarrow> file_content"
  ti_status :: "string list option \<Rightarrow> string list \<times> string list"
  ti_sync :: repo_sync

definition tracker_new :: "string \<Rightarrow> tracking_mode \<Rightarrow> tracker" where
  "tracker_new dir mode =
     \<lparr>tr_dir = dir, tr_files = [], tr_turns = (\<lambda>_. None), tr_dirty = [], tr_staged = [], tr_repo = GitUnknown,
      tr_sync = \<lparr>rs_head = None, rs_index = None\<rparr>, tr_mode = mode, tr_stats = session_stats_default,
      tr_next = 0, tr_events = [], tr_writes = []\<rparr>"

definition file_of :: "tracker \<Rightarrow> string \<Rightarrow> file_state option" where
  "file_of t p = map_of (tr_files t) p"

definition put_file :: "string \<Rightarrow> file_state \<Rightarrow> tracker \<Rightarrow> tracker" where
  "put_file p st t = t\<lparr>tr_files := AList.update p st (tr_files t)\<rparr>"

definition drop_file :: "string \<Rightarrow> tracker \<Rightarrow> tracker" where
  "drop_file p t = t\<lparr>tr_files := AList.delete p (tr_files t)\<rparr>"

definition emit_event :: "hunk_event \<Rightarrow> tracker \<Rightarrow> tracker" where
  "emit_event e t = t\<lparr>tr_events := tr_events t @ [e]\<rparr>"

definition send_events :: "hunk_event list \<Rightarrow> tracker \<Rightarrow> tracker" where
  "send_events es t = t\<lparr>tr_events := tr_events t @ es\<rparr>"

definition write_disk :: "disk_write \<Rightarrow> tracker \<Rightarrow> tracker" where
  "write_disk w t = t\<lparr>tr_writes := tr_writes t @ [w]\<rparr>"

subsection \<open>The index of turns\<close>

definition turn_remove :: "string \<Rightarrow> hunk_source \<Rightarrow> tracker \<Rightarrow> tracker" where
  "turn_remove i source t =
     (case prompt_index source of
        None \<Rightarrow> t
      | Some k \<Rightarrow>
          (case tr_turns t k of
             None \<Rightarrow> t
           | Some ids \<Rightarrow> t\<lparr>tr_turns := (tr_turns t)(k := Some (ids - {i}))\<rparr>))"

definition turn_insert :: "string \<Rightarrow> hunk_source \<Rightarrow> tracker \<Rightarrow> tracker" where
  "turn_insert i source t =
     (case prompt_index source of
        None \<Rightarrow> t
      | Some k \<Rightarrow>
          t\<lparr>tr_turns := (tr_turns t)(k := Some (insert i (case tr_turns t k of Some ids \<Rightarrow> ids | None \<Rightarrow> {})))\<rparr>)"

definition turn_remove_hunk :: "tracker \<Rightarrow> hunk \<Rightarrow> tracker" where
  "turn_remove_hunk t h = turn_remove (hk_id h) (hk_source h) t"

definition turn_insert_hunk :: "tracker \<Rightarrow> hunk \<Rightarrow> tracker" where
  "turn_insert_hunk t h = turn_insert (hk_id h) (hk_source h) t"

subsection \<open>Recomputing the hunks of a file\<close>

definition fresh_hunks ::
    "diff_env \<Rightarrow> nat \<Rightarrow> string \<Rightarrow> file_content \<Rightarrow> file_content \<Rightarrow> hunk_source \<Rightarrow> hunk list \<times> nat" where
  "fresh_hunks D n path base cur source =
     (case (base, cur) of
        (Full a, Full b) \<Rightarrow> compute_hunks D n path a b source
      | (Full a, MissingFile) \<Rightarrow> if a = [] then ([], n) else ([file_deleted (de_new_id D n) path a source], Suc n)
      | (MissingFile, Full b) \<Rightarrow> if b = [] then ([], n) else ([file_created (de_new_id D n) path b source], Suc n)
      | _ \<Rightarrow> ([], n))"

text \<open>
  A new hunk takes over the identifier of the old hunk it matches best, unless an earlier one has, and
  an external edit keeps the attribution to the agent.
\<close>

definition claim_hunk :: "hunk list \<Rightarrow> string list \<times> hunk list \<Rightarrow> hunk \<Rightarrow> string list \<times> hunk list" where
  "claim_hunk olds acc h =
     (case find_matching_old_hunk h olds of
        None \<Rightarrow> (fst acc, snd acc @ [h])
      | Some m \<Rightarrow>
          if hk_id m \<in> set (fst acc) then (fst acc, snd acc @ [h])
          else (hk_id m # fst acc,
                snd acc @ [h\<lparr>hk_id := hk_id m,
                             hk_source := (if is_external (hk_source h) \<and> is_agent_edit (hk_source m)
                                           then hk_source m else hk_source h)\<rparr>]))"

definition claim_hunks :: "hunk list \<Rightarrow> hunk list \<Rightarrow> hunk list" where
  "claim_hunks olds news = snd (foldl (claim_hunk olds) ([], []) news)"

definition removed_events :: "string \<Rightarrow> hunk list \<Rightarrow> hunk list \<Rightarrow> hunk_event list" where
  "removed_events path olds news =
     map (\<lambda>h. HunkRemoved path (hk_id h) Superseded)
       (filter (\<lambda>h. \<not> list_ex (\<lambda>n. hunks_overlap h n \<or> hunks_match_content h n) news) olds)"

definition prev_hunk :: "hunk list \<Rightarrow> hunk \<Rightarrow> hunk option" where
  "prev_hunk olds h =
     (case List.find (\<lambda>old. hk_id old = hk_id h) olds of
        Some old \<Rightarrow> Some old
      | None \<Rightarrow> List.find (\<lambda>old. hunks_overlap old h) olds)"

definition changed_event :: "string \<Rightarrow> hunk list \<Rightarrow> hunk_source \<Rightarrow> hunk \<Rightarrow> hunk_event list" where
  "changed_event path olds trigger h =
     (case List.find (\<lambda>old. hunks_match_content old h) olds of
        Some old \<Rightarrow> if hunk_moved old h then [HunkMoved path (hk_id old) (hk_line h)] else []
      | None \<Rightarrow>
          if \<not> list_ex (\<lambda>old. hunks_overlap old h) olds then [HunkAdded path h]
          else (case prev_hunk olds h of
                  Some old \<Rightarrow>
                    [HunkContentChanged path h trigger (li_new_count (hk_line old)) (li_old_count (hk_line old))]
                | None \<Rightarrow> [HunkContentChanged path h trigger 0 0]))"

definition hunk_diff_events :: "string \<Rightarrow> hunk list \<Rightarrow> hunk list \<Rightarrow> hunk_source \<Rightarrow> hunk_event list" where
  "hunk_diff_events path olds news trigger =
     removed_events path olds news @ concat (map (changed_event path olds trigger) news)"

definition recompute_hunks ::
    "diff_env \<Rightarrow> string \<Rightarrow> file_content option \<Rightarrow> hunk_source \<Rightarrow> tracker \<Rightarrow> tracker" where
  "recompute_hunks D path new_current source t =
     (case file_of t path of
        None \<Rightarrow> t
      | Some st \<Rightarrow>
          (let cur = (case new_current of Some c \<Rightarrow> c | None \<Rightarrow> MissingFile);
               olds = fs_hunks st;
               fresh = fresh_hunks D (tr_next t) path (fs_baseline st) cur source;
               news = claim_hunks olds (fst fresh);
               t1 = put_file path (st\<lparr>fs_current := cur, fs_hunks := news\<rparr>) (t\<lparr>tr_next := snd fresh\<rparr>);
               t2 = foldl turn_remove_hunk t1 olds;
               t3 = foldl turn_insert_hunk t2 news
           in send_events (hunk_diff_events path olds news source) t3))"

subsection \<open>Actions on hunks\<close>

definition update_session_stats :: "line_info \<Rightarrow> bool \<Rightarrow> tracker \<Rightarrow> tracker" where
  "update_session_stats li accepted t =
     (let s = tr_stats t; added = of_nat (li_new_count li); removed = of_nat (li_old_count li)
      in t\<lparr>tr_stats :=
             (if accepted
              then s\<lparr>ss_accepted := sat_add (ss_accepted s) 1,
                     ss_accepted_added := sat_add (ss_accepted_added s) added,
                     ss_accepted_removed := sat_add (ss_accepted_removed s) removed\<rparr>
              else s\<lparr>ss_rejected := sat_add (ss_rejected s) 1,
                     ss_rejected_added := sat_add (ss_rejected_added s) added,
                     ss_rejected_removed := sat_add (ss_rejected_removed s) removed\<rparr>)\<rparr>)"

definition book_action :: "hunk_action \<Rightarrow> tracker \<Rightarrow> hunk \<Rightarrow> tracker" where
  "book_action action t h = turn_remove_hunk (update_session_stats (hk_line h) (action = Accept) t) h"

definition without_hunks :: "hunk list \<Rightarrow> hunk list \<Rightarrow> hunk list" where
  "without_hunks gone hs = filter (\<lambda>h. hk_id h \<notin> set (map hk_id gone)) hs"

definition removal_events :: "string \<Rightarrow> removal_reason \<Rightarrow> hunk list \<Rightarrow> hunk_event list" where
  "removal_events path reason hs = map (\<lambda>h. HunkRemoved path (hk_id h) reason) hs"

definition remaining_source :: "tracker \<Rightarrow> string \<Rightarrow> hunk_source" where
  "remaining_source t path =
     (case file_of t path of
        Some st \<Rightarrow> (case fs_hunks st of h # _ \<Rightarrow> hk_source h | [] \<Rightarrow> External)
      | None \<Rightarrow> External)"

text \<open>Accepting the hunks of a file; one hunk is the list of it.\<close>

definition accept_hunks :: "diff_env \<Rightarrow> string \<Rightarrow> hunk list \<Rightarrow> tracker \<Rightarrow> tracker" where
  "accept_hunks D path hs t =
     (if hs = [] then t
      else
        (case file_of t path of
           None \<Rightarrow> t
         | Some st \<Rightarrow>
             (let events = removal_events path Accepted hs @ [BaselineUpdated path] in
              if fs_baseline st = MissingFile then
                send_events events
                  (put_file path (st\<lparr>fs_baseline := fs_current st, fs_accepted := True,
                                     fs_hunks := without_hunks hs (fs_hunks st)\<rparr>) t)
              else
                (let base = (case fs_baseline st of Full a \<Rightarrow> Full (accept_patches hs a) | b \<Rightarrow> b);
                     t1 = put_file path (st\<lparr>fs_baseline := base, fs_accepted := True,
                                            fs_hunks := without_hunks hs (fs_hunks st)\<rparr>) t;
                     t2 = send_events events t1
                 in recompute_hunks D path (Some (fs_current st)) (remaining_source t2 path) t2))))"

definition reject_hunks ::
    "diff_env \<Rightarrow> tracker_io \<Rightarrow> string \<Rightarrow> hunk list \<Rightarrow> tracker \<Rightarrow> tracker \<times> (hunk_action_error + unit)" where
  "reject_hunks D io path hs t =
     (if hs = [] then (t, Inr ())
      else
        (case file_of t path of
           None \<Rightarrow> (t, Inr ())
         | Some st \<Rightarrow>
             (let events = removal_events path Rejected hs; left = without_hunks hs (fs_hunks st) in
              case (fs_baseline st, fs_current st) of
                (Full a, MissingFile) \<Rightarrow>
                  (if ti_write_ok io path
                   then (send_events events
                           (put_file path (st\<lparr>fs_current := Full a, fs_hunks := left\<rparr>)
                             (write_disk (WriteFile path a) t)), Inr ())
                   else (t, Inl (WriteError path)))
              | (MissingFile, Full b) \<Rightarrow>
                  (if ti_remove_ok io path
                   then (send_events events
                           (put_file path (st\<lparr>fs_current := MissingFile, fs_hunks := left\<rparr>)
                             (write_disk (RemoveFile path) t)), Inr ())
                   else (t, Inl (DeleteError path)))
              | (_, Full b) \<Rightarrow>
                  (let patched = reject_patches hs b in
                   if ti_write_ok io path
                   then
                     (let t1 = put_file path (st\<lparr>fs_current := Full patched, fs_hunks := left\<rparr>)
                                 (write_disk (WriteFile path patched) t);
                          t2 = send_events events t1
                      in (recompute_hunks D path (Some (Full patched)) (remaining_source t2 path) t2, Inr ()))
                   else (t, Inl (WriteError path)))
              | _ \<Rightarrow> (t, Inr ()))))"

definition apply_to_file ::
    "diff_env \<Rightarrow> tracker_io \<Rightarrow> hunk_action \<Rightarrow> string \<Rightarrow> hunk list \<Rightarrow> tracker \<Rightarrow> tracker \<times> (hunk_action_error + unit)" where
  "apply_to_file D io action path hs t =
     (let t1 = foldl (book_action action) t hs
      in case action of Accept \<Rightarrow> (accept_hunks D path hs t1, Inr ()) | Reject \<Rightarrow> reject_hunks D io path hs t1)"

definition find_hunk :: "tracker \<Rightarrow> string \<Rightarrow> (string \<times> hunk) option" where
  "find_hunk t i =
     List.find (\<lambda>ph. hk_id (snd ph) = i) (concat (map (\<lambda>(p, st). map (Pair p) (fs_hunks st)) (tr_files t)))"

definition apply_hunk_action ::
    "diff_env \<Rightarrow> tracker_io \<Rightarrow> string \<Rightarrow> hunk_action \<Rightarrow> tracker \<Rightarrow> tracker \<times> (hunk_action_error + unit)" where
  "apply_hunk_action D io i action t =
     (case find_hunk t i of
        None \<Rightarrow> (t, Inl (HunkNotFound i))
      | Some (path, h) \<Rightarrow> apply_to_file D io action path [h] t)"

fun apply_action_batch ::
    "diff_env \<Rightarrow> tracker_io \<Rightarrow> hunk_action \<Rightarrow> (string \<times> hunk list) list \<Rightarrow> tracker
     \<Rightarrow> tracker \<times> (hunk_action_error + string list)" where
  "apply_action_batch D io action [] t = (t, Inr [])"
| "apply_action_batch D io action ((path, hs) # files) t =
     (case apply_to_file D io action path hs t of
        (t1, Inl e) \<Rightarrow> (t1, Inl e)
      | (t1, Inr _) \<Rightarrow>
          (case apply_action_batch D io action files t1 of
             (t2, Inl e) \<Rightarrow> (t2, Inl e)
           | (t2, Inr ids) \<Rightarrow> (t2, Inr (map hk_id hs @ ids))))"

definition apply_file_action ::
    "diff_env \<Rightarrow> tracker_io \<Rightarrow> string \<Rightarrow> hunk_action \<Rightarrow> tracker \<Rightarrow> tracker \<times> (hunk_action_error + string list)" where
  "apply_file_action D io path action t =
     (case file_of t path of
        None \<Rightarrow> (t, Inr [])
      | Some st \<Rightarrow>
          if fs_hunks st = [] then (t, Inr []) else apply_action_batch D io action [(path, fs_hunks st)] t)"

definition apply_all_action ::
    "diff_env \<Rightarrow> tracker_io \<Rightarrow> hunk_action \<Rightarrow> tracker \<Rightarrow> tracker \<times> (hunk_action_error + string list)" where
  "apply_all_action D io action t =
     apply_action_batch D io action
       (map (\<lambda>(p, st). (p, fs_hunks st)) (filter (\<lambda>(p, st). fs_hunks st \<noteq> []) (tr_files t))) t"

definition turn_hunks :: "nat \<Rightarrow> file_state \<Rightarrow> hunk list" where
  "turn_hunks k st = filter (\<lambda>h. prompt_index (hk_source h) = Some k) (fs_hunks st)"

definition apply_turn_action ::
    "diff_env \<Rightarrow> tracker_io \<Rightarrow> nat \<Rightarrow> hunk_action \<Rightarrow> tracker \<Rightarrow> tracker \<times> (hunk_action_error + string list)" where
  "apply_turn_action D io k action t =
     apply_action_batch D io action
       (map (\<lambda>(p, st). (p, turn_hunks k st)) (filter (\<lambda>(p, st). turn_hunks k st \<noteq> []) (tr_files t))) t"

subsection \<open>Git and the disk\<close>

definition discover :: "tracker_io \<Rightarrow> repo_state \<Rightarrow> repo_state" where
  "discover io r = (case r of GitUnknown \<Rightarrow> if ti_in_repo io then Discovered else NotARepo | _ \<Rightarrow> r)"

definition current_of :: "diff_env \<Rightarrow> tracker_io \<Rightarrow> string \<Rightarrow> file_content" where
  "current_of D io p = read_file_bounded (de_utf8 D) (ti_disk io p)"

definition read_baseline :: "tracker_io \<Rightarrow> string \<Rightarrow> tracker \<Rightarrow> file_content \<times> tracker" where
  "read_baseline io p t =
     (if tr_repo t = NotARepo \<or> \<not> ti_joined io then (MissingFile, t)
      else
        (let r = discover io (tr_repo t)
         in (if r = NotARepo then MissingFile else ti_head io p, t\<lparr>tr_repo := r\<rparr>)))"

definition read_baselines_batch ::
    "tracker_io \<Rightarrow> string list \<Rightarrow> tracker \<Rightarrow> (string \<times> file_content) list \<times> tracker" where
  "read_baselines_batch io ps t =
     (if ps = [] \<or> tr_repo t = NotARepo \<or> \<not> ti_joined io then ([], t)
      else
        (let r = discover io (tr_repo t)
         in (map (\<lambda>p. (p, if r = NotARepo then MissingFile else ti_head io p)) ps, t\<lparr>tr_repo := r\<rparr>)))"

definition read_repo_sync_state :: "tracker_io \<Rightarrow> tracker \<Rightarrow> repo_sync option \<times> tracker" where
  "read_repo_sync_state io t =
     (if tr_repo t = NotARepo \<or> \<not> ti_joined io then (None, t)
      else
        (let r = discover io (tr_repo t)
         in (if r = NotARepo then None else Some (ti_sync io), t\<lparr>tr_repo := r\<rparr>)))"

definition rel_path :: "tracker \<Rightarrow> string \<Rightarrow> string" where
  "rel_path t p = (case path_strip_prefix p (tr_dir t) of Some r \<Rightarrow> r | None \<Rightarrow> p)"

definition git_clean :: "tracker \<Rightarrow> string \<Rightarrow> bool" where
  "git_clean t p \<longleftrightarrow> rel_path t p \<notin> set (tr_dirty t)"

definition strip_single_trailing_newline :: "string \<Rightarrow> string" where
  "strip_single_trailing_newline c =
     (case strip_suffix c [CHR 0x0D, CHR 0x0A] of
        Some s \<Rightarrow> s
      | None \<Rightarrow> (case strip_suffix c [CHR 0x0A] of Some s \<Rightarrow> s | None \<Rightarrow> c))"

subsection \<open>Writes of the agent and changes on disk\<close>

definition track_file :: "string \<Rightarrow> file_content \<Rightarrow> file_content \<Rightarrow> bool \<Rightarrow> tracker \<Rightarrow> tracker" where
  "track_file p base cur agent t =
     emit_event (FileAdded p agent)
       (put_file p \<lparr>fs_baseline = base, fs_current = cur, fs_hunks = [], fs_agent = agent, fs_accepted = False\<rparr> t)"

definition record_agent_write ::
    "diff_env \<Rightarrow> tracker_io \<Rightarrow> string \<Rightarrow> string \<Rightarrow> nat \<Rightarrow> string option \<Rightarrow> tracker \<Rightarrow> tracker" where
  "record_agent_write D io p content idx previous t =
     (let cur = classify_string content in
      if \<not> is_diffable cur then
        (case file_of t p of
           None \<Rightarrow>
             (case (case previous of Some prev \<Rightarrow> (classify_string prev, t) | None \<Rightarrow> read_baseline io p t) of
                (base, t1) \<Rightarrow> track_file p base cur True t1)
         | Some st \<Rightarrow> put_file p (st\<lparr>fs_agent := True, fs_current := cur, fs_hunks := []\<rparr>) t)
      else
        (let t2 =
           (case file_of t p of
              None \<Rightarrow>
                (case read_baseline io p t of
                   (base, t1) \<Rightarrow>
                     track_file p
                       (if base = MissingFile then (case previous of Some prev \<Rightarrow> classify_string prev | None \<Rightarrow> MissingFile)
                        else base) cur True t1)
            | Some st \<Rightarrow> put_file p (st\<lparr>fs_agent := True\<rparr>) t)
         in recompute_hunks D p (Some cur) (AgentEdit idx) t2))"

definition content_matches_head :: "tracker \<Rightarrow> string \<Rightarrow> file_content \<Rightarrow> file_content \<Rightarrow> bool" where
  "content_matches_head t p cur head =
     (case (cur, head) of
        (Full c, Full h) \<Rightarrow> strip_single_trailing_newline c = strip_single_trailing_newline h
      | (MissingFile, MissingFile) \<Rightarrow> True
      | (Binary _, Binary _) \<Rightarrow> True
      | (TooLarge _, TooLarge _) \<Rightarrow> True
      | (LfsPointer _, LfsPointer _) \<Rightarrow> True
      | (Symlink, Symlink) \<Rightarrow> True
      | (Symlink, Full _) \<Rightarrow> git_clean t p
      | (Full _, Symlink) \<Rightarrow> git_clean t p
      | _ \<Rightarrow> False)"

definition external_source :: "tracker \<Rightarrow> string \<Rightarrow> hunk_source" where
  "external_source t p =
     (case file_of t p of Some st \<Rightarrow> if fs_agent st then ExternalEditOnAgentFile else External | None \<Rightarrow> External)"

definition baseline_or_read ::
    "tracker_io \<Rightarrow> string \<Rightarrow> file_content option \<Rightarrow> tracker \<Rightarrow> file_content \<times> tracker" where
  "baseline_or_read io p pre t = (case pre of Some b \<Rightarrow> (b, t) | None \<Rightarrow> read_baseline io p t)"

text \<open>A path without a baseline that Git does not call dirty is ignored by Git, unless it is a directory.\<close>

definition ignored_by_git :: "tracker_io \<Rightarrow> string \<Rightarrow> file_content \<Rightarrow> tracker \<Rightarrow> bool" where
  "ignored_by_git io p base t \<longleftrightarrow>
     tr_mode t = AllDirty \<and> base = MissingFile \<and> \<not> ti_is_dir io p \<and> git_clean t p"

definition process_file_change ::
    "diff_env \<Rightarrow> tracker_io \<Rightarrow> string \<Rightarrow> file_content option \<Rightarrow> tracker \<Rightarrow> tracker" where
  "process_file_change D io p pre t =
     (if tr_mode t = AgentOnly \<and> file_of t p = None then t
      else
        (let cur = current_of D io p in
         case file_of t p of
           None \<Rightarrow>
             (case (if is_diffable cur \<or> tr_mode t = AllDirty then baseline_or_read io p pre t else (MissingFile, t)) of
                (base, t1) \<Rightarrow>
                  if ignored_by_git io p base t1 then t1
                  else if \<not> is_diffable cur then
                    (let t2 = track_file p base cur False t1
                     in if is_diffable base then recompute_hunks D p None External t2 else t2)
                  else recompute_hunks D p (Some cur) External (track_file p base MissingFile False t1))
         | Some st \<Rightarrow>
             (case (if fs_accepted st then map_prod Some id (baseline_or_read io p pre t) else (None, t)) of
                (head, t1) \<Rightarrow>
                  (case head of
                     Some h \<Rightarrow>
                       if content_matches_head t1 p cur h
                       then put_file p (st\<lparr>fs_baseline := h, fs_current := h, fs_accepted := False, fs_hunks := []\<rparr>) t1
                       else recompute_hunks D p (Some cur) (external_source t1 p) t1
                   | None \<Rightarrow> recompute_hunks D p (Some cur) (external_source t1 p) t1))))"

definition handle_file_change :: "diff_env \<Rightarrow> tracker_io \<Rightarrow> string \<Rightarrow> tracker \<Rightarrow> tracker" where
  "handle_file_change D io p t = process_file_change D io p None t"

definition needs_baseline :: "tracker \<Rightarrow> string \<Rightarrow> bool" where
  "needs_baseline t p \<longleftrightarrow>
     (case file_of t p of None \<Rightarrow> tr_mode t \<noteq> AgentOnly | Some st \<Rightarrow> fs_accepted st)"

definition handle_file_changes_batch :: "diff_env \<Rightarrow> tracker_io \<Rightarrow> string list \<Rightarrow> tracker \<Rightarrow> tracker" where
  "handle_file_changes_batch D io ps t =
     (if ps = [] then t
      else
        (case read_baselines_batch io (filter (needs_baseline t) ps) t of
           (bases, t1) \<Rightarrow> foldl (\<lambda>t p. process_file_change D io p (map_of bases p) t) t1 ps))"

definition handle_file_deleted :: "diff_env \<Rightarrow> tracker_io \<Rightarrow> string \<Rightarrow> tracker \<Rightarrow> tracker" where
  "handle_file_deleted D io p t =
     (case file_of t p of
        None \<Rightarrow>
          if tr_mode t = AgentOnly \<or> ti_exists io p then t
          else
            (case read_baseline io p t of
               (base, t1) \<Rightarrow>
                 if base = MissingFile then t1
                 else recompute_hunks D p None External (track_file p base MissingFile False t1))
      | Some st \<Rightarrow>
          if ti_exists io p then handle_file_change D io p t
          else recompute_hunks D p None (external_source t p) t)"

text \<open>Clearing the hunks of a file: they leave the index, and each is reported.\<close>

definition retire_hunks :: "string \<Rightarrow> hunk list \<Rightarrow> tracker \<Rightarrow> tracker" where
  "retire_hunks p hs t = send_events (removal_events p Superseded hs) (foldl turn_remove_hunk t hs)"

definition reset_baseline :: "string \<Rightarrow> tracker \<Rightarrow> tracker" where
  "reset_baseline p t =
     (case file_of t p of
        None \<Rightarrow> t
      | Some st \<Rightarrow>
          emit_event (BaselineUpdated p)
            (retire_hunks p (fs_hunks st)
              (put_file p (st\<lparr>fs_baseline := fs_current st, fs_accepted := False, fs_hunks := []\<rparr>) t)))"

definition refresh_git_dirty_cache :: "diff_env \<Rightarrow> tracker_io \<Rightarrow> string list option \<Rightarrow> tracker \<Rightarrow> tracker" where
  "refresh_git_dirty_cache D io scope t =
     (if tr_repo t = NotARepo \<or> \<not> ti_joined io then t
      else
        (let r = discover io (tr_repo t);
             found = (if r = NotARepo then ([], []) else ti_status io scope);
             untracked = filter (\<lambda>rel. file_of t (path_join (tr_dir t) rel) = None) (fst found);
             t1 = t\<lparr>tr_repo := r, tr_dirty := fst found, tr_staged := snd found\<rparr>
         in if tr_mode t = AllDirty
            then foldl (\<lambda>t rel. handle_file_change D io (path_join (tr_dir t) rel) t) t1 untracked
            else t1))"

text \<open>Whether a refreshed file agrees with its new baseline.\<close>

definition refreshed_clean :: "tracker_io \<Rightarrow> tracker \<Rightarrow> string \<Rightarrow> file_content \<Rightarrow> file_content \<Rightarrow> bool" where
  "refreshed_clean io t p base cur =
     (case (base, cur) of
        (Full b, Full c) \<Rightarrow> strip_single_trailing_newline b = strip_single_trailing_newline c
      | (Binary _, Binary _) \<Rightarrow> git_clean t p
      | (TooLarge _, TooLarge _) \<Rightarrow> git_clean t p
      | (Symlink, Symlink) \<Rightarrow> git_clean t p
      | (LfsPointer _, _) \<Rightarrow> git_clean t p
      | (_, LfsPointer _) \<Rightarrow> git_clean t p
      | (Symlink, Full _) \<Rightarrow> git_clean t p
      | (Full _, Symlink) \<Rightarrow> git_clean t p
      | (MissingFile, MissingFile) \<Rightarrow> \<not> ti_exists io p
      | (MissingFile, _) \<Rightarrow> git_clean t p
      | _ \<Rightarrow> False)"

definition refresh_file ::
    "diff_env \<Rightarrow> tracker_io \<Rightarrow> (string \<times> file_content) list \<Rightarrow> string \<Rightarrow> tracker \<Rightarrow> tracker" where
  "refresh_file D io bases p t =
     (case file_of t p of
        None \<Rightarrow> t
      | Some st \<Rightarrow>
          (let base = (case map_of bases p of Some b \<Rightarrow> b | None \<Rightarrow> MissingFile);
               cur = current_of D io p;
               st1 = st\<lparr>fs_baseline := base, fs_current := cur, fs_accepted := False\<rparr>;
               t1 = put_file p st1 t
           in if refreshed_clean io t1 p base cur then
                (if \<not> fs_agent st
                 then emit_event (FileRemoved p) (retire_hunks p (fs_hunks st) (drop_file p t1))
                 else emit_event (BaselineUpdated p)
                        (retire_hunks p (fs_hunks st) (put_file p (st1\<lparr>fs_hunks := []\<rparr>) t1)))
              else
                emit_event (BaselineUpdated p)
                  (recompute_hunks D p (Some cur)
                    (if fs_agent st then ExternalEditOnAgentFile else External) t1)))"

definition refresh_all_baselines_except ::
    "diff_env \<Rightarrow> tracker_io \<Rightarrow> string list \<Rightarrow> tracker \<Rightarrow> tracker" where
  "refresh_all_baselines_except D io skip t =
     (if tr_mode t = AgentOnly \<and> tr_files t = [] then t
      else
        (case read_repo_sync_state io t of
           (sync, t1) \<Rightarrow>
             if sync = Some (tr_sync t1) then t1
             else
               (let t2 = (case sync of Some s \<Rightarrow> t1\<lparr>tr_sync := s\<rparr> | None \<Rightarrow> t1);
                    rels = List.map_filter (\<lambda>p. path_strip_prefix p (tr_dir t2)) (map fst (tr_files t2));
                    t3 = (if tr_mode t2 = AllDirty then refresh_git_dirty_cache D io None t2
                          else if rels = [] then t2\<lparr>tr_dirty := [], tr_staged := []\<rparr>
                          else refresh_git_dirty_cache D io (Some rels) t2);
                    ps = filter (\<lambda>p. p \<notin> set skip) (map fst (tr_files t3))
                in case read_baselines_batch io ps t3 of
                     (bases, t4) \<Rightarrow> foldl (\<lambda>t p. refresh_file D io bases p t) t4 ps)))"

definition stop_tracking :: "tracker \<Rightarrow> string \<Rightarrow> tracker" where
  "stop_tracking t p =
     (case file_of t p of
        None \<Rightarrow> t
      | Some st \<Rightarrow> emit_event (FileRemoved p) (retire_hunks p (fs_hunks st) (drop_file p t)))"

definition set_mode :: "diff_env \<Rightarrow> tracker_io \<Rightarrow> tracking_mode \<Rightarrow> tracker \<Rightarrow> tracker" where
  "set_mode D io mode t =
     (let t1 = t\<lparr>tr_mode := mode\<rparr> in
      if tr_mode t = AgentOnly \<and> mode = AllDirty then refresh_git_dirty_cache D io None t1
      else if tr_mode t = AllDirty \<and> mode = AgentOnly
      then foldl stop_tracking t1 (map fst (filter (\<lambda>(p, st). \<not> fs_agent st) (tr_files t1)))
      else t1)"

subsection \<open>Snapshots and a change of the working directory\<close>

record tracker_snapshot =
  sn_files :: "(string \<times> file_state) list"
  sn_turns :: "nat \<Rightarrow> string set option"
  sn_stats :: session_stats

definition take_snapshot :: "tracker \<Rightarrow> tracker_snapshot" where
  "take_snapshot t = \<lparr>sn_files = tr_files t, sn_turns = tr_turns t, sn_stats = tr_stats t\<rparr>"

record turn_delta =
  td_prompt :: nat
  td_files :: "(string \<times> file_state) list"
  td_ids :: "string set"

definition take_turn_delta :: "nat \<Rightarrow> tracker \<Rightarrow> turn_delta" where
  "take_turn_delta k t =
     (let ids = (case tr_turns t k of Some ids \<Rightarrow> ids | None \<Rightarrow> {})
      in \<lparr>td_prompt = k,
          td_files = filter (\<lambda>(p, st). list_ex (\<lambda>h. hk_id h \<in> ids) (fs_hunks st)) (tr_files t),
          td_ids = ids\<rparr>)"

definition restore_snapshot :: "tracker_snapshot \<Rightarrow> tracker \<Rightarrow> tracker" where
  "restore_snapshot s t = t\<lparr>tr_files := sn_files s, tr_turns := sn_turns s, tr_stats := sn_stats s\<rparr>"

definition rewrite_single_path :: "string \<Rightarrow> string \<Rightarrow> string \<Rightarrow> string \<Rightarrow> string option" where
  "rewrite_single_path path old_cwd canonical_old new_cwd =
     map_option (path_join new_cwd)
       (case path_strip_prefix path canonical_old of
          Some r \<Rightarrow> Some r | None \<Rightarrow> path_strip_prefix path old_cwd)"

definition with_path :: "string \<Rightarrow> file_state \<Rightarrow> file_state" where
  "with_path p st = st\<lparr>fs_hunks := map (\<lambda>h. h\<lparr>hk_path := p\<rparr>) (fs_hunks st)\<rparr>"

definition rewrite_paths :: "string \<Rightarrow> string \<Rightarrow> string \<Rightarrow> tracker_snapshot \<Rightarrow> tracker_snapshot" where
  "rewrite_paths old_cwd canonical_old new_cwd s =
     s\<lparr>sn_files :=
         foldl (\<lambda>files (p, st).
             let target = (case rewrite_single_path p old_cwd canonical_old new_cwd of Some q \<Rightarrow> q | None \<Rightarrow> p)
             in AList.update target (with_path target st) files)
           [] (sn_files s)\<rparr>"

definition under_dir :: "string \<Rightarrow> string \<Rightarrow> bool" where
  "under_dir p d \<longleftrightarrow> path_strip_prefix p d \<noteq> None"

definition rekey_path :: "string \<Rightarrow> string \<Rightarrow> string \<Rightarrow> string" where
  "rekey_path old new p =
     (if under_dir p new then p
      else (case rewrite_single_path p old old new of Some q \<Rightarrow> q | None \<Rightarrow> p))"

definition merge_rekeyed :: "file_state \<Rightarrow> file_state \<Rightarrow> file_state" where
  "merge_rekeyed dest st =
     dest\<lparr>fs_hunks := fs_hunks dest @ fs_hunks st, fs_agent := fs_agent dest \<or> fs_agent st,
          fs_accepted := fs_accepted dest \<or> fs_accepted st\<rparr>"

definition rekey_paths_for_working_dir :: "string \<Rightarrow> tracker \<Rightarrow> tracker" where
  "rekey_paths_for_working_dir new t =
     (if new = tr_dir t then t
      else
        (let key = rekey_path (tr_dir t) new;
             already = filter (\<lambda>(p, st). under_dir p new) (tr_files t);
             rewritten = filter (\<lambda>(p, st). \<not> under_dir p new) (tr_files t);
             files1 = foldl (\<lambda>m (p, st). AList.update (key p) (with_path (key p) st) m) [] already;
             files2 = foldl (\<lambda>m (p, st).
                 let q = key p; st' = with_path q st
                 in case map_of m q of
                      None \<Rightarrow> AList.update q st' m
                    | Some dest \<Rightarrow> AList.update q (merge_rekeyed dest st') m) files1 rewritten
         in t\<lparr>tr_files := files2, tr_dirty := map key (tr_dirty t), tr_staged := map key (tr_staged t)\<rparr>))"

definition set_working_dir :: "string \<Rightarrow> tracker \<Rightarrow> tracker" where
  "set_working_dir new t =
     (rekey_paths_for_working_dir new t)
       \<lparr>tr_dir := new, tr_repo := GitUnknown, tr_sync := \<lparr>rs_head = None, rs_index = None\<rparr>\<rparr>"

subsection \<open>Queries\<close>

definition get_all_hunks :: "tracker \<Rightarrow> hunk list" where
  "get_all_hunks t = concat (map (\<lambda>(p, st). fs_hunks st) (tr_files t))"

definition get_hunks_for_path :: "string \<Rightarrow> tracker \<Rightarrow> hunk list" where
  "get_hunks_for_path p t = (case file_of t p of Some st \<Rightarrow> fs_hunks st | None \<Rightarrow> [])"

definition get_hunk :: "string \<Rightarrow> tracker \<Rightarrow> hunk option" where
  "get_hunk i t = List.find (\<lambda>h. hk_id h = i) (get_all_hunks t)"

datatype source_filter = AgentHunks | ExternalHunks

definition get_hunks_by_source :: "source_filter \<Rightarrow> tracker \<Rightarrow> hunk list" where
  "get_hunks_by_source f t =
     filter (\<lambda>h. case f of AgentHunks \<Rightarrow> is_agent_edit (hk_source h) | ExternalHunks \<Rightarrow> is_external (hk_source h))
       (get_all_hunks t)"

definition get_hunks_for_turn :: "nat \<Rightarrow> tracker \<Rightarrow> hunk set" where
  "get_hunks_for_turn k t =
     (case tr_turns t k of None \<Rightarrow> {} | Some ids \<Rightarrow> {h. \<exists>i \<in> ids. get_hunk i t = Some h})"

definition is_agent_file :: "string \<Rightarrow> tracker \<Rightarrow> bool" where
  "is_agent_file p t = (case file_of t p of Some st \<Rightarrow> fs_agent st | None \<Rightarrow> False)"

definition get_all_tracked_paths :: "tracker \<Rightarrow> string list" where
  "get_all_tracked_paths t = map fst (tr_files t)"

definition get_staged_files :: "tracker \<Rightarrow> string list" where
  "get_staged_files t = map (path_join (tr_dir t)) (tr_staged t)"

definition hunk_with_patch :: "file_state \<Rightarrow> hunk \<Rightarrow> hunk" where
  "hunk_with_patch st h =
     h\<lparr>hk_patch :=
         (case (content_as_str (fs_baseline st), content_as_str (fs_current st)) of
            (Some a, Some b) \<Rightarrow> Some (generate_hunk_patch a b h)
          | (None, Some b) \<Rightarrow> Some (generate_hunk_patch [] b h)
          | (Some a, None) \<Rightarrow> Some (generate_hunk_patch a [] h)
          | (None, None) \<Rightarrow> None)\<rparr>"

definition get_file_hunk_data :: "string \<Rightarrow> tracker \<Rightarrow> (hunk list \<times> file_content \<times> file_content) option" where
  "get_file_hunk_data p t =
     map_option (\<lambda>st. (map (hunk_with_patch st) (fs_hunks st), fs_baseline st, fs_current st)) (file_of t p)"

datatype content_status = MissingStatus | BinaryStatus | TooLargeStatus | LfsPointerStatus | SymlinkStatus | FullStatus

record content_view =
  cv_status :: content_status
  cv_byte_len :: "nat option"
  cv_content :: "string option"

definition from_content_state :: "file_content \<Rightarrow> content_view" where
  "from_content_state c =
     (case c of
        MissingFile \<Rightarrow> \<lparr>cv_status = MissingStatus, cv_byte_len = None, cv_content = None\<rparr>
      | Binary n \<Rightarrow> \<lparr>cv_status = BinaryStatus, cv_byte_len = n, cv_content = None\<rparr>
      | TooLarge n \<Rightarrow> \<lparr>cv_status = TooLargeStatus, cv_byte_len = Some n, cv_content = None\<rparr>
      | LfsPointer n \<Rightarrow> \<lparr>cv_status = LfsPointerStatus, cv_byte_len = Some n, cv_content = None\<rparr>
      | Symlink \<Rightarrow> \<lparr>cv_status = SymlinkStatus, cv_byte_len = None, cv_content = None\<rparr>
      | Full s \<Rightarrow> \<lparr>cv_status = FullStatus, cv_byte_len = Some (length s), cv_content = Some s\<rparr>)"

record content_entry =
  ce_path :: string
  ce_baseline :: content_view
  ce_current :: content_view
  ce_agent :: bool
  ce_staged :: bool

definition get_all_file_contents :: "tracker \<Rightarrow> content_entry list" where
  "get_all_file_contents t =
     map (\<lambda>(p, st). \<lparr>ce_path = p, ce_baseline = from_content_state (fs_baseline st),
                     ce_current = from_content_state (fs_current st), ce_agent = fs_agent st,
                     ce_staged = (rel_path t p \<in> set (tr_staged t))\<rparr>) (tr_files t)"

text \<open>The pending hunks by turn; a map by prompt index that is sorted at the end is a sorted list here.\<close>

record turn_summary =
  ts_prompt :: nat
  ts_files :: "string list"
  ts_pending :: "hunk list"
  ts_added :: nat
  ts_removed :: nat

record session_summary =
  sm_stats :: session_stats
  sm_turns :: "turn_summary list"
  sm_files_modified :: nat
  sm_files_pending :: nat
  sm_pending :: nat
  sm_added :: nat
  sm_removed :: nat
  sm_unattributed :: nat

definition turn_summary_of :: "tracker \<Rightarrow> nat \<Rightarrow> turn_summary" where
  "turn_summary_of t k =
     (let hs = concat (map (\<lambda>(p, st). turn_hunks k st) (tr_files t))
      in \<lparr>ts_prompt = k, ts_files = map fst (filter (\<lambda>(p, st). turn_hunks k st \<noteq> []) (tr_files t)), ts_pending = hs,
          ts_added = sum_list (map (\<lambda>h. li_new_count (hk_line h)) hs),
          ts_removed = sum_list (map (\<lambda>h. li_old_count (hk_line h)) hs)\<rparr>)"

definition compute_session_summary :: "tracker \<Rightarrow> session_summary" where
  "compute_session_summary t =
     (let attributed = List.map_filter (\<lambda>h. prompt_index (hk_source h)) (get_all_hunks t);
          turns = map (turn_summary_of t) (sort (remdups attributed));
          files = length (filter (\<lambda>(p, st). list_ex (\<lambda>h. prompt_index (hk_source h) \<noteq> None) (fs_hunks st)) (tr_files t))
      in \<lparr>sm_stats = tr_stats t, sm_turns = turns, sm_files_modified = files, sm_files_pending = files,
          sm_pending = sum_list (map (\<lambda>s. length (ts_pending s)) turns),
          sm_added = sum_list (map ts_added turns), sm_removed = sum_list (map ts_removed turns),
          sm_unattributed = length (filter (\<lambda>h. prompt_index (hk_source h) = None) (get_all_hunks t))\<rparr>)"

subsection \<open>Commands and their batching\<close>

datatype tracker_command =
    RecordAgentWrite string string nat "string option"
  | HandleFileChange string
  | HandleFileDeleted string
  | RefreshGitDirtyCache
  | ResetBaseline string
  | SetMode tracking_mode
  | SetWorkingDir string
  | HunkAction string hunk_action
  | FileAction string hunk_action
  | AllAction hunk_action
  | TurnAction nat hunk_action
  | ResetStats
  | RefreshAllBaselines
  | RestoreState tracker_snapshot
  | Query

definition is_coalescable :: "tracker_command \<Rightarrow> bool" where
  "is_coalescable c \<longleftrightarrow>
     (case c of HandleFileChange _ \<Rightarrow> True | HandleFileDeleted _ \<Rightarrow> True
      | RefreshAllBaselines \<Rightarrow> True | RefreshGitDirtyCache \<Rightarrow> True | _ \<Rightarrow> False)"

datatype path_action = Changed | Deleted | DeletedThenChanged

record coalesced_batch =
  cb_files :: "(string \<times> path_action) list"
  cb_refresh_all :: bool
  cb_refresh_dirty :: bool
  cb_others :: "tracker_command list"
  cb_count :: nat

definition batch_new :: coalesced_batch where
  "batch_new = \<lparr>cb_files = [], cb_refresh_all = False, cb_refresh_dirty = False, cb_others = [], cb_count = 0\<rparr>"

definition batch_add :: "coalesced_batch \<Rightarrow> tracker_command \<Rightarrow> coalesced_batch" where
  "batch_add b0 cmd =
     (let b = b0\<lparr>cb_count := Suc (cb_count b0)\<rparr> in
      case cmd of
        HandleFileChange p \<Rightarrow>
          b\<lparr>cb_files := AList.update p
              (case map_of (cb_files b) p of
                 None \<Rightarrow> Changed
               | Some Deleted \<Rightarrow> DeletedThenChanged
               | Some a \<Rightarrow> a) (cb_files b)\<rparr>
      | HandleFileDeleted p \<Rightarrow> b\<lparr>cb_files := AList.update p Deleted (cb_files b)\<rparr>
      | RefreshAllBaselines \<Rightarrow> b\<lparr>cb_refresh_all := True\<rparr>
      | RefreshGitDirtyCache \<Rightarrow> b\<lparr>cb_refresh_dirty := True\<rparr>
      | _ \<Rightarrow> b\<lparr>cb_others := cb_others b @ [cmd]\<rparr>)"

definition handle_command :: "diff_env \<Rightarrow> tracker_io \<Rightarrow> tracker_command \<Rightarrow> tracker \<Rightarrow> tracker" where
  "handle_command D io c t =
     (case c of
        RecordAgentWrite p content k previous \<Rightarrow> record_agent_write D io p content k previous t
      | HandleFileChange p \<Rightarrow> handle_file_change D io p t
      | HandleFileDeleted p \<Rightarrow> handle_file_deleted D io p t
      | RefreshGitDirtyCache \<Rightarrow> refresh_git_dirty_cache D io None t
      | ResetBaseline p \<Rightarrow> reset_baseline p t
      | SetMode m \<Rightarrow> set_mode D io m t
      | SetWorkingDir d \<Rightarrow> set_working_dir d t
      | HunkAction i a \<Rightarrow> fst (apply_hunk_action D io i a t)
      | FileAction p a \<Rightarrow> fst (apply_file_action D io p a t)
      | AllAction a \<Rightarrow> fst (apply_all_action D io a t)
      | TurnAction k a \<Rightarrow> fst (apply_turn_action D io k a t)
      | ResetStats \<Rightarrow> t\<lparr>tr_stats := session_stats_default\<rparr>
      | RefreshAllBaselines \<Rightarrow> refresh_all_baselines_except D io [] t
      | RestoreState s \<Rightarrow> restore_snapshot s t
      | Query \<Rightarrow> t)"

definition batch_file_refreshing ::
    "diff_env \<Rightarrow> tracker_io \<Rightarrow> string list \<times> tracker \<Rightarrow> string \<times> path_action \<Rightarrow> string list \<times> tracker" where
  "batch_file_refreshing D io acc pa =
     (case (snd pa, file_of (snd acc) (fst pa)) of
        (Deleted, Some _) \<Rightarrow> (fst acc, handle_file_deleted D io (fst pa) (snd acc))
      | (Deleted, None) \<Rightarrow> acc
      | (_, None) \<Rightarrow> (fst pa # fst acc, handle_file_change D io (fst pa) (snd acc))
      | (_, Some _) \<Rightarrow> acc)"

definition handle_coalesced_batch :: "diff_env \<Rightarrow> tracker_io \<Rightarrow> coalesced_batch \<Rightarrow> tracker \<Rightarrow> tracker" where
  "handle_coalesced_batch D io b t =
     (let t1 = (if cb_refresh_dirty b \<and> \<not> cb_refresh_all b then refresh_git_dirty_cache D io None t else t);
          t2 = (if cb_refresh_all b
                then (case foldl (batch_file_refreshing D io) ([], t1) (cb_files b) of
                        (already, t') \<Rightarrow> refresh_all_baselines_except D io already t')
                else
                  handle_file_changes_batch D io (map fst (filter (\<lambda>(p, a). a \<noteq> Deleted) (cb_files b)))
                    (foldl (\<lambda>t p. handle_file_deleted D io p t) t1
                      (map fst (filter (\<lambda>(p, a). a = Deleted) (cb_files b)))))
      in foldl (\<lambda>t c. handle_command D io c t) t2 (cb_others b))"

text \<open>
  One round of the actor: a command that can be batched takes every command queued behind it into one
  batch; all others are handled alone.
\<close>

definition tracker_round ::
    "diff_env \<Rightarrow> tracker_io \<Rightarrow> tracker_command list \<Rightarrow> tracker \<Rightarrow> tracker_command list \<times> tracker" where
  "tracker_round D io queue t =
     (case queue of
        [] \<Rightarrow> ([], t)
      | c # cs \<Rightarrow>
          if is_coalescable c then ([], handle_coalesced_batch D io (foldl batch_add batch_new (c # cs)) t)
          else (cs, handle_command D io c t))"

definition tracker_startup :: "diff_env \<Rightarrow> tracker_io \<Rightarrow> string \<Rightarrow> tracking_mode \<Rightarrow> tracker" where
  "tracker_startup D io dir mode =
     (let t = tracker_new dir mode
      in if mode = AllDirty then refresh_git_dirty_cache D io None t else t)"

end
