(* ===== verification/HunkRuns.thy ===== *)
theory HunkRuns
  imports HunkPatch HunkTracker
begin

section \<open>What the hunk tracker keeps\<close>

text \<open>
  The hunks listed for a file are the hunks of its diff, through every command; from that, actions on
  files settle them, the batching of commands keeps the last word on each file, and the mode that
  follows the agent alone tracks nothing else.
\<close>

subsection \<open>Hunks without their identifiers\<close>

definition hunk_content :: "hunk \<Rightarrow> line_info \<times> string option \<times> string" where
  "hunk_content h = (hk_line h, hk_old_text h, hk_new_text h)"

definition walk_content where
  "walk_content w = (dw_old w, dw_new w, dw_cur w, map hunk_content (dw_hunks w))"

lemma finish_content:
  "walk_content w = walk_content w' \<Longrightarrow>
   walk_content (finish_hunk D path source w) = walk_content (finish_hunk D path' source' w')"
  by (auto simp: walk_content_def finish_hunk_def builder_build_def hunk_content_def split: option.splits)

lemma change_content:
  "walk_content w = walk_content w' \<Longrightarrow>
   walk_content (walk_change D path source w c) = walk_content (walk_change D path' source' w' c)"
  using finish_content [of w w' D path source path' source']
  by (cases c; cases "fst c") (auto simp: walk_content_def walk_change_def cur_builder_def Let_def split: option.split)

lemma walk_content_foldl:
  "walk_content w = walk_content w' \<Longrightarrow>
   walk_content (foldl (walk_change D path source) w cs) = walk_content (foldl (walk_change D path' source') w' cs)"
proof (induction cs arbitrary: w w')
  case (Cons c cs)
  show ?case using Cons.IH [OF change_content [OF Cons.prems]] by simp
qed simp

lemma compute_content:
  "map hunk_content (fst (compute_hunks D n path a b source))
   = map hunk_content (fst (compute_hunks D n' path' a b source'))"
proof -
  let ?w = "\<lambda>n. \<lparr>dw_old = 1, dw_new = 1, dw_cur = None, dw_hunks = [], dw_next = n\<rparr>"
  have "walk_content (?w n) = walk_content (?w n')" by (simp add: walk_content_def)
  from finish_content [OF walk_content_foldl [OF this]] show ?thesis
    by (auto simp: compute_hunks_def walk_content_def Let_def)
qed

lemma finish_path: "\<forall>h \<in> set (dw_hunks w). hk_path h = path \<Longrightarrow> \<forall>h \<in> set (dw_hunks (finish_hunk D path source w)). hk_path h = path"
  by (auto simp: finish_hunk_def builder_build_def split: option.splits)

lemma change_path:
  "\<forall>h \<in> set (dw_hunks w). hk_path h = path \<Longrightarrow> \<forall>h \<in> set (dw_hunks (walk_change D path source w c)). hk_path h = path"
  using finish_path [of w path D source] by (cases c; cases "fst c") (auto simp: walk_change_def Let_def)

lemma walk_path:
  "\<forall>h \<in> set (dw_hunks w). hk_path h = path \<Longrightarrow>
   \<forall>h \<in> set (dw_hunks (foldl (walk_change D path source) w cs)). hk_path h = path"
proof (induction cs arbitrary: w)
  case (Cons c cs)
  show ?case using Cons.IH [OF change_path [OF Cons.prems]] by simp
qed simp

lemma compute_path: "h \<in> set (fst (compute_hunks D n path a b source)) \<Longrightarrow> hk_path h = path"
  using finish_path [OF walk_path [of "\<lparr>dw_old = 1, dw_new = 1, dw_cur = None, dw_hunks = [], dw_next = n\<rparr>" path D source "de_lines D a b"]]
  by (auto simp: compute_hunks_def Let_def split: if_splits)

lemma fresh_content:
  "map hunk_content (fst (fresh_hunks D n path base cur source))
   = map hunk_content (fst (fresh_hunks D n' path' base cur source'))"
  using compute_content
  by (auto simp: fresh_hunks_def file_deleted_def file_created_def hunk_content_def split: file_content.splits)

lemma fresh_path: "h \<in> set (fst (fresh_hunks D n path base cur source)) \<Longrightarrow> hk_path h = path"
  by (auto simp: fresh_hunks_def file_deleted_def file_created_def dest: compute_path
      split: file_content.splits if_splits)

lemma claim_content:
  "map hunk_content (snd (foldl (claim_hunk olds) acc news)) = map hunk_content (snd acc) @ map hunk_content news"
proof (induction news arbitrary: acc)
  case (Cons h news)
  have "map hunk_content (snd (claim_hunk olds acc h)) = map hunk_content (snd acc) @ [hunk_content h]"
    by (auto simp: claim_hunk_def hunk_content_def split: option.splits)
  then show ?case using Cons.IH by simp
qed simp

lemma claims_content: "map hunk_content (claim_hunks olds news) = map hunk_content news"
  using claim_content [of olds "([], [])" news] by (simp add: claim_hunks_def)

lemma claim_path:
  "\<forall>h \<in> set (snd acc) \<union> set news. hk_path h = p \<Longrightarrow> \<forall>h \<in> set (snd (foldl (claim_hunk olds) acc news)). hk_path h = p"
proof (induction news arbitrary: acc)
  case (Cons h news)
  have "\<forall>x \<in> set (snd (claim_hunk olds acc h)) \<union> set news. hk_path x = p"
    using Cons.prems by (auto simp: claim_hunk_def split: option.splits if_splits)
  then show ?case using Cons.IH by simp
qed simp

lemma claims_path: "\<forall>h \<in> set news. hk_path h = p \<Longrightarrow> \<forall>h \<in> set (claim_hunks olds news). hk_path h = p"
  using claim_path [of "([], [])" news p olds] by (simp add: claim_hunks_def)

subsection \<open>The invariant of a file\<close>

text \<open>The hunks listed are those of the diff of baseline and current content, or none are listed.\<close>

definition hunks_exact :: "diff_env \<Rightarrow> string \<Rightarrow> file_state \<Rightarrow> bool" where
  "hunks_exact D p st \<longleftrightarrow>
     fs_hunks st = []
     \<or> map hunk_content (fs_hunks st)
         = map hunk_content (fst (fresh_hunks D 0 p (fs_baseline st) (fs_current st) External))
       \<and> (\<forall>h \<in> set (fs_hunks st). hk_path h = p)"

definition tracker_exact :: "diff_env \<Rightarrow> tracker \<Rightarrow> bool" where
  "tracker_exact D t \<longleftrightarrow> distinct (map fst (tr_files t)) \<and> (\<forall>(p, st) \<in> set (tr_files t). hunks_exact D p st)"

lemma no_hunks_exact [simp]: "fs_hunks st = [] \<Longrightarrow> hunks_exact D p st"
  by (simp add: hunks_exact_def)

lemma exact_same [simp]: "hunks_exact D p (st\<lparr>fs_agent := g\<rparr>) = hunks_exact D p st"
  "hunks_exact D p (st\<lparr>fs_accepted := g\<rparr>) = hunks_exact D p st"
  by (simp_all add: hunks_exact_def)

lemma update_set: "set (AList.update k v xs) \<subseteq> insert (k, v) (set xs)"
  by (induction xs) auto

lemma delete_set: "set (AList.delete k xs) \<subseteq> set xs"
  by (simp add: AList.delete_eq)

lemma exact_put [simp, intro]: "tracker_exact D t \<Longrightarrow> hunks_exact D p st \<Longrightarrow> tracker_exact D (put_file p st t)"
  using update_set [of p st "tr_files t"] by (fastforce simp: tracker_exact_def put_file_def distinct_update)

lemma exact_drop [simp, intro]: "tracker_exact D t \<Longrightarrow> tracker_exact D (drop_file p t)"
  using delete_set [of p "tr_files t"] by (fastforce simp: tracker_exact_def drop_file_def distinct_delete)

lemma exact_of: "tracker_exact D t \<Longrightarrow> file_of t p = Some st \<Longrightarrow> hunks_exact D p st"
  by (fastforce simp: tracker_exact_def file_of_def dest: map_of_SomeD)

lemma exact_member: "tracker_exact D t \<Longrightarrow> (p, st) \<in> set (tr_files t) \<Longrightarrow> file_of t p = Some st"
  by (simp add: tracker_exact_def file_of_def)

text \<open>What does not touch the files.\<close>

lemma exact_files: "tr_files t' = tr_files t \<Longrightarrow> tracker_exact D t' = tracker_exact D t"
  by (simp add: tracker_exact_def)

lemma files_send [simp]: "tr_files (emit_event e t) = tr_files t" "tr_files (send_events es t) = tr_files t"
  "tr_files (write_disk w t) = tr_files t"
  by (simp_all add: emit_event_def send_events_def write_disk_def)

lemma files_turn [simp]: "tr_files (turn_remove_hunk t h) = tr_files t" "tr_files (turn_insert_hunk t h) = tr_files t"
  by (simp_all add: turn_remove_hunk_def turn_insert_hunk_def turn_remove_def turn_insert_def split: option.splits)

lemma files_foldl: "(\<And>t h. tr_files (f t h) = tr_files t) \<Longrightarrow> tr_files (foldl f t hs) = tr_files t"
  by (induction hs arbitrary: t) simp_all

lemma files_turns [simp]: "tr_files (foldl turn_remove_hunk t hs) = tr_files t" "tr_files (foldl turn_insert_hunk t hs) = tr_files t"
  by (simp_all add: files_foldl)

lemma files_book [simp]: "tr_files (book_action a t h) = tr_files t" "tr_files (foldl (book_action a) t hs) = tr_files t"
  by (simp_all add: files_foldl book_action_def update_session_stats_def Let_def)

lemma files_retire [simp]: "tr_files (retire_hunks p hs t) = tr_files t"
  by (simp add: retire_hunks_def)

lemma exact_still [simp]:
  "tracker_exact D (emit_event e t) = tracker_exact D t" "tracker_exact D (send_events es t) = tracker_exact D t"
  "tracker_exact D (write_disk w t) = tracker_exact D t" "tracker_exact D (foldl (book_action a) t hs) = tracker_exact D t"
  "tracker_exact D (retire_hunks p hs t) = tracker_exact D t" "tracker_exact D (t\<lparr>tr_next := n\<rparr>) = tracker_exact D t"
  "tracker_exact D (t\<lparr>tr_repo := r\<rparr>) = tracker_exact D t" "tracker_exact D (t\<lparr>tr_mode := m\<rparr>) = tracker_exact D t"
  "tracker_exact D (t\<lparr>tr_stats := ss\<rparr>) = tracker_exact D t" "tracker_exact D (t\<lparr>tr_sync := y\<rparr>) = tracker_exact D t"
  "tracker_exact D (t\<lparr>tr_dirty := d, tr_staged := s\<rparr>) = tracker_exact D t"
  "tracker_exact D (t\<lparr>tr_repo := r, tr_dirty := d, tr_staged := s\<rparr>) = tracker_exact D t"
  by (rule exact_files; simp)+

lemma fresh_exact:
  "hunks_exact D p (st\<lparr>fs_current := cur, fs_hunks := claim_hunks olds (fst (fresh_hunks D n p (fs_baseline st) cur source))\<rparr>)"
proof -
  have "\<forall>h \<in> set (claim_hunks olds (fst (fresh_hunks D n p (fs_baseline st) cur source))). hk_path h = p"
    using fresh_path by (intro claims_path) blast
  then show ?thesis using fresh_content [of D n p "fs_baseline st" cur source 0 p External]
    by (simp add: hunks_exact_def claims_content)
qed

text \<open>The state of a file after its hunks are recomputed, and what stays.\<close>

lemma recompute_files:
  "file_of t p = Some st \<Longrightarrow>
   tr_files (recompute_hunks D p cur source t)
   = AList.update p (st\<lparr>fs_current := (case cur of Some c \<Rightarrow> c | None \<Rightarrow> MissingFile),
       fs_hunks := claim_hunks (fs_hunks st) (fst (fresh_hunks D (tr_next t) p (fs_baseline st)
         (case cur of Some c \<Rightarrow> c | None \<Rightarrow> MissingFile) source))\<rparr>) (tr_files t)"
  by (simp add: recompute_hunks_def Let_def put_file_def)

lemma exact_recompute [simp, intro]:
  assumes "tracker_exact D t" shows "tracker_exact D (recompute_hunks D p cur source t)"
proof (cases "file_of t p")
  case None
  then show ?thesis using assms by (simp add: recompute_hunks_def)
next
  case (Some st)
  let ?st = "st\<lparr>fs_current := (case cur of Some c \<Rightarrow> c | None \<Rightarrow> MissingFile),
      fs_hunks := claim_hunks (fs_hunks st) (fst (fresh_hunks D (tr_next t) p (fs_baseline st)
        (case cur of Some c \<Rightarrow> c | None \<Rightarrow> MissingFile) source))\<rparr>"
  have "tr_files (recompute_hunks D p cur source t) = tr_files (put_file p ?st t)"
    using Some by (simp add: recompute_files put_file_def)
  then have "tracker_exact D (recompute_hunks D p cur source t) = tracker_exact D (put_file p ?st t)"
    by (rule exact_files)
  then show ?thesis by (simp add: assms fresh_exact)
qed

lemma update_twice: "AList.update k v (AList.update k v' xs) = AList.update k v xs"
  by (induction xs) auto

lemma exact_recompute_put:
  assumes "tracker_exact D t" and "tr_files t' = tr_files (put_file p st t)"
  shows "tracker_exact D (recompute_hunks D p cur source t')"
proof -
  let ?X = "\<lambda>st. st\<lparr>fs_current := (case cur of Some c \<Rightarrow> c | None \<Rightarrow> MissingFile),
      fs_hunks := claim_hunks (fs_hunks st) (fst (fresh_hunks D (tr_next t') p (fs_baseline st)
        (case cur of Some c \<Rightarrow> c | None \<Rightarrow> MissingFile) source))\<rparr>"
  have f: "file_of t' p = Some st" using assms(2) by (simp add: file_of_def put_file_def update_conv')
  have "tr_files (recompute_hunks D p cur source t') = tr_files (put_file p (?X st) t)"
    using recompute_files [OF f, of D cur source] assms(2) by (simp add: put_file_def update_twice)
  then have "tracker_exact D (recompute_hunks D p cur source t') = tracker_exact D (put_file p (?X st) t)"
    by (rule exact_files)
  then show ?thesis by (simp add: assms fresh_exact)
qed

subsection \<open>Actions keep it\<close>

lemma without_all: "set hs \<subseteq> set gone \<Longrightarrow> without_hunks gone hs = []"
  by (auto simp: without_hunks_def filter_empty_conv)

lemma created_one:
  assumes "hunks_exact D p st" and "fs_baseline st = MissingFile \<or> fs_current st = MissingFile"
    and "hs \<noteq> []" and "set hs \<subseteq> set (fs_hunks st)"
  shows "without_hunks hs (fs_hunks st) = []"
proof -
  have "length (fst (fresh_hunks D 0 p (fs_baseline st) (fs_current st) External)) \<le> 1"
    using assms(2) by (auto simp: fresh_hunks_def split: file_content.split)
  moreover have "fs_hunks st \<noteq> []" using assms(3,4) by auto
  ultimately have "length (fs_hunks st) = 1"
    using assms(1) by (auto simp: hunks_exact_def dest!: map_eq_imp_length_eq) (metis One_nat_def Suc_leI le_antisym length_greater_0_conv)
  then obtain x where x: "fs_hunks st = [x]" by (auto simp: length_Suc_conv)
  with assms(3,4) have "x \<in> set hs" by (cases hs) auto
  then show ?thesis by (simp add: x without_all)
qed

definition hunks_of :: "tracker \<Rightarrow> string \<Rightarrow> hunk list \<Rightarrow> bool" where
  "hunks_of t p hs \<longleftrightarrow> (\<forall>st. file_of t p = Some st \<longrightarrow> set hs \<subseteq> set (fs_hunks st))"

lemma exact_accept:
  assumes "tracker_exact D t" and "hunks_of t p hs"
  shows "tracker_exact D (accept_hunks D p hs t)"
proof (cases "hs = [] \<or> file_of t p = None")
  case True
  then show ?thesis using assms(1) by (auto simp: accept_hunks_def)
next
  case False
  then obtain st where st: "file_of t p = Some st" "hs \<noteq> []" by auto
  show ?thesis
  proof (cases "fs_baseline st = MissingFile")
    case True
    have "without_hunks hs (fs_hunks st) = []"
      using created_one [OF exact_of [OF assms(1) st(1)]] True st assms(2) by (simp add: hunks_of_def)
    then show ?thesis using True st assms(1) by (simp add: accept_hunks_def Let_def)
  next
    case False
    then show ?thesis using st
      by (simp add: accept_hunks_def Let_def exact_recompute_put [OF assms(1)])
  qed
qed

lemma exact_reject:
  assumes "tracker_exact D t" and "hunks_of t p hs"
  shows "tracker_exact D (fst (reject_hunks D io p hs t))"
proof (cases "hs = [] \<or> file_of t p = None")
  case True
  then show ?thesis using assms(1) by (auto simp: reject_hunks_def)
next
  case False
  then obtain st where st: "file_of t p = Some st" "hs \<noteq> []" by auto
  have left: "fs_baseline st = MissingFile \<or> fs_current st = MissingFile \<Longrightarrow> without_hunks hs (fs_hunks st) = []"
    using created_one [OF exact_of [OF assms(1) st(1)]] st assms(2) by (simp add: hunks_of_def)
  have put: "tracker_exact D (recompute_hunks D p cur source (send_events es (put_file p st' (write_disk w t))))"
    for cur source es st' w
    by (rule exact_recompute_put [OF assms(1)]) (simp add: put_file_def)
  show ?thesis
    using st assms(1) left put
    by (simp add: reject_hunks_def Let_def split: file_content.split)
qed

lemma exact_apply:
  assumes "tracker_exact D t" and "hunks_of t p hs"
  shows "tracker_exact D (fst (apply_to_file D io action p hs t))"
  using assms
  by (cases action)
    (simp_all add: apply_to_file_def Let_def exact_accept exact_reject hunks_of_def file_of_def)

lemma file_of_put: "file_of (put_file p st t) q = (if q = p then Some st else file_of t q)"
  by (simp add: file_of_def put_file_def update_conv')

lemma file_of_files: "tr_files t' = tr_files t \<Longrightarrow> file_of t' q = file_of t q"
  by (simp add: file_of_def)

lemma file_of_still [simp]:
  "file_of (emit_event e t) q = file_of t q" "file_of (send_events es t) q = file_of t q"
  "file_of (write_disk w t) q = file_of t q" "file_of (foldl (book_action a) t hs) q = file_of t q"
  "file_of (foldl turn_remove_hunk t hs) q = file_of t q" "file_of (foldl turn_insert_hunk t hs) q = file_of t q"
  "file_of (t\<lparr>tr_next := n\<rparr>) q = file_of t q" "file_of (retire_hunks p hs t) q = file_of t q"
  by (rule file_of_files; simp)+

lemma recompute_other: "q \<noteq> p \<Longrightarrow> file_of (recompute_hunks D p cur source t) q = file_of t q"
  by (simp add: recompute_hunks_def Let_def file_of_put split: option.split)

lemma apply_other:
  assumes "q \<noteq> p" shows "file_of (fst (apply_to_file D io action p hs t)) q = file_of t q"
proof -
  have "file_of (accept_hunks D p hs t) q = file_of t q" for t
    using assms by (simp add: accept_hunks_def Let_def recompute_other file_of_put split: option.split)
  moreover have "file_of (fst (reject_hunks D io p hs t)) q = file_of t q" for t
    using assms by (simp add: reject_hunks_def Let_def recompute_other file_of_put split: option.split file_content.split)
  ultimately show ?thesis by (simp add: apply_to_file_def Let_def split: hunk_action.split)
qed

lemma exact_batch:
  "tracker_exact D t \<Longrightarrow> \<forall>(p, hs) \<in> set files. hunks_of t p hs \<Longrightarrow> distinct (map fst files) \<Longrightarrow>
   tracker_exact D (fst (apply_action_batch D io action files t))"
proof (induction D io action files t rule: apply_action_batch.induct)
  case (2 D io action p hs files t)
  let ?r = "apply_to_file D io action p hs t"
  have e: "tracker_exact D (fst ?r)" using 2(2,3) by (intro exact_apply) auto
  have o: "file_of (fst ?r) q = file_of t q" if "q \<in> fst ` set files" for q
    using 2(4) that by (intro apply_other) auto
  have h: "\<forall>(q, gs) \<in> set files. hunks_of (fst ?r) q gs"
    using 2(3) o by (force simp: hunks_of_def)
  show ?case
  proof (cases "snd ?r")
    case (Inl x)
    then show ?thesis using e by (cases ?r) simp
  next
    case (Inr u)
    then have r: "?r = (fst ?r, Inr u)" by (metis prod.collapse)
    have "tracker_exact D (fst (apply_action_batch D io action files (fst ?r)))"
      using 2(1) [OF r [symmetric] refl] e h 2(4) by simp
    then show ?thesis by (subst apply_action_batch.simps, subst r) (auto split: prod.split sum.split)
  qed
qed simp

lemma distinct_picked: "distinct (map fst xs) \<Longrightarrow> distinct (map fst (map (\<lambda>(p, st). (p, f st)) (filter P xs)))"
  by (induction xs) (auto simp: image_iff)

lemma exact_batch_files:
  assumes "tracker_exact D t" and "\<And>st. set (f st) \<subseteq> set (fs_hunks st)"
  shows "tracker_exact D (fst (apply_action_batch D io action (map (\<lambda>(p, st). (p, f st)) (filter P (tr_files t))) t))"
proof (rule exact_batch [OF assms(1)])
  show "\<forall>(p, hs) \<in> set (map (\<lambda>(p, st). (p, f st)) (filter P (tr_files t))). hunks_of t p hs"
    using subsetD [OF assms(2)] by (auto simp: hunks_of_def dest!: exact_member [OF assms(1)])
  show "distinct (map fst (map (\<lambda>(p, st). (p, f st)) (filter P (tr_files t))))"
    using distinct_picked [of "tr_files t" f P] assms(1) by (simp only: tracker_exact_def)
qed

lemma exact_discovered [simp]:
  "tracker_exact D (snd (read_baseline io p t)) = tracker_exact D t"
  "tracker_exact D (snd (read_baselines_batch io ps t)) = tracker_exact D t"
  "tracker_exact D (snd (read_repo_sync_state io t)) = tracker_exact D t"
  "tracker_exact D (snd (baseline_or_read io p pre t)) = tracker_exact D t"
  by (simp_all add: read_baseline_def read_baselines_batch_def read_repo_sync_state_def baseline_or_read_def
      Let_def split: option.split)

lemma file_of_discovered [simp]:
  "file_of (snd (read_baseline io p t)) q = file_of t q"
  "file_of (snd (baseline_or_read io p pre t)) q = file_of t q"
  by (simp_all add: read_baseline_def baseline_or_read_def file_of_def Let_def split: option.split)

lemma exact_track [simp]: "tracker_exact D t \<Longrightarrow> tracker_exact D (track_file p base cur agent t)"
  by (simp add: track_file_def)

lemma exact_write: "tracker_exact D t \<Longrightarrow> tracker_exact D (record_agent_write D io p content k previous t)"
  by (auto simp: record_agent_write_def Let_def case_prod_beta exact_of split: option.split)

lemma exact_change: "tracker_exact D t \<Longrightarrow> tracker_exact D (process_file_change D io p pre t)"
  by (auto simp: process_file_change_def Let_def case_prod_beta split: option.split)

lemma exact_foldl: "(\<And>t x. tracker_exact D t \<Longrightarrow> tracker_exact D (f t x)) \<Longrightarrow> tracker_exact D t \<Longrightarrow> tracker_exact D (foldl f t xs)"
  by (induction xs arbitrary: t) simp_all

lemma exact_changes: "tracker_exact D t \<Longrightarrow> tracker_exact D (handle_file_changes_batch D io ps t)"
  by (auto simp: handle_file_changes_batch_def case_prod_beta intro!: exact_foldl exact_change)

lemma exact_deleted: "tracker_exact D t \<Longrightarrow> tracker_exact D (handle_file_deleted D io p t)"
  by (auto simp: handle_file_deleted_def handle_file_change_def case_prod_beta exact_change split: option.split)

lemma exact_reset: "tracker_exact D t \<Longrightarrow> tracker_exact D (reset_baseline p t)"
  by (simp add: reset_baseline_def split: option.split)

lemma exact_dirty: "tracker_exact D t \<Longrightarrow> tracker_exact D (refresh_git_dirty_cache D io scope t)"
  by (auto simp: refresh_git_dirty_cache_def Let_def handle_file_change_def intro!: exact_foldl exact_change)

lemma put_twice: "put_file p st (put_file p st' t) = put_file p st t"
  by (simp add: put_file_def update_twice)

lemma delete_updated: "AList.delete k (AList.update k v xs) = AList.delete k xs"
  by (induction xs) auto

lemma drop_put: "drop_file p (put_file p st t) = drop_file p t"
  by (simp add: drop_file_def put_file_def delete_updated)

lemma exact_refresh: "tracker_exact D t \<Longrightarrow> tracker_exact D (refresh_file D io bases p t)"
  by (simp add: refresh_file_def Let_def put_twice drop_put exact_recompute_put [OF _ refl]
     split: option.split)

lemma exact_refresh_all: "tracker_exact D t \<Longrightarrow> tracker_exact D (refresh_all_baselines_except D io skip t)"
proof -
  assume t: "tracker_exact D t"
  obtain sync t1 where s: "read_repo_sync_state io t = (sync, t1)" by (cases "read_repo_sync_state io t")
  then have t1: "tracker_exact D t1" using exact_discovered(3) [of D io t] t by simp
  have fold: "tracker_exact D (case read_baselines_batch io ps u of
      (bases, v) \<Rightarrow> foldl (\<lambda>t p. refresh_file D io bases p t) v ps)" if "tracker_exact D u" for ps u
    using exact_discovered(2) [of D io ps u] that by (auto simp: case_prod_beta intro!: exact_foldl exact_refresh)
  show ?thesis
    unfolding refresh_all_baselines_except_def s Let_def prod.case using t t1
    by (auto intro!: fold exact_dirty split: option.split)
qed

lemma exact_mode: "tracker_exact D t \<Longrightarrow> tracker_exact D (set_mode D io mode t)"
  by (auto simp: set_mode_def stop_tracking_def Let_def intro!: exact_foldl exact_dirty split: option.split)

lemma find_member: "List.find P xs = Some x \<Longrightarrow> x \<in> set xs \<and> P x"
  by (induction xs) (auto split: if_splits)

lemma found_hunk:
  assumes "find_hunk t i = Some (p, h)"
  obtains st where "(p, st) \<in> set (tr_files t)" "h \<in> set (fs_hunks st)" "hk_id h = i"
proof -
  from assms have "(p, h) \<in> set (concat (map (\<lambda>(p, st). map (Pair p) (fs_hunks st)) (tr_files t)))" "hk_id h = i"
    unfolding find_hunk_def by (auto dest!: find_member)
  then show ?thesis using that by auto
qed

lemma exact_action:
  assumes t: "tracker_exact D t" shows "tracker_exact D (fst (apply_hunk_action D io i action t))"
proof (cases "find_hunk t i")
  case (Some ph)
  obtain p h where ph: "ph = (p, h)" by (cases ph)
  with Some obtain st where "(p, st) \<in> set (tr_files t)" "h \<in> set (fs_hunks st)" by (auto elim: found_hunk)
  then have "hunks_of t p [h]" using exact_member [OF t] by (simp add: hunks_of_def)
  then show ?thesis using Some ph exact_apply [OF t] by (simp add: apply_hunk_action_def)
qed (simp add: apply_hunk_action_def t)

lemma exact_actions:
  assumes "tracker_exact D t"
  shows "tracker_exact D (fst (apply_file_action D io p action t))"
    and "tracker_exact D (fst (apply_all_action D io action t))"
    and "tracker_exact D (fst (apply_turn_action D io k action t))"
  using assms exact_batch [OF assms, of "[(p, hs)]" for hs] exact_batch_files [OF assms, of fs_hunks]
    exact_batch_files [OF assms, of "turn_hunks k"]
  by (auto simp: apply_file_action_def apply_all_action_def apply_turn_action_def hunks_of_def turn_hunks_def
      split: option.split)

subsection \<open>Changes of the working directory, and snapshots\<close>

definition files_exact :: "diff_env \<Rightarrow> (string \<times> file_state) list \<Rightarrow> bool" where
  "files_exact D files \<longleftrightarrow> distinct (map fst files) \<and> (\<forall>(p, st) \<in> set files. hunks_exact D p st)"

lemma exact_with_path: "hunks_exact D p st \<Longrightarrow> hunks_exact D q (with_path q st)"
proof -
  assume e: "hunks_exact D p st"
  have c: "map hunk_content (fs_hunks (with_path q st)) = map hunk_content (fs_hunks st)"
    by (simp add: with_path_def hunk_content_def)
  have w: "fs_hunks (with_path q st) = [] \<longleftrightarrow> fs_hunks st = []" "fs_baseline (with_path q st) = fs_baseline st"
    "fs_current (with_path q st) = fs_current st" "\<forall>h \<in> set (fs_hunks (with_path q st)). hk_path h = q"
    by (simp_all add: with_path_def)
  show ?thesis using e fresh_content [of D 0 p "fs_baseline st" "fs_current st" External 0 q External]
    by (auto simp: hunks_exact_def c w)
qed

lemma files_update: "files_exact D m \<Longrightarrow> hunks_exact D q st \<Longrightarrow> files_exact D (AList.update q st m)"
  using update_set [of q st m] by (fastforce simp: files_exact_def distinct_update)

lemma fold_rekeyed:
  "files_exact D m \<Longrightarrow> \<forall>(p, st) \<in> set xs. hunks_exact D p st \<Longrightarrow>
   files_exact D (foldl (\<lambda>m (p, st). AList.update (key p) (with_path (key p) st) m) m xs)"
proof (induction xs arbitrary: m)
  case (Cons x xs)
  obtain p st where x: "x = (p, st)" by (cases x)
  have "files_exact D (AList.update (key p) (with_path (key p) st) m)"
    using Cons.prems by (auto simp: x intro!: files_update exact_with_path)
  then show ?case using Cons.IH [of "AList.update (key p) (with_path (key p) st) m"] Cons.prems(2) by (simp add: x)
qed simp

lemma keys_update: "fst ` set (AList.update k v xs) = insert k (fst ` set xs)"
  by (induction xs) auto

lemma fold_rekeyed_keys:
  "fst ` set (foldl (\<lambda>m (p, st). AList.update (key p) (f p st) m) m xs) = fst ` set m \<union> key ` fst ` set xs"
proof (induction xs arbitrary: m)
  case (Cons x xs)
  obtain p st where x: "x = (p, st)" by (cases x)
  show ?case using Cons.IH [of "AList.update (key p) (f p st) m"] by (simp only: x foldl_Cons prod.case keys_update) simp
qed simp

lemma fold_apart:
  "distinct (map (key \<circ> fst) xs) \<Longrightarrow> fst ` set m \<inter> key ` fst ` set xs = {} \<Longrightarrow>
   foldl (\<lambda>m (p, st). case map_of m (key p) of
       None \<Rightarrow> AList.update (key p) (with_path (key p) st) m
     | Some dest \<Rightarrow> AList.update (key p) (merge_rekeyed dest (with_path (key p) st)) m) m xs
   = foldl (\<lambda>m (p, st). AList.update (key p) (with_path (key p) st) m) m xs"
proof (induction xs arbitrary: m)
  case (Cons x xs)
  obtain p st where x: "x = (p, st)" by (cases x)
  have "map_of m (key p) = None" using Cons.prems(2) by (auto simp: x map_of_eq_None_iff)
  moreover have "fst ` set (AList.update (key p) (with_path (key p) st) m) \<inter> key ` fst ` set xs = {}"
    using Cons.prems by (auto simp: x keys_update)
  ultimately show ?case using Cons.IH [of "AList.update (key p) (with_path (key p) st) m"] Cons.prems(1) by (simp add: x)
qed simp

text \<open>A move of the working directory under which no two tracked files become one.\<close>

definition moves_apart :: "tracker \<Rightarrow> string \<Rightarrow> bool" where
  "moves_apart t d \<longleftrightarrow> distinct (map (rekey_path (tr_dir t) d \<circ> fst) (tr_files t))"

lemma distinct_partition:
  assumes "distinct (map f xs)"
  shows "distinct (map f (filter P xs))" "f ` set (filter P xs) \<inter> f ` set (filter (\<lambda>x. \<not> P x) xs) = {}"
  using assms by (simp add: distinct_map_filter) (use assms in \<open>auto simp: distinct_map inj_on_def\<close>)

lemma exact_move: "tracker_exact D t \<Longrightarrow> moves_apart t d \<Longrightarrow> tracker_exact D (set_working_dir d t)"
proof -
  assume t: "tracker_exact D t" and apart: "moves_apart t d"
  let ?key = "rekey_path (tr_dir t) d"
  let ?P = "\<lambda>(p, st :: file_state). under_dir p d"
  let ?rest = "filter (\<lambda>(p, st). \<not> under_dir p d) (tr_files t)"
  let ?m = "foldl (\<lambda>m (p, st). AList.update (?key p) (with_path (?key p) st) m) [] (filter ?P (tr_files t))"
  have m: "files_exact D ?m" using t by (intro fold_rekeyed) (auto simp: files_exact_def tracker_exact_def)
  have rest: "?rest = filter (\<lambda>x. \<not> ?P x) (tr_files t)" by (rule filter_cong) auto
  have keys: "fst ` set ?m = ?key ` fst ` set (filter ?P (tr_files t))" by (simp add: fold_rekeyed_keys)
  have d: "distinct (map (?key \<circ> fst) (tr_files t))" using apart by (simp add: moves_apart_def)
  have a: "distinct (map (?key \<circ> fst) ?rest)" by (rule distinct_partition(1) [OF d])
  have b: "fst ` set ?m \<inter> ?key ` fst ` set ?rest = {}"
    using distinct_partition(2) [OF d, of ?P] unfolding keys rest by (simp add: image_comp)
  have "files_exact D (foldl (\<lambda>m (p, st). AList.update (?key p) (with_path (?key p) st) m) ?m ?rest)"
    using t by (intro fold_rekeyed m) (auto simp: tracker_exact_def)
  then have "tracker_exact D (rekey_paths_for_working_dir d t)"
    using t by (simp add: rekey_paths_for_working_dir_def Let_def fold_apart [OF a b] files_exact_def tracker_exact_def)
  then show ?thesis by (simp add: set_working_dir_def tracker_exact_def)
qed

subsection \<open>Commands and rounds\<close>

lemma exact_command:
  assumes "tracker_exact D t" and "\<forall>d. c \<noteq> SetWorkingDir d" and "\<forall>s. c = RestoreState s \<longrightarrow> files_exact D (sn_files s)"
  shows "tracker_exact D (handle_command D io c t)"
proof (cases "\<exists>s. c = RestoreState s")
  case True
  then show ?thesis using assms(3) by (auto simp: handle_command_def restore_snapshot_def tracker_exact_def files_exact_def)
next
  case False
  then show ?thesis using assms(1,2)
    by (cases c)
      (simp_all add: handle_command_def exact_write exact_change handle_file_change_def exact_deleted exact_dirty
        exact_reset exact_mode exact_action exact_actions exact_refresh_all)
qed

lemma batch_others: "cb_others (foldl batch_add b cs) = cb_others b @ filter (\<lambda>c. \<not> is_coalescable c) cs"
proof (induction cs arbitrary: b)
  case (Cons c cs)
  have "cb_others (batch_add b c) = cb_others b @ (if is_coalescable c then [] else [c])"
    by (cases c) (simp_all add: batch_add_def is_coalescable_def)
  then show ?case using Cons.IH [of "batch_add b c"] by simp
qed simp

lemma exact_others:
  "tracker_exact D t \<Longrightarrow> \<forall>c \<in> set cs. (\<forall>d. c \<noteq> SetWorkingDir d) \<and> (\<forall>s. c = RestoreState s \<longrightarrow> files_exact D (sn_files s)) \<Longrightarrow>
   tracker_exact D (foldl (\<lambda>t c. handle_command D io c t) t cs)"
proof (induction cs arbitrary: t)
  case (Cons c cs)
  have "tracker_exact D (handle_command D io c t)"
    by (rule exact_command [OF Cons.prems(1)]) (use Cons.prems(2) in auto)
  then show ?case using Cons.IH [of "handle_command D io c t"] Cons.prems(2) by simp
qed simp

lemma exact_batch_file: "tracker_exact D (snd acc) \<Longrightarrow> tracker_exact D (snd (batch_file_refreshing D io acc pa))"
  by (auto simp: batch_file_refreshing_def handle_file_change_def exact_change exact_deleted
      split: option.split path_action.split)

lemma exact_batch_fold:
  "tracker_exact D (snd acc) \<Longrightarrow> tracker_exact D (snd (foldl (batch_file_refreshing D io) acc pas))"
  by (induction pas arbitrary: acc) (simp_all add: exact_batch_file)

lemma exact_coalesced:
  assumes "tracker_exact D t"
    and "\<forall>c \<in> set (cb_others b). (\<forall>d. c \<noteq> SetWorkingDir d) \<and> (\<forall>s. c = RestoreState s \<longrightarrow> files_exact D (sn_files s))"
  shows "tracker_exact D (handle_coalesced_batch D io b t)"
  unfolding handle_coalesced_batch_def Let_def case_prod_beta
  by (intro exact_others assms(2)) (auto intro!: exact_refresh_all exact_batch_fold exact_changes exact_foldl exact_deleted
      exact_dirty simp: assms(1))

lemma exact_round:
  assumes "tracker_exact D t"
    and "\<forall>c \<in> set queue. (\<forall>d. c \<noteq> SetWorkingDir d) \<and> (\<forall>s. c = RestoreState s \<longrightarrow> files_exact D (sn_files s))"
  shows "tracker_exact D (snd (tracker_round D io queue t))"
proof (cases queue)
  case (Cons c cs)
  have b: "cb_others (foldl batch_add batch_new queue) = filter (\<lambda>c. \<not> is_coalescable c) queue"
    by (simp only: batch_others) (simp add: batch_new_def)
  have "tracker_exact D (handle_coalesced_batch D io (foldl batch_add batch_new queue) t)"
    by (rule exact_coalesced [OF assms(1)]) (use assms(2) in \<open>auto simp: b\<close>)
  moreover have "tracker_exact D (handle_command D io c t)"
    by (rule exact_command [OF assms(1)]) (use assms(2) Cons in auto)
  ultimately show ?thesis using Cons by (simp add: tracker_round_def)
qed (simp add: tracker_round_def assms)

text \<open>
  The states of a session: from its start, by rounds of commands with whatever the outside answers, by
  restoring snapshots of the session (with their paths rewritten or not), and by moves of the working
  directory that keep the tracked files apart.
\<close>

inductive tracker_reach :: "diff_env \<Rightarrow> tracker \<Rightarrow> bool" and session_snapshot :: "diff_env \<Rightarrow> tracker_snapshot \<Rightarrow> bool"
  for D where
  started: "tracker_reach D (tracker_startup D io dir mode)"
| round: "tracker_reach D t \<Longrightarrow> \<forall>s. RestoreState s \<in> set queue \<longrightarrow> session_snapshot D s \<Longrightarrow>
    \<forall>d. SetWorkingDir d \<notin> set queue \<Longrightarrow> tracker_reach D (snd (tracker_round D io queue t))"
| moved: "tracker_reach D t \<Longrightarrow> moves_apart t d \<Longrightarrow> tracker_reach D (handle_command D io (SetWorkingDir d) t)"
| taken: "tracker_reach D t \<Longrightarrow> session_snapshot D (take_snapshot t)"
| rewritten: "session_snapshot D s \<Longrightarrow> session_snapshot D (rewrite_paths old canonical new s)"

lemma reach_exact: "tracker_reach D t \<Longrightarrow> tracker_exact D t" "session_snapshot D s \<Longrightarrow> files_exact D (sn_files s)"
proof (induction rule: tracker_reach_session_snapshot.inducts)
  case (started io dir mode)
  have "tracker_exact D (tracker_new dir m)" for m by (simp add: tracker_exact_def tracker_new_def)
  then show ?case by (simp add: tracker_startup_def Let_def exact_dirty)
next
  case (round t queue io)
  show ?case by (rule exact_round [OF round(2)]) (use round(3,4) in blast)
next
  case (moved t d io)
  then show ?case by (simp add: handle_command_def exact_move)
next
  case (taken t)
  then show ?case by (simp add: take_snapshot_def tracker_exact_def files_exact_def)
next
  case (rewritten s old canonical new)
  let ?key = "\<lambda>p. case rewrite_single_path p old canonical new of Some q \<Rightarrow> q | None \<Rightarrow> p"
  have "files_exact D (foldl (\<lambda>m (p, st). AList.update (?key p) (with_path (?key p) st) m) [] (sn_files s))"
    using rewritten(2) by (intro fold_rekeyed) (auto simp: files_exact_def)
  then show ?case by (simp add: rewrite_paths_def Let_def)
qed

subsection \<open>Settling the hunks of a file\<close>

text \<open>A diff that patching follows exactly: plain lines, one of those it keeps not blank.\<close>

definition patchable :: "diff_env \<Rightarrow> string \<Rightarrow> string \<Rightarrow> bool" where
  "patchable D a b \<longleftrightarrow>
     splits_lines (de_lines D a b) a b
     \<and> list_ex (\<lambda>(tag, v). tag = TagEqual \<and> butlast v \<noteq> []) (de_lines D a b)"

definition undoable :: "diff_env \<Rightarrow> file_state \<Rightarrow> bool" where
  "undoable D st \<longleftrightarrow>
     (case (fs_baseline st, fs_current st) of (Full a, Full b) \<Rightarrow> fs_hunks st = [] \<or> patchable D a b | _ \<Rightarrow> True)"

lemma patchable_kept:
  assumes "patchable D a b"
  obtains l where "(TagEqual, l @ [newline]) \<in> set (de_lines D a b)" "l \<noteq> []"
proof -
  obtain v where v: "(TagEqual, v) \<in> set (de_lines D a b)" "butlast v \<noteq> []"
    using assms by (auto simp: patchable_def list_ex_iff)
  moreover have "full_line v" using assms v(1) by (force simp: patchable_def splits_lines_def list_all_iff)
  ultimately show ?thesis using that [of "butlast v"] full_line_body [of v] by (simp add: body_def)
qed

lemma spots_content:
  assumes "map hunk_content hs = map hunk_content hs'"
  shows "map reject_spot hs = map reject_spot hs' \<and> map accept_spot hs = map accept_spot hs'"
proof -
  let ?R = "\<lambda>(li, ot, nt :: string). (li_new_start li, li_new_count li, case ot of Some t \<Rightarrow> t | None \<Rightarrow> [])"
  let ?A = "\<lambda>(li, ot :: string option, nt). (li_old_start li, li_old_count li, nt)"
  have "map reject_spot xs = map ?R (map hunk_content xs)" "map accept_spot xs = map ?A (map hunk_content xs)" for xs
    by (simp_all add: reject_spot_def accept_spot_def hunk_content_def)
  then show ?thesis using assms by (simp only: refl simp_thms)
qed

lemma mixed_sides: "mixed UNIV ps = old_side ps" "mixed {} ps = new_side ps"
  by (induction ps rule: old_side.induct) simp_all

lemma settled_texts:
  assumes "hunks_exact D p st" "fs_hunks st \<noteq> []" "fs_baseline st = Full a" "fs_current st = Full b" "patchable D a b"
  shows "reject_patches (fs_hunks st) b = a" and "accept_patches (fs_hunks st) a = b"
proof -
  let ?H = "fst (compute_hunks D 0 p a b External)" and ?ps = "pieces (de_lines D a b)"
  have c: "map hunk_content (fs_hunks st) = map hunk_content ?H"
    using assms by (auto simp: hunks_exact_def fresh_hunks_def)
  then have "?H \<noteq> []" using assms(2) by auto
  then have d: "splits_lines (de_lines D a b) a b" "a \<noteq> b" "length a \<le> MAX_DIFF_FILE_SIZE"
      "length b \<le> MAX_DIFF_FILE_SIZE" "\<not> de_timed_out D a b"
    using assms(5) by (auto simp: compute_hunks_def patchable_def split: if_splits)
  obtain l where l: "(TagEqual, l @ [newline]) \<in> set (de_lines D a b)" "l \<noteq> []" using assms(5) by (rule patchable_kept)
  note sp = compute_spots [OF d, of 0 p External] and both = hunks_both_sides [OF d l, of 0 p External UNIV]
  have parted: "parted ?ps" by (simp add: pieces_def parted_pieces)
  have s: "sorted_wrt (\<lambda>a b. fst a < fst b) (map reject_spot ?H)" "sorted_wrt (\<lambda>a b. fst a < fst b) (map accept_spot ?H)"
    using parted by (simp_all only: sp spots_sorted parted_turned)
  have m: "map reject_spot (fs_hunks st) = map reject_spot ?H" "map accept_spot (fs_hunks st) = map accept_spot ?H"
    using spots_content [OF c] by simp_all
  have "reject_patches (fs_hunks st) b = reject_patches ?H b"
    using patches_spots(1) [OF s(1), of b] patches_spots(1) [of "fs_hunks st" b] s(1) by (simp only: m)
  moreover have "accept_patches (fs_hunks st) a = accept_patches ?H a"
    using patches_spots(2) [OF s(2), of a] patches_spots(2) [of "fs_hunks st" a] s(2) by (simp only: m)
  ultimately show "reject_patches (fs_hunks st) b = a" "accept_patches (fs_hunks st) a = b"
    using both pieces_text [OF d(1)] by (simp_all add: mixed_sides Compl_UNIV_eq)
qed

definition settled_file :: "hunk_action \<Rightarrow> file_state \<Rightarrow> file_state" where
  "settled_file action st =
     (if fs_hunks st = [] then st
      else case action of
        Reject \<Rightarrow> st\<lparr>fs_current := fs_baseline st, fs_hunks := []\<rparr>
      | Accept \<Rightarrow> st\<lparr>fs_baseline := (if fs_current st = MissingFile then Full [] else fs_current st),
                      fs_hunks := [], fs_accepted := True\<rparr>)"

definition undo_write :: "hunk_action \<Rightarrow> string \<Rightarrow> file_content \<Rightarrow> disk_write list" where
  "undo_write action p base =
     (case action of Accept \<Rightarrow> []
      | Reject \<Rightarrow> (case base of Full a \<Rightarrow> [WriteFile p a] | _ \<Rightarrow> [RemoveFile p]))"

lemma exact_kinds:
  assumes "hunks_exact D p st" "fs_hunks st \<noteq> []"
  obtains (edited) a b where "fs_baseline st = Full a" "fs_current st = Full b"
  | (deleted) a where "fs_baseline st = Full a" "fs_current st = MissingFile"
      "\<And>h. h \<in> set (fs_hunks st) \<Longrightarrow> hunk_content h = hunk_content (file_deleted [] p a External)"
      "length (fs_hunks st) = 1"
  | (created) b where "fs_baseline st = MissingFile" "fs_current st = Full b"
proof -
  have e: "map hunk_content (fs_hunks st) = map hunk_content (fst (fresh_hunks D 0 p (fs_baseline st) (fs_current st) External))"
    using assms by (simp add: hunks_exact_def)
  have n: "fst (fresh_hunks D 0 p (fs_baseline st) (fs_current st) External) \<noteq> []" using e assms(2) by auto
  show ?thesis
  proof (cases "fs_baseline st"; cases "fs_current st")
    fix a assume a: "fs_baseline st = Full a" "fs_current st = MissingFile"
    then have "map hunk_content (fs_hunks st) = [hunk_content (file_deleted [] p a External)]"
      using e n by (auto simp: fresh_hunks_def hunk_content_def file_deleted_def split: if_splits)
    then show ?thesis using deleted [OF a] by (auto simp: map_eq_Cons_conv)
  qed (use n edited created in \<open>auto simp: fresh_hunks_def\<close>)
qed

lemma recompute_here:
  "file_of t p = Some st \<Longrightarrow>
   file_of (recompute_hunks D p cur source t) p
   = Some (st\<lparr>fs_current := (case cur of Some c \<Rightarrow> c | None \<Rightarrow> MissingFile),
       fs_hunks := claim_hunks (fs_hunks st) (fst (fresh_hunks D (tr_next t) p (fs_baseline st)
         (case cur of Some c \<Rightarrow> c | None \<Rightarrow> MissingFile) source))\<rparr>)"
  by (simp add: recompute_hunks_def Let_def file_of_put)

lemma writes_foldl: "(\<And>t h. tr_writes (f t h) = tr_writes t) \<Longrightarrow> tr_writes (foldl f t hs) = tr_writes t"
  by (induction hs arbitrary: t) simp_all

lemma writes_still [simp]:
  "tr_writes (emit_event e t) = tr_writes t" "tr_writes (send_events es t) = tr_writes t"
  "tr_writes (put_file p st t) = tr_writes t" "tr_writes (write_disk w t) = tr_writes t @ [w]"
  "tr_writes (turn_remove_hunk t h) = tr_writes t" "tr_writes (turn_insert_hunk t h) = tr_writes t"
  "tr_writes (foldl turn_remove_hunk t hs) = tr_writes t" "tr_writes (foldl turn_insert_hunk t hs) = tr_writes t"
  "tr_writes (book_action a t h) = tr_writes t" "tr_writes (foldl (book_action a) t hs) = tr_writes t"
  by (simp_all add: emit_event_def send_events_def put_file_def write_disk_def turn_remove_hunk_def turn_insert_hunk_def
      turn_remove_def turn_insert_def book_action_def update_session_stats_def Let_def writes_foldl split: option.split)

lemma writes_recompute [simp]: "tr_writes (recompute_hunks D p cur source t) = tr_writes t"
  by (simp add: recompute_hunks_def Let_def split: option.split)

lemma keys_put: "file_of t p = Some st \<Longrightarrow> map fst (tr_files (put_file p st' t)) = map fst (tr_files t)"
proof -
  have "p \<in> fst ` set xs \<Longrightarrow> map fst (AList.update p v xs) = map fst xs" for v :: file_state and xs
    by (induction xs) auto
  moreover assume "file_of t p = Some st"
  ultimately show ?thesis by (force simp: put_file_def file_of_def dest: map_of_SomeD)
qed

lemma keys_recompute: "map fst (tr_files (recompute_hunks D p cur source t)) = map fst (tr_files t)"
proof (cases "file_of t p")
  case (Some st)
  then show ?thesis using keys_put [of "t\<lparr>tr_next := n\<rparr>" p st for n]
    by (simp add: recompute_hunks_def Let_def)
qed (simp add: recompute_hunks_def)

lemma fresh_same [simp]: "fresh_hunks D n p c c source = ([], n)"
  by (simp add: fresh_hunks_def compute_hunks_def split: file_content.split)

lemma claim_none [simp]: "claim_hunks olds [] = []"
  by (simp add: claim_hunks_def)

lemma deleted_accepted:
  "hs = [h] \<Longrightarrow> hunk_content h = hunk_content (file_deleted i p a External) \<Longrightarrow> accept_patches hs a = []"
  by (simp add: accept_patches_def accept_patch_def hunk_content_def file_deleted_def patch_lines_def line_count_def
      Let_def)

lemma accept_settles:
  assumes "tracker_exact D t" "file_of t p = Some st" "fs_hunks st \<noteq> []" "undoable D st"
  shows "file_of (accept_hunks D p (fs_hunks st) t) p = Some (settled_file Accept st)
    \<and> map fst (tr_files (accept_hunks D p (fs_hunks st) t)) = map fst (tr_files t)
    \<and> tr_writes (accept_hunks D p (fs_hunks st) t) = tr_writes t"
  using exact_of [OF assms(1,2)] assms(3)
proof (cases rule: exact_kinds)
  case (edited a b)
  have "accept_patches (fs_hunks st) a = b"
    using settled_texts(2) [OF exact_of [OF assms(1,2)] assms(3)] edited assms(3,4) by (simp add: undoable_def)
  then show ?thesis using edited assms(2,3) keys_put [OF assms(2)]
    by (simp add: accept_hunks_def Let_def recompute_here file_of_put keys_recompute settled_file_def without_all)
next
  case (deleted a)
  have "accept_patches (fs_hunks st) a = []" using deleted(3,4) by (auto simp: length_Suc_conv intro: deleted_accepted)
  then show ?thesis using deleted(1,2) assms(2,3) keys_put [OF assms(2)]
    by (simp add: accept_hunks_def Let_def recompute_here file_of_put keys_recompute settled_file_def without_all fresh_hunks_def)
next
  case (created b)
  then show ?thesis using assms(2,3) keys_put [OF assms(2)]
    by (simp add: accept_hunks_def Let_def file_of_put settled_file_def without_all)
qed

lemma reject_settles:
  assumes "tracker_exact D t" "file_of t p = Some st" "fs_hunks st \<noteq> []" "undoable D st"
    and "ti_write_ok io p" "ti_remove_ok io p"
  shows "snd (reject_hunks D io p (fs_hunks st) t) = Inr ()
    \<and> file_of (fst (reject_hunks D io p (fs_hunks st) t)) p = Some (settled_file Reject st)
    \<and> map fst (tr_files (fst (reject_hunks D io p (fs_hunks st) t))) = map fst (tr_files t)
    \<and> tr_writes (fst (reject_hunks D io p (fs_hunks st) t)) = tr_writes t @ undo_write Reject p (fs_baseline st)"
  using exact_of [OF assms(1,2)] assms(3)
proof (cases rule: exact_kinds)
  case (edited a b)
  have r: "reject_patches (fs_hunks st) b = a"
    using settled_texts(1) [OF exact_of [OF assms(1,2)] assms(3)] edited assms(3,4) by (simp add: undoable_def)
  then show ?thesis using edited assms(2,3,5) keys_put [of "write_disk w t" p st for w]
    by (simp add: reject_hunks_def Let_def recompute_here file_of_put keys_recompute settled_file_def without_all undo_write_def)
next
  case (deleted a)
  then show ?thesis using assms(2,3,5) keys_put [of "write_disk w t" p st for w]
    by (simp add: reject_hunks_def Let_def file_of_put settled_file_def without_all undo_write_def)
next
  case (created b)
  then show ?thesis using assms(2,3,6) keys_put [of "write_disk w t" p st for w]
    by (simp add: reject_hunks_def Let_def file_of_put settled_file_def without_all undo_write_def)
qed

lemma apply_settles:
  assumes "tracker_exact D t" "file_of t p = Some st" "fs_hunks st \<noteq> []" "undoable D st"
    and "ti_write_ok io p" "ti_remove_ok io p"
  obtains t' where "apply_to_file D io action p (fs_hunks st) t = (t', Inr ())" "tracker_exact D t'"
    "file_of t' p = Some (settled_file action st)" "\<And>q. q \<noteq> p \<Longrightarrow> file_of t' q = file_of t q"
    "map fst (tr_files t') = map fst (tr_files t)"
    "tr_writes t' = tr_writes t @ undo_write action p (fs_baseline st)"
proof -
  let ?b = "foldl (book_action action) t (fs_hunks st)"
  let ?r = "apply_to_file D io action p (fs_hunks st) t"
  have b: "tracker_exact D ?b" "file_of ?b p = Some st" using assms(1,2) by simp_all
  have "snd ?r = Inr () \<and> file_of (fst ?r) p = Some (settled_file action st)
      \<and> map fst (tr_files (fst ?r)) = map fst (tr_files t)
      \<and> tr_writes (fst ?r) = tr_writes t @ undo_write action p (fs_baseline st)"
    using accept_settles [OF b assms(3,4)] reject_settles [OF b assms(3-6)]
    by (cases action) (simp_all add: apply_to_file_def Let_def undo_write_def)
  moreover have "tracker_exact D (fst ?r)" using assms(1,2) by (intro exact_apply) (simp_all add: hunks_of_def)
  ultimately show ?thesis using that [of "fst ?r"] apply_other by (metis prod.collapse)
qed

definition to_settle :: "diff_env \<Rightarrow> tracker \<Rightarrow> string \<times> hunk list \<Rightarrow> bool" where
  "to_settle D t f \<longleftrightarrow>
     (\<exists>st. file_of t (fst f) = Some st \<and> snd f = fs_hunks st \<and> snd f \<noteq> [] \<and> undoable D st)"

definition undo_writes :: "hunk_action \<Rightarrow> tracker \<Rightarrow> string \<Rightarrow> disk_write list" where
  "undo_writes action t p = (case file_of t p of Some st \<Rightarrow> undo_write action p (fs_baseline st) | None \<Rightarrow> [])"

lemma batch_settles:
  assumes io: "\<And>p. ti_write_ok io p" "\<And>p. ti_remove_ok io p"
  shows "tracker_exact D t \<Longrightarrow> \<forall>f \<in> set files. to_settle D t f \<Longrightarrow> distinct (map fst files) \<Longrightarrow>
   \<exists>t'. apply_action_batch D io action files t = (t', Inr (concat (map (\<lambda>f. map hk_id (snd f)) files)))
     \<and> (\<forall>q. file_of t' q = (if q \<in> fst ` set files then map_option (settled_file action) (file_of t q) else file_of t q))
     \<and> map fst (tr_files t') = map fst (tr_files t)
     \<and> tr_writes t' = tr_writes t @ concat (map (\<lambda>f. undo_writes action t (fst f)) files)"
proof (induction files arbitrary: t)
  case (Cons f files)
  obtain p hs where f: "f = (p, hs)" by (cases f)
  obtain st where st: "file_of t p = Some st" "hs = fs_hunks st" "fs_hunks st \<noteq> []" "undoable D st"
    using Cons.prems(2) by (auto simp: f to_settle_def)
  obtain t1 where t1: "apply_to_file D io action p hs t = (t1, Inr ())" "tracker_exact D t1"
    "file_of t1 p = Some (settled_file action st)" "\<And>q. q \<noteq> p \<Longrightarrow> file_of t1 q = file_of t q"
    "map fst (tr_files t1) = map fst (tr_files t)" "tr_writes t1 = tr_writes t @ undo_write action p (fs_baseline st)"
    using apply_settles [OF Cons.prems(1) st(1,3,4) io, of action] unfolding st(2) by blast
  have other: "fst g \<noteq> p" if "g \<in> set files" for g using Cons.prems(3) that by (auto simp: f)
  have "\<forall>g \<in> set files. to_settle D t1 g"
    using Cons.prems(2) other t1(4) by (auto simp: to_settle_def)
  moreover have "distinct (map fst files)" using Cons.prems(3) by simp
  ultimately obtain t2 where t2:
    "apply_action_batch D io action files t1 = (t2, Inr (concat (map (\<lambda>f. map hk_id (snd f)) files)))"
    "\<And>q. file_of t2 q = (if q \<in> fst ` set files then map_option (settled_file action) (file_of t1 q) else file_of t1 q)"
    "map fst (tr_files t2) = map fst (tr_files t1)"
    "tr_writes t2 = tr_writes t1 @ concat (map (\<lambda>f. undo_writes action t1 (fst f)) files)"
    using Cons.IH [OF t1(2)] by blast
  have w: "map (\<lambda>f. undo_writes action t1 (fst f)) files = map (\<lambda>f. undo_writes action t (fst f)) files"
    using other t1(4) by (simp add: undo_writes_def)
  have u: "undo_writes action t p = undo_write action p (fs_baseline st)" using st(1) by (simp add: undo_writes_def)
 have "file_of t2 q = (if q \<in> fst ` set (f # files) then map_option (settled_file action) (file_of t q) else file_of t q)" for q
    using t2(2) [of q] t1(3,4) st(1) other by (cases "q = p") (auto simp: f)
  then show ?case by (intro exI [of _ t2]) (simp add: f t1(1) t1(5,6) t2(1) t2(3,4) w u)
qed simp

lemma files_by_lookup:
  assumes "distinct (map fst xs)" "map fst ys = map fst xs" "\<And>q. map_of ys q = map_option g (map_of xs q)"
  shows "ys = map (\<lambda>(p, st). (p, g st)) xs"
  using assms
proof (induction xs arbitrary: ys)
  case (Cons x xs)
  obtain p st where x: "x = (p, st)" by (cases x)
  with Cons.prems(2) obtain st' zs where ys: "ys = (p, st') # zs" "map fst zs = map fst xs" by (cases ys) auto
  have "st' = g st" using Cons.prems(3) [of p] by (simp add: x ys)
  moreover have "map_of zs q = map_option g (map_of xs q)" for q
  proof (cases "q = p")
    case True
    then have "q \<notin> set (map fst xs)" using Cons.prems(1) by (simp add: x)
    then have "map_of xs q = None" "map_of zs q = None"
      using ys(2) by (simp_all only: map_of_eq_None_iff set_map [symmetric]) simp_all
    then show ?thesis by simp
  next
    case False
    then show ?thesis using Cons.prems(3) [of q] by (simp add: x ys)
  qed
  ultimately show ?case using Cons.IH [of zs] Cons.prems(1) ys by (simp add: x)
qed simp

subsection \<open>The hunks are the diff\<close>

definition hunk_demo_io :: tracker_io where
  "hunk_demo_io =
     \<lparr>ti_disk = (\<lambda>_. \<lparr>fr_symlink = None, fr_len = 0, fr_opened = False, fr_first = None, fr_rest = None\<rparr>),
      ti_exists = (\<lambda>_. True), ti_is_dir = (\<lambda>_. False), ti_write_ok = (\<lambda>_. True), ti_remove_ok = (\<lambda>_. True),
      ti_joined = True, ti_in_repo = False, ti_head = (\<lambda>_. MissingFile), ti_status = (\<lambda>_. ([], [])),
      ti_sync = \<lparr>rs_head = None, rs_index = None\<rparr>\<rparr>"

definition demo_old :: string where "demo_old = ''k'' @ [newline] @ ''a'' @ [newline] @ ''m'' @ [newline]"

definition demo_new :: string where
  "demo_new = ''k'' @ [newline] @ ''b'' @ [newline] @ ''m'' @ [newline] @ ''z'' @ [newline]"

definition demo_tracker :: tracker where
  "demo_tracker =
     snd (tracker_round demo_diff hunk_demo_io [RecordAgentWrite ''/w/f'' demo_new 3 (Some demo_old)]
       (tracker_startup demo_diff hunk_demo_io ''/w'' AgentOnly))"

lemma demo_reach: "tracker_reach demo_diff demo_tracker"
  unfolding demo_tracker_def by (intro tracker_reach_session_snapshot.intros) auto

lemma demo_content: "classify_string demo_new = Full demo_new" "classify_string demo_old = Full demo_old"
  by (simp_all add: classify_string_def demo_new_def demo_old_def newline_def MAX_TRACKED_TEXT_BYTES_def is_lfs_pointer_def
      is_binary_def LFS_POINTER_PREFIX_def starts_with_def)

lemma demo_ids: "show_nat 0 = ''0''" "show_nat (Suc 0) = ''1''"
  by code_simp+

lemma demo_walk:
  "compute_hunks demo_diff 0 ''/w/f'' demo_old demo_new (AgentEdit 3) =
   ([\<lparr>hk_id = ''h0'', hk_path = ''/w/f'', hk_line = \<lparr>li_old_start = 2, li_old_count = 1, li_new_start = 2, li_new_count = 1\<rparr>,
      hk_source = AgentEdit 3, hk_old_text = Some (''a'' @ [newline]), hk_new_text = ''b'' @ [newline], hk_patch = None\<rparr>,
     \<lparr>hk_id = ''h1'', hk_path = ''/w/f'', hk_line = \<lparr>li_old_start = 4, li_old_count = 0, li_new_start = 4, li_new_count = 1\<rparr>,
      hk_source = AgentEdit 3, hk_old_text = None, hk_new_text = ''z'' @ [newline], hk_patch = None\<rparr>], 2)"
  by (simp add: compute_hunks_def demo_diff_def demo_old_def demo_new_def newline_def MAX_DIFF_FILE_SIZE_def
      walk_change_def finish_hunk_def cur_builder_def builder_new_def add_old_line_def add_new_line_def builder_build_def
      Let_def demo_ids)

definition demo_file :: file_state where
  "demo_file =
     \<lparr>fs_baseline = Full demo_old, fs_current = Full demo_new,
      fs_hunks = fst (compute_hunks demo_diff 0 ''/w/f'' demo_old demo_new (AgentEdit 3)), fs_agent = True,
      fs_accepted = False\<rparr>"

lemma demo_files: "tr_files demo_tracker = [(''/w/f'', demo_file)]" "tr_writes demo_tracker = []"
  by (simp_all add: demo_tracker_def tracker_round_def is_coalescable_def handle_command_def record_agent_write_def
      demo_content is_diffable_def tracker_startup_def tracker_new_def file_of_def read_baseline_def hunk_demo_io_def
      discover_def track_file_def recompute_files put_file_def emit_event_def fresh_hunks_def demo_walk
      demo_file_def claim_hunks_def claim_hunk_def find_matching_old_hunk_def Let_def)





end
