(* ===== verification/HunkModes.thy ===== *)
theory HunkModes
  imports HunkRuns
begin

section \<open>Modes, batches and failures of the hunk tracker\<close>

text \<open>
  What the mode that follows the agent alone tracks, what a batch of commands keeps of them, and where
  the tracker loses something: a failed rejection, a refresh that finds nothing new, a move that makes
  two files one.
\<close>

subsection \<open>The mode stays\<close>

lemma mode_foldl: "(\<And>t h. tr_mode (f t h) = tr_mode t) \<Longrightarrow> tr_mode (foldl f t hs) = tr_mode t"
  by (induction hs arbitrary: t) simp_all

lemma mode_still [simp]:
  "tr_mode (emit_event e t) = tr_mode t" "tr_mode (send_events es t) = tr_mode t"
  "tr_mode (put_file p st t) = tr_mode t" "tr_mode (drop_file p t) = tr_mode t" "tr_mode (write_disk w t) = tr_mode t"
  "tr_mode (turn_remove_hunk t h) = tr_mode t" "tr_mode (turn_insert_hunk t h) = tr_mode t"
  "tr_mode (foldl turn_remove_hunk t hs) = tr_mode t" "tr_mode (foldl turn_insert_hunk t hs) = tr_mode t"
  "tr_mode (book_action a t h) = tr_mode t" "tr_mode (foldl (book_action a) t hs) = tr_mode t"
  "tr_mode (retire_hunks p hs t) = tr_mode t" "tr_mode (track_file p base cur agent t) = tr_mode t"
  by (simp_all add: emit_event_def send_events_def put_file_def drop_file_def write_disk_def turn_remove_hunk_def
      turn_insert_hunk_def turn_remove_def turn_insert_def book_action_def update_session_stats_def Let_def mode_foldl
      retire_hunks_def track_file_def split: option.split)

lemma mode_recompute [simp]: "tr_mode (recompute_hunks D p cur source t) = tr_mode t"
  by (simp add: recompute_hunks_def Let_def split: option.split)

lemma mode_discovered [simp]:
  "tr_mode (snd (read_baseline io p t)) = tr_mode t" "tr_mode (snd (baseline_or_read io p pre t)) = tr_mode t"
  "tr_mode (snd (read_baselines_batch io ps t)) = tr_mode t" "tr_mode (snd (read_repo_sync_state io t)) = tr_mode t"
  by (simp_all add: read_baseline_def baseline_or_read_def read_baselines_batch_def read_repo_sync_state_def Let_def
      split: option.split)

lemma mode_change [simp]: "tr_mode (process_file_change D io p pre t) = tr_mode t"
  by (simp add: process_file_change_def Let_def case_prod_beta split: option.split)

lemma mode_deleted [simp]: "tr_mode (handle_file_deleted D io p t) = tr_mode t"
  by (simp add: handle_file_deleted_def handle_file_change_def case_prod_beta split: option.split)

lemma mode_actions [simp]:
  "tr_mode (accept_hunks D p hs t) = tr_mode t" "tr_mode (fst (reject_hunks D io p hs t)) = tr_mode t"
  by (simp_all add: accept_hunks_def reject_hunks_def Let_def split: option.split file_content.split)

lemma mode_apply [simp]: "tr_mode (fst (apply_to_file D io action p hs t)) = tr_mode t"
  by (cases action) (simp_all add: apply_to_file_def Let_def)

lemma mode_dirty [simp]: "tr_mode (refresh_git_dirty_cache D io scope t) = tr_mode t"
  by (simp add: refresh_git_dirty_cache_def Let_def handle_file_change_def mode_foldl)

lemma mode_refresh [simp]: "tr_mode (refresh_file D io bases p t) = tr_mode t"
  by (simp add: refresh_file_def Let_def split: option.split)

subsection \<open>Only the agent's files\<close>

definition agents_only :: "tracker \<Rightarrow> bool" where
  "agents_only t \<longleftrightarrow> (tr_mode t = AgentOnly \<longrightarrow> (\<forall>(p, st) \<in> set (tr_files t). fs_agent st))"

lemma agents_of: "agents_only t \<Longrightarrow> tr_mode t = AgentOnly \<Longrightarrow> file_of t p = Some st \<Longrightarrow> fs_agent st"
  by (fastforce simp: agents_only_def file_of_def dest: map_of_SomeD)

lemma agents_put [simp]: "agents_only t \<Longrightarrow> (tr_mode t = AgentOnly \<Longrightarrow> fs_agent st) \<Longrightarrow> agents_only (put_file p st t)"
  using update_set [of p st "tr_files t"] by (fastforce simp: agents_only_def put_file_def)

lemma agents_keep [simp]:
  "agents_only t \<Longrightarrow> file_of t p = Some st \<Longrightarrow> fs_agent st' = fs_agent st \<Longrightarrow> agents_only (put_file p st' t)"
  using agents_of [of t p st] by simp

lemma agents_vacuous [simp]: "tr_mode t \<noteq> AgentOnly \<Longrightarrow> agents_only t"
  by (simp add: agents_only_def)

lemma agents_drop [simp]: "agents_only t \<Longrightarrow> agents_only (drop_file p t)"
  using delete_set [of p "tr_files t"] by (fastforce simp: agents_only_def drop_file_def)

lemma agents_files: "tr_files t' = tr_files t \<Longrightarrow> tr_mode t' = tr_mode t \<Longrightarrow> agents_only t' = agents_only t"
  by (simp add: agents_only_def)

lemma agents_still [simp]:
  "agents_only (emit_event e t) = agents_only t" "agents_only (send_events es t) = agents_only t"
  "agents_only (write_disk w t) = agents_only t" "agents_only (foldl (book_action a) t hs) = agents_only t"
  "agents_only (retire_hunks p hs t) = agents_only t" "agents_only (t\<lparr>tr_next := n\<rparr>) = agents_only t"
  "agents_only (t\<lparr>tr_repo := r\<rparr>) = agents_only t" "agents_only (t\<lparr>tr_stats := ss\<rparr>) = agents_only t"
  "agents_only (t\<lparr>tr_sync := y\<rparr>) = agents_only t" "agents_only (t\<lparr>tr_dirty := d, tr_staged := s\<rparr>) = agents_only t"
  "agents_only (t\<lparr>tr_repo := r, tr_dirty := d, tr_staged := s\<rparr>) = agents_only t"
  by (rule agents_files; simp)+

lemma agents_recompute [simp]: "agents_only t \<Longrightarrow> agents_only (recompute_hunks D p cur source t)"
proof (cases "file_of t p")
  case (Some st)
  assume t: "agents_only t"
  let ?st = "st\<lparr>fs_current := (case cur of Some c \<Rightarrow> c | None \<Rightarrow> MissingFile),
      fs_hunks := claim_hunks (fs_hunks st) (fst (fresh_hunks D (tr_next t) p (fs_baseline st)
        (case cur of Some c \<Rightarrow> c | None \<Rightarrow> MissingFile) source))\<rparr>"
  have "agents_only (recompute_hunks D p cur source t) = agents_only (put_file p ?st t)"
    using Some by (intro agents_files) (simp_all add: recompute_files put_file_def)
  then show ?thesis using t agents_of [OF t _ Some] by simp
qed (simp add: recompute_hunks_def)

lemma agents_discovered [simp]:
  "agents_only (snd (read_baseline io p t)) = agents_only t"
  "agents_only (snd (baseline_or_read io p pre t)) = agents_only t"
  "agents_only (snd (read_baselines_batch io ps t)) = agents_only t"
  "agents_only (snd (read_repo_sync_state io t)) = agents_only t"
  by (simp_all add: read_baseline_def baseline_or_read_def read_baselines_batch_def read_repo_sync_state_def Let_def
      split: option.split)

lemma agents_track [simp]: "agents_only t \<Longrightarrow> (tr_mode t = AgentOnly \<Longrightarrow> agent) \<Longrightarrow> agents_only (track_file p base cur agent t)"
  by (simp add: track_file_def)

lemma agents_write: "agents_only t \<Longrightarrow> agents_only (record_agent_write D io p content k previous t)"
  by (simp add: record_agent_write_def Let_def case_prod_beta split: option.split)

lemma agents_change [simp]: "agents_only t \<Longrightarrow> agents_only (process_file_change D io p pre t)"
  by (auto simp: process_file_change_def Let_def case_prod_beta split: option.split dest: agents_of)

lemma agents_deleted [simp]: "agents_only t \<Longrightarrow> agents_only (handle_file_deleted D io p t)"
  by (auto simp: handle_file_deleted_def handle_file_change_def case_prod_beta split: option.split)

lemma agents_foldl: "(\<And>t x. agents_only t \<Longrightarrow> agents_only (f t x)) \<Longrightarrow> agents_only t \<Longrightarrow> agents_only (foldl f t xs)"
  by (induction xs arbitrary: t) simp_all

lemma agents_changes: "agents_only t \<Longrightarrow> agents_only (handle_file_changes_batch D io ps t)"
  by (auto simp: handle_file_changes_batch_def case_prod_beta intro!: agents_foldl)

lemma agents_dirty [simp]: "agents_only t \<Longrightarrow> agents_only (refresh_git_dirty_cache D io scope t)"
  by (auto simp: refresh_git_dirty_cache_def Let_def handle_file_change_def intro!: agents_foldl)

lemma agents_reset: "agents_only t \<Longrightarrow> agents_only (reset_baseline p t)"
  by (auto simp: reset_baseline_def split: option.split dest: agents_of)

lemma agents_refresh: "agents_only t \<Longrightarrow> agents_only (refresh_file D io bases p t)"
  by (auto simp: refresh_file_def Let_def split: option.split dest: agents_of)

lemma agents_refresh_all: "agents_only t \<Longrightarrow> agents_only (refresh_all_baselines_except D io skip t)"
proof -
  assume t: "agents_only t"
  obtain sync t1 where s: "read_repo_sync_state io t = (sync, t1)" by (cases "read_repo_sync_state io t")
  then have t1: "agents_only t1" using agents_discovered(4) [of io t] t by simp
  have fold: "agents_only (case read_baselines_batch io ps u of
      (bases, v) \<Rightarrow> foldl (\<lambda>t p. refresh_file D io bases p t) v ps)" if "agents_only u" for ps u
    using that by (auto simp: case_prod_beta intro!: agents_foldl agents_refresh)
  show ?thesis
    unfolding refresh_all_baselines_except_def s Let_def prod.case using t t1
    by (auto intro!: fold split: option.split)
qed

lemma agents_accept: "agents_only t \<Longrightarrow> agents_only (accept_hunks D p hs t)"
  by (auto simp: accept_hunks_def Let_def split: option.split dest: agents_of)

lemma agents_reject: "agents_only t \<Longrightarrow> agents_only (fst (reject_hunks D io p hs t))"
  by (auto simp: reject_hunks_def Let_def split: option.split file_content.split dest: agents_of)

lemma agents_apply: "agents_only t \<Longrightarrow> agents_only (fst (apply_to_file D io action p hs t))"
  by (cases action) (simp_all add: apply_to_file_def Let_def agents_accept agents_reject)

lemma agents_batch: "agents_only t \<Longrightarrow> agents_only (fst (apply_action_batch D io action files t))"
proof (induction D io action files t rule: apply_action_batch.induct)
  case (2 D io action p hs files t)
  let ?r = "apply_to_file D io action p hs t"
  have e: "agents_only (fst ?r)" using 2(2) by (rule agents_apply)
  show ?case
  proof (cases "snd ?r")
    case (Inl x)
    then show ?thesis using e by (cases ?r) simp
  next
    case (Inr u)
    then have r: "?r = (fst ?r, Inr u)" by (metis prod.collapse)
    have "agents_only (fst (apply_action_batch D io action files (fst ?r)))"
      using 2(1) [OF r [symmetric] refl] e by simp
    then show ?thesis by (subst apply_action_batch.simps, subst r) (auto split: prod.split sum.split)
  qed
qed simp

lemma agents_all_actions:
  "agents_only t \<Longrightarrow> agents_only (fst (apply_hunk_action D io i action t))"
  "agents_only t \<Longrightarrow> agents_only (fst (apply_file_action D io p action t))"
  "agents_only t \<Longrightarrow> agents_only (fst (apply_all_action D io action t))"
  "agents_only t \<Longrightarrow> agents_only (fst (apply_turn_action D io k action t))"
  by (simp_all add: apply_hunk_action_def apply_file_action_def apply_all_action_def apply_turn_action_def
      agents_apply agents_batch split: option.split prod.split del: apply_action_batch.simps)

lemma stop_files: "set (tr_files (stop_tracking t p)) = {f \<in> set (tr_files t). fst f \<noteq> p \<or> file_of t p = None}"
  by (auto simp: stop_tracking_def drop_file_def AList.delete_eq split: option.split)

lemma stopped_files:
  "set (tr_files (foldl stop_tracking t ps)) \<subseteq> {f \<in> set (tr_files t). fst f \<notin> set ps}"
proof (induction ps arbitrary: t)
  case (Cons p ps)
  have "fst f \<noteq> p" if "f \<in> set (tr_files (stop_tracking t p))" for f
    using that by (auto simp: stop_files file_of_def map_of_eq_None_iff)
  then show ?case using Cons.IH [of "stop_tracking t p"] by (auto simp: stop_files)
qed simp

lemma agents_mode: "agents_only t \<Longrightarrow> agents_only (set_mode D io mode t)"
proof (cases "tr_mode t = AllDirty \<and> mode = AgentOnly")
  case True
  let ?ps = "map fst (filter (\<lambda>(p, st). \<not> fs_agent st) (tr_files t))"
  have "\<forall>(p, st) \<in> set (tr_files (foldl stop_tracking (t\<lparr>tr_mode := AgentOnly\<rparr>) ?ps)). fs_agent st"
    using stopped_files [of "t\<lparr>tr_mode := AgentOnly\<rparr>" ?ps] by (fastforce simp: image_iff)
  then show ?thesis using True by (simp add: set_mode_def Let_def agents_only_def)
next
  case False
  assume "agents_only t"
  then show ?thesis using False by (cases mode; cases "tr_mode t") (auto simp: set_mode_def Let_def agents_only_def)
qed

definition all_agents :: "(string \<times> file_state) list \<Rightarrow> bool" where
  "all_agents m \<longleftrightarrow> (\<forall>(p, st) \<in> set m. fs_agent st)"

lemma all_agents_update: "all_agents m \<Longrightarrow> fs_agent st \<Longrightarrow> all_agents (AList.update p st m)"
  using update_set [of p st m] by (fastforce simp: all_agents_def)

lemma all_agents_fold:
  "\<forall>x \<in> set xs. \<forall>m. all_agents m \<longrightarrow> all_agents (f m x) \<Longrightarrow> all_agents m \<Longrightarrow> all_agents (foldl f m xs)"
  by (induction xs arbitrary: m) simp_all

lemma agents_dir: "agents_only t \<Longrightarrow> agents_only (set_working_dir d t)"
proof -
  assume t: "agents_only t"
  have "all_agents (tr_files (rekey_paths_for_working_dir d t))" if a: "all_agents (tr_files t)"
  proof (cases "d = tr_dir t")
    case True
    then show ?thesis using a by (simp add: rekey_paths_for_working_dir_def)
  next
    case False
    then show ?thesis using a
      by (auto simp: rekey_paths_for_working_dir_def Let_def with_path_def merge_rekeyed_def
          intro!: all_agents_fold all_agents_update split: option.split)
        (auto simp: all_agents_def)
  qed
  moreover have "tr_mode (rekey_paths_for_working_dir d t) = tr_mode t"
    by (simp add: rekey_paths_for_working_dir_def Let_def)
  ultimately show ?thesis using t by (auto simp: agents_only_def all_agents_def set_working_dir_def)
qed

lemma agents_command:
  "agents_only t \<Longrightarrow> \<forall>s. c \<noteq> RestoreState s \<Longrightarrow> agents_only (handle_command D io c t)"
  by (cases c)
    (simp_all add: handle_command_def agents_write handle_file_change_def agents_reset agents_mode agents_dir
      agents_all_actions agents_refresh_all)

lemma agents_others:
  "agents_only t \<Longrightarrow> \<forall>s. RestoreState s \<notin> set cs \<Longrightarrow> agents_only (foldl (\<lambda>t c. handle_command D io c t) t cs)"
proof (induction cs arbitrary: t)
  case (Cons c cs)
  have "agents_only (handle_command D io c t)"
    by (rule agents_command [OF Cons.prems(1)]) (use Cons.prems(2) in auto)
  then show ?case using Cons.IH [of "handle_command D io c t"] Cons.prems(2) by simp
qed simp

lemma agents_batch_file: "agents_only (snd acc) \<Longrightarrow> agents_only (snd (batch_file_refreshing D io acc pa))"
  by (auto simp: batch_file_refreshing_def handle_file_change_def split: option.split path_action.split)

lemma agents_batch_fold:
  "agents_only (snd acc) \<Longrightarrow> agents_only (snd (foldl (batch_file_refreshing D io) acc pas))"
  by (induction pas arbitrary: acc) (simp_all add: agents_batch_file)

lemma agents_coalesced:
  assumes "agents_only t" and "\<forall>s. RestoreState s \<notin> set (cb_others b)"
  shows "agents_only (handle_coalesced_batch D io b t)"
  unfolding handle_coalesced_batch_def Let_def case_prod_beta
  by (intro agents_others assms(2)) (auto intro!: agents_refresh_all agents_batch_fold agents_changes agents_foldl simp: assms(1))

lemma others_of_batch: "cb_others (foldl batch_add batch_new cs) = filter (\<lambda>c. \<not> is_coalescable c) cs"
  by (simp only: batch_others) (simp add: batch_new_def)

text \<open>
  C29. The mode that follows the agent alone never tracks a file the agent did not write.  Whatever the
  disk and Git answer, if that holds before a round of commands it holds after it: file notifications
  for other files, refreshes, actions, moves of the working directory and changes of the mode to and
  fro keep it; only restoring a snapshot is not covered.
\<close>

theorem agent_only_tracks_agent_files:
  assumes "tr_mode t = AgentOnly \<Longrightarrow> list_all (\<lambda>p. is_agent_file p t) (get_all_tracked_paths t)"
    and "distinct (get_all_tracked_paths t)" and "\<And>s. RestoreState s \<notin> set queue"
    and "tr_mode (snd (tracker_round D io queue t)) = AgentOnly"
  shows "list_all (\<lambda>p. is_agent_file p (snd (tracker_round D io queue t)))
    (get_all_tracked_paths (snd (tracker_round D io queue t)))"
proof -
  have "agents_only t"
    using assms(1,2) by (fastforce simp: agents_only_def list_all_iff get_all_tracked_paths_def is_agent_file_def file_of_def
        split: option.splits)
  then have "agents_only (snd (tracker_round D io queue t))"
  proof (cases queue)
    case (Cons c cs)
    assume t: "agents_only t"
    have "agents_only (handle_coalesced_batch D io (foldl batch_add batch_new queue) t)"
      using assms(3) by (intro agents_coalesced t) (simp add: others_of_batch)
    moreover have "agents_only (handle_command D io c t)"
      using assms(3) Cons by (intro agents_command t) auto
    ultimately show ?thesis using Cons by (simp add: tracker_round_def)
  qed (simp add: tracker_round_def)
  then show ?thesis using assms(4)
    by (auto simp: list_all_iff get_all_tracked_paths_def is_agent_file_def file_of_def agents_only_def map_of_eq_None_iff
        split: option.split dest!: map_of_SomeD)
qed

lemma demo_mode: "tr_mode demo_tracker = AgentOnly"
  by (simp add: demo_tracker_def tracker_round_def is_coalescable_def handle_command_def record_agent_write_def
      demo_content is_diffable_def tracker_startup_def tracker_new_def file_of_def case_prod_beta Let_def)

lemma agent_only_tracks_agent_files_witness:
  "list_all (\<lambda>p. is_agent_file p (snd (tracker_round demo_diff hunk_demo_io [HandleFileChange ''/w/g''] demo_tracker)))
     (get_all_tracked_paths (snd (tracker_round demo_diff hunk_demo_io [HandleFileChange ''/w/g''] demo_tracker)))"
proof (rule agent_only_tracks_agent_files)
  show "list_all (\<lambda>p. is_agent_file p demo_tracker) (get_all_tracked_paths demo_tracker)"
    by (simp add: get_all_tracked_paths_def demo_files is_agent_file_def file_of_def demo_file_def)
  show "distinct (get_all_tracked_paths demo_tracker)" by (simp add: get_all_tracked_paths_def demo_files)
  show "RestoreState s \<notin> set [HandleFileChange ''/w/g'']" for s by simp
  show "tr_mode (snd (tracker_round demo_diff hunk_demo_io [HandleFileChange ''/w/g''] demo_tracker)) = AgentOnly"
    by (simp add: tracker_round_def is_coalescable_def handle_coalesced_batch_def Let_def batch_add_def batch_new_def
        handle_file_changes_batch_def mode_foldl case_prod_beta demo_mode)
qed

subsection \<open>Batches\<close>

text \<open>The last word of a list of commands on a path.\<close>

definition about_path :: "string \<Rightarrow> tracker_command \<Rightarrow> bool" where
  "about_path p c \<longleftrightarrow> c = HandleFileChange p \<or> c = HandleFileDeleted p"

definition last_word :: "string \<Rightarrow> tracker_command list \<Rightarrow> path_action option" where
  "last_word p cs =
     (let ws = filter (about_path p) cs in
      if ws = [] then None
      else if last ws = HandleFileDeleted p then Some Deleted
      else if HandleFileDeleted p \<in> set ws then Some DeletedThenChanged
      else Some Changed)"

lemma last_word_snoc:
  "last_word p (cs @ [c]) =
     (if c = HandleFileDeleted p then Some Deleted
      else if c = HandleFileChange p then
        Some (case last_word p cs of None \<Rightarrow> Changed | Some Deleted \<Rightarrow> DeletedThenChanged | Some a \<Rightarrow> a)
      else last_word p cs)"
proof (cases "filter (about_path p) cs = []")
  case True
  then have "HandleFileDeleted p \<notin> set cs" by (auto simp: filter_empty_conv about_path_def)
  then show ?thesis using True by (simp add: last_word_def Let_def about_path_def)
next
  case False
  then have "last (filter (about_path p) cs) \<in> set cs" using last_in_set [OF False] by simp
  then show ?thesis using False by (auto simp: last_word_def Let_def about_path_def)
qed

lemma last_word_changed:
  "last_word p cs = Some a \<Longrightarrow> HandleFileDeleted p \<notin> set cs \<Longrightarrow> a = Changed \<and> HandleFileChange p \<in> set cs"
proof (induction cs arbitrary: a rule: rev_induct)
  case (snoc c cs)
  then show ?case by (cases "last_word p cs") (auto simp: last_word_snoc split: if_splits)
qed (simp add: last_word_def)

lemma batch_snoc:
  "map_of (cb_files (foldl batch_add batch_new cs)) p = last_word p cs
   \<and> distinct (map fst (cb_files (foldl batch_add batch_new cs)))
   \<and> (cb_refresh_all (foldl batch_add batch_new cs) \<longleftrightarrow> RefreshAllBaselines \<in> set cs)
   \<and> (cb_refresh_dirty (foldl batch_add batch_new cs) \<longleftrightarrow> RefreshGitDirtyCache \<in> set cs)
   \<and> cb_count (foldl batch_add batch_new cs) = length cs"
proof (induction cs rule: rev_induct)
  case Nil
  show ?case by (simp add: batch_new_def last_word_def)
next
  case (snoc c cs)
  then show ?case
    by (cases c) (auto simp: last_word_snoc batch_add_def Let_def update_conv' distinct_update)
qed

text \<open>
  C30. What a batch keeps of the commands it takes from the queue.  For every path it holds exactly what
  the last notification about it says: deleted if the last one is a deletion, changed if none is,
  and changed after a deletion otherwise.  A path has one entry, the two refreshes are remembered,
  every other command is kept in its order, and no command is lost from the count.
\<close>

theorem batch_keeps_the_last_word:
  "map_of (cb_files (foldl batch_add batch_new cs)) p = last_word p cs
   \<and> distinct (map fst (cb_files (foldl batch_add batch_new cs)))
   \<and> (cb_refresh_all (foldl batch_add batch_new cs) \<longleftrightarrow> RefreshAllBaselines \<in> set cs)
   \<and> (cb_refresh_dirty (foldl batch_add batch_new cs) \<longleftrightarrow> RefreshGitDirtyCache \<in> set cs)
   \<and> cb_others (foldl batch_add batch_new cs) = filter (\<lambda>c. \<not> is_coalescable c) cs
   \<and> cb_count (foldl batch_add batch_new cs) = length cs"
  using batch_snoc [of cs p] others_of_batch [of cs] by blast

lemma foldl_fixed: "\<forall>x \<in> set xs. f a x = a \<Longrightarrow> foldl f a xs = a"
  by (induction xs) simp_all

text \<open>
  C39. A change of a file can be lost in a batch.  When a refresh of all baselines is batched with changes
  of files already tracked, the changes are left to the refresh; but the refresh returns at once when
  the state of the repository is the one it saw before, so that the batch does nothing for them: the
  hunks stay as they were, whatever is on the disk now.
\<close>

theorem refresh_drops_file_changes:
  assumes "tr_repo t = Discovered" and "ti_joined io" and "ti_sync io = tr_sync t"
    and "RefreshAllBaselines \<in> set cs" and "c = RefreshAllBaselines \<or> c = HandleFileChange p"
    and "\<And>q. HandleFileChange q \<in> set (c # cs) \<Longrightarrow> q \<in> set (get_all_tracked_paths t)"
    and "\<And>q. HandleFileDeleted q \<notin> set cs"
  shows "snd (tracker_round D io (c # cs) t)
    = foldl (\<lambda>t c. handle_command D io c t) t (filter (\<lambda>c. \<not> is_coalescable c) cs)"
proof -
  let ?b = "foldl batch_add batch_new (c # cs)"
  have b: "cb_refresh_all ?b" "cb_others ?b = filter (\<lambda>c. \<not> is_coalescable c) cs"
    using batch_snoc [of "c # cs" p] others_of_batch [of "c # cs"] assms(4,5) by (auto simp: is_coalescable_def)
  have "batch_file_refreshing D io ([], t) pa = ([], t)" if "pa \<in> set (cb_files ?b)" for pa
  proof -
    obtain q a where pa: "pa = (q, a)" by (cases pa)
    have "last_word q (c # cs) = Some a"
      using batch_snoc [of "c # cs" q] that by (metis map_of_is_SomeI pa)
    then have w: "a \<noteq> Deleted" "HandleFileChange q \<in> set (c # cs)"
      using last_word_changed [of q "c # cs" a] assms(5,7) by auto
    from assms(6) [OF w(2)] obtain st where "file_of t q = Some st"
      by (cases "file_of t q") (auto simp: file_of_def get_all_tracked_paths_def map_of_eq_None_iff)
    then show ?thesis using w(1) by (cases a) (simp_all add: batch_file_refreshing_def pa)
  qed
  then have f: "foldl (batch_file_refreshing D io) ([], t) (cb_files ?b) = ([], t)"
    using foldl_fixed [of "cb_files ?b" "batch_file_refreshing D io" "([], t)"] by blast
  have r: "refresh_all_baselines_except D io [] t = t"
    using assms(1-3) by (simp add: refresh_all_baselines_except_def read_repo_sync_state_def discover_def)
  have "is_coalescable c" using assms(5) by (auto simp: is_coalescable_def)
  then show ?thesis by (simp add: tracker_round_def handle_coalesced_batch_def Let_def b f r del: foldl_Cons)
qed

lemma refresh_drops_file_changes_witness:
  "snd (tracker_round demo_diff (hunk_demo_io\<lparr>ti_sync := tr_sync demo_tracker\<rparr>) [HandleFileChange ''/w/f'', RefreshAllBaselines]
      (demo_tracker\<lparr>tr_repo := Discovered\<rparr>))
   = demo_tracker\<lparr>tr_repo := Discovered\<rparr>"
  using refresh_drops_file_changes [of "demo_tracker\<lparr>tr_repo := Discovered\<rparr>" "hunk_demo_io\<lparr>ti_sync := tr_sync demo_tracker\<rparr>"
      "[RefreshAllBaselines]" "HandleFileChange ''/w/f''" "''/w/f''" demo_diff]
  by (simp add: hunk_demo_io_def get_all_tracked_paths_def demo_files is_coalescable_def)

subsection \<open>Failures\<close>

text \<open>
  C40. A rejection whose write fails is booked all the same.  In every state of a session, rejecting a hunk
  of a file that cannot be written (nor removed) reports the error and leaves every file, the disk and
  the events as they were, so the hunk is still listed; but the statistics count it as rejected, and it
  no longer belongs to the turn that made it.
\<close>

theorem failed_reject_is_booked:
  assumes "tracker_reach D t" and "find_hunk t i = Some (p, h)"
    and "\<not> ti_write_ok io p" and "\<not> ti_remove_ok io p"
  shows "(snd (apply_hunk_action D io i Reject t) = Inl (WriteError p)
      \<or> snd (apply_hunk_action D io i Reject t) = Inl (DeleteError p))
    \<and> tr_files (fst (apply_hunk_action D io i Reject t)) = tr_files t
    \<and> tr_writes (fst (apply_hunk_action D io i Reject t)) = tr_writes t
    \<and> tr_events (fst (apply_hunk_action D io i Reject t)) = tr_events t
    \<and> h \<in> set (get_hunks_for_path p (fst (apply_hunk_action D io i Reject t)))
    \<and> ss_rejected (tr_stats (fst (apply_hunk_action D io i Reject t))) = sat_add (ss_rejected (tr_stats t)) 1
    \<and> (\<forall>k. prompt_index (hk_source h) = Some k \<longrightarrow> h \<notin> get_hunks_for_turn k (fst (apply_hunk_action D io i Reject t)))"
proof -
  have e: "tracker_exact D t" using assms(1) by (rule reach_exact)
  obtain st where st: "(p, st) \<in> set (tr_files t)" "h \<in> set (fs_hunks st)" "hk_id h = i"
    using assms(2) by (rule found_hunk)
  then have f: "file_of t p = Some st" "fs_hunks st \<noteq> []" using exact_member [OF e] by auto
  let ?t = "book_action Reject t h"
  have same: "tr_files ?t = tr_files t" "tr_writes ?t = tr_writes t" by simp_all
  have ev: "tr_events ?t = tr_events t"
    by (simp add: book_action_def turn_remove_hunk_def turn_remove_def update_session_stats_def Let_def split: option.split)
  have stats: "ss_rejected (tr_stats ?t) = sat_add (ss_rejected (tr_stats t)) 1"
    by (simp add: book_action_def turn_remove_hunk_def turn_remove_def update_session_stats_def Let_def split: option.split)
  have r: "fst (apply_hunk_action D io i Reject t) = ?t"
    "snd (apply_hunk_action D io i Reject t) = Inl (WriteError p) \<or> snd (apply_hunk_action D io i Reject t) = Inl (DeleteError p)"
    using exact_of [OF e f(1)] f(2) assms(2-4) f(1) file_of_files [OF same(1), of p]
    by (cases rule: exact_kinds, auto simp: apply_hunk_action_def apply_to_file_def reject_hunks_def Let_def)+
  have turn: "h \<notin> get_hunks_for_turn k ?t" if k: "prompt_index (hk_source h) = Some k" for k
  proof
    assume "h \<in> get_hunks_for_turn k ?t"
    then obtain ids j where j: "tr_turns ?t k = Some ids" "j \<in> ids" "get_hunk j ?t = Some h"
      by (auto simp: get_hunks_for_turn_def split: option.splits)
    then have "j = i" using st(3) by (auto simp: get_hunk_def dest!: find_member)
    moreover have "i \<notin> ids" using j(1) k st(3)
      by (auto simp: book_action_def turn_remove_hunk_def turn_remove_def update_session_stats_def Let_def split: option.splits)
    ultimately show False using j(2) by simp
  qed
  have "h \<in> set (get_hunks_for_path p ?t)"
    using st(2) f(1) file_of_files [OF same(1), of p] by (simp add: get_hunks_for_path_def)
  then show ?thesis using r same ev stats turn by simp
qed

lemma failed_reject_is_booked_witness:
  "snd (apply_hunk_action demo_diff (hunk_demo_io\<lparr>ti_write_ok := (\<lambda>_. False), ti_remove_ok := (\<lambda>_. False)\<rparr>) ''h0'' Reject demo_tracker)
     \<noteq> Inr ()
   \<and> ss_rejected (tr_stats (fst (apply_hunk_action demo_diff
        (hunk_demo_io\<lparr>ti_write_ok := (\<lambda>_. False), ti_remove_ok := (\<lambda>_. False)\<rparr>) ''h0'' Reject demo_tracker)))
     = sat_add (ss_rejected (tr_stats demo_tracker)) 1
   \<and> tr_files (fst (apply_hunk_action demo_diff
        (hunk_demo_io\<lparr>ti_write_ok := (\<lambda>_. False), ti_remove_ok := (\<lambda>_. False)\<rparr>) ''h0'' Reject demo_tracker))
     = [(''/w/f'', demo_file)]"
proof -
  have "find_hunk demo_tracker ''h0'' = Some (''/w/f'', hd (fs_hunks demo_file))"
    by (simp add: find_hunk_def demo_files demo_file_def demo_walk)
  from failed_reject_is_booked [OF demo_reach this, of "hunk_demo_io\<lparr>ti_write_ok := (\<lambda>_. False), ti_remove_ok := (\<lambda>_. False)\<rparr>"]
  show ?thesis by (auto simp: demo_files)
qed

text \<open>
  A move of the working directory under which two tracked files become one lists the hunks of both
  for the content of one of them: the hunks of the other describe a text that is no longer there.
\<close>

theorem colliding_move_mixes_hunks:
  assumes "tr_dir t = ''/w''" and "tr_files t = [(''/w/c/f'', dest), (''/w/f'', st)]"
  shows "file_of (set_working_dir ''/w/c'' t) ''/w/c/f''
    = Some (dest\<lparr>fs_hunks := map (\<lambda>h. h\<lparr>hk_path := ''/w/c/f''\<rparr>) (fs_hunks dest @ fs_hunks st),
                 fs_agent := fs_agent dest \<or> fs_agent st, fs_accepted := fs_accepted dest \<or> fs_accepted st\<rparr>)"
proof -
  have p: "path_strip_prefix ''/w/c/f'' ''/w/c'' = Some ''f''" "path_strip_prefix ''/w/f'' ''/w/c'' = None"
    "path_strip_prefix ''/w/f'' ''/w'' = Some ''f''" "path_join ''/w/c'' ''f'' = ''/w/c/f''"
    by code_simp+
  have "rekey_path ''/w'' ''/w/c'' ''/w/c/f'' = ''/w/c/f''" "rekey_path ''/w'' ''/w/c'' ''/w/f'' = ''/w/c/f''"
    by (simp_all add: rekey_path_def under_dir_def p rewrite_single_path_def)
  then show ?thesis
    by (simp add: set_working_dir_def rekey_paths_for_working_dir_def assms under_dir_def p file_of_def with_path_def
        merge_rekeyed_def Let_def)
qed

text \<open>
  A write that cannot be diffed empties the hunks of a tracked file and says nothing: no event is sent
  and the identifiers stay in the index of turns.
\<close>

theorem clearing_goes_unreported:
  assumes "file_of t p = Some st" and "\<not> is_diffable (classify_string content)"
  shows "get_hunks_for_path p (record_agent_write D io p content k previous t) = []
    \<and> tr_events (record_agent_write D io p content k previous t) = tr_events t
    \<and> tr_turns (record_agent_write D io p content k previous t) = tr_turns t"
  using assms by (simp add: record_agent_write_def get_hunks_for_path_def file_of_put) (simp add: put_file_def)

subsection \<open>The summary of a session\<close>

lemma turn_concat: "concat (map (\<lambda>(p, st). turn_hunks k st) files)
   = filter (\<lambda>h. prompt_index (hk_source h) = Some k) (concat (map (\<lambda>(p, st). fs_hunks st) files))"
  by (induction files) (auto simp: turn_hunks_def)

lemma sum_one:
  fixes g :: "nat \<Rightarrow> nat"
  shows "j \<notin> set ks \<Longrightarrow> sum_list (map (\<lambda>k. if j = k then a + g k else g k) ks) = sum_list (map g ks)"
    and "distinct ks \<Longrightarrow> j \<in> set ks \<Longrightarrow> sum_list (map (\<lambda>k. if j = k then a + g k else g k) ks) = a + sum_list (map g ks)"
proof -
  show out: "sum_list (map (\<lambda>k. if j = k then a + g k else g k) ks) = sum_list (map g ks)" if "j \<notin> set ks" for ks
    using that by (induction ks) auto
  show "distinct ks \<Longrightarrow> j \<in> set ks \<Longrightarrow> sum_list (map (\<lambda>k. if j = k then a + g k else g k) ks) = a + sum_list (map g ks)"
    by (induction ks) (auto simp: out)
qed

lemma sum_by_turn:
  assumes "distinct ks" and "\<forall>h \<in> set hs. \<forall>k. prompt_index (hk_source h) = Some k \<longrightarrow> k \<in> set ks"
  shows "sum_list (map (\<lambda>k. sum_list (map f (filter (\<lambda>h. prompt_index (hk_source h) = Some k) hs))) ks)
    = sum_list (map f (filter (\<lambda>h. prompt_index (hk_source h) \<noteq> None) hs) :: nat list)"
  using assms(2)
proof (induction hs)
  case (Cons h hs)
  show ?case
  proof (cases "prompt_index (hk_source h)")
    case (Some j)
    have "j \<in> set ks" using Cons.prems Some by simp
    then have "sum_list (map (\<lambda>k. if j = k then f h + g k else g k) ks) = f h + sum_list (map g ks)" for g :: "nat \<Rightarrow> nat"
      using assms(1) by (rule sum_one(2) [rotated])
    from this [of "\<lambda>k. sum_list (map f (filter (\<lambda>h. prompt_index (hk_source h) = Some k) hs))"]
    show ?thesis using Cons Some by (simp add: if_distrib [of "\<lambda>xs. sum_list (map f xs)"] cong: if_cong)
  qed (use Cons in simp)
qed simp

text \<open>
  The summary of a session accounts for every hunk once: those of a turn under their turn, the others
  as unattributed, and the lines of the turns are the lines of the attributed hunks.  The turns are in
  their order, one entry each, and none is empty.
\<close>

theorem summary_counts_each_hunk:
  "sm_pending (compute_session_summary t) + sm_unattributed (compute_session_summary t) = length (get_all_hunks t)
   \<and> sm_added (compute_session_summary t)
       = sum_list (map (\<lambda>h. li_new_count (hk_line h)) (filter (\<lambda>h. prompt_index (hk_source h) \<noteq> None) (get_all_hunks t)))
   \<and> sm_removed (compute_session_summary t)
       = sum_list (map (\<lambda>h. li_old_count (hk_line h)) (filter (\<lambda>h. prompt_index (hk_source h) \<noteq> None) (get_all_hunks t)))
   \<and> sorted_wrt (<) (map ts_prompt (sm_turns (compute_session_summary t)))
   \<and> [] \<notin> set (map ts_pending (sm_turns (compute_session_summary t)))"
proof -
  let ?hs = "get_all_hunks t"
  let ?ks = "sort (remdups (List.map_filter (\<lambda>h. prompt_index (hk_source h)) ?hs))"
  have ks: "distinct ?ks" "\<forall>h \<in> set ?hs. \<forall>k. prompt_index (hk_source h) = Some k \<longrightarrow> k \<in> set ?ks"
    by (force simp: List.map_filter_def)+
  have pend: "ts_pending (turn_summary_of t k) = filter (\<lambda>h. prompt_index (hk_source h) = Some k) ?hs" for k
    by (simp add: turn_summary_of_def Let_def turn_concat get_all_hunks_def)
  have lines: "ts_added (turn_summary_of t k) = sum_list (map (\<lambda>h. li_new_count (hk_line h)) (ts_pending (turn_summary_of t k)))"
    "ts_removed (turn_summary_of t k) = sum_list (map (\<lambda>h. li_old_count (hk_line h)) (ts_pending (turn_summary_of t k)))"
    "ts_prompt (turn_summary_of t k) = k" for k
    by (simp_all add: turn_summary_of_def Let_def)
  have len: "length xs = sum_list (map (\<lambda>_. 1) xs)" for xs :: "hunk list" by (induction xs) simp_all
  have "length (filter (\<lambda>h. prompt_index (hk_source h) \<noteq> None) ?hs) + length (filter (\<lambda>h. prompt_index (hk_source h) = None) ?hs)
      = length ?hs"
    using sum_length_filter_compl [of "\<lambda>h. prompt_index (hk_source h) \<noteq> None" ?hs] by simp
  moreover have "sm_pending (compute_session_summary t) = length (filter (\<lambda>h. prompt_index (hk_source h) \<noteq> None) ?hs)"
    using sum_by_turn [OF ks, of "\<lambda>_. 1"] by (simp add: compute_session_summary_def Let_def comp_def pend len)
  ultimately have a: "sm_pending (compute_session_summary t) + sm_unattributed (compute_session_summary t) = length ?hs"
    by (simp add: compute_session_summary_def Let_def)
  have c: "sorted_wrt (<) (map ts_prompt (sm_turns (compute_session_summary t)))"
    using ks(1) by (simp add: compute_session_summary_def Let_def comp_def lines strict_sorted_iff)
  have d: "[] \<notin> set (map ts_pending (sm_turns (compute_session_summary t)))"
    by (auto simp: compute_session_summary_def Let_def pend filter_empty_conv List.map_filter_def dest!: sym [of "[]"])
  show ?thesis using a c d sum_by_turn [OF ks, of "\<lambda>h. li_new_count (hk_line h)"]
      sum_by_turn [OF ks, of "\<lambda>h. li_old_count (hk_line h)"]
    by (simp add: compute_session_summary_def Let_def comp_def pend lines)
qed

end
