(* ===== verification/HunkLoc.thy ===== *)
theory HunkLoc
  imports HunkTracker
begin

section \<open>Counting lines\<close>

text \<open>
  \<open>codegen/xai-hunk-tracker/src/loc\<close>: the sink that turns the events of the tracker into records of
  added and removed lines with their author.  The counts (\<open>i64\<close>) are integers: a hunk has at most as
  many lines as a text of 1 MB.  Times and the text of a record are left out; whether a record could
  be written is an argument.
\<close>

subsection \<open>Records\<close>

datatype author_type = Agent | Human

datatype source_type = AgentEditSource | ExternalOnAgentSource | ExternalSource

datatype record_event = RecordAdded | RecordUpdated | RecordRemoved

record hunk_record =
  hr_id :: string
  hr_path :: string
  hr_start :: nat
  hr_end :: nat
  hr_added :: int
  hr_removed :: int
  hr_author :: "author_type option"
  hr_author_id :: "string option"
  hr_agent_id :: string
  hr_session :: string
  hr_prompt :: "nat option"
  hr_source :: "source_type option"
  hr_event :: record_event
  hr_reason :: "removal_reason option"

record loc_context =
  lc_session :: string
  lc_agent :: string
  lc_user :: "string option"
  lc_aggregates :: bool

definition from_hunk :: "loc_context \<Rightarrow> hunk \<Rightarrow> record_event \<Rightarrow> hunk_source \<Rightarrow> hunk_record" where
  "from_hunk ctx h event source =
     (let (author, author_id, prompt, kind) =
            (case source of
               AgentEdit k \<Rightarrow> (Agent, Some (lc_agent ctx), Some k, AgentEditSource)
             | ExternalEditOnAgentFile \<Rightarrow> (Human, lc_user ctx, None, ExternalOnAgentSource)
             | External \<Rightarrow> (Human, lc_user ctx, None, ExternalSource));
          li = hk_line h;
          (start, count) = (if li_new_count li = 0 then (li_old_start li, li_old_count li)
                            else (li_new_start li, li_new_count li))
      in \<lparr>hr_id = hk_id h, hr_path = hk_path h, hr_start = start,
          hr_end = (if count = 0 then start else start + count - 1),
          hr_added = int (li_new_count li), hr_removed = int (li_old_count li), hr_author = Some author,
          hr_author_id = author_id, hr_agent_id = lc_agent ctx, hr_session = lc_session ctx, hr_prompt = prompt,
          hr_source = Some kind, hr_event = event, hr_reason = None\<rparr>)"

subsection \<open>The sink\<close>

datatype loc_aggregate =
    LinesChanged author_type int int string
  | LinesReverted int int

record loc_sink =
  lk_acc :: "string \<Rightarrow> (int \<times> int) option"
  lk_records :: "hunk_record list"
  lk_aggregates :: "loc_aggregate list"

definition sink_start :: loc_sink where
  "sink_start = \<lparr>lk_acc = (\<lambda>_. None), lk_records = [], lk_aggregates = []\<rparr>"

definition acc_of :: "string \<Rightarrow> loc_sink \<Rightarrow> int \<times> int" where
  "acc_of i s = (case lk_acc s i of Some v \<Rightarrow> v | None \<Rightarrow> (0, 0))"

definition write_record :: "bool \<Rightarrow> hunk_record \<Rightarrow> loc_sink \<Rightarrow> loc_sink" where
  "write_record ok r s = (if ok then s\<lparr>lk_records := lk_records s @ [r]\<rparr> else s)"

definition send_aggregate :: "loc_context \<Rightarrow> loc_aggregate \<Rightarrow> loc_sink \<Rightarrow> loc_sink" where
  "send_aggregate ctx a s = (if lc_aggregates ctx then s\<lparr>lk_aggregates := lk_aggregates s @ [a]\<rparr> else s)"

text \<open>A record is counted for its hunk, reported as changed lines and written.\<close>

definition book_record :: "loc_context \<Rightarrow> bool \<Rightarrow> author_type \<Rightarrow> hunk_record \<Rightarrow> loc_sink \<Rightarrow> loc_sink" where
  "book_record ctx ok fallback r s =
     (let (a, d) = acc_of (hr_id r) s;
          s1 = s\<lparr>lk_acc := (lk_acc s)(hr_id r := Some (a + hr_added r, d + hr_removed r))\<rparr>
      in write_record ok r
           (send_aggregate ctx
             (LinesChanged (case hr_author r of Some w \<Rightarrow> w | None \<Rightarrow> fallback) (hr_added r) (hr_removed r) (hr_path r)) s1))"

definition removed_record ::
    "loc_context \<Rightarrow> string \<Rightarrow> string \<Rightarrow> removal_reason \<Rightarrow> int \<times> int \<Rightarrow> hunk_record" where
  "removed_record ctx path i reason v =
     \<lparr>hr_id = i, hr_path = path, hr_start = 0, hr_end = 0, hr_added = - fst v, hr_removed = - snd v,
      hr_author = None, hr_author_id = None, hr_agent_id = lc_agent ctx, hr_session = lc_session ctx, hr_prompt = None,
      hr_source = None, hr_event = RecordRemoved, hr_reason = Some reason\<rparr>"

definition handle_loc_event :: "loc_context \<Rightarrow> loc_sink \<Rightarrow> hunk_event \<times> bool \<Rightarrow> loc_sink" where
  "handle_loc_event ctx s eo =
     (case eo of (e, ok) \<Rightarrow>
        (case e of
           HunkAdded _ h \<Rightarrow> book_record ctx ok Agent (from_hunk ctx h RecordAdded (hk_source h)) s
         | HunkContentChanged _ h trigger prev_added prev_removed \<Rightarrow>
             book_record ctx ok Human
               ((from_hunk ctx h RecordUpdated trigger)
                  \<lparr>hr_added := int (li_new_count (hk_line h)) - int prev_added,
                   hr_removed := int (li_old_count (hk_line h)) - int prev_removed\<rparr>) s
         | HunkRemoved path i reason \<Rightarrow>
             (let s1 = s\<lparr>lk_acc := (lk_acc s)(i := None)\<rparr> in
              if reason = Accepted then s1
              else
                (case lk_acc s i of
                   None \<Rightarrow> s1
                 | Some v \<Rightarrow>
                     if v = (0, 0) then s1
                     else write_record ok (removed_record ctx path i reason v)
                            (send_aggregate ctx (LinesReverted (max 0 (fst v)) (max 0 (snd v))) s1)))
         | _ \<Rightarrow> s))"

text \<open>The sink handles every event, those still queued at its cancellation included.\<close>

definition run_loc_sink :: "loc_context \<Rightarrow> (hunk_event \<times> bool) list \<Rightarrow> loc_sink" where
  "run_loc_sink ctx events = foldl (handle_loc_event ctx) sink_start events"

subsection \<open>Sums of records\<close>

definition lines_recorded :: "string \<Rightarrow> loc_sink \<Rightarrow> int \<times> int" where
  "lines_recorded i s =
     (sum_list (map hr_added (filter (\<lambda>r. hr_id r = i) (lk_records s))),
      sum_list (map hr_removed (filter (\<lambda>r. hr_id r = i) (lk_records s))))"

lemma recorded_write: "lines_recorded i (write_record True r s) =
   (fst (lines_recorded i s) + (if hr_id r = i then hr_added r else 0),
    snd (lines_recorded i s) + (if hr_id r = i then hr_removed r else 0))"
  by (simp add: lines_recorded_def write_record_def)

lemma recorded_still [simp]:
  "lines_recorded i (send_aggregate ctx a s) = lines_recorded i s" "lines_recorded i (s\<lparr>lk_acc := m\<rparr>) = lines_recorded i s"
  "lk_acc (send_aggregate ctx a s) = lk_acc s" "lk_acc (write_record ok r s) = lk_acc s"
  by (simp_all add: send_aggregate_def lines_recorded_def write_record_def)

lemma booked_sum:
  assumes "lines_recorded i s = acc_of i s"
  shows "lines_recorded i (book_record ctx True fallback r s) = acc_of i (book_record ctx True fallback r s)"
  using assms by (cases "acc_of (hr_id r) s") (auto simp: book_record_def recorded_write acc_of_def)

lemma event_sum:
  assumes "lines_recorded i s = acc_of i s" and "\<And>p. e \<noteq> HunkRemoved p i Accepted"
  shows "lines_recorded i (handle_loc_event ctx s (e, True)) = acc_of i (handle_loc_event ctx s (e, True))"
proof (cases e)
  case (HunkRemoved p j reason)
  then show ?thesis using assms
    by (cases "j = i") (auto simp: handle_loc_event_def Let_def recorded_write removed_record_def acc_of_def split: option.split)
qed (use assms(1) in \<open>simp_all add: handle_loc_event_def booked_sum\<close>)

lemma run_sum:
  "lines_recorded i s = acc_of i s \<Longrightarrow> \<forall>p. HunkRemoved p i Accepted \<notin> fst ` set events \<Longrightarrow> \<forall>eo \<in> set events. snd eo \<Longrightarrow>
   lines_recorded i (foldl (handle_loc_event ctx) s events) = acc_of i (foldl (handle_loc_event ctx) s events)"
proof (induction events arbitrary: s)
  case (Cons eo events)
  obtain e where eo: "eo = (e, True)" using Cons.prems(3) by (cases eo) auto
  have "lines_recorded i (handle_loc_event ctx s (e, True)) = acc_of i (handle_loc_event ctx s (e, True))"
    using Cons.prems(2) by (intro event_sum Cons.prems(1)) (auto simp: eo)
  then show ?case using Cons.IH [of "handle_loc_event ctx s eo"] Cons.prems(2,3) by (simp add: eo)
qed simp

text \<open>
  C31. The records of a hunk add up.  As long as the records can be written and the hunk is not accepted,
  the lines of its records sum up to what the sink holds for it, whatever the events; once it is
  rejected or superseded they sum up to nothing.
\<close>

theorem records_add_up:
  assumes "\<forall>p. HunkRemoved p i Accepted \<notin> fst ` set events" and "\<forall>eo \<in> set events. snd eo" and "reason \<noteq> Accepted"
  shows "lines_recorded i (run_loc_sink ctx events) = acc_of i (run_loc_sink ctx events)
    \<and> lines_recorded i (run_loc_sink ctx (events @ [(HunkRemoved path i reason, True)])) = (0, 0)"
proof -
  have start: "lines_recorded i sink_start = acc_of i sink_start"
    by (simp add: lines_recorded_def acc_of_def sink_start_def)
  have "lines_recorded i (run_loc_sink ctx es) = acc_of i (run_loc_sink ctx es)"
    if es: "es = events \<or> es = events @ [(HunkRemoved path i reason, True)]" for es
  proof -
    have "fst ` set es \<subseteq> insert (HunkRemoved path i reason) (fst ` set events)" using es by auto
    then have "\<forall>p. HunkRemoved p i Accepted \<notin> fst ` set es" using assms(1,3) by blast
    moreover have "\<forall>eo \<in> set es. snd eo" using es assms(2) by auto
    ultimately show ?thesis unfolding run_loc_sink_def by (intro run_sum start)
  qed
  moreover have "acc_of i (run_loc_sink ctx (events @ [(HunkRemoved path i reason, True)])) = (0, 0)"
    using assms(3) by (auto simp: run_loc_sink_def handle_loc_event_def Let_def acc_of_def split: option.split)
  ultimately show ?thesis by simp
qed

definition demo_hunk :: "string \<Rightarrow> nat \<Rightarrow> nat \<Rightarrow> nat \<Rightarrow> string \<Rightarrow> hunk" where
  "demo_hunk i start old new txt =
     \<lparr>hk_id = i, hk_path = ''f'', hk_line = \<lparr>li_old_start = start, li_old_count = old, li_new_start = start, li_new_count = new\<rparr>,
      hk_source = AgentEdit 0, hk_old_text = None, hk_new_text = txt, hk_patch = None\<rparr>"

lemma records_add_up_witness:
  "lines_recorded ''h'' (run_loc_sink \<lparr>lc_session = ''s'', lc_agent = ''a'', lc_user = None, lc_aggregates = True\<rparr>
      ([(HunkAdded ''f'' (demo_hunk ''h'' 2 1 3 ''x''), True),
        (HunkContentChanged ''f'' (demo_hunk ''h'' 2 1 2 ''y'') External 3 1, True)]
       @ [(HunkRemoved ''f'' ''h'' Rejected, True)])) = (0, 0)"
  by (rule records_add_up [THEN conjunct2]) auto

text \<open>
  A hunk that splits is counted wrongly.  An edit that restores the middle of three changed lines
  leaves two hunks of one line each.  Both are reported as changes of the old hunk, so that its three
  lines are taken off twice: the records of the file sum up to minus one line for two changed lines.
\<close>

theorem split_hunk_is_taken_off_twice:
  "(let old = demo_hunk ''h0'' 2 3 3 ''xyz''; new1 = demo_hunk ''h0'' 2 1 1 ''x''; new2 = demo_hunk ''h1'' 4 1 1 ''z'';
        events = HunkAdded ''f'' old # hunk_diff_events ''f'' [old] (claim_hunks [old] [new1\<lparr>hk_id := ''h2''\<rparr>, new2]) (AgentEdit 1);
        s = run_loc_sink \<lparr>lc_session = [], lc_agent = [], lc_user = None, lc_aggregates = False\<rparr> (map (\<lambda>e. (e, True)) events)
    in claim_hunks [old] [new1\<lparr>hk_id := ''h2''\<rparr>, new2] = [new1, new2]
       \<and> fst (lines_recorded ''h0'' s) + fst (lines_recorded ''h1'' s) = - 1)"
  by code_simp

end
