(* ===== verification/Spec2Isabelle.thy ===== *)
theory Spec2Isabelle
  imports PermissionResolution CircuitBreaker RetryPolicies MessageDelivery EventQueue TokenEstimation PromptCombine RequestLoop ExecRisk SessionRuns ManagerHandle HunkModes HunkLoc
begin

text \<open>
  Verification development for the Grok Build agent, a Rust workspace under \<open>src/crates\<close>: a coding
  agent that samples a model, runs the tools it asks for, and asks the user for permission.  The
  theories model the parts in which the program's own decisions are made, the permission subsystem, the
  tracker of the agent's changes and the sampling loop, with the small libraries they stand on.

  \<^bold>\<open>Permissions\<close> (\<open>codegen/xai-grok-workspace/src/permission\<close>).  A tool call becomes an
  \<open>access_kind\<close>.  The managed policy (rules gathered from requirement files, managed settings, user
  and project settings) is evaluated first, for a Bash command also through two gates that look at its
  commands and at the files it touches.  Then come the grants the user gave, the auto mode's
  classifier, the sandbox, the rest of the policy, and last a prompt whose answer may be remembered in
  a store on disk that all sessions of a repository share.

  \<^item> \<open>Prelude\<close>: UTF-8 strings as byte lists, saturating words, JSON values, the operations of
    \<open>str\<close> the code uses.  \<open>Paths\<close>: \<open>std::path\<close> on Unix and \<open>normalize_lexically\<close>.
  \<^item> \<open>ShellWords\<close>: \<open>bash_command_splitting.rs\<close>, the plain commands of a script and the peeling of
    wrappers.  \<open>peels\<close> is one layer as a relation; the code computes its normal form within eight
    rounds of each kind or reports that it ran out.
  \<^item> \<open>PermissionRules\<close>: \<open>types.rs\<close>, \<open>rules.rs\<close>.  \<open>PermissionPolicy\<close>, \<open>PolicyProofs\<close>: \<open>policy.rs\<close>, the
    evaluation of compiled rules, symbolic links (at most 41 link steps, the kernel's bound plus one)
    and the Bash gate (scripts handed to a shell are followed to depth 8).  The lemmas show the
    order deny, ask, allow, that a chain is allowed only if each command is, that a link only
    escalates, and that the gate is exact.
  \<^item> \<open>PermissionResolution\<close>: \<open>resolution.rs\<close>, \<open>claude_settings.rs\<close>, the merging of sources with their
    provenance and what the administrator's pin drops.
  \<^item> \<open>ShellAccess\<close>: \<open>shell_access.rs\<close>, the files a script reads and writes, as an explicit walk of the
    syntax tree; \<open>touches\<close> specifies which paths count, and the file gate is proved to refine it.
  \<^item> \<open>ExecRisk\<close>: \<open>exec_risk.rs\<close>, command lines and repository configurations that make \<open>git\<close> or
    \<open>sort\<close> run another program.
  \<^item> \<open>AutoMode\<close>, \<open>AutoClassifier\<close>: \<open>auto_mode/\<close>, static findings, the rule-based classifier (environment
    wrappers are followed for 8 rounds), the framing of the request to the model and the reading of
    its answer.
  \<^item> \<open>BashGrants\<close>: \<open>state.rs\<close> (the state), \<open>evaluate_bash\<close> and the grant decisions of
    \<open>manager/mod.rs\<close>, \<open>manager/bash_grants.rs\<close>.  \<open>may_run\<close> and \<open>denied_command\<close> specify one command; the
    verdict on a script is proved to be their conjunction.
  \<^item> \<open>WebDomains\<close>: \<open>web_fetch/domain.rs\<close>, proved equal to asking each entry on its own.  \<open>ToolIds\<close>:
    \<open>xai-tool-protocol/src/ids.rs\<close> and the splitting of MCP names.  \<open>GatePreflight\<close>: \<open>gate_preflight.rs\<close>.
  \<^item> \<open>PermissionManager\<close>: the actor of \<open>manager/mod.rs\<close>.  \<open>manager\<close> is its variables, \<open>manager_env\<close> what
    is fixed at its spawn, \<open>request_io\<close> what the outside answered while one request was handled
    (the store, the blocking pool, the classifier, the prompt, the requester's channel),
    \<open>handle_request\<close> the handler from its dequeue to the resolution, with the event it emits and the
    writes it makes.  \<open>ManagerProofs\<close>: what one request guarantees.  \<open>ManagerRuns\<close>: \<open>manager_run\<close>, the
    command loop, its invariant and the limits of 3 denials in a row and 20 in all.
  \<^item> \<open>ManagerHandle\<close>: \<open>PermissionHandle\<close>, the calls of other tasks as lists of atomic operations on the
    shared flags, the in-flight counter and the command channel, interleaved with the actor
    (\<open>act\<close> is one action of a \<open>system\<close>, \<open>system_run\<close> any interleaving).  The lemmas show that the actor
    still runs serially, that the flags follow it, and where the answer to a request comes from.
  \<^item> \<open>PermissionStore\<close>: the store of \<open>state.rs\<close> on an explicit disk with a clock and faults; the names of
    session directories (\<open>xai-grok-config/src/paths.rs\<close>).  \<open>SessionRuns\<close>: any number of managers over one
    store; \<open>in_sync\<close> is the invariant that a session which would not reload knows what the store says.

  \<^bold>\<open>Changes\<close> (\<open>codegen/xai-hunk-tracker/src\<close>).  What the agent and others change in files is kept as
  hunks against a baseline, which the user accepts or rejects.

  \<^item> \<open>HunkDiff\<close>: \<open>types.rs\<close>, \<open>diff.rs\<close>, the classification of contents.  \<open>HunkPatch\<close>: patching against the
    lines of a diff; \<open>mixed\<close> is the text in which some blocks are taken back, and any selection of hunks
    is proved to lead there from either side.  The law of the line diff they rest on is \<open>splits_lines\<close>:
    its deleted and equal lines are the old text, its inserted and equal lines the new one.
  \<^item> \<open>HunkTracker\<close>: \<open>actor/\<close>, one \<open>tracker_io\<close> (disk and Git) per command or batch.  \<open>HunkRuns\<close>:
    \<open>tracker_reach\<close>, the states of a session, in which the hunks listed are those of the diff, and what
    accepting and rejecting everything leaves.  \<open>HunkModes\<close>: the tracking modes, the batching of
    commands, the summary, and what failures and refreshes lose.
  \<^item> \<open>HunkLoc\<close>: \<open>loc/mod.rs\<close>, the records of added and removed lines and their sums.

  \<^bold>\<open>Sampling\<close> (\<open>codegen/xai-grok-sampler\<close>, \<open>xai-grok-sampling-types\<close>, \<open>common/xai-circuit-breaker\<close>).

  \<^item> \<open>SamplingErrors\<close>: \<open>error.rs\<close> and the size-overflow texts of the compaction crate.  \<open>SamplerRetry\<close>:
    \<open>retry.rs\<close>, the decision on an error and its back-off.  \<open>DoomLoop\<close>: loop signals and their collector.
  \<^item> \<open>RequestLoop\<close>: \<open>request_task.rs\<close>, one request from its first attempt to its only answer.  The
    loop runs on fuel; \<open>request_returns\<close> shows that the retry budget plus the resample budget plus one
    is enough, so that the fuel never decides.
  \<^item> \<open>CircuitBreaker\<close>, \<open>Float64\<close>, \<open>RetryPolicies\<close>: the breaker as a step function on its lock, its flag
    and its probes, with the exact comparison of a ratio to a double; the status-code policies.

  \<^bold>\<open>Messages\<close>.  \<open>MessageDelivery\<close> (\<open>common/xai-message-delivery-core\<close>): envelopes and the delivery life
  cycle.  \<open>EventQueue\<close> (\<open>xai-interjection-core\<close>), \<open>PromptCombine\<close> (\<open>xai-prompt-queue\<close>), \<open>TokenEstimation\<close>
  (\<open>xai-token-estimation\<close>): the queues and the arithmetic the session loop uses.

  \<^bold>\<open>Conventions.\<close>  Code that is not in the repository (tree-sitter, globset, git2, TOML, JSON
  parsing, the line diff of \<open>similar\<close>, \<open>gix\<close>, percent encoding, URL parsing, the system calls, Unicode lower-casing) is a parameter of the
  definitions, collected in the records \<open>host\<close>, \<open>git_host\<close>, \<open>store_env\<close> and \<open>manager_env\<close>; theorems that
  rely on it state what they rely on.  A panic of the source is the value \<open>Panicked\<close> of \<open>run\<close>.  A lock
  held over an operation makes it one step; where the source lets other code run in between, that is a
  step of its own or an argument.  A \<open>HashSet\<close> is a list in the order of its iteration, the
  \<open>HashMap\<close> of the tracked files an association list.

  \<^bold>\<open>Not modelled.\<close>  The terminal interface, the session and ACP server, the tools themselves, MCP
  transport, the HTTP client and the transforms of its stream, authentication, memory, telemetry and
  configuration files are input and output around the parts above; the Windows branches of the path
  functions are left out.  In \<open>ManagerHandle\<close> the actor handles a request in one step, since it touches
  no flag while it does; in \<open>SessionRuns\<close> a command is atomic on the disk, and
  \<open>PermissionStore\<close> says what a write in between loses.  The disk does not change while the tracker
  handles one command; the reading of Git objects and the text of a whole unified patch are left out.
\<close>

end
